(* ===== verification/Nexos_Prelude.thy ===== *)
theory Nexos_Prelude
  imports Main "HOL-Library.Word"
begin

text \<open>
  Types, collections and generic facts shared by the component theories: the C integer
  types as words, the loops "first index with a property" and "first list element with a
  property" that the kernel's table scans use, and facts on list update and on word
  masks.
\<close>

unbundle bit_operations_syntax

section \<open>C integer types\<close>

type_synonym u8 = "8 word"
type_synonym u16 = "16 word"
type_synonym u32 = "32 word"
type_synonym u64 = "64 word"

section \<open>Theorem collections\<close>

named_theorems kdefs \<open>definitions of the kernel operations, for unfolding\<close>
named_theorems kframe \<open>what an operation leaves unchanged\<close>
named_theorems kinv \<open>operations keep the component invariant\<close>

section \<open>Table scans\<close>

text \<open>
  \<open>first_index P lo n\<close> is the loop \<^verbatim>\<open>for (i = lo; i < lo + n; i++) if (P(i)) return i;\<close>:
  the least index of \<open>{lo..<lo + n}\<close> with \<open>P\<close>, \<open>None\<close> when the loop ends.
\<close>

primrec first_index :: "(nat \<Rightarrow> bool) \<Rightarrow> nat \<Rightarrow> nat \<Rightarrow> nat option" where
  "first_index P lo 0 = None"
| "first_index P lo (Suc n) = (if P lo then Some lo else first_index P (Suc lo) n)"

lemma le_iff_eq_or_Suc_le: "(lo::nat) \<le> j \<longleftrightarrow> j = lo \<or> Suc lo \<le> j"
  by auto

lemma first_index_Some_iff:
  "first_index P lo n = Some i \<longleftrightarrow> lo \<le> i \<and> i < lo + n \<and> P i \<and> (\<forall>j. lo \<le> j \<and> j < i \<longrightarrow> \<not> P j)"
proof (induction n arbitrary: lo)
  case 0
  then show ?case by auto
next
  case (Suc n)
  show ?case
  proof (cases "P lo")
    case True
    then show ?thesis
      by (auto dest: le_neq_implies_less)
  next
    case False
    then have "i \<noteq> lo" if "P i" using that by auto
    with False Suc.IH [of "Suc lo"] show ?thesis
      by (auto simp: le_iff_eq_or_Suc_le [of lo])
  qed
qed

lemma first_index_None_iff:
  "first_index P lo n = None \<longleftrightarrow> (\<forall>i. lo \<le> i \<and> i < lo + n \<longrightarrow> \<not> P i)"
proof (induction n arbitrary: lo)
  case 0
  then show ?case by auto
next
  case (Suc n)
  show ?case
    using Suc.IH [of "Suc lo"] by (auto simp: le_iff_eq_or_Suc_le [of lo])
qed

lemma first_index_SomeD:
  assumes "first_index P lo n = Some i"
  shows "lo \<le> i" "i < lo + n" "P i"
  using assms by (simp_all add: first_index_Some_iff)

lemma first_index_cong [fundef_cong]:
  assumes "lo = lo'" "n = n'" "\<And>i. lo' \<le> i \<Longrightarrow> i < lo' + n' \<Longrightarrow> P i = Q i"
  shows "first_index P lo n = first_index Q lo' n'"
  using assms(3) unfolding assms(1,2)
proof (induction n' arbitrary: lo')
  case 0
  then show ?case by simp
next
  case (Suc n')
  from Suc.prems [of lo'] have "P lo' = Q lo'" by simp
  moreover have "first_index P (Suc lo') n' = first_index Q (Suc lo') n'"
    by (rule Suc.IH) (rule Suc.prems; simp)
  ultimately show ?case by simp
qed

section \<open>Words\<close>

lemma and_mask_eq_take_bit: "(w :: 'a::len word) AND mask n = take_bit n w"
  by (simp add: take_bit_eq_mask)

end
