(* ===== verification/Pmm.thy ===== *)
theory Pmm
  imports Nexos_Prelude
begin

text \<open>
  The physical page allocator, \<^verbatim>\<open>kernel/mem/pmm.c\<close>: the stack of free pages, the
  open-addressing page index (linear probing over a power-of-two table, no deletion) that
  holds each tracked page's state and reference count, and every operation of
  \<^verbatim>\<open>kernel/public/mem/pmm.h\<close>.

  The static arrays \<^verbatim>\<open>page_index_phys\<close>, \<^verbatim>\<open>page_index_ref_count\<close> and
  \<^verbatim>\<open>page_index_state\<close> are functions of the index; \<^verbatim>\<open>free_page_stack[0..free_page_count)\<close>
  is the list \<open>free_page_stack\<close>, its top at the end, so \<^verbatim>\<open>free_page_count\<close> is its length.
  Addresses, reference counts and the statistics counters keep their C width.
\<close>

section \<open>Constants and state\<close>

definition PMM_PAGE_SIZE :: u64 where
  "PMM_PAGE_SIZE = 4096"

definition PMM_MAX_TRACKED_PAGES :: nat where
  "PMM_MAX_TRACKED_PAGES = 131072"

definition PMM_PAGE_INDEX_SIZE :: u32 where
  "PMM_PAGE_INDEX_SIZE = 262144"

definition PMM_DIRECT_MAP_LIMIT :: u64 where
  "PMM_DIRECT_MAP_LIMIT = 0x100000000"

datatype pmm_page_state = PMM_PAGE_UNUSED | PMM_PAGE_FREE | PMM_PAGE_ALLOCATED | PMM_PAGE_RESERVED

record pmm =
  free_page_stack :: "u64 list"
  page_index_phys :: "u32 \<Rightarrow> u64"
  page_index_ref_count :: "u32 \<Rightarrow> u32"
  page_index_state :: "u32 \<Rightarrow> pmm_page_state"
  tracked_page_count :: u32
  dropped_page_count :: u32

record janus_memmap_entry =
  mm_base :: u64
  mm_length :: u64
  mm_type :: u32

definition JANUS_MEMMAP_USABLE :: u32 where
  "JANUS_MEMMAP_USABLE = 1"

definition free_page_count :: "pmm \<Rightarrow> nat" where
  "free_page_count s = length (free_page_stack s)"

section \<open>Address arithmetic and the page index\<close>

definition align_up :: "u64 \<Rightarrow> u64 \<Rightarrow> u64" where
  "align_up value align = (value + align - 1) AND NOT (align - 1)"

definition align_down :: "u64 \<Rightarrow> u64 \<Rightarrow> u64" where
  "align_down value align = value AND NOT (align - 1)"

definition range_overlaps :: "u64 \<Rightarrow> u64 \<Rightarrow> u64 \<Rightarrow> u64 \<Rightarrow> bool" where
  "range_overlaps base_a end_a base_b end_b \<longleftrightarrow> base_a < end_b \<and> base_b < end_a"

definition page_hash :: "u64 \<Rightarrow> u32" where
  "page_hash phys_addr =
     (let n0 = phys_addr div PMM_PAGE_SIZE;
          n1 = n0 XOR drop_bit 33 n0;
          n2 = n1 * 0xff51afd7ed558ccd;
          n3 = n2 XOR drop_bit 33 n2
      in (ucast n3 :: u32) AND (PMM_PAGE_INDEX_SIZE - 1))"

text \<open>The probe loop of \<^verbatim>\<open>page_index_find\<close>; the first argument is the number of probes left.\<close>

primrec page_index_probe :: "nat \<Rightarrow> pmm \<Rightarrow> u64 \<Rightarrow> u32 \<Rightarrow> u32" where
  "page_index_probe 0 s phys_addr index = PMM_PAGE_INDEX_SIZE"
| "page_index_probe (Suc n) s phys_addr index =
     (if page_index_phys s index = 0 \<or> page_index_phys s index = phys_addr then index
      else page_index_probe n s phys_addr ((index + 1) AND (PMM_PAGE_INDEX_SIZE - 1)))"

definition page_index_find :: "pmm \<Rightarrow> u64 \<Rightarrow> u32" where
  "page_index_find s phys_addr =
     page_index_probe (unat PMM_PAGE_INDEX_SIZE) s phys_addr (page_hash phys_addr)"

definition page_index_add :: "pmm \<Rightarrow> u64 \<Rightarrow> bool \<times> pmm" where
  "page_index_add s phys_addr =
     (let index = page_index_find s phys_addr in
      if index \<ge> PMM_PAGE_INDEX_SIZE \<or> page_index_phys s index \<noteq> 0 then (False, s)
      else (True, s\<lparr>page_index_phys := (page_index_phys s)(index := phys_addr),
                    page_index_ref_count := (page_index_ref_count s)(index := 0),
                    page_index_state := (page_index_state s)(index := PMM_PAGE_FREE)\<rparr>))"

definition page_ref_set :: "pmm \<Rightarrow> u64 \<Rightarrow> u32 \<Rightarrow> bool \<times> pmm" where
  "page_ref_set s phys_addr ref_count =
     (let index = page_index_find s phys_addr in
      if index \<ge> PMM_PAGE_INDEX_SIZE \<or> page_index_phys s index \<noteq> phys_addr then (False, s)
      else (True, s\<lparr>page_index_ref_count := (page_index_ref_count s)(index := ref_count)\<rparr>))"

definition page_mark_allocated :: "pmm \<Rightarrow> u64 \<Rightarrow> bool \<times> pmm" where
  "page_mark_allocated s phys_addr =
     (let index = page_index_find s phys_addr in
      if index \<ge> PMM_PAGE_INDEX_SIZE \<or> page_index_phys s index \<noteq> phys_addr \<or>
         page_index_state s index \<noteq> PMM_PAGE_FREE \<or> page_index_ref_count s index \<noteq> 0
      then (False, s)
      else (True, s\<lparr>page_index_state := (page_index_state s)(index := PMM_PAGE_ALLOCATED),
                    page_index_ref_count := (page_index_ref_count s)(index := 1)\<rparr>))"

definition page_is_free :: "pmm \<Rightarrow> u64 \<Rightarrow> bool" where
  "page_is_free s phys_addr =
     (let index = page_index_find s phys_addr in
      index < PMM_PAGE_INDEX_SIZE \<and> page_index_phys s index = phys_addr \<and>
      page_index_state s index = PMM_PAGE_FREE \<and> page_index_ref_count s index = 0)"

definition range_end :: "u64 \<Rightarrow> u64 \<Rightarrow> u64 option" where
  "range_end base sz = (if sz > - 1 - base then None else Some (base + sz))"

section \<open>Initialisation\<close>

text \<open>
  The page loop of \<^verbatim>\<open>pmm_init\<close>, downwards from the end of a region. The test
  \<open>PMM_PAGE_SIZE \<le> page\<close> is implied by \<open>page > region_base\<close>, since \<^verbatim>\<open>region_base\<close> is at
  least 1 MiB; it makes the recursion total for other arguments.
\<close>

function pmm_init_pages :: "pmm \<Rightarrow> u64 \<Rightarrow> u64 \<Rightarrow> u64 \<Rightarrow> u64 \<Rightarrow> pmm" where
  "pmm_init_pages s page region_base kernel_base kernel_end =
     (if page > region_base \<and> PMM_PAGE_SIZE \<le> page then
        (let page_base = page - PMM_PAGE_SIZE in
         if range_overlaps page_base (page_base + PMM_PAGE_SIZE) kernel_base kernel_end
         then pmm_init_pages s (page - PMM_PAGE_SIZE) region_base kernel_base kernel_end
         else if unat (tracked_page_count s) \<ge> PMM_MAX_TRACKED_PAGES
         then s\<lparr>dropped_page_count := dropped_page_count s +
                  ucast ((page - region_base) div PMM_PAGE_SIZE)\<rparr>
         else (case page_index_add s page_base of
                 (False, s') \<Rightarrow>
                   pmm_init_pages (s'\<lparr>dropped_page_count := dropped_page_count s' + 1\<rparr>)
                     (page - PMM_PAGE_SIZE) region_base kernel_base kernel_end
               | (True, s') \<Rightarrow>
                   pmm_init_pages (s'\<lparr>free_page_stack := free_page_stack s' @ [page_base],
                                      tracked_page_count := tracked_page_count s' + 1\<rparr>)
                     (page - PMM_PAGE_SIZE) region_base kernel_base kernel_end))
      else s)"
  by pat_completeness auto
termination
proof (relation "measure (\<lambda>(s, page, rb, kb, ke). unat page)", goal_cases)
  case 1
  then show ?case by simp
next
  case (2 s page rb kb ke x)
  then show ?case by (simp add: PMM_PAGE_SIZE_def unat_sub word_le_nat_alt)
next
  case (3 s page rb kb ke x a b)
  then show ?case by (simp add: PMM_PAGE_SIZE_def unat_sub word_le_nat_alt)
next
  case (4 s page rb kb ke x a b)
  then show ?case by (simp add: PMM_PAGE_SIZE_def unat_sub word_le_nat_alt)
qed

declare pmm_init_pages.simps [simp del]

definition pmm_init_region :: "u64 \<Rightarrow> u64 \<Rightarrow> janus_memmap_entry \<Rightarrow> pmm \<Rightarrow> pmm" where
  "pmm_init_region kernel_base kernel_end entry s =
     (if mm_type entry \<noteq> JANUS_MEMMAP_USABLE then s
      else case range_end (mm_base entry) (mm_length entry) of
        None \<Rightarrow> s
      | Some region_raw_end \<Rightarrow>
          (let region_base = align_up (mm_base entry) PMM_PAGE_SIZE;
               region_end = align_down region_raw_end PMM_PAGE_SIZE
           in if region_end \<le> region_base then s
              else if region_base \<ge> PMM_DIRECT_MAP_LIMIT
              then s\<lparr>dropped_page_count := dropped_page_count s +
                       ucast ((region_end - region_base) div PMM_PAGE_SIZE)\<rparr>
              else
                (let (s1, region_end1) =
                       (if region_end > PMM_DIRECT_MAP_LIMIT
                        then (s\<lparr>dropped_page_count := dropped_page_count s +
                                  ucast ((region_end - PMM_DIRECT_MAP_LIMIT) div PMM_PAGE_SIZE)\<rparr>,
                              PMM_DIRECT_MAP_LIMIT)
                        else (s, region_end));
                     region_base1 = (if region_base < 0x100000 then 0x100000 else region_base)
                 in pmm_init_pages s1 region_end1 region_base1 kernel_base kernel_end)))"

definition pmm_cleared :: "pmm" where
  "pmm_cleared = \<lparr>free_page_stack = [], page_index_phys = (\<lambda>_. 0), page_index_ref_count = (\<lambda>_. 0),
     page_index_state = (\<lambda>_. PMM_PAGE_UNUSED), tracked_page_count = 0, dropped_page_count = 0\<rparr>"

definition pmm_init :: "pmm \<Rightarrow> janus_memmap_entry list \<Rightarrow> u64 \<Rightarrow> u64 \<Rightarrow> pmm" where
  "pmm_init s memmap kernel_phys_addr kernel_phys_size =
     (let kernel_base = align_down kernel_phys_addr PMM_PAGE_SIZE in
      case range_end kernel_phys_addr kernel_phys_size of
        None \<Rightarrow> s
      | Some kernel_raw_end \<Rightarrow>
          (let kernel_end = align_up kernel_raw_end PMM_PAGE_SIZE
           in fold (pmm_init_region kernel_base kernel_end) memmap pmm_cleared))"

section \<open>Allocation\<close>

definition pmm_alloc_page :: "pmm \<Rightarrow> u64 \<times> pmm" where
  "pmm_alloc_page s =
     (if free_page_count s = 0 then (0, s)
      else
        (let phys_addr = last (free_page_stack s);
             s1 = s\<lparr>free_page_stack := butlast (free_page_stack s)\<rparr>
         in case page_mark_allocated s1 phys_addr of
              (False, s2) \<Rightarrow> (0, s2)
            | (True, s2) \<Rightarrow> (phys_addr, s2)))"

text \<open>
  The search of \<^verbatim>\<open>pmm_alloc_page_below\<close>, with \<^verbatim>\<open>index\<close> counting down; moving the entries
  above \<^verbatim>\<open>index\<close> down by one is removing that element of the list.
\<close>

primrec pmm_alloc_below_from :: "nat \<Rightarrow> u64 \<Rightarrow> pmm \<Rightarrow> u64 \<times> pmm" where
  "pmm_alloc_below_from 0 max_phys_exclusive s = (0, s)"
| "pmm_alloc_below_from (Suc index) max_phys_exclusive s =
     (let phys = free_page_stack s ! index in
      if phys + PMM_PAGE_SIZE > max_phys_exclusive
      then pmm_alloc_below_from index max_phys_exclusive s
      else
        (let page_index = page_index_find s phys in
         if page_index \<ge> PMM_PAGE_INDEX_SIZE \<or> page_index_phys s page_index \<noteq> phys \<or>
            page_index_state s page_index \<noteq> PMM_PAGE_FREE \<or> page_index_ref_count s page_index \<noteq> 0
         then (0, s)
         else
           (let s1 = s\<lparr>free_page_stack :=
                         take index (free_page_stack s) @ drop (Suc index) (free_page_stack s)\<rparr>
            in case page_mark_allocated s1 phys of
                 (False, s2) \<Rightarrow> (0, s2)
               | (True, s2) \<Rightarrow> (phys, s2))))"

definition pmm_alloc_page_below :: "pmm \<Rightarrow> u64 \<Rightarrow> u64 \<times> pmm" where
  "pmm_alloc_page_below s max_phys_exclusive =
     (if max_phys_exclusive \<le> PMM_PAGE_SIZE \<or> free_page_count s = 0 then (0, s)
      else pmm_alloc_below_from (free_page_count s) max_phys_exclusive s)"

text \<open>\<open>pmm_span base n\<close>: the pages \<^verbatim>\<open>base + i * PMM_PAGE_SIZE\<close>, \<^verbatim>\<open>i < n\<close>, in loop order.\<close>

definition pmm_span :: "u64 \<Rightarrow> nat \<Rightarrow> u64 list" where
  "pmm_span base n = map (\<lambda>i. base + of_nat i * PMM_PAGE_SIZE) [0..<n]"

primrec pmm_mark_all :: "u64 list \<Rightarrow> pmm \<Rightarrow> bool \<times> pmm" where
  "pmm_mark_all [] s = (True, s)"
| "pmm_mark_all (phys # rest) s =
     (case page_mark_allocated s phys of
        (False, s') \<Rightarrow> (False, s')
      | (True, s') \<Rightarrow> pmm_mark_all rest s')"

definition pmm_take_run :: "pmm \<Rightarrow> nat \<Rightarrow> nat \<Rightarrow> pmm" where
  "pmm_take_run s alloc_start page_count =
     s\<lparr>free_page_stack := take alloc_start (free_page_stack s) @
                          drop (alloc_start + page_count) (free_page_stack s)\<rparr>"

text \<open>
  The search of \<^verbatim>\<open>pmm_alloc_contiguous\<close>: the first argument is \<^verbatim>\<open>start_index\<close>, the second
  \<^verbatim>\<open>run\<close>. \<^verbatim>\<open>run\<close> and \<^verbatim>\<open>page_count\<close> are below $2^{32}$ (\<^verbatim>\<open>run\<close> never passes the number of
  free pages), so \<open>nat\<close> carries them exactly.
\<close>

primrec pmm_contiguous_from :: "nat \<Rightarrow> nat \<Rightarrow> nat \<Rightarrow> pmm \<Rightarrow> u64 \<times> pmm" where
  "pmm_contiguous_from 0 run page_count s = (0, s)"
| "pmm_contiguous_from (Suc k) run page_count s =
     (let current = free_page_stack s ! Suc k;
          previous = free_page_stack s ! k
      in if previous = current + PMM_PAGE_SIZE then
           (if Suc run = page_count then
              (let base = free_page_stack s ! (k + page_count - 1) in
               if \<not> list_all (page_is_free s) (pmm_span base page_count) then (0, s)
               else case pmm_mark_all (pmm_span base page_count) (pmm_take_run s k page_count) of
                      (False, s') \<Rightarrow> (0, s')
                    | (True, s') \<Rightarrow> (base, s'))
            else pmm_contiguous_from k (Suc run) page_count s)
         else pmm_contiguous_from k 1 page_count s)"

definition pmm_alloc_contiguous :: "pmm \<Rightarrow> nat \<Rightarrow> u64 \<times> pmm" where
  "pmm_alloc_contiguous s page_count =
     (if page_count = 0 \<or> free_page_count s < page_count then (0, s)
      else pmm_contiguous_from (free_page_count s - 1) 1 page_count s)"

primrec pmm_contiguous_below_from :: "nat \<Rightarrow> nat \<Rightarrow> nat \<Rightarrow> u64 \<Rightarrow> pmm \<Rightarrow> u64 \<times> pmm" where
  "pmm_contiguous_below_from 0 run page_count max_phys_exclusive s = (0, s)"
| "pmm_contiguous_below_from (Suc k) run page_count max_phys_exclusive s =
     (let current = free_page_stack s ! Suc k;
          previous = free_page_stack s ! k;
          current_ok = (current + PMM_PAGE_SIZE \<le> max_phys_exclusive);
          previous_ok = (previous + PMM_PAGE_SIZE \<le> max_phys_exclusive)
      in if current_ok \<and> previous_ok \<and> previous = current + PMM_PAGE_SIZE then
           (if Suc run = page_count then
              (let base = free_page_stack s ! (k + page_count - 1)
               in (base, fold (\<lambda>phys s. snd (page_ref_set s phys 1)) (pmm_span base page_count)
                           (pmm_take_run s k page_count)))
            else pmm_contiguous_below_from k (Suc run) page_count max_phys_exclusive s)
         else pmm_contiguous_below_from k 1 page_count max_phys_exclusive s)"

definition pmm_alloc_contiguous_below :: "pmm \<Rightarrow> nat \<Rightarrow> u64 \<Rightarrow> u64 \<times> pmm" where
  "pmm_alloc_contiguous_below s page_count max_phys_exclusive =
     (if page_count = 0 \<or> free_page_count s < page_count then (0, s)
      else if page_count = 1 then pmm_alloc_page_below s max_phys_exclusive
      else if max_phys_exclusive \<le> of_nat page_count * PMM_PAGE_SIZE then (0, s)
      else pmm_contiguous_below_from (free_page_count s - 1) 1 page_count max_phys_exclusive s)"

section \<open>Reference counts, release, reservation, statistics\<close>

definition pmm_retain_page :: "pmm \<Rightarrow> u64 \<Rightarrow> bool \<times> pmm" where
  "pmm_retain_page s phys_addr =
     (if phys_addr AND (PMM_PAGE_SIZE - 1) \<noteq> 0 then (False, s)
      else
        (let index = page_index_find s phys_addr in
         if index \<ge> PMM_PAGE_INDEX_SIZE \<or> page_index_phys s index \<noteq> phys_addr \<or>
            page_index_state s index \<noteq> PMM_PAGE_ALLOCATED \<or>
            page_index_ref_count s index = 0 \<or> page_index_ref_count s index = 0xffffffff
         then (False, s)
         else (True, s\<lparr>page_index_ref_count :=
                         (page_index_ref_count s)(index := page_index_ref_count s index + 1)\<rparr>)))"

definition pmm_release_page :: "pmm \<Rightarrow> u64 \<Rightarrow> bool \<times> pmm" where
  "pmm_release_page s phys_addr =
     (if phys_addr AND (PMM_PAGE_SIZE - 1) \<noteq> 0 then (False, s)
      else
        (let index = page_index_find s phys_addr in
         if index \<ge> PMM_PAGE_INDEX_SIZE \<or> page_index_phys s index \<noteq> phys_addr then (False, s)
         else if page_index_state s index \<noteq> PMM_PAGE_ALLOCATED then (False, s)
         else if page_index_ref_count s index = 0 then (False, s)
         else
           (let s1 = s\<lparr>page_index_ref_count :=
                         (page_index_ref_count s)(index := page_index_ref_count s index - 1)\<rparr>
            in if page_index_ref_count s1 index \<noteq> 0 then (True, s1)
               else if free_page_count s1 \<ge> PMM_MAX_TRACKED_PAGES
               then (False, s1\<lparr>page_index_ref_count := (page_index_ref_count s1)(index := 1)\<rparr>)
               else (True, s1\<lparr>page_index_state := (page_index_state s1)(index := PMM_PAGE_FREE),
                              free_page_stack := free_page_stack s1 @ [phys_addr]\<rparr>))))"

definition pmm_ref_count :: "pmm \<Rightarrow> u64 \<Rightarrow> u32" where
  "pmm_ref_count s phys_addr =
     (if phys_addr AND (PMM_PAGE_SIZE - 1) \<noteq> 0 then 0
      else
        (let index = page_index_find s phys_addr in
         if index \<ge> PMM_PAGE_INDEX_SIZE \<or> page_index_phys s index \<noteq> phys_addr then 0
         else page_index_ref_count s index))"

definition pmm_free_page :: "pmm \<Rightarrow> u64 \<Rightarrow> bool \<times> pmm" where
  "pmm_free_page s phys_addr = pmm_release_page s phys_addr"

text \<open>
  The compaction loop of \<^verbatim>\<open>pmm_reserve_range\<close>: the first argument is the part of the stack
  still to be read, the accumulator the entries written back so far.
\<close>

primrec pmm_reserve_from :: "u64 list \<Rightarrow> u64 list \<Rightarrow> u64 \<Rightarrow> u64 \<Rightarrow> pmm \<Rightarrow> pmm" where
  "pmm_reserve_from [] kept reserve_base reserve_end s = s\<lparr>free_page_stack := kept\<rparr>"
| "pmm_reserve_from (page_base # rest) kept reserve_base reserve_end s =
     (if range_overlaps page_base (page_base + PMM_PAGE_SIZE) reserve_base reserve_end then
        (let index = page_index_find s page_base in
         pmm_reserve_from rest kept reserve_base reserve_end
           (if index < PMM_PAGE_INDEX_SIZE \<and> page_index_phys s index = page_base \<and>
               page_index_state s index = PMM_PAGE_FREE
            then s\<lparr>page_index_state := (page_index_state s)(index := PMM_PAGE_RESERVED),
                   page_index_ref_count := (page_index_ref_count s)(index := 0)\<rparr>
            else s))
      else pmm_reserve_from rest (kept @ [page_base]) reserve_base reserve_end s)"

definition pmm_reserve_range :: "pmm \<Rightarrow> u64 \<Rightarrow> u64 \<Rightarrow> pmm" where
  "pmm_reserve_range s base sz =
     (if sz = 0 then s
      else
        (let reserve_base = align_down base PMM_PAGE_SIZE in
         case range_end base sz of
           None \<Rightarrow> s
         | Some reserve_raw_end \<Rightarrow>
             (let reserve_end = align_up reserve_raw_end PMM_PAGE_SIZE in
              if reserve_end \<le> reserve_base then s
              else pmm_reserve_from (free_page_stack s) [] reserve_base reserve_end s)))"

definition pmm_total_pages :: "pmm \<Rightarrow> u32" where
  "pmm_total_pages s = tracked_page_count s"

definition pmm_free_pages :: "pmm \<Rightarrow> u32" where
  "pmm_free_pages s = of_nat (free_page_count s)"

definition pmm_used_pages :: "pmm \<Rightarrow> u32" where
  "pmm_used_pages s = tracked_page_count s - of_nat (free_page_count s)"

definition pmm_dropped_pages :: "pmm \<Rightarrow> u32" where
  "pmm_dropped_pages s = dropped_page_count s"

end
