(* ===== verification/Pmm_Index.thy ===== *)
theory Pmm_Index
  imports Pmm
begin

text \<open>
  What the page index of \<^verbatim>\<open>kernel/mem/pmm.c\<close> means. \<open>page_lookup\<close> is its abstraction: a
  partial map from page addresses to a state and a reference count. \<open>page_set\<close> and
  \<open>page_index_add\<close> act on that map as update and insertion, and each allocator operation
  that goes through \<^verbatim>\<open>page_index_find\<close> is restated as a case distinction on
  \<open>page_lookup\<close>. The locale \<open>page_map\<close> is the contract that the rest of the allocator
  relies on; the probing table is its interpretation.
\<close>

section \<open>The abstraction\<close>

definition page_lookup :: "pmm \<Rightarrow> u64 \<Rightarrow> (pmm_page_state \<times> u32) option" where
  "page_lookup s p =
     (let i = page_index_find s p in
      if p \<noteq> 0 \<and> i < PMM_PAGE_INDEX_SIZE \<and> page_index_phys s i = p
      then Some (page_index_state s i, page_index_ref_count s i) else None)"

definition page_set :: "pmm \<Rightarrow> u64 \<Rightarrow> pmm_page_state \<Rightarrow> u32 \<Rightarrow> pmm" where
  "page_set s p st r =
     (let i = page_index_find s p in
      s\<lparr>page_index_state := (page_index_state s)(i := st),
        page_index_ref_count := (page_index_ref_count s)(i := r)\<rparr>)"

definition index_ok :: "pmm \<Rightarrow> bool" where
  "index_ok s \<longleftrightarrow>
     (\<forall>i. (page_index_phys s i \<noteq> 0 \<longrightarrow>
            i < PMM_PAGE_INDEX_SIZE \<and> page_index_find s (page_index_phys s i) = i \<and>
            page_index_state s i \<noteq> PMM_PAGE_UNUSED) \<and>
          (page_index_phys s i = 0 \<longrightarrow> page_index_state s i = PMM_PAGE_UNUSED \<and>
            page_index_ref_count s i = 0))"

section \<open>Probing\<close>

lemma page_index_probe_numeral [simp]:
  "page_index_probe (numeral k) s p i =
     (if page_index_phys s i = 0 \<or> page_index_phys s i = p then i
      else page_index_probe (pred_numeral k) s p ((i + 1) AND (PMM_PAGE_INDEX_SIZE - 1)))"
  by (simp add: numeral_eq_Suc)

lemma page_index_probe_cong:
  "page_index_phys s = page_index_phys t \<Longrightarrow> page_index_probe n s p i = page_index_probe n t p i"
  by (induction n arbitrary: i) simp_all

lemma page_index_find_cong:
  "page_index_phys s = page_index_phys t \<Longrightarrow> page_index_find s p = page_index_find t p"
  by (simp add: page_index_find_def page_index_probe_cong [of s t])

lemma page_index_find_frame [simp]:
  "page_index_find (s\<lparr>free_page_stack := a\<rparr>) p = page_index_find s p"
  "page_index_find (s\<lparr>page_index_ref_count := b\<rparr>) p = page_index_find s p"
  "page_index_find (s\<lparr>page_index_state := c\<rparr>) p = page_index_find s p"
  "page_index_find (s\<lparr>tracked_page_count := d\<rparr>) p = page_index_find s p"
  "page_index_find (s\<lparr>dropped_page_count := e\<rparr>) p = page_index_find s p"
  by (rule page_index_find_cong, simp)+

text \<open>Filling an empty slot does not disturb a search that ends elsewhere on its own page.\<close>

lemma page_index_probe_fill:
  assumes "page_index_probe n s p i = k" and "k < PMM_PAGE_INDEX_SIZE"
    and "page_index_phys s k = p" and "p \<noteq> 0" and "page_index_phys s j = 0"
  shows "page_index_probe n (s\<lparr>page_index_phys := (page_index_phys s)(j := q)\<rparr>) p i = k"
  using assms(1)
proof (induction n arbitrary: i)
  case 0
  with assms(2) show ?case by simp
next
  case (Suc n)
  show ?case
  proof (cases "i = j")
    case True
    with Suc.prems assms(3-5) show ?thesis by simp
  next
    case False
    with Suc.prems Suc.IH show ?thesis by (auto split: if_splits)
  qed
qed

lemma page_index_probe_new:
  assumes "page_index_probe n s p i = k" and "k < PMM_PAGE_INDEX_SIZE"
  shows "page_index_probe n (s\<lparr>page_index_phys := (page_index_phys s)(k := p)\<rparr>) p i = k"
  using assms(1)
proof (induction n arbitrary: i)
  case 0
  with assms(2) show ?case by simp
next
  case (Suc n)
  show ?case
  proof (cases "i = k")
    case True
    then show ?thesis by simp
  next
    case False
    with Suc.prems Suc.IH show ?thesis by (auto split: if_splits)
  qed
qed

section \<open>Lookup after each kind of update\<close>

lemma page_lookup_frame [simp]:
  "page_lookup (s\<lparr>free_page_stack := a\<rparr>) p = page_lookup s p"
  "page_lookup (s\<lparr>tracked_page_count := d\<rparr>) p = page_lookup s p"
  "page_lookup (s\<lparr>dropped_page_count := e\<rparr>) p = page_lookup s p"
  by (simp_all add: page_lookup_def Let_def)

lemma page_lookup_frame_fun [simp]:
  "page_lookup (s\<lparr>free_page_stack := a\<rparr>) = page_lookup s"
  "page_lookup (s\<lparr>tracked_page_count := d\<rparr>) = page_lookup s"
  "page_lookup (s\<lparr>dropped_page_count := e\<rparr>) = page_lookup s"
  by (rule ext, simp)+

lemma index_ok_frame [simp]:
  "index_ok (s\<lparr>free_page_stack := a\<rparr>) = index_ok s"
  "index_ok (s\<lparr>tracked_page_count := d\<rparr>) = index_ok s"
  "index_ok (s\<lparr>dropped_page_count := e\<rparr>) = index_ok s"
  by (simp_all add: index_ok_def)

lemma page_set_frame [simp]:
  "free_page_stack (page_set s p st r) = free_page_stack s"
  "page_index_phys (page_set s p st r) = page_index_phys s"
  "tracked_page_count (page_set s p st r) = tracked_page_count s"
  "dropped_page_count (page_set s p st r) = dropped_page_count s"
  by (simp_all add: page_set_def Let_def)

lemma page_index_find_page_set [simp]: "page_index_find (page_set s p st r) q = page_index_find s q"
  by (rule page_index_find_cong) simp

lemma page_set_stack [simp]:
  "page_set (s\<lparr>free_page_stack := a\<rparr>) p st r = (page_set s p st r)\<lparr>free_page_stack := a\<rparr>"
  by (simp add: page_set_def Let_def)

lemma page_lookup_SomeD:
  assumes "page_lookup s p = Some (st, r)"
  shows "p \<noteq> 0" "page_index_find s p < PMM_PAGE_INDEX_SIZE"
    "page_index_phys s (page_index_find s p) = p"
    "page_index_state s (page_index_find s p) = st"
    "page_index_ref_count s (page_index_find s p) = r"
  using assms by (auto simp: page_lookup_def Let_def split: if_splits)

lemma page_lookup_page_set:
  assumes "page_lookup s p \<noteq> None"
  shows "page_lookup (page_set s p st r) = (page_lookup s)(p \<mapsto> (st, r))"
proof
  fix q
  from assms obtain st0 r0 where p: "page_lookup s p = Some (st0, r0)" by auto
  show "page_lookup (page_set s p st r) q = ((page_lookup s)(p \<mapsto> (st, r))) q"
  proof (cases "q = p")
    case True
    with page_lookup_SomeD [OF p] show ?thesis
      by (simp add: page_lookup_def page_set_def Let_def)
  next
    case False
    show ?thesis
    proof (cases "page_index_find s q = page_index_find s p")
      case True
      with False page_lookup_SomeD [OF p] show ?thesis
        by (simp add: page_lookup_def Let_def)
    next
      case False
      with \<open>q \<noteq> p\<close> show ?thesis
        by (simp add: page_lookup_def page_set_def Let_def)
    qed
  qed
qed

lemma index_ok_page_set:
  assumes "index_ok s" and "page_lookup s p \<noteq> None" and "st \<noteq> PMM_PAGE_UNUSED"
  shows "index_ok (page_set s p st r)"
proof -
  from assms(2) obtain st0 r0 where p: "page_lookup s p = Some (st0, r0)" by auto
  note i = page_lookup_SomeD [OF p]
  show ?thesis
    unfolding index_ok_def
  proof (intro allI conjI impI)
    fix j
    assume j: "page_index_phys (page_set s p st r) j \<noteq> 0"
    with assms(1) show "j < PMM_PAGE_INDEX_SIZE"
      by (simp add: index_ok_def)
    from j assms(1) show "page_index_find (page_set s p st r) (page_index_phys (page_set s p st r) j) = j"
      by (simp add: index_ok_def)
    from j assms(1,3) show "page_index_state (page_set s p st r) j \<noteq> PMM_PAGE_UNUSED"
      by (auto simp: index_ok_def page_set_def Let_def)
  next
    fix j
    assume j: "page_index_phys (page_set s p st r) j = 0"
    with i(1,3) have "j \<noteq> page_index_find s p" by auto
    with j assms(1) show "page_index_state (page_set s p st r) j = PMM_PAGE_UNUSED"
      and "page_index_ref_count (page_set s p st r) j = 0"
      by (auto simp: index_ok_def page_set_def Let_def)
  qed
qed

lemma page_lookup_not_unused:
  "index_ok s \<Longrightarrow> page_lookup s p \<noteq> Some (PMM_PAGE_UNUSED, r)"
  using page_lookup_SomeD [of s p PMM_PAGE_UNUSED r] unfolding index_ok_def by metis

text \<open>Under \<open>index_ok\<close> a search that finds no entry for a page ends at an unused slot.\<close>

lemma page_lookup_NoneD:
  assumes "index_ok s" and "page_lookup s p = None" and "page_index_find s p < PMM_PAGE_INDEX_SIZE"
    and "page_index_phys s (page_index_find s p) = p"
  shows "p = 0" "page_index_state s (page_index_find s p) = PMM_PAGE_UNUSED"
    "page_index_ref_count s (page_index_find s p) = 0"
  using assms by (auto simp: page_lookup_def index_ok_def Let_def split: if_splits)

lemma page_index_added:
  assumes "page_index_add s p = (True, t)"
  shows "page_index_find s p < PMM_PAGE_INDEX_SIZE" "page_index_phys s (page_index_find s p) = 0"
    "page_index_phys t = (page_index_phys s)(page_index_find s p := p)"
    "page_index_ref_count t = (page_index_ref_count s)(page_index_find s p := 0)"
    "page_index_state t = (page_index_state s)(page_index_find s p := PMM_PAGE_FREE)"
    "free_page_stack t = free_page_stack s" "tracked_page_count t = tracked_page_count s"
  using assms by (auto simp: page_index_add_def Let_def split: if_splits)

lemma page_index_added_find:
  assumes "page_index_add s p = (True, t)"
  shows "page_index_find t p = page_index_find s p"
    and "page_index_phys s (page_index_find s q) = q \<Longrightarrow> q \<noteq> 0 \<Longrightarrow> page_index_find s q < PMM_PAGE_INDEX_SIZE \<Longrightarrow>
      page_index_find t q = page_index_find s q"
proof -
  let ?k = "page_index_find s p"
  note t = page_index_added [OF assms]
  have find_t: "page_index_find t q = page_index_find (s\<lparr>page_index_phys := (page_index_phys s)(?k := p)\<rparr>) q" for q
    by (rule page_index_find_cong) (simp add: t)
  show "page_index_find t p = ?k"
    using page_index_probe_new [of _ s p _ ?k] t(1) by (simp add: find_t) (simp add: page_index_find_def)
  show "page_index_phys s (page_index_find s q) = q \<Longrightarrow> q \<noteq> 0 \<Longrightarrow> page_index_find s q < PMM_PAGE_INDEX_SIZE \<Longrightarrow>
      page_index_find t q = page_index_find s q"
    using page_index_probe_fill [of _ s q _ "page_index_find s q" ?k p] t(2) by (simp add: find_t) (simp add: page_index_find_def)
qed

lemma page_index_added_ok:
  assumes ok: "index_ok s" and p: "p \<noteq> 0" and add: "page_index_add s p = (True, t)"
  shows "index_ok t"
  unfolding index_ok_def
proof (intro allI conjI impI)
  note t = page_index_added [OF add] and find = page_index_added_find [OF add]
  fix j
  {
    assume j: "page_index_phys t j \<noteq> 0"
    show "j < PMM_PAGE_INDEX_SIZE" "page_index_find t (page_index_phys t j) = j" "page_index_state t j \<noteq> PMM_PAGE_UNUSED"
      using j t(1) find(1) ok find(2) [of "page_index_phys s j"] by (auto simp: t(3-5) index_ok_def split: if_splits)
  next
    assume "page_index_phys t j = 0"
    then show "page_index_state t j = PMM_PAGE_UNUSED" "page_index_ref_count t j = 0"
      using ok p by (auto simp: t(3-5) index_ok_def split: if_splits)
  }
qed

lemma page_index_added_other:
  assumes ok: "index_ok s" and add: "page_index_add s p = (True, t)" and q: "q \<noteq> p"
  shows "page_lookup t q = page_lookup s q"
proof (cases "page_lookup s q")
  note t = page_index_added [OF add]
  case (Some e)
  then obtain st r where e: "page_lookup s q = Some (st, r)" by (cases e) auto
  note f = page_lookup_SomeD [OF e]
  have "page_index_find t q = page_index_find s q" by (rule page_index_added_find(2) [OF add f(3,1,2)])
  moreover from f(1,3) t(2) have "page_index_find s q \<noteq> page_index_find s p" by auto
  ultimately show ?thesis using e q f by (simp add: page_lookup_def Let_def t(3-5))
next
  note t = page_index_added [OF add]
  case None
  have "page_lookup t q = None"
  proof (rule ccontr)
    assume "page_lookup t q \<noteq> None"
    then obtain st r where "page_lookup t q = Some (st, r)" by auto
    note g = page_lookup_SomeD [OF this]
    from g(3) q have s: "page_index_phys s (page_index_find t q) = q" by (auto simp: t(3) split: if_splits)
    with g(1,2) ok have "page_index_find s q = page_index_find t q" unfolding index_ok_def by metis
    with None g(1,2) s show False by (simp add: page_lookup_def Let_def)
  qed
  with None show ?thesis by simp
qed

lemma page_index_add_spec:
  assumes ok: "index_ok s" and p: "p \<noteq> 0" and add: "page_index_add s p = (True, t)"
  shows "index_ok t" "page_lookup s p = None" "page_lookup t = (page_lookup s)(p \<mapsto> (PMM_PAGE_FREE, 0))"
    "free_page_stack t = free_page_stack s" "tracked_page_count t = tracked_page_count s"
proof -
  note t = page_index_added [OF add]
  show "index_ok t" by (rule page_index_added_ok [OF assms])
  show "page_lookup s p = None" using t(1,2) p by (simp add: page_lookup_def Let_def)
  show "free_page_stack t = free_page_stack s" "tracked_page_count t = tracked_page_count s" by (rule t)+
  have "page_lookup t p = Some (PMM_PAGE_FREE, 0)"
    using page_index_added_find(1) [OF add] t(1) p by (simp add: page_lookup_def Let_def t(3-5))
  then show "page_lookup t = (page_lookup s)(p \<mapsto> (PMM_PAGE_FREE, 0))"
    using page_index_added_other [OF ok add] by (auto simp: fun_eq_iff)
qed

section \<open>The operations as case distinctions on the map\<close>

lemma page_mark_allocated_eq:
  assumes "index_ok s"
  shows "page_mark_allocated s p =
     (if page_lookup s p = Some (PMM_PAGE_FREE, 0) then (True, page_set s p PMM_PAGE_ALLOCATED 1)
      else (False, s))"
proof (cases "page_lookup s p")
  case None
  with page_lookup_NoneD [OF assms None] show ?thesis
    by (auto simp: page_mark_allocated_def Let_def not_less [symmetric])
next
  case (Some e)
  then obtain st r where "page_lookup s p = Some (st, r)" by (cases e) auto
  with page_lookup_SomeD [OF this] show ?thesis
    by (auto simp: page_mark_allocated_def page_set_def Let_def not_less [symmetric])
qed

lemma page_is_free_eq:
  assumes "index_ok s"
  shows "page_is_free s p \<longleftrightarrow> page_lookup s p = Some (PMM_PAGE_FREE, 0)"
proof (cases "page_lookup s p")
  case None
  with page_lookup_NoneD [OF assms None] show ?thesis
    by (auto simp: page_is_free_def Let_def)
next
  case (Some e)
  then obtain st r where "page_lookup s p = Some (st, r)" by (cases e) auto
  with page_lookup_SomeD [OF this] show ?thesis
    by (auto simp: page_is_free_def Let_def)
qed

lemma page_ref_set_eq:
  assumes "page_lookup s p = Some (st, r0)"
  shows "page_ref_set s p r = (True, page_set s p st r)"
  using page_lookup_SomeD [OF assms]
  by (auto simp: page_ref_set_def page_set_def Let_def not_less [symmetric])

definition page_aligned :: "u64 \<Rightarrow> bool" where
  "page_aligned p \<longleftrightarrow> p AND (PMM_PAGE_SIZE - 1) = 0"

lemma page_set_same_state:
  assumes "page_lookup s p = Some (st, r0)"
  shows "s\<lparr>page_index_ref_count := (page_index_ref_count s)(page_index_find s p := r)\<rparr> = page_set s p st r"
  using page_lookup_SomeD [OF assms] by (cases s) (auto simp: page_set_def Let_def fun_upd_idem)

lemma page_set_same:
  assumes "page_lookup s p = Some (st, r)"
  shows "page_set s p st r = s"
  using page_lookup_SomeD [OF assms] by (cases s) (auto simp: page_set_def Let_def fun_upd_idem)

lemma page_set_at [simp]:
  "page_index_ref_count (page_set s p st r) (page_index_find s p) = r"
  "page_index_state (page_set s p st r) (page_index_find s p) = st"
  by (simp_all add: page_set_def Let_def)

lemma pmm_retain_page_eq:
  assumes "index_ok s"
  shows "pmm_retain_page s p =
     (case page_lookup s p of
        Some (PMM_PAGE_ALLOCATED, r) \<Rightarrow>
          if page_aligned p \<and> r \<noteq> 0 \<and> r \<noteq> 0xffffffff
          then (True, page_set s p PMM_PAGE_ALLOCATED (r + 1)) else (False, s)
      | _ \<Rightarrow> (False, s))"
proof (cases "page_lookup s p")
  case None
  with page_lookup_NoneD [OF assms None] show ?thesis
    by (auto simp: pmm_retain_page_def Let_def not_less [symmetric])
next
  case (Some e)
  then obtain st r where e: "page_lookup s p = Some (st, r)" by (cases e) auto
  with page_lookup_SomeD [OF e] page_set_same_state [OF e] show ?thesis
    by (auto simp: pmm_retain_page_def page_aligned_def Let_def not_less [symmetric]
        split: pmm_page_state.splits)
qed

lemma pmm_release_page_eq:
  assumes "index_ok s"
  shows "pmm_release_page s p =
     (case page_lookup s p of
        Some (PMM_PAGE_ALLOCATED, r) \<Rightarrow>
          if \<not> page_aligned p \<or> r = 0 then (False, s)
          else if r \<noteq> 1 then (True, page_set s p PMM_PAGE_ALLOCATED (r - 1))
          else if free_page_count s \<ge> PMM_MAX_TRACKED_PAGES then (False, s)
          else (True, (page_set s p PMM_PAGE_FREE 0)\<lparr>free_page_stack := free_page_stack s @ [p]\<rparr>)
      | _ \<Rightarrow> (False, s))"
proof (cases "page_lookup s p")
  case None
  with page_lookup_NoneD [OF assms None] show ?thesis
    by (auto simp: pmm_release_page_def Let_def not_less [symmetric])
next
  case (Some e)
  then obtain st r where e: "page_lookup s p = Some (st, r)" by (cases e) auto
  note i = page_lookup_SomeD [OF e] and upd = page_set_same_state [OF e]
  have r1: "r - 1 = 0 \<longleftrightarrow> r = 1" by simp
  have undo: "(page_set s p st 0)\<lparr>page_index_ref_count :=
      (page_index_ref_count (page_set s p st 0))(page_index_find s p := r)\<rparr> = s"
    using i by (cases s) (auto simp: page_set_def Let_def fun_upd_idem)
  have free: "(page_set s p st 0)\<lparr>page_index_state :=
      (page_index_state (page_set s p st 0))(page_index_find s p := PMM_PAGE_FREE)\<rparr>
      = page_set s p PMM_PAGE_FREE 0"
    by (simp add: page_set_def Let_def)
  show ?thesis
  proof (cases "st = PMM_PAGE_ALLOCATED \<and> page_aligned p \<and> r \<noteq> 0")
    case False
    with e i show ?thesis
      by (auto simp: pmm_release_page_def page_aligned_def Let_def split: pmm_page_state.splits)
  next
    case True
    with e i have "pmm_release_page s p =
       (let s1 = page_set s p st (r - 1)
        in if r - 1 \<noteq> 0 then (True, s1)
           else if free_page_count s1 \<ge> PMM_MAX_TRACKED_PAGES
           then (False, s1\<lparr>page_index_ref_count := (page_index_ref_count s1)(page_index_find s p := 1)\<rparr>)
           else (True, s1\<lparr>page_index_state := (page_index_state s1)(page_index_find s p := PMM_PAGE_FREE),
                          free_page_stack := free_page_stack s1 @ [p]\<rparr>))"
      unfolding pmm_release_page_def page_aligned_def
      by (simp add: upd Let_def not_le [symmetric])
    with True e undo free show ?thesis
      by (cases "r = 1") (simp_all add: free_page_count_def Let_def r1)
  qed
qed

lemma pmm_ref_count_eq:
  assumes "index_ok s"
  shows "pmm_ref_count s p =
     (case page_lookup s p of None \<Rightarrow> 0 | Some (st, r) \<Rightarrow> if page_aligned p then r else 0)"
proof (cases "page_lookup s p")
  case None
  with page_lookup_NoneD [OF assms None] show ?thesis
    by (auto simp: pmm_ref_count_def Let_def not_less [symmetric])
next
  case (Some e)
  then obtain st r where "page_lookup s p = Some (st, r)" by (cases e) auto
  with page_lookup_SomeD [OF this] show ?thesis
    by (auto simp: pmm_ref_count_def page_aligned_def Let_def not_less [symmetric])
qed

section \<open>The page map contract\<close>

locale page_map =
  fixes lookup :: "'s \<Rightarrow> 'p \<Rightarrow> ('st \<times> 'r) option"
    and update :: "'s \<Rightarrow> 'p \<Rightarrow> 'st \<Rightarrow> 'r \<Rightarrow> 's"
    and ok :: "'s \<Rightarrow> bool"
    and unused :: 'st
  assumes lookup_update: "lookup s p \<noteq> None \<Longrightarrow> lookup (update s p st r) = (lookup s)(p \<mapsto> (st, r))"
    and ok_update: "ok s \<Longrightarrow> lookup s p \<noteq> None \<Longrightarrow> st \<noteq> unused \<Longrightarrow> ok (update s p st r)"
    and not_unused: "ok s \<Longrightarrow> lookup s p \<noteq> Some (unused, r)"
begin

lemma dom_update: "lookup s p \<noteq> None \<Longrightarrow> dom (lookup (update s p st r)) = dom (lookup s)"
  by (auto simp: lookup_update)

text \<open>Writing one value to a list of present pages.\<close>

lemma lookup_update_all:
  assumes "\<forall>p \<in> set ps. lookup s p \<noteq> None"
  shows "lookup (fold (\<lambda>p s. update s p st r) ps s) =
           (\<lambda>q. if q \<in> set ps then Some (st, r) else lookup s q)"
  using assms
proof (induction ps arbitrary: s)
  case Nil
  then show ?case by simp
next
  case (Cons p ps)
  then have p: "lookup s p \<noteq> None" by simp
  from Cons.prems have "\<forall>q \<in> set ps. lookup (update s p st r) q \<noteq> None"
    by (auto simp: lookup_update [OF p])
  from Cons.IH [OF this] show ?case
    by (auto simp: lookup_update [OF p])
qed

lemma ok_update_all:
  assumes "ok s" and "\<forall>p \<in> set ps. lookup s p \<noteq> None" and "st \<noteq> unused"
  shows "ok (fold (\<lambda>p s. update s p st r) ps s)"
  using assms(1,2)
proof (induction ps arbitrary: s)
  case Nil
  then show ?case by simp
next
  case (Cons p ps)
  then have p: "lookup s p \<noteq> None" by simp
  from Cons.prems have "\<forall>q \<in> set ps. lookup (update s p st r) q \<noteq> None"
    by (auto simp: lookup_update [OF p])
  with Cons.IH ok_update [OF Cons.prems(1) p assms(3)] show ?case by simp
qed

end

interpretation pidx: page_map page_lookup page_set index_ok PMM_PAGE_UNUSED
  by unfold_locales (fact page_lookup_page_set index_ok_page_set page_lookup_not_unused)+

end
