(* ===== verification/Pmm_Safety.thy ===== *)
theory Pmm_Safety
  imports Pmm_Index
begin

text \<open>
  The invariant of the page allocator (\<^verbatim>\<open>kernel/mem/pmm.c\<close>) and what its operations do to
  the set of free pages and to the reference counts: allocation hands out a page that
  nobody holds, release gives it back exactly when the last reference goes, reservation
  withdraws pages for good, and initialisation tracks only usable memory outside the
  kernel image.
\<close>

section \<open>Invariant\<close>

definition page_in_pool :: "u64 \<Rightarrow> bool" where
  "page_in_pool p \<longleftrightarrow> page_aligned p \<and> 0x100000 \<le> p \<and> p < PMM_DIRECT_MAP_LIMIT"

definition pmm_inv :: "pmm \<Rightarrow> bool" where
  "pmm_inv s \<longleftrightarrow>
     index_ok s \<and> distinct (free_page_stack s) \<and>
     (\<forall>p \<in> set (free_page_stack s). page_lookup s p = Some (PMM_PAGE_FREE, 0)) \<and>
     (\<forall>p. page_lookup s p \<noteq> None \<longrightarrow> page_in_pool p) \<and>
     (\<forall>p r. page_lookup s p = Some (PMM_PAGE_ALLOCATED, r) \<longrightarrow> r \<noteq> 0) \<and>
     card (dom (page_lookup s)) = unat (tracked_page_count s) \<and>
     unat (tracked_page_count s) \<le> PMM_MAX_TRACKED_PAGES"

text \<open>No tracked free page is missing from the stack.\<close>

definition pmm_no_leak :: "pmm \<Rightarrow> bool" where
  "pmm_no_leak s \<longleftrightarrow> (\<forall>p r. page_lookup s p = Some (PMM_PAGE_FREE, r) \<longrightarrow> p \<in> set (free_page_stack s))"

lemma pmm_invD:
  assumes "pmm_inv s"
  shows "index_ok s" "distinct (free_page_stack s)"
    "\<And>p. p \<in> set (free_page_stack s) \<Longrightarrow> page_lookup s p = Some (PMM_PAGE_FREE, 0)"
    "\<And>p e. page_lookup s p = Some e \<Longrightarrow> page_in_pool p"
    "\<And>p r. page_lookup s p = Some (PMM_PAGE_ALLOCATED, r) \<Longrightarrow> r \<noteq> 0"
    "card (dom (page_lookup s)) = unat (tracked_page_count s)"
    "unat (tracked_page_count s) \<le> PMM_MAX_TRACKED_PAGES"
  using assms by (auto simp: pmm_inv_def)

lemma pool_page_nonzero: "page_in_pool p \<Longrightarrow> p \<noteq> 0"
  by (auto simp: page_in_pool_def)

lemma stack_page_nonzero: "pmm_inv s \<Longrightarrow> p \<in> set (free_page_stack s) \<Longrightarrow> p \<noteq> 0"
  by (blast dest: pmm_invD pool_page_nonzero)

text \<open>The invariant after a change of the stack and of the entries of present pages.\<close>

lemma pmm_inv_change:
  assumes "pmm_inv s" and "index_ok t" and "dom (page_lookup t) = dom (page_lookup s)"
    and "tracked_page_count t = tracked_page_count s" and "distinct (free_page_stack t)"
    and "\<And>p. p \<in> set (free_page_stack t) \<Longrightarrow> page_lookup t p = Some (PMM_PAGE_FREE, 0)"
    and "\<And>p r. page_lookup t p = Some (PMM_PAGE_ALLOCATED, r) \<Longrightarrow> r \<noteq> 0"
  shows "pmm_inv t"
  unfolding pmm_inv_def
proof (intro conjI ballI allI impI)
  fix p assume "page_lookup t p \<noteq> None"
  with assms(3) have "page_lookup s p \<noteq> None" by (metis domIff)
  with assms(1) show "page_in_pool p" by (auto dest: pmm_invD)
qed (use assms pmm_invD [OF assms(1)] in auto)

section \<open>Taking pages from the stack\<close>

definition pmm_took :: "pmm \<Rightarrow> u64 list \<Rightarrow> pmm_page_state \<Rightarrow> pmm \<Rightarrow> bool" where
  "pmm_took s ps st t \<longleftrightarrow>
     distinct ps \<and> set ps \<subseteq> set (free_page_stack s) \<and>
     free_page_stack t = filter (\<lambda>q. q \<notin> set ps) (free_page_stack s) \<and>
     page_lookup t = (\<lambda>q. if q \<in> set ps then Some (st, 1) else page_lookup s q) \<and>
     tracked_page_count t = tracked_page_count s \<and> dropped_page_count t = dropped_page_count s \<and>
     index_ok t"

lemma pmm_took_inv:
  assumes "pmm_inv s" and "pmm_took s ps st t"
  shows "pmm_inv t"
proof (rule pmm_inv_change [OF assms(1)])
  note s = pmm_invD [OF assms(1)]
  show "index_ok t" "tracked_page_count t = tracked_page_count s"
    using assms(2) by (simp_all add: pmm_took_def)
  show "dom (page_lookup t) = dom (page_lookup s)"
    using assms(2) s(3) by (force simp: pmm_took_def dom_def split: if_splits)
  show "distinct (free_page_stack t)"
    using assms(2) s(2) by (simp add: pmm_took_def)
  show "page_lookup t p = Some (PMM_PAGE_FREE, 0)" if "p \<in> set (free_page_stack t)" for p
    using that assms(2) s(3) by (simp add: pmm_took_def)
  show "r \<noteq> 0" if "page_lookup t p = Some (PMM_PAGE_ALLOCATED, r)" for p r
    using that assms(2) s(5) by (auto simp: pmm_took_def split: if_splits)
qed

lemma pmm_took_no_leak:
  assumes "pmm_no_leak s" and "pmm_took s ps PMM_PAGE_ALLOCATED t"
  shows "pmm_no_leak t"
  using assms by (auto simp: pmm_no_leak_def pmm_took_def split: if_splits)

lemma butlast_eq_filter: "distinct xs \<Longrightarrow> xs \<noteq> [] \<Longrightarrow> butlast xs = filter (\<lambda>q. q \<noteq> last xs) xs"
  by (induction xs rule: rev_induct) (auto intro!: filter_True [symmetric])

lemma remove_segment_eq_filter:
  assumes "distinct xs"
  shows "take k xs @ drop (k + n) xs = filter (\<lambda>q. q \<notin> set (take n (drop k xs))) xs"
proof -
  let ?seg = "take n (drop k xs)"
  have split: "xs = take k xs @ ?seg @ drop (k + n) xs"
    by (metis add.commute append_take_drop_id drop_drop)
  with assms have "distinct (take k xs @ ?seg @ drop (k + n) xs)" by simp
  then have "set (take k xs) \<inter> set ?seg = {}" "set (drop (k + n) xs) \<inter> set ?seg = {}"
    by auto
  then have "filter (\<lambda>q. q \<notin> set ?seg) (take k xs @ ?seg @ drop (k + n) xs) = take k xs @ drop (k + n) xs"
    by (auto intro!: arg_cong2 [where f = append] filter_True simp: filter_empty_conv)
  with split show ?thesis by simp
qed

lemma pmm_took_one:
  assumes inv: "pmm_inv s" and "p \<in> set (free_page_stack s)"
    and stk: "ys = filter (\<lambda>q. q \<noteq> p) (free_page_stack s)"
  shows "pmm_took s [p] PMM_PAGE_ALLOCATED ((page_set s p PMM_PAGE_ALLOCATED 1)\<lparr>free_page_stack := ys\<rparr>)"
proof -
  from pmm_invD(3) [OF inv assms(2)] have "page_lookup s p \<noteq> None" by simp
  with pmm_invD(1) [OF inv] assms show ?thesis
    by (auto simp: pmm_took_def pidx.lookup_update pidx.ok_update)
qed

lemma pmm_alloc_page_spec:
  assumes "pmm_inv s"
  shows "pmm_alloc_page s =
     (if free_page_stack s = [] then (0, s)
      else (last (free_page_stack s),
            (page_set s (last (free_page_stack s)) PMM_PAGE_ALLOCATED 1)
              \<lparr>free_page_stack := butlast (free_page_stack s)\<rparr>))"
  using pmm_invD(1,3) [OF assms] by (simp add: pmm_alloc_page_def free_page_count_def page_mark_allocated_eq Let_def)

lemma pmm_alloc_page_took:
  assumes "pmm_inv s" and "pmm_alloc_page s = (p, t)"
  shows "p = 0 \<and> t = s \<and> free_page_stack s = [] \<or> p \<in> set (free_page_stack s) \<and> pmm_took s [p] PMM_PAGE_ALLOCATED t"
proof (cases "free_page_stack s = []")
  case True
  with assms show ?thesis by (simp add: pmm_alloc_page_spec)
next
  case False
  with assms pmm_took_one [OF assms(1) last_in_set [OF False]]
  show ?thesis
    by (auto simp: pmm_alloc_page_spec butlast_eq_filter pmm_invD)
qed

lemma pmm_alloc_below_from_took:
  assumes "pmm_inv s" and "k \<le> length (free_page_stack s)" and "pmm_alloc_below_from k m s = (p, t)"
  shows "p = 0 \<and> t = s \<or>
         p \<in> set (free_page_stack s) \<and> p + PMM_PAGE_SIZE \<le> m \<and> pmm_took s [p] PMM_PAGE_ALLOCATED t"
  using assms(2,3)
proof (induction k)
  case 0
  then show ?case by simp
next
  case (Suc k)
  let ?p = "free_page_stack s ! k"
  show ?case
  proof (cases "?p + PMM_PAGE_SIZE > m")
    case True
    with Suc show ?thesis by (simp add: Let_def)
  next
    case False
    from Suc.prems(1) have in_stack: "?p \<in> set (free_page_stack s)" by simp
    from pmm_invD(3) [OF assms(1) this] have lk: "page_lookup s ?p = Some (PMM_PAGE_FREE, 0)" .
    note i = page_lookup_SomeD [OF lk]
    from i(2) have found: "\<not> PMM_PAGE_INDEX_SIZE \<le> page_index_find s ?p" by simp
    have "take k (free_page_stack s) @ drop (Suc k) (free_page_stack s) =
          filter (\<lambda>q. q \<noteq> ?p) (free_page_stack s)"
      using remove_segment_eq_filter [OF pmm_invD(2) [OF assms(1)], of k 1] Suc.prems(1)
      by (simp add: take_Suc_conv_app_nth hd_drop_conv_nth take_Suc)
    from pmm_took_one [OF assms(1) in_stack this]
    show ?thesis
      using Suc.prems(2) False i(3-5) found lk pmm_invD(1) [OF assms(1)] in_stack
      by (simp add: Let_def page_mark_allocated_eq not_less) metis
  qed
qed

lemma pmm_alloc_page_below_took:
  assumes "pmm_inv s" and "pmm_alloc_page_below s m = (p, t)"
  shows "p = 0 \<and> t = s \<or>
         p \<in> set (free_page_stack s) \<and> p + PMM_PAGE_SIZE \<le> m \<and> pmm_took s [p] PMM_PAGE_ALLOCATED t"
  using assms pmm_alloc_below_from_took [OF assms(1) order_refl, of m p t]
  by (auto simp: pmm_alloc_page_below_def free_page_count_def split: if_splits)

section \<open>Contiguous runs\<close>

text \<open>The part of the stack from \<open>k\<close> on, \<open>n\<close> entries long, descends page by page.\<close>

definition descending_run :: "u64 list \<Rightarrow> nat \<Rightarrow> nat \<Rightarrow> bool" where
  "descending_run xs k n \<longleftrightarrow> (\<forall>j. k \<le> j \<and> Suc j < k + n \<longrightarrow> xs ! j = xs ! Suc j + PMM_PAGE_SIZE)"

lemma descending_run_one [simp]: "descending_run xs k (Suc 0)"
  by (auto simp: descending_run_def)

lemma descending_run_extend:
  assumes "descending_run xs (Suc k) n" and "xs ! k = xs ! Suc k + PMM_PAGE_SIZE"
  shows "descending_run xs k (Suc n)"
  using assms by (auto simp: descending_run_def le_iff_eq_or_Suc_le [of k])

lemma descending_run_nth:
  assumes "descending_run xs k n" and "i < n"
  shows "xs ! (k + n - 1 - i) = xs ! (k + n - 1) + of_nat i * PMM_PAGE_SIZE"
  using assms(2)
proof (induction i)
  case 0
  then show ?case by simp
next
  case (Suc i)
  let ?j = "k + n - 1 - Suc i"
  from Suc.prems have j: "k + n - 1 - i = Suc ?j" "k \<le> ?j" "Suc ?j < k + n" by auto
  with assms(1) have "xs ! ?j = xs ! Suc ?j + PMM_PAGE_SIZE"
    unfolding descending_run_def by blast
  with j(1) have "xs ! ?j = xs ! (k + n - 1 - i) + PMM_PAGE_SIZE" by simp
  with Suc show ?case by (simp add: algebra_simps)
qed

lemma pmm_span_eq_segment:
  assumes "descending_run xs k n" and "k + n \<le> length xs" and "0 < n"
  shows "pmm_span (xs ! (k + n - 1)) n = rev (take n (drop k xs))"
proof (rule nth_equalityI)
  show "length (pmm_span (xs ! (k + n - 1)) n) = length (rev (take n (drop k xs)))"
    using assms(2) by (simp add: pmm_span_def)
next
  fix i assume "i < length (pmm_span (xs ! (k + n - 1)) n)"
  then have i: "i < n" by (simp add: pmm_span_def)
  with assms(2) have "length (take n (drop k xs)) = n" by simp
  with i assms(2) have "rev (take n (drop k xs)) ! i = xs ! (k + (n - Suc i))"
    by (subst rev_nth) simp_all
  also from i have "k + (n - Suc i) = k + n - 1 - i" by simp
  finally show "pmm_span (xs ! (k + n - 1)) n ! i = rev (take n (drop k xs)) ! i"
    using descending_run_nth [OF assms(1) i] i by (simp add: pmm_span_def)
qed

lemma pmm_mark_all_eq:
  assumes "index_ok s" and "distinct ps" and "\<forall>p \<in> set ps. page_lookup s p = Some (PMM_PAGE_FREE, 0)"
  shows "pmm_mark_all ps s = (True, fold (\<lambda>p s. page_set s p PMM_PAGE_ALLOCATED 1) ps s)"
  using assms
proof (induction ps arbitrary: s)
  case Nil
  then show ?case by simp
next
  case (Cons p ps)
  let ?s' = "page_set s p PMM_PAGE_ALLOCATED 1"
  from Cons.prems have "index_ok ?s'" by (intro index_ok_page_set) auto
  moreover from Cons.prems have "\<forall>q \<in> set ps. page_lookup ?s' q = Some (PMM_PAGE_FREE, 0)"
    by (auto simp: pidx.lookup_update)
  ultimately show ?case using Cons by (simp add: page_mark_allocated_eq)
qed

lemma fold_page_set_frame:
  "free_page_stack (fold (\<lambda>p s. page_set s p st r) ps s) = free_page_stack s"
  "tracked_page_count (fold (\<lambda>p s. page_set s p st r) ps s) = tracked_page_count s"
  "dropped_page_count (fold (\<lambda>p s. page_set s p st r) ps s) = dropped_page_count s"
  by (induction ps arbitrary: s) simp_all

text \<open>Taking the pages of one segment of the stack and giving them a new entry.\<close>

lemma pmm_took_segment:
  assumes inv: "pmm_inv s" and "st \<noteq> PMM_PAGE_UNUSED" and "ps = rev (take n (drop k (free_page_stack s)))"
  shows "pmm_took s ps st (fold (\<lambda>p s. page_set s p st 1) ps (pmm_take_run s k n))"
proof -
  note s = pmm_invD [OF inv]
  from assms(3) have sub: "set ps \<subseteq> set (free_page_stack s)"
    by (auto dest: in_set_takeD in_set_dropD)
  with s(3) have present: "\<forall>p \<in> set ps. page_lookup (pmm_take_run s k n) p \<noteq> None"
    by (auto simp: pmm_take_run_def)
  have "index_ok (pmm_take_run s k n)" using s(1) by (simp add: pmm_take_run_def)
  note ok = pidx.ok_update_all [OF this present assms(2)]
  have lk: "page_lookup (pmm_take_run s k n) = page_lookup s" by (simp add: pmm_take_run_def)
  have stk: "free_page_stack (pmm_take_run s k n) = filter (\<lambda>q. q \<notin> set ps) (free_page_stack s)"
    using remove_segment_eq_filter [OF s(2), of k n] by (simp add: pmm_take_run_def assms(3))
  have "distinct ps" using assms(3) s(2) by simp
  moreover have "tracked_page_count (pmm_take_run s k n) = tracked_page_count s"
    "dropped_page_count (pmm_take_run s k n) = dropped_page_count s"
    by (simp_all add: pmm_take_run_def)
  ultimately show ?thesis
    using ok pidx.lookup_update_all [OF present, unfolded lk] sub stk
    by (simp add: pmm_took_def fold_page_set_frame)
qed

lemma pmm_contiguous_from_took:
  assumes "pmm_inv s" and "1 < n"
    and "k + run \<le> length (free_page_stack s)" and "0 < run" and "run < n"
    and "descending_run (free_page_stack s) k run"
    and "pmm_contiguous_from k run n s = (b, t)"
  shows "b = 0 \<and> t = s \<or>
         b \<in> set (free_page_stack s) \<and> pmm_took s (pmm_span b n) PMM_PAGE_ALLOCATED t"
  using assms(3-)
proof (induction k arbitrary: run)
  case 0
  then show ?case by simp
next
  case (Suc k)
  let ?xs = "free_page_stack s"
  show ?case
  proof (cases "?xs ! k = ?xs ! Suc k + PMM_PAGE_SIZE")
    case False
    with Suc.prems Suc.IH [of 1] assms(2) show ?thesis by (simp add: Let_def)
  next
    case step: True
    note run = descending_run_extend [OF Suc.prems(4) step]
    show ?thesis
    proof (cases "Suc run = n")
      case False
      with Suc.prems Suc.IH [of "Suc run"] run step show ?thesis by (simp add: Let_def)
    next
      case True
      let ?b = "?xs ! (k + n - 1)"
      from Suc.prems(1) True have len: "k + n \<le> length ?xs" by simp
      with assms(2) have b_in: "?b \<in> set ?xs" by simp
      from run True have "descending_run ?xs k n" by simp
      from pmm_span_eq_segment [OF this len] assms(2)
      have span: "pmm_span ?b n = rev (take n (drop k ?xs))" by simp
      from span have sub: "set (pmm_span ?b n) \<subseteq> set ?xs"
        by (auto dest: in_set_takeD in_set_dropD)
      with pmm_invD(1,3) [OF assms(1)] have all_free: "list_all (page_is_free s) (pmm_span ?b n)"
        by (auto simp: list_all_iff page_is_free_eq)
      have marks: "pmm_mark_all (pmm_span ?b n) (pmm_take_run s k n) =
        (True, fold (\<lambda>p s. page_set s p PMM_PAGE_ALLOCATED 1) (pmm_span ?b n) (pmm_take_run s k n))"
      proof (rule pmm_mark_all_eq)
        show "index_ok (pmm_take_run s k n)" using pmm_invD(1) [OF assms(1)] by (simp add: pmm_take_run_def)
        show "distinct (pmm_span ?b n)" unfolding span using pmm_invD(2) [OF assms(1)] by simp
        show "\<forall>p \<in> set (pmm_span ?b n). page_lookup (pmm_take_run s k n) p = Some (PMM_PAGE_FREE, 0)"
          using pmm_invD(3) [OF assms(1)] sub by (auto simp: pmm_take_run_def)
      qed
      from Suc.prems(5) step True all_free marks
        pmm_took_segment [OF assms(1) _ span, of PMM_PAGE_ALLOCATED] b_in
      show ?thesis by (auto simp: Let_def)
    qed
  qed
qed

lemma pmm_alloc_contiguous_took:
  assumes "pmm_inv s" and "pmm_alloc_contiguous s n = (b, t)" and "1 < n"
  shows "b = 0 \<and> t = s \<or>
         b \<in> set (free_page_stack s) \<and> pmm_took s (pmm_span b n) PMM_PAGE_ALLOCATED t"
proof (cases "free_page_count s < n")
  case True
  with assms show ?thesis by (simp add: pmm_alloc_contiguous_def)
next
  case False
  with assms pmm_contiguous_from_took [OF assms(1,3), of "free_page_count s - 1" 1 b t]
  show ?thesis by (auto simp: pmm_alloc_contiguous_def free_page_count_def)
qed

text \<open>The comparison with \<^verbatim>\<open>page_count\<close> only follows an increment of \<^verbatim>\<open>run\<close>.\<close>

lemma pmm_contiguous_from_one: "0 < run \<Longrightarrow> pmm_contiguous_from k run (Suc 0) s = (0, s)"
  by (induction k arbitrary: run) (simp_all add: Let_def)

lemma fold_page_ref_set_eq:
  assumes "distinct ps" and "\<forall>p \<in> set ps. page_lookup s p = Some (st, r0)"
  shows "fold (\<lambda>p s. snd (page_ref_set s p r)) ps s = fold (\<lambda>p s. page_set s p st r) ps s"
  using assms
proof (induction ps arbitrary: s)
  case Nil
  then show ?case by simp
next
  case (Cons p ps)
  from Cons.prems have "page_lookup s p \<noteq> None" by simp
  with Cons.prems have "\<forall>q \<in> set ps. page_lookup (page_set s p st r) q = Some (st, r0)"
    by (auto simp: pidx.lookup_update)
  moreover have "page_ref_set s p r = (True, page_set s p st r)"
    using Cons.prems by (intro page_ref_set_eq) simp
  ultimately show ?case using Cons.IH Cons.prems(1) by simp
qed

lemma pmm_contiguous_below_from_took:
  assumes "pmm_inv s" and "1 < n"
    and "k + run \<le> length (free_page_stack s)" and "0 < run" and "run < n"
    and "descending_run (free_page_stack s) k run"
    and "pmm_contiguous_below_from k run n m s = (b, t)"
  shows "b = 0 \<and> t = s \<or>
         b \<in> set (free_page_stack s) \<and> pmm_took s (pmm_span b n) PMM_PAGE_FREE t"
  using assms(3-)
proof (induction k arbitrary: run)
  case 0
  then show ?case by simp
next
  case (Suc k)
  let ?xs = "free_page_stack s"
  let ?fits = "?xs ! Suc k + PMM_PAGE_SIZE \<le> m \<and> ?xs ! k + PMM_PAGE_SIZE \<le> m"
  show ?case
  proof (cases "?fits \<and> ?xs ! k = ?xs ! Suc k + PMM_PAGE_SIZE")
    case False
    with Suc.prems Suc.IH [of 1] assms(2) show ?thesis by (auto simp: Let_def split: if_splits)
  next
    case step: True
    then have "?xs ! k = ?xs ! Suc k + PMM_PAGE_SIZE" by simp
    note run = descending_run_extend [OF Suc.prems(4) this]
    show ?thesis
    proof (cases "Suc run = n")
      case False
      with Suc.prems Suc.IH [of "Suc run"] run step show ?thesis
        by (auto simp: Let_def split: if_splits)
    next
      case True
      let ?b = "?xs ! (k + n - 1)"
      from Suc.prems(1) True have len: "k + n \<le> length ?xs" by simp
      with assms(2) have b_in: "?b \<in> set ?xs" by simp
      from run True have "descending_run ?xs k n" by simp
      from pmm_span_eq_segment [OF this len] assms(2)
      have span: "pmm_span ?b n = rev (take n (drop k ?xs))" by simp
      then have sub: "set (pmm_span ?b n) \<subseteq> set ?xs"
        by (auto dest: in_set_takeD in_set_dropD)
      have "fold (\<lambda>p s. snd (page_ref_set s p 1)) (pmm_span ?b n) (pmm_take_run s k n) =
            fold (\<lambda>p s. page_set s p PMM_PAGE_FREE 1) (pmm_span ?b n) (pmm_take_run s k n)"
      proof (rule fold_page_ref_set_eq)
        show "distinct (pmm_span ?b n)" unfolding span using pmm_invD(2) [OF assms(1)] by simp
        show "\<forall>p \<in> set (pmm_span ?b n). page_lookup (pmm_take_run s k n) p = Some (PMM_PAGE_FREE, 0)"
          using pmm_invD(3) [OF assms(1)] sub by (auto simp: pmm_take_run_def)
      qed
      from Suc.prems(5) step True this b_in
        pmm_took_segment [OF assms(1) _ span, of PMM_PAGE_FREE]
      show ?thesis by (auto simp: Let_def)
    qed
  qed
qed

lemma pmm_alloc_contiguous_below_took:
  assumes "pmm_inv s" and "pmm_alloc_contiguous_below s n m = (b, t)" and "1 < n"
  shows "b = 0 \<and> t = s \<or>
         b \<in> set (free_page_stack s) \<and> pmm_took s (pmm_span b n) PMM_PAGE_FREE t"
proof (cases "free_page_count s < n \<or> m \<le> of_nat n * PMM_PAGE_SIZE")
  case True
  with assms(2,3) show ?thesis by (auto simp: pmm_alloc_contiguous_below_def split: if_splits)
next
  case False
  with assms pmm_contiguous_below_from_took [OF assms(1,3), of "free_page_count s - 1" 1 m b t]
  show ?thesis by (auto simp: pmm_alloc_contiguous_below_def free_page_count_def)
qed

section \<open>References\<close>

lemma pmm_inv_page_set:
  assumes inv: "pmm_inv s" and lk: "page_lookup s p = Some (PMM_PAGE_ALLOCATED, r0)" and "r \<noteq> 0"
  shows "pmm_inv (page_set s p PMM_PAGE_ALLOCATED r)"
proof (rule pmm_inv_change [OF inv])
  note s = pmm_invD [OF inv]
  from lk have p: "page_lookup s p \<noteq> None" by simp
  show "index_ok (page_set s p PMM_PAGE_ALLOCATED r)" using s(1) p by (simp add: pidx.ok_update)
  show "dom (page_lookup (page_set s p PMM_PAGE_ALLOCATED r)) = dom (page_lookup s)"
    using p by (rule pidx.dom_update)
  show "page_lookup (page_set s p PMM_PAGE_ALLOCATED r) q = Some (PMM_PAGE_FREE, 0)"
    if "q \<in> set (free_page_stack (page_set s p PMM_PAGE_ALLOCATED r))" for q
    using that s(3) [of q] lk by (auto simp: pidx.lookup_update [OF p])
  show "r' \<noteq> 0" if "page_lookup (page_set s p PMM_PAGE_ALLOCATED r) q = Some (PMM_PAGE_ALLOCATED, r')" for q r'
    using that s(5) assms(3) by (auto simp: pidx.lookup_update [OF p] split: if_splits)
qed (use pmm_invD(2) [OF inv] in simp_all)

lemma ref_succ_nonzero: "r \<noteq> 0xffffffff \<Longrightarrow> r + 1 \<noteq> 0" for r :: u32
proof
  assume "r \<noteq> 0xffffffff" "r + 1 = 0"
  then have "r = - 1" by (simp add: add_eq_0_iff2)
  with \<open>r \<noteq> 0xffffffff\<close> show False by simp
qed

lemma pmm_retain_page_inv:
  assumes "pmm_inv s" and "pmm_retain_page s p = (ok, t)"
  shows "pmm_inv t"
  using assms pmm_inv_page_set [OF assms(1)]
  by (auto simp: pmm_retain_page_eq [OF pmm_invD(1) [OF assms(1)]] ref_succ_nonzero
      split: option.splits pmm_page_state.splits if_splits)

text \<open>A page that is not on the stack leaves room for itself: the stack holds tracked pages only.\<close>

lemma free_stack_has_room:
  assumes inv: "pmm_inv s" and "page_lookup s p \<noteq> None" and "p \<notin> set (free_page_stack s)"
  shows "free_page_count s < PMM_MAX_TRACKED_PAGES"
proof -
  note s = pmm_invD [OF inv]
  have "set (free_page_stack s) \<subset> dom (page_lookup s)"
    using assms(2,3) s(3) by (auto simp: dom_def)
  moreover have "finite (dom (page_lookup s))"
    by simp
  ultimately have "card (set (free_page_stack s)) < card (dom (page_lookup s))"
    by (simp add: psubset_card_mono)
  with s(2,6,7) show ?thesis by (simp add: free_page_count_def distinct_card)
qed

text \<open>
  What release does under the invariant: the test for a full stack never fires.
\<close>

lemma pmm_release_page_spec:
  assumes inv: "pmm_inv s"
  shows "pmm_release_page s p =
     (case page_lookup s p of
        Some (PMM_PAGE_ALLOCATED, r) \<Rightarrow>
          (True, if r \<noteq> 1 then page_set s p PMM_PAGE_ALLOCATED (r - 1)
                 else (page_set s p PMM_PAGE_FREE 0)\<lparr>free_page_stack := free_page_stack s @ [p]\<rparr>)
      | _ \<Rightarrow> (False, s))"
proof (cases "\<exists>r. page_lookup s p = Some (PMM_PAGE_ALLOCATED, r)")
  case True
  then obtain r where lk: "page_lookup s p = Some (PMM_PAGE_ALLOCATED, r)" by blast
  note s = pmm_invD [OF inv]
  from lk s(3) [of p] have "p \<notin> set (free_page_stack s)" by auto
  with lk have "free_page_count s < PMM_MAX_TRACKED_PAGES"
    by (intro free_stack_has_room [OF inv]) simp_all
  with lk s(4,5) [OF lk] show ?thesis
    by (simp add: pmm_release_page_eq [OF s(1)] page_in_pool_def)
next
  case False
  then show ?thesis
    by (auto simp: pmm_release_page_eq [OF pmm_invD(1) [OF inv]]
        split: option.splits pmm_page_state.splits)
qed

lemma pmm_release_page_inv:
  assumes inv: "pmm_inv s" and rel: "pmm_release_page s p = (ok, t)"
  shows "pmm_inv t"
proof (cases "page_lookup s p = Some (PMM_PAGE_ALLOCATED, 1)")
  case True
  let ?u = "page_set s p PMM_PAGE_FREE 0"
  note s = pmm_invD [OF inv]
  from True have p: "page_lookup s p \<noteq> None" by simp
  from True s(3) [of p] have off: "p \<notin> set (free_page_stack s)" by auto
  have "pmm_inv (?u\<lparr>free_page_stack := free_page_stack s @ [p]\<rparr>)"
    by (rule pmm_inv_change [OF inv])
      (use s(2,3,5) off p pidx.ok_update [OF s(1) p] pidx.dom_update [OF p] in
        \<open>auto simp: pidx.lookup_update [OF p] split: if_splits\<close>)
  with True rel show ?thesis by (simp add: pmm_release_page_spec [OF inv])
next
  case False
  with rel inv pmm_inv_page_set [OF inv] show ?thesis
    by (auto simp: pmm_release_page_spec [OF inv] split: option.splits pmm_page_state.splits if_splits)
qed

lemma pmm_free_page_inv: "pmm_inv s \<Longrightarrow> pmm_free_page s p = (ok, t) \<Longrightarrow> pmm_inv t"
  by (auto simp: pmm_free_page_def intro: pmm_release_page_inv)

end
