(* ===== verification/Pmm_Memory.thy ===== *)
theory Pmm_Memory
  imports Pmm_Safety
begin

text \<open>
  Which physical memory the page allocator manages (\<^verbatim>\<open>pmm_init\<close> and \<^verbatim>\<open>pmm_reserve_range\<close>
  of \<^verbatim>\<open>kernel/mem/pmm.c\<close>), in terms of byte ranges: rounding of a range to pages, the pages
  a memory map makes available, and the pages a reservation withdraws. The last section
  closes the operations under reachability.
\<close>

section \<open>Rounding to pages\<close>

definition bytes_overlap :: "u64 \<Rightarrow> u64 \<Rightarrow> u64 \<Rightarrow> bool" where
  "bytes_overlap base sz p \<longleftrightarrow>
     unat p < unat base + unat sz \<and> unat base < unat p + unat PMM_PAGE_SIZE"

lemma unat_page_size [simp]: "unat PMM_PAGE_SIZE = 4096"
  by (simp add: PMM_PAGE_SIZE_def)

lemma unat_and_low: "unat (x AND (0xfff :: u64)) = unat x mod 4096"
proof -
  have "x AND 0xfff = take_bit 12 x" by (simp add: take_bit_eq_mask mask_eq_exp_minus_1)
  then have "unat (x AND 0xfff) = take_bit 12 (unat x)" by (simp only: unsigned_take_bit_eq)
  then show ?thesis by (simp add: take_bit_eq_mod)
qed

lemma unat_and_not_low: "unat (x AND NOT (0xfff :: u64)) = unat x - unat x mod 4096"
proof -
  have "(x AND NOT 0xfff) + (x AND 0xfff) = (x AND NOT 0xfff) OR (x AND 0xfff)"
    by (rule disjunctive_add_eq_or) (simp add: bit_eq_iff bit_simps)
  also have "\<dots> = x" by (rule bit_eqI) (auto simp only: bit_simps)
  finally have "x AND NOT 0xfff = x - (x AND 0xfff)" by (metis add_diff_cancel)
  moreover have "x AND 0xfff \<le> x" by (rule word_and_le2)
  ultimately show ?thesis by (simp add: unat_sub unat_and_low)
qed

lemma unat_align_down: "unat (align_down x PMM_PAGE_SIZE) = unat x div 4096 * 4096"
  using unat_and_not_low [of x]
  by (simp add: align_down_def PMM_PAGE_SIZE_def minus_mod_eq_div_mult)

lemma unat_align_up:
  assumes "x \<le> - 4096"
  shows "unat (align_up x PMM_PAGE_SIZE) = (unat x + 4095) div 4096 * 4096"
proof -
  from assms have "unat x + 4095 < 2 ^ 64"
    by (simp add: word_le_nat_alt)
  then have "unat (x + 4095) = unat x + 4095"
    by (subst unat_add_lem [THEN iffD1]) simp_all
  with unat_and_not_low [of "x + 4095"] show ?thesis
    by (simp add: align_up_def PMM_PAGE_SIZE_def minus_mod_eq_div_mult add.commute)
qed

lemma page_aligned_mod: "page_aligned p \<longleftrightarrow> unat p mod 4096 = 0"
  using unat_and_low [of p] by (simp add: page_aligned_def PMM_PAGE_SIZE_def flip: unat_eq_0)

section \<open>Reservation\<close>

definition pmm_page_hit :: "u64 \<Rightarrow> u64 \<Rightarrow> u64 \<Rightarrow> bool" where
  "pmm_page_hit rb re p \<longleftrightarrow> range_overlaps p (p + PMM_PAGE_SIZE) rb re"

lemma pmm_reserve_from_eq:
  assumes "\<forall>p \<in> set ps. page_lookup s p = Some (PMM_PAGE_FREE, 0)" and "distinct ps"
  shows "pmm_reserve_from ps kept rb re s =
    (fold (\<lambda>p s. page_set s p PMM_PAGE_RESERVED 0) (filter (pmm_page_hit rb re) ps) s)
      \<lparr>free_page_stack := kept @ filter (\<lambda>p. \<not> pmm_page_hit rb re p) ps\<rparr>"
  using assms
proof (induction ps arbitrary: s kept)
  case Nil
  then show ?case by simp
next
  case (Cons p ps)
  then have lk: "page_lookup s p = Some (PMM_PAGE_FREE, 0)" by simp
  then have p: "page_lookup s p \<noteq> None" by simp
  from Cons.prems p
  have "\<forall>q \<in> set ps. page_lookup (page_set s p PMM_PAGE_RESERVED 0) q = Some (PMM_PAGE_FREE, 0)"
    by (auto simp: pidx.lookup_update)
  moreover have "s\<lparr>page_index_state := (page_index_state s)(page_index_find s p := PMM_PAGE_RESERVED),
      page_index_ref_count := (page_index_ref_count s)(page_index_find s p := 0)\<rparr> =
      page_set s p PMM_PAGE_RESERVED 0"
    by (simp add: page_set_def Let_def)
  ultimately show ?case
    using Cons page_lookup_SomeD [OF lk] by (simp add: pmm_page_hit_def Let_def)
qed

lemma pmm_reserve_from_effect:
  assumes inv: "pmm_inv s" and t: "t = pmm_reserve_from (free_page_stack s) [] rb re s"
  shows "free_page_stack t = filter (\<lambda>p. \<not> pmm_page_hit rb re p) (free_page_stack s)"
    "page_lookup t = (\<lambda>q. if q \<in> set (free_page_stack s) \<and> pmm_page_hit rb re q
                        then Some (PMM_PAGE_RESERVED, 0) else page_lookup s q)"
    "tracked_page_count t = tracked_page_count s" "dropped_page_count t = dropped_page_count s"
    "index_ok t"
proof -
  note s = pmm_invD [OF inv]
  let ?hits = "filter (pmm_page_hit rb re) (free_page_stack s)"
  let ?u = "fold (\<lambda>p s. page_set s p PMM_PAGE_RESERVED 0) ?hits s"
  have t': "t = ?u\<lparr>free_page_stack := filter (\<lambda>p. \<not> pmm_page_hit rb re p) (free_page_stack s)\<rparr>"
    unfolding t using s(2,3) by (simp add: pmm_reserve_from_eq)
  from s(3) have present: "\<forall>p \<in> set ?hits. page_lookup s p \<noteq> None" by simp
  show "free_page_stack t = filter (\<lambda>p. \<not> pmm_page_hit rb re p) (free_page_stack s)"
    "tracked_page_count t = tracked_page_count s" "dropped_page_count t = dropped_page_count s"
    by (simp_all add: t' fold_page_set_frame)
  show "page_lookup t = (\<lambda>q. if q \<in> set (free_page_stack s) \<and> pmm_page_hit rb re q
                        then Some (PMM_PAGE_RESERVED, 0) else page_lookup s q)"
    by (simp add: t' pidx.lookup_update_all [OF present] conj_commute)
  show "index_ok t"
    using pidx.ok_update_all [OF s(1) present, of PMM_PAGE_RESERVED 0] by (simp add: t')
qed

lemma pmm_reserve_from_inv:
  assumes inv: "pmm_inv s"
  shows "pmm_inv (pmm_reserve_from (free_page_stack s) [] rb re s)" (is "pmm_inv ?t")
proof (rule pmm_inv_change [OF inv])
  note s = pmm_invD [OF inv] and t = pmm_reserve_from_effect [OF inv refl, of rb re]
  show "index_ok ?t" "tracked_page_count ?t = tracked_page_count s" by (rule t)+
  show "dom (page_lookup ?t) = dom (page_lookup s)"
    using s(3) by (force simp: t(2) dom_def split: if_splits)
  show "distinct (free_page_stack ?t)" using s(2) by (simp add: t(1))
  show "page_lookup ?t p = Some (PMM_PAGE_FREE, 0)" if "p \<in> set (free_page_stack ?t)" for p
    using that s(3) by (simp add: t(1,2))
  show "r \<noteq> 0" if "page_lookup ?t p = Some (PMM_PAGE_ALLOCATED, r)" for p r
    using that s(5) by (auto simp: t(2) split: if_splits)
qed

lemma pmm_reserve_range_inv: "pmm_inv s \<Longrightarrow> pmm_inv (pmm_reserve_range s base sz)"
  by (simp add: pmm_reserve_range_def Let_def pmm_reserve_from_inv split: option.split)

lemma range_end_Some:
  "range_end base sz = Some e \<longleftrightarrow> unat base + unat sz < 2 ^ 64 \<and> e = base + sz"
proof -
  have minus_one: "(- 1 :: u64) = 0xffffffffffffffff" by simp
  have "unat (- 1 - base) = 2 ^ 64 - 1 - unat base"
    unfolding minus_one using unsigned_less [of base, where 'a = nat]
    by (subst unat_sub) (simp_all add: word_le_nat_alt)
  then have "sz > - 1 - base \<longleftrightarrow> 2 ^ 64 \<le> unat base + unat sz"
    unfolding word_less_nat_alt using unsigned_less [of base, where 'a = nat] by auto
  then show ?thesis by (auto simp: range_end_def)
qed

lemma unat_reserve_end:
  assumes "unat base + unat sz \<le> 2 ^ 64 - 4096"
  shows "unat (align_up (base + sz) PMM_PAGE_SIZE) = (unat base + unat sz + 4095) div 4096 * 4096"
proof -
  from assms have "unat (base + sz) = unat base + unat sz" by (subst unat_add_lem [THEN iffD1]) simp_all
  moreover from this assms have "base + sz \<le> - 4096" by (simp add: word_le_nat_alt)
  ultimately show ?thesis using unat_align_up by simp
qed

lemma reserve_range_nonempty:
  assumes "sz \<noteq> 0" and "unat base + unat sz \<le> 2 ^ 64 - 4096"
  shows "align_down base PMM_PAGE_SIZE < align_up (base + sz) PMM_PAGE_SIZE"
proof -
  have "0 < unat sz" using assms(1) by (simp add: unat_gt_0)
  then show ?thesis
    by (simp add: word_less_nat_alt unat_reserve_end [OF assms(2)] unat_align_down)
qed

lemma page_above_iff: "4096 * k < (e + 4095) div 4096 * 4096 \<longleftrightarrow> 4096 * k < e" for e k :: nat
proof -
  have "k < (e + 4095) div 4096 \<longleftrightarrow> Suc k * 4096 \<le> e + 4095"
    by (simp only: less_eq_div_iff_mult_less_eq flip: Suc_le_eq)
  then show ?thesis by auto
qed

lemma page_below_iff: "b div 4096 * 4096 < 4096 * k + 4096 \<longleftrightarrow> b < 4096 * k + 4096" for b k :: nat
  using div_less_iff_less_mult [of 4096 b "Suc k"] by (auto simp: algebra_simps)

lemma page_hit_iff_bytes:
  assumes "page_in_pool p" and "unat base + unat sz \<le> 2 ^ 64 - 4096"
  shows "pmm_page_hit (align_down base PMM_PAGE_SIZE) (align_up (base + sz) PMM_PAGE_SIZE) p \<longleftrightarrow>
           bytes_overlap base sz p"
proof -
  from assms(1) have p: "unat p mod 4096 = 0" "unat p < 2 ^ 32"
    by (simp_all add: page_in_pool_def page_aligned_mod PMM_DIRECT_MAP_LIMIT_def word_less_nat_alt)
  then have p': "unat (p + PMM_PAGE_SIZE) = unat p + 4096"
    by (subst unat_add_lem [THEN iffD1]) simp_all
  from p(1) obtain k where k: "unat p = 4096 * k" by auto
  show ?thesis
    by (simp only: pmm_page_hit_def range_overlaps_def bytes_overlap_def word_less_nat_alt p' k
        unat_reserve_end [OF assms(2)] unat_align_down unat_page_size page_above_iff page_below_iff)
qed

lemma pmm_reserve_range_effect:
  assumes inv: "pmm_inv s" and "sz \<noteq> 0" and "unat base + unat sz \<le> 2 ^ 64 - 4096"
    and "pmm_reserve_range s base sz = t"
  shows "free_page_stack t = filter (\<lambda>p. \<not> bytes_overlap base sz p) (free_page_stack s)"
    "page_lookup t = (\<lambda>p. if p \<in> set (free_page_stack s) \<and> bytes_overlap base sz p
                        then Some (PMM_PAGE_RESERVED, 0) else page_lookup s p)"
    "tracked_page_count t = tracked_page_count s" "dropped_page_count t = dropped_page_count s"
proof -
  let ?rb = "align_down base PMM_PAGE_SIZE" and ?re = "align_up (base + sz) PMM_PAGE_SIZE"
  have "range_end base sz = Some (base + sz)" using assms(3) by (simp add: range_end_Some)
  moreover have "\<not> ?re \<le> ?rb" using reserve_range_nonempty [OF assms(2,3)] by simp
  ultimately have "t = pmm_reserve_from (free_page_stack s) [] ?rb ?re s"
    using assms(2,4) by (simp add: pmm_reserve_range_def Let_def)
  note t = pmm_reserve_from_effect [OF inv this]
  have hit: "pmm_page_hit ?rb ?re p = bytes_overlap base sz p" if "p \<in> set (free_page_stack s)" for p
    using that pmm_invD(3,4) [OF inv] page_hit_iff_bytes [OF _ assms(3)] by blast
  show "free_page_stack t = filter (\<lambda>p. \<not> bytes_overlap base sz p) (free_page_stack s)"
    using hit by (auto simp: t(1) intro: filter_cong)
  show "page_lookup t = (\<lambda>p. if p \<in> set (free_page_stack s) \<and> bytes_overlap base sz p
                      then Some (PMM_PAGE_RESERVED, 0) else page_lookup s p)"
    unfolding t(2) using hit by (intro ext) auto
  show "tracked_page_count t = tracked_page_count s" "dropped_page_count t = dropped_page_count s"
    by (rule t)+
qed

section \<open>Initialisation\<close>

text \<open>A page of the memory map that the allocator may hand out.\<close>

definition usable_page :: "janus_memmap_entry list \<Rightarrow> u64 \<Rightarrow> bool" where
  "usable_page memmap p \<longleftrightarrow>
     (\<exists>e \<in> set memmap. mm_type e = JANUS_MEMMAP_USABLE \<and> unat (mm_base e) \<le> unat p \<and>
        unat p + 4096 \<le> unat (mm_base e) + unat (mm_length e))"

definition pmm_fresh :: "(u64 \<Rightarrow> bool) \<Rightarrow> pmm \<Rightarrow> bool" where
  "pmm_fresh P s \<longleftrightarrow>
     pmm_inv s \<and> (\<forall>p \<in> dom (page_lookup s). p \<in> set (free_page_stack s) \<and> P p)"

lemma pmm_fresh_dropped: "pmm_fresh P s \<Longrightarrow> pmm_fresh P (s\<lparr>dropped_page_count := d\<rparr>)"
  by (simp add: pmm_fresh_def pmm_inv_def)

lemma pmm_fresh_add:
  assumes fresh: "pmm_fresh P s" and pool: "page_in_pool p" and "P p"
    and room: "unat (tracked_page_count s) < PMM_MAX_TRACKED_PAGES"
    and add: "page_index_add s p = (True, t)"
  shows "pmm_fresh P (t\<lparr>free_page_stack := free_page_stack t @ [p],
                        tracked_page_count := tracked_page_count t + 1\<rparr>)" (is "pmm_fresh P ?u")
proof -
  from fresh have inv: "pmm_inv s" by (simp add: pmm_fresh_def)
  note s = pmm_invD [OF inv]
  note t = page_index_add_spec [OF s(1) pool_page_nonzero [OF pool] add]
  have off: "p \<notin> set (free_page_stack s)" using s(3) [of p] t(2) by auto
  have "unat (tracked_page_count s + 1) = unat (tracked_page_count s) + 1"
    using room by (subst unat_add_lem [THEN iffD1]) (simp_all add: PMM_MAX_TRACKED_PAGES_def)
  moreover have "card (insert p (dom (page_lookup s))) = Suc (card (dom (page_lookup s)))"
    using t(2) by (intro card_insert_disjoint) auto
  ultimately have "pmm_inv ?u"
    using s t(1,2) pool room off
    by (auto simp: pmm_inv_def t(3-5))
  then show ?thesis using fresh assms(3) by (auto simp: pmm_fresh_def t(3-5))
qed

lemma page_aligned_prev:
  assumes "page_aligned page" and "page_aligned rb" and "rb < page"
  shows "unat (page - PMM_PAGE_SIZE) + 4096 = unat page"
    "page_aligned (page - PMM_PAGE_SIZE)" "rb \<le> page - PMM_PAGE_SIZE"
proof -
  from assms obtain i j where ij: "unat page = 4096 * i" "unat rb = 4096 * j"
    by (auto simp: page_aligned_mod mod_eq_0_iff_dvd elim!: dvdE)
  with assms(3) have "j < i" by (simp add: word_less_nat_alt)
  with ij have "PMM_PAGE_SIZE \<le> page" by (simp add: word_le_nat_alt)
  then have q: "unat (page - PMM_PAGE_SIZE) = unat page - 4096" by (simp add: unat_sub)
  with ij \<open>j < i\<close> show "unat (page - PMM_PAGE_SIZE) + 4096 = unat page" by simp
  have "unat (page - PMM_PAGE_SIZE) = 4096 * (i - 1)"
    using q ij by (simp add: diff_mult_distrib2)
  then show "page_aligned (page - PMM_PAGE_SIZE)" by (simp add: page_aligned_mod)
  show "rb \<le> page - PMM_PAGE_SIZE" using q ij \<open>j < i\<close> by (simp add: word_le_nat_alt)
qed

lemma pmm_init_pages_fresh:
  assumes "pmm_fresh P s" and "page \<le> PMM_DIRECT_MAP_LIMIT" and "0x100000 \<le> region_base"
    and "page_aligned page" and "page_aligned region_base"
    and "\<And>q. page_in_pool q \<Longrightarrow> region_base \<le> q \<Longrightarrow> unat q + 4096 \<le> unat page \<Longrightarrow>
              \<not> pmm_page_hit kernel_base kernel_end q \<Longrightarrow> P q"
  shows "pmm_fresh P (pmm_init_pages s page region_base kernel_base kernel_end)"
  using assms
proof (induction s page region_base kernel_base kernel_end rule: pmm_init_pages.induct)
  case (1 s page rb kb ke)
  let ?q = "page - PMM_PAGE_SIZE"
  show ?case
  proof (cases "page > rb \<and> PMM_PAGE_SIZE \<le> page")
    case False
    show ?thesis by (subst pmm_init_pages.simps, subst if_not_P [OF False]) (rule 1)
  next
    case True
    note prev = page_aligned_prev [OF 1(7,8) conjunct1 [OF True]]
    then have lim: "?q < PMM_DIRECT_MAP_LIMIT"
      using 1(5) by (simp add: word_le_nat_alt word_less_nat_alt)
    then have pool: "page_in_pool ?q" using 1(6) prev by (simp add: page_in_pool_def)
    have P: "P ?q" if "\<not> pmm_page_hit kb ke ?q" using 1(9) prev pool that by simp
    have sub: "P p" if "page_in_pool p" "rb \<le> p" "unat p + 4096 \<le> unat ?q" "\<not> pmm_page_hit kb ke p" for p
      using that 1(9) prev(1) by simp
    note IH = 1(1-3) [OF True refl]
    consider (kernel) "pmm_page_hit kb ke ?q"
      | (full) "\<not> pmm_page_hit kb ke ?q" "PMM_MAX_TRACKED_PAGES \<le> unat (tracked_page_count s)"
      | (add) "\<not> pmm_page_hit kb ke ?q" "\<not> PMM_MAX_TRACKED_PAGES \<le> unat (tracked_page_count s)"
      by blast
    then show ?thesis
    proof cases
      case kernel
      with True IH(1) 1(4,6,8) lim prev sub show ?thesis
        by (subst pmm_init_pages.simps) (simp add: Let_def pmm_page_hit_def)
    next
      case full
      with True 1(4) show ?thesis
        by (subst pmm_init_pages.simps) (simp add: Let_def pmm_page_hit_def pmm_fresh_dropped)
    next
      case add
      then have hit: "\<not> range_overlaps ?q (?q + PMM_PAGE_SIZE) kb ke" by (simp add: pmm_page_hit_def)
      obtain b t where bt: "page_index_add s ?q = (b, t)" by fastforce
      show ?thesis
      proof (cases b)
        case False
        with bt have "t = s" by (auto simp: page_index_add_def Let_def split: if_splits)
        with IH(3) [OF hit add(2) bt [symmetric]] False True add hit 1(4,6,8) lim prev sub bt
        show ?thesis by (subst pmm_init_pages.simps) (simp add: Let_def pmm_fresh_dropped)
      next
        case b: True
        have "pmm_fresh P (t\<lparr>free_page_stack := free_page_stack t @ [?q],
                        tracked_page_count := tracked_page_count t + 1\<rparr>)"
          using pmm_fresh_add [OF 1(4) pool P] add bt b by simp
        with IH(2) [OF hit add(2) bt [symmetric]] b True add hit 1(6,8) lim prev sub bt
        show ?thesis by (subst pmm_init_pages.simps) (simp add: Let_def)
      qed
    qed
  qed
qed

lemma page_aligned_align_down: "page_aligned (align_down x PMM_PAGE_SIZE)"
  by (simp add: page_aligned_mod unat_align_down)

lemma page_aligned_align_up: "x \<le> - 4096 \<Longrightarrow> page_aligned (align_up x PMM_PAGE_SIZE)"
  by (simp add: page_aligned_mod unat_align_up)

lemma align_up_ge: "x \<le> - 4096 \<Longrightarrow> unat x \<le> unat (align_up x PMM_PAGE_SIZE)"
  by (simp add: unat_align_up)

lemma align_down_le: "unat (align_down x PMM_PAGE_SIZE) \<le> unat x"
  by (simp add: unat_align_down)

lemma page_aligned_limits: "page_aligned PMM_DIRECT_MAP_LIMIT" "page_aligned 0x100000"
  by (simp_all add: page_aligned_mod PMM_DIRECT_MAP_LIMIT_def)

lemma pmm_init_region_fresh:
  assumes fresh: "pmm_fresh P s" and base: "mm_base e \<le> - 4096"
    and P: "\<And>q. page_in_pool q \<Longrightarrow> usable_page [e] q \<Longrightarrow> \<not> pmm_page_hit kb ke q \<Longrightarrow> P q"
  shows "pmm_fresh P (pmm_init_region kb ke e s)"
proof (cases "range_end (mm_base e) (mm_length e)")
  case None
  with fresh show ?thesis by (simp add: pmm_init_region_def)
next
  case (Some re)
  let ?rb = "align_up (mm_base e) PMM_PAGE_SIZE" and ?re = "align_down re PMM_PAGE_SIZE"
  let ?rb1 = "if ?rb < 0x100000 then 0x100000 else ?rb"
  let ?re1 = "if ?re > PMM_DIRECT_MAP_LIMIT then PMM_DIRECT_MAP_LIMIT else ?re"
  from Some have re: "unat re = unat (mm_base e) + unat (mm_length e)"
    by (auto simp: range_end_Some intro: unat_add_lem [THEN iffD1])
  have "pmm_fresh P (pmm_init_pages s' ?re1 ?rb1 kb ke)"
    if s': "pmm_fresh P s'" and usable: "mm_type e = JANUS_MEMMAP_USABLE" for s'
  proof (rule pmm_init_pages_fresh [OF s'])
    fix q
    assume q: "page_in_pool q" "?rb1 \<le> q" "unat q + 4096 \<le> unat ?re1" "\<not> pmm_page_hit kb ke q"
    have "unat ?re1 \<le> unat re" "unat (mm_base e) \<le> unat ?rb1"
      using align_down_le [of re] align_up_ge [OF base] by (auto simp: word_less_nat_alt)
    moreover from q(2) have "unat ?rb1 \<le> unat q" by (simp only: word_le_nat_alt)
    ultimately have "usable_page [e] q"
      using q(3) usable by (simp only: usable_page_def re) simp
    with q P show "P q" by simp
  qed (use page_aligned_align_down page_aligned_align_up [OF base] page_aligned_limits in auto)
  with fresh pmm_fresh_dropped [OF fresh] Some show ?thesis
    by (auto simp: pmm_init_region_def Let_def)
qed

lemma pmm_cleared_fresh: "pmm_fresh P pmm_cleared"
  by (auto simp: pmm_fresh_def pmm_inv_def index_ok_def page_lookup_def Let_def pmm_cleared_def)

lemma pmm_init_fresh:
  assumes map: "\<forall>e \<in> set memmap. mm_base e \<le> - 4096"
    and kernel: "unat kaddr + unat ksize \<le> 2 ^ 64 - 4096"
  shows "pmm_fresh (\<lambda>p. usable_page memmap p \<and> \<not> bytes_overlap kaddr ksize p)
           (pmm_init s memmap kaddr ksize)" (is "pmm_fresh ?P _")
proof -
  let ?kb = "align_down kaddr PMM_PAGE_SIZE" and ?ke = "align_up (kaddr + ksize) PMM_PAGE_SIZE"
  have "pmm_fresh ?P (fold (pmm_init_region ?kb ?ke) es s')"
    if "set es \<subseteq> set memmap" "pmm_fresh ?P s'" for es s'
    using that
  proof (induction es arbitrary: s')
    case Nil
    then show ?case by simp
  next
    case (Cons e es)
    have "pmm_fresh ?P (pmm_init_region ?kb ?ke e s')"
      using Cons.prems map page_hit_iff_bytes [OF _ kernel]
      by (intro pmm_init_region_fresh) (auto simp: usable_page_def)
    with Cons show ?case by simp
  qed
  from this [OF subset_refl pmm_cleared_fresh] kernel show ?thesis
    by (simp add: pmm_init_def Let_def range_end_Some [THEN iffD2])
qed

end
