(* ===== verification/Pmm_Props.thy ===== *)
theory Pmm_Props
  imports Pmm_Memory
begin

text \<open>
  The properties of the page allocator (\<^verbatim>\<open>kernel/mem/pmm.c\<close>) over every sequence of calls:
  a step relation with one rule per operation that changes the allocator, the states
  reachable from \<^verbatim>\<open>pmm_init\<close>, and what holds in all of them.
\<close>

section \<open>Reachable states\<close>

inductive pmm_step :: "pmm \<Rightarrow> pmm \<Rightarrow> bool" where
  step_alloc: "pmm_alloc_page s = (p, t) \<Longrightarrow> pmm_step s t"
| step_alloc_below: "pmm_alloc_page_below s m = (p, t) \<Longrightarrow> pmm_step s t"
| step_contiguous: "pmm_alloc_contiguous s n = (p, t) \<Longrightarrow> pmm_step s t"
| step_contiguous_below: "pmm_alloc_contiguous_below s n m = (p, t) \<Longrightarrow> pmm_step s t"
| step_retain: "pmm_retain_page s p = (ok, t) \<Longrightarrow> pmm_step s t"
| step_release: "pmm_release_page s p = (ok, t) \<Longrightarrow> pmm_step s t"
| step_free: "pmm_free_page s p = (ok, t) \<Longrightarrow> pmm_step s t"
| step_reserve: "pmm_reserve_range s base sz = t \<Longrightarrow> pmm_step s t"

definition memmap_ok :: "janus_memmap_entry list \<Rightarrow> u64 \<Rightarrow> u64 \<Rightarrow> bool" where
  "memmap_ok memmap kaddr ksize \<longleftrightarrow>
     (\<forall>e \<in> set memmap. mm_base e \<le> - 4096) \<and> unat kaddr + unat ksize \<le> 2 ^ 64 - 4096"

inductive pmm_reachable :: "pmm \<Rightarrow> bool" where
  reach_init: "memmap_ok memmap kaddr ksize \<Longrightarrow> pmm_reachable (pmm_init s memmap kaddr ksize)"
| reach_step: "pmm_reachable s \<Longrightarrow> pmm_step s t \<Longrightarrow> pmm_reachable t"

text \<open>
  Under the invariant every step either takes free pages off the stack, changes the
  count of an allocated page, gives such a page back, or reserves free pages.
\<close>

lemma pmm_alloc_contiguous_one: "pmm_alloc_contiguous s 1 = (0, s)"
  by (simp add: pmm_alloc_contiguous_def pmm_contiguous_from_one)

definition pmm_taking :: "pmm \<Rightarrow> pmm \<Rightarrow> bool" where
  "pmm_taking s t \<longleftrightarrow> t = s \<or> (\<exists>ps st. st \<noteq> PMM_PAGE_RESERVED \<and> pmm_took s ps st t)"

lemma pmm_took_taking: "pmm_took s ps PMM_PAGE_ALLOCATED t \<Longrightarrow> pmm_taking s t"
  "pmm_took s ps PMM_PAGE_FREE t \<Longrightarrow> pmm_taking s t" "pmm_taking s s"
  unfolding pmm_taking_def by blast+

lemma pmm_alloc_taking:
  assumes inv: "pmm_inv s"
  shows "pmm_alloc_page s = (p, t) \<Longrightarrow> pmm_taking s t"
    "pmm_alloc_page_below s m = (p, t) \<Longrightarrow> pmm_taking s t"
    "pmm_alloc_contiguous s n = (p, t) \<Longrightarrow> pmm_taking s t"
    "pmm_alloc_contiguous_below s n m = (p, t) \<Longrightarrow> pmm_taking s t"
proof -
  show "pmm_alloc_page s = (p, t) \<Longrightarrow> pmm_taking s t"
    using pmm_alloc_page_took [OF inv] pmm_took_taking by blast
  show below: "pmm_taking s t" if "pmm_alloc_page_below s m = (p, t)"
    using that pmm_alloc_page_below_took [OF inv] pmm_took_taking by blast
  consider "n = 0" | "n = 1" | "1 < n" by linarith
  note n = this
  show "pmm_taking s t" if "pmm_alloc_contiguous s n = (p, t)"
    using n that pmm_alloc_contiguous_took [OF inv that] pmm_alloc_contiguous_one [of s] pmm_took_taking
    by cases (auto simp: pmm_alloc_contiguous_def)
  show "pmm_taking s t" if "pmm_alloc_contiguous_below s n m = (p, t)"
    using n that pmm_alloc_contiguous_below_took [OF inv that] pmm_took_taking below
    by cases (auto simp: pmm_alloc_contiguous_below_def split: if_splits)
qed

lemma pmm_taking_inv: "pmm_inv s \<Longrightarrow> pmm_taking s t \<Longrightarrow> pmm_inv t"
  using pmm_took_inv by (auto simp: pmm_taking_def)

lemma pmm_step_inv:
  assumes "pmm_step s t" and "pmm_inv s"
  shows "pmm_inv t"
  using assms
proof (induction rule: pmm_step.induct)
  case (step_reserve s base sz t)
  then show ?case by (auto intro: pmm_reserve_range_inv)
qed (metis pmm_alloc_taking pmm_taking_inv pmm_retain_page_inv pmm_release_page_inv
      pmm_free_page_inv)+

lemma pmm_reachable_inv': "pmm_reachable s \<Longrightarrow> pmm_inv s"
proof (induction rule: pmm_reachable.induct)
  case (reach_init memmap kaddr ksize s)
  then show ?case using pmm_init_fresh by (auto simp: memmap_ok_def pmm_fresh_def)
qed (rule pmm_step_inv)

text \<open>A reserved page stays reserved.\<close>

lemma pmm_step_reserved:
  assumes "pmm_step s t" and "pmm_inv s" and "page_lookup s p = Some (PMM_PAGE_RESERVED, r)"
  shows "page_lookup t p = Some (PMM_PAGE_RESERVED, r)"
proof -
  note s = pmm_invD [OF assms(2)]
  from s(3) assms(3) have off: "p \<notin> set (free_page_stack s)" by auto
  have taken: ?thesis if "pmm_taking s t"
    using that off assms(3) by (auto simp: pmm_taking_def pmm_took_def)
  have upd: "page_lookup (page_set s q st r') p = Some (PMM_PAGE_RESERVED, r)"
    if "page_lookup s q = Some (PMM_PAGE_ALLOCATED, r'')" for q st r' r''
    using that assms(3) by (auto simp: pidx.lookup_update)
  from assms(1) show ?thesis
  proof cases
    case (step_retain q ok)
    then show ?thesis using assms(3) upd
      by (auto simp: pmm_retain_page_eq [OF s(1)] split: option.splits pmm_page_state.splits if_splits)
  next
    case (step_release q ok)
    then show ?thesis using assms(3) upd
      by (auto simp: pmm_release_page_spec [OF assms(2)] split: option.splits pmm_page_state.splits if_splits)
  next
    case (step_free q ok)
    then show ?thesis using assms(3) upd
      by (auto simp: pmm_free_page_def pmm_release_page_spec [OF assms(2)]
          split: option.splits pmm_page_state.splits if_splits)
  next
    case (step_reserve base sz)
    then show ?thesis using assms(3) off pmm_reserve_from_effect(2) [OF assms(2) refl]
      by (auto simp: pmm_reserve_range_def Let_def split: option.splits if_splits)
  qed (use taken pmm_alloc_taking [OF assms(2)] in blast)+
qed

lemma page_set_twice: "page_set (page_set s p st r) p st' r' = page_set s p st' r'"
  by (simp add: page_set_def Let_def)

lemma pmm_took_count:
  assumes "pmm_inv s" and "pmm_took s ps st t"
  shows "free_page_count s = free_page_count t + length ps"
proof -
  note s = pmm_invD [OF assms(1)]
  have "set (free_page_stack t) = set (free_page_stack s) - set ps"
    and sub: "set ps \<subseteq> set (free_page_stack s)" and dist: "distinct ps" "distinct (free_page_stack t)"
    using assms(2) s(2) by (auto simp: pmm_took_def)
  then have "card (set (free_page_stack t)) = card (set (free_page_stack s)) - card (set ps)"
    by (simp add: card_Diff_subset)
  moreover have "card (set ps) \<le> card (set (free_page_stack s))" using sub by (simp add: card_mono)
  ultimately show ?thesis using dist s(2) by (simp add: free_page_count_def distinct_card)
qed

lemma pmm_steps_reserved:
  assumes "pmm_step\<^sup>*\<^sup>* s t" and "pmm_reachable s" and "page_lookup s p = Some (PMM_PAGE_RESERVED, r)"
  shows "pmm_reachable t \<and> page_lookup t p = Some (PMM_PAGE_RESERVED, r)"
  using assms
proof (induction rule: rtranclp_induct)
  case base
  then show ?case by simp
next
  case (step t u)
  then have t: "pmm_reachable t" "page_lookup t p = Some (PMM_PAGE_RESERVED, r)" by auto
  from pmm_step_reserved [OF step(2) pmm_reachable_inv' [OF t(1)] t(2)] t(1) step(2)
  show ?case by (auto intro: reach_step)
qed

section \<open>A concrete machine\<close>

text \<open>
  One usable region of four pages at 1 MiB whose third page holds the kernel; the
  theorems below are applied to it.
\<close>

definition demo_map :: "janus_memmap_entry list" where
  "demo_map = [\<lparr>mm_base = 0x100000, mm_length = 0x4000, mm_type = JANUS_MEMMAP_USABLE\<rparr>]"

definition demo_pmm :: pmm where
  "demo_pmm = pmm_init pmm_cleared demo_map 0x102000 0x1000"

lemmas pmm_eval = PMM_PAGE_SIZE_def PMM_DIRECT_MAP_LIMIT_def PMM_MAX_TRACKED_PAGES_def
  PMM_PAGE_INDEX_SIZE_def Let_def range_end_def align_up_def align_down_def range_overlaps_def
  page_index_add_def page_index_find_def page_hash_def

lemma demo_map_ok: "memmap_ok demo_map 0x102000 0x1000"
  by (simp add: memmap_ok_def demo_map_def)

lemma demo_reachable: "pmm_reachable demo_pmm"
  unfolding demo_pmm_def by (rule reach_init [OF demo_map_ok])

lemma demo_stack: "free_page_stack demo_pmm = [0x103000, 0x101000, 0x100000]"
  by (simp add: demo_pmm_def pmm_init_def demo_map_def pmm_init_region_def pmm_cleared_def pmm_eval)
    (simp add: pmm_init_pages.simps pmm_eval)

lemma demo_lookup: "page_lookup demo_pmm 0x100000 = Some (PMM_PAGE_FREE, 0)"
  by (rule pmm_invD(3) [OF pmm_reachable_inv' [OF demo_reachable]]) (simp add: demo_stack)

section \<open>Properties\<close>

text \<open>
  C1. In every state that any sequence of allocator calls reaches from \<^verbatim>\<open>pmm_init\<close>, the
  open-addressing index is consistent, the free stack has no duplicates and holds only
  tracked free pages with reference count 0, every tracked page is page aligned and lies in
  [1 MiB, 4 GiB), every allocated page has a non-zero count, and \<^verbatim>\<open>tracked_page_count\<close> is the
  number of tracked pages.
\<close>

theorem pmm_reachable_inv:
  assumes "pmm_reachable s"
  shows "pmm_inv s"
  using assms by (rule pmm_reachable_inv')

theorem pmm_reachable_inv_witness: "pmm_reachable demo_pmm \<and> pmm_inv demo_pmm"
  using pmm_reachable_inv [OF demo_reachable] demo_reachable by simp

text \<open>
  C2. \<^verbatim>\<open>pmm_alloc_page\<close> fails only when no page is free; otherwise the page it returns was free,
  had no reference, is aligned and in the managed memory, has exactly one reference
  afterwards and can not be returned again, and no other page changes.
\<close>

theorem pmm_alloc_page_exclusive:
  assumes "pmm_reachable s" and "pmm_alloc_page s = (p, t)"
  shows "(p = 0 \<longleftrightarrow> free_page_stack s = []) \<and>
         (p = 0 \<longrightarrow> t = s) \<and>
         (p \<noteq> 0 \<longrightarrow>
            page_in_pool p \<and> page_lookup s p = Some (PMM_PAGE_FREE, 0) \<and> pmm_ref_count t p = 1 \<and>
            p \<notin> set (free_page_stack t) \<and>
            set (free_page_stack s) = insert p (set (free_page_stack t)) \<and>
            (\<forall>q. q \<noteq> p \<longrightarrow> page_lookup t q = page_lookup s q))"
proof -
  have inv: "pmm_inv s" using assms(1) by (rule pmm_reachable_inv')
  note s = pmm_invD [OF inv]
  show ?thesis
  proof (cases "free_page_stack s = []")
    case True
    with assms(2) show ?thesis by (simp add: pmm_alloc_page_spec [OF inv])
  next
    case False
    with pmm_alloc_page_took [OF inv assms(2)] have p: "p \<in> set (free_page_stack s)"
      and took: "pmm_took s [p] PMM_PAGE_ALLOCATED t" by auto
    from p s(3,4) have pool: "page_in_pool p" by blast
    with took have "pmm_ref_count t p = 1"
      by (simp add: pmm_took_def pmm_ref_count_eq page_in_pool_def)
    with p pool pool_page_nonzero [OF pool] False took s(3) show ?thesis
      by (auto simp: pmm_took_def)
  qed
qed

theorem pmm_alloc_page_exclusive_witness:
  "pmm_reachable demo_pmm \<and> fst (pmm_alloc_page demo_pmm) = 0x100000 \<and>
   pmm_ref_count (snd (pmm_alloc_page demo_pmm)) 0x100000 = 1"
proof -
  have "fst (pmm_alloc_page demo_pmm) = 0x100000"
    by (simp add: pmm_alloc_page_spec [OF pmm_reachable_inv' [OF demo_reachable]] demo_stack)
  with pmm_alloc_page_exclusive [OF demo_reachable, of "0x100000" "snd (pmm_alloc_page demo_pmm)"]
    demo_reachable show ?thesis by (cases "pmm_alloc_page demo_pmm") simp
qed

text \<open>
  C3. Giving a page back right after \<^verbatim>\<open>pmm_alloc_page\<close> restores the allocator exactly, and so
  does \<^verbatim>\<open>pmm_release_page\<close> after a successful \<^verbatim>\<open>pmm_retain_page\<close>.
\<close>

theorem pmm_alloc_release_roundtrip:
  assumes "pmm_reachable s"
  shows "(pmm_alloc_page s = (p, t) \<longrightarrow> p \<noteq> 0 \<longrightarrow> pmm_release_page t p = (True, s)) \<and>
         (pmm_retain_page s q = (True, u) \<longrightarrow> pmm_release_page u q = (True, s))"
proof (intro conjI impI)
  have inv: "pmm_inv s" using assms by (rule pmm_reachable_inv')
  note s = pmm_invD [OF inv]
  show "pmm_release_page t p = (True, s)" if alloc: "pmm_alloc_page s = (p, t)" and "p \<noteq> 0"
  proof -
    from alloc that have ne: "free_page_stack s \<noteq> []" and p: "p = last (free_page_stack s)"
      and t: "t = (page_set s p PMM_PAGE_ALLOCATED 1)\<lparr>free_page_stack := butlast (free_page_stack s)\<rparr>"
      by (auto simp: pmm_alloc_page_spec [OF inv] split: if_splits)
    from ne p s(3) have lk: "page_lookup s p = Some (PMM_PAGE_FREE, 0)" by simp
    have "page_lookup t p = Some (PMM_PAGE_ALLOCATED, 1)" using lk by (simp add: t pidx.lookup_update)
    moreover have "pmm_inv t"
      using alloc assms by (blast intro: pmm_reachable_inv' reach_step step_alloc)
    ultimately show ?thesis
      using ne p page_set_same [OF lk] by (simp add: pmm_release_page_spec t page_set_twice)
  qed
  show "pmm_release_page u q = (True, s)" if ret: "pmm_retain_page s q = (True, u)"
  proof -
    from ret obtain r where lk: "page_lookup s q = Some (PMM_PAGE_ALLOCATED, r)" and r: "r \<noteq> 0" "r \<noteq> 0xffffffff"
      and u: "u = page_set s q PMM_PAGE_ALLOCATED (r + 1)"
      by (auto simp: pmm_retain_page_eq [OF s(1)] split: option.splits pmm_page_state.splits if_splits)
    have "page_lookup u q = Some (PMM_PAGE_ALLOCATED, r + 1)" using lk by (simp add: u pidx.lookup_update)
    moreover have "pmm_inv u" using ret by (rule pmm_retain_page_inv [OF inv])
    ultimately show ?thesis
      using r page_set_same [OF lk] by (simp add: pmm_release_page_spec u page_set_twice)
  qed
qed

theorem pmm_alloc_release_roundtrip_witness:
  "pmm_release_page (snd (pmm_alloc_page demo_pmm)) 0x100000 = (True, demo_pmm)"
proof -
  have "fst (pmm_alloc_page demo_pmm) = 0x100000"
    by (simp add: pmm_alloc_page_spec [OF pmm_reachable_inv' [OF demo_reachable]] demo_stack)
  with pmm_alloc_release_roundtrip [OF demo_reachable, of "0x100000" "snd (pmm_alloc_page demo_pmm)"]
  show ?thesis by (cases "pmm_alloc_page demo_pmm") simp
qed

text \<open>
  C4. \<^verbatim>\<open>pmm_release_page\<close> succeeds exactly on allocated pages, and then drops one reference; the
  page goes back to the stack exactly when that was the last one. On any other address, a
  double free included, nothing changes. The test for a full stack never makes it fail.
\<close>

theorem pmm_release_page_last_reference:
  assumes "pmm_reachable s" and "pmm_release_page s p = (ok, t)"
  shows "(ok \<longleftrightarrow> (\<exists>r. page_lookup s p = Some (PMM_PAGE_ALLOCATED, r))) \<and>
         (\<not> ok \<longrightarrow> t = s) \<and>
         (\<forall>r. page_lookup s p = Some (PMM_PAGE_ALLOCATED, r) \<longrightarrow>
            page_lookup t = (page_lookup s)
              (p \<mapsto> (if r = 1 then (PMM_PAGE_FREE, 0) else (PMM_PAGE_ALLOCATED, r - 1))) \<and>
            free_page_stack t = free_page_stack s @ (if r = 1 then [p] else []))"
  using assms(2) pmm_release_page_spec [OF pmm_reachable_inv' [OF assms(1)], of p]
  by (auto simp: pidx.lookup_update split: option.splits pmm_page_state.splits)

theorem pmm_release_page_last_reference_witness:
  "\<not> fst (pmm_release_page demo_pmm 0x100000) \<and> snd (pmm_release_page demo_pmm 0x100000) = demo_pmm"
  using pmm_release_page_last_reference [OF demo_reachable surjective_pairing, of "0x100000"] demo_lookup
  by simp

text \<open>
  C5. A successful \<^verbatim>\<open>pmm_alloc_contiguous\<close> of two or more pages returns the base of a run of
  physically adjacent pages: all of them were free and managed, all of them are now allocated
  with one reference and off the stack, and no other page changes.
\<close>

theorem pmm_alloc_contiguous_run:
  assumes "pmm_reachable s" and "pmm_alloc_contiguous s n = (base, t)" and "1 < n" and "base \<noteq> 0"
  shows "(\<forall>i < n. page_in_pool (base + of_nat i * PMM_PAGE_SIZE) \<and>
                  page_lookup s (base + of_nat i * PMM_PAGE_SIZE) = Some (PMM_PAGE_FREE, 0) \<and>
                  page_lookup t (base + of_nat i * PMM_PAGE_SIZE) = Some (PMM_PAGE_ALLOCATED, 1) \<and>
                  base + of_nat i * PMM_PAGE_SIZE \<notin> set (free_page_stack t)) \<and>
         distinct (pmm_span base n) \<and> free_page_count s = free_page_count t + n \<and>
         (\<forall>q. q \<notin> set (pmm_span base n) \<longrightarrow> page_lookup t q = page_lookup s q)"
proof -
  have inv: "pmm_inv s" using assms(1) by (rule pmm_reachable_inv')
  note s = pmm_invD [OF inv]
  from pmm_alloc_contiguous_took [OF inv assms(2,3)] assms(4)
  have took: "pmm_took s (pmm_span base n) PMM_PAGE_ALLOCATED t" by blast
  have mem: "base + of_nat i * PMM_PAGE_SIZE \<in> set (pmm_span base n)" if "i < n" for i
    using that by (auto simp: pmm_span_def)
  have free: "page_lookup s q = Some (PMM_PAGE_FREE, 0)" "page_in_pool q"
    if "q \<in> set (pmm_span base n)" for q
    using that took s(3,4) by (auto simp: pmm_took_def subset_iff)
  have "free_page_count s = free_page_count t + n"
    using pmm_took_count [OF inv took] by (simp add: pmm_span_def)
  with took mem free show ?thesis by (auto simp: pmm_took_def)
qed

theorem pmm_alloc_contiguous_run_witness:
  "fst (pmm_alloc_contiguous demo_pmm 2) = 0x100000 \<and>
   free_page_count demo_pmm = free_page_count (snd (pmm_alloc_contiguous demo_pmm 2)) + 2"
proof -
  note inv = pmm_reachable_inv' [OF demo_reachable]
  have "fst (pmm_alloc_contiguous demo_pmm 2) = 0x100000"
  proof -
    have lk: "page_lookup demo_pmm 0x101000 = Some (PMM_PAGE_FREE, 0)"
      by (rule pmm_invD(3) [OF inv]) (simp add: demo_stack)
    have span: "pmm_span 0x100000 2 = [0x100000, 0x101000]"
      by (simp add: pmm_span_def numeral_2_eq_2 PMM_PAGE_SIZE_def)
    have "pmm_mark_all [0x100000, 0x101000] (pmm_take_run demo_pmm 1 2) =
          (True, fold (\<lambda>p s. page_set s p PMM_PAGE_ALLOCATED 1) [0x100000, 0x101000] (pmm_take_run demo_pmm 1 2))"
      by (rule pmm_mark_all_eq) (use lk demo_lookup pmm_invD(1) [OF inv] in \<open>simp_all add: pmm_take_run_def\<close>)
    then show ?thesis
      using lk demo_lookup pmm_invD(1) [OF inv]
      by (simp add: pmm_alloc_contiguous_def free_page_count_def demo_stack
          pmm_contiguous_from.simps(2) [of 1, unfolded Suc_1]
          Let_def PMM_PAGE_SIZE_def span page_is_free_eq del: pmm_mark_all.simps)
  qed
  with pmm_alloc_contiguous_run [OF demo_reachable surjective_pairing, of 2] show ?thesis by simp
qed

text \<open>
  C6. \<^verbatim>\<open>pmm_reserve_range\<close> withdraws exactly the free pages that share a byte with the given
  range, and for good: in every later state such a page is reserved, off the stack and is not
  what \<^verbatim>\<open>pmm_alloc_page\<close> returns; every other page is untouched.
\<close>

theorem pmm_reserve_range_permanent:
  assumes "pmm_reachable s" and "sz \<noteq> 0" and "unat base + unat sz \<le> 2 ^ 64 - 4096"
    and "pmm_reserve_range s base sz = t" and "pmm_step\<^sup>*\<^sup>* t u"
  shows "free_page_stack t = filter (\<lambda>p. \<not> bytes_overlap base sz p) (free_page_stack s) \<and>
         (\<forall>p. \<not> (p \<in> set (free_page_stack s) \<and> bytes_overlap base sz p) \<longrightarrow>
              page_lookup t p = page_lookup s p) \<and>
         (\<forall>p \<in> set (free_page_stack s). bytes_overlap base sz p \<longrightarrow>
              page_lookup u p = Some (PMM_PAGE_RESERVED, 0) \<and> p \<notin> set (free_page_stack u) \<and>
              fst (pmm_alloc_page u) \<noteq> p)"
proof -
  have inv: "pmm_inv s" using assms(1) by (rule pmm_reachable_inv')
  note eff = pmm_reserve_range_effect [OF inv assms(2-4)]
  have t: "pmm_reachable t" using assms(1,4) by (blast intro: reach_step step_reserve)
  have "page_lookup u p = Some (PMM_PAGE_RESERVED, 0) \<and> p \<notin> set (free_page_stack u) \<and>
        fst (pmm_alloc_page u) \<noteq> p"
    if p: "p \<in> set (free_page_stack s)" and hit: "bytes_overlap base sz p" for p
  proof -
    have "page_lookup t p = Some (PMM_PAGE_RESERVED, 0)" using p hit by (simp add: eff(2))
    from pmm_steps_reserved [OF assms(5) t this]
    have u: "pmm_inv u" "page_lookup u p = Some (PMM_PAGE_RESERVED, 0)"
      by (auto intro: pmm_reachable_inv')
    moreover from this have "p \<notin> set (free_page_stack u)" by (auto dest: pmm_invD(3))
    moreover from this have "fst (pmm_alloc_page u) \<noteq> p"
      using stack_page_nonzero [OF inv p] u(1) by (auto simp: pmm_alloc_page_spec)
    ultimately show ?thesis by blast
  qed
  with eff(1,2) show ?thesis by auto
qed

theorem pmm_reserve_range_permanent_witness:
  "0x101000 \<notin> set (free_page_stack (pmm_reserve_range demo_pmm 0x101800 1))"
proof -
  have "bytes_overlap 0x101800 1 0x101000" by (simp add: bytes_overlap_def)
  then show ?thesis
    using pmm_reserve_range_permanent [OF demo_reachable, of 1 "0x101800", OF _ _ refl rtranclp.rtrancl_refl]
    by (simp add: demo_stack)
qed

text \<open>
  C7. After \<^verbatim>\<open>pmm_init\<close> every tracked page is free, on the stack, inside a usable entry of
  the memory map, below 4 GiB and at or above 1 MiB, and shares no byte with the kernel image
  (provided no entry starts in the last page of the address space and the kernel image does
  not end there, where rounding up wraps to 0).
\<close>

theorem pmm_init_tracks_usable_memory:
  assumes "memmap_ok memmap kaddr ksize" and "pmm_init s memmap kaddr ksize = t"
  shows "pmm_inv t \<and> set (free_page_stack t) = dom (page_lookup t) \<and>
         (\<forall>p \<in> set (free_page_stack t).
            page_in_pool p \<and> usable_page memmap p \<and> \<not> bytes_overlap kaddr ksize p)"
proof -
  have "pmm_fresh (\<lambda>p. usable_page memmap p \<and> \<not> bytes_overlap kaddr ksize p) t"
    using assms pmm_init_fresh by (auto simp: memmap_ok_def)
  then show ?thesis using pmm_invD(3,4) by (fastforce simp: pmm_fresh_def)
qed

theorem pmm_init_tracks_usable_memory_witness:
  "set (free_page_stack demo_pmm) = dom (page_lookup demo_pmm) \<and>
   usable_page demo_map 0x103000 \<and> \<not> bytes_overlap 0x102000 0x1000 0x103000"
  using pmm_init_tracks_usable_memory [OF demo_map_ok, of pmm_cleared, OF refl] demo_stack
  by (simp add: demo_pmm_def)

text \<open>
  C8. Pages handed out by \<^verbatim>\<open>pmm_alloc_contiguous_below\<close> for two or more pages get a reference
  count of 1 but stay in state \<^verbatim>\<open>PMM_PAGE_FREE\<close>: they leave the stack, and retaining, releasing
  or freeing any of them fails and changes nothing, so they can never be returned.
\<close>

theorem pmm_alloc_contiguous_below_leaks:
  assumes "pmm_reachable s" and "pmm_alloc_contiguous_below s n m = (base, t)" and "1 < n" and "base \<noteq> 0"
    and "p \<in> set (pmm_span base n)"
  shows "p \<notin> set (free_page_stack t) \<and> page_lookup t p = Some (PMM_PAGE_FREE, 1) \<and>
         pmm_retain_page t p = (False, t) \<and> pmm_release_page t p = (False, t) \<and>
         pmm_free_page t p = (False, t)"
proof -
  have inv: "pmm_inv s" using assms(1) by (rule pmm_reachable_inv')
  from pmm_alloc_contiguous_below_took [OF inv assms(2,3)] assms(4)
  have took: "pmm_took s (pmm_span base n) PMM_PAGE_FREE t" by blast
  with assms(5) have lk: "page_lookup t p = Some (PMM_PAGE_FREE, 1)" and "p \<notin> set (free_page_stack t)"
    by (auto simp: pmm_took_def)
  moreover have t: "pmm_inv t" using inv took by (rule pmm_took_inv)
  ultimately show ?thesis
    by (simp add: pmm_retain_page_eq [OF pmm_invD(1) [OF t]] pmm_release_page_spec pmm_free_page_def)
qed

theorem pmm_alloc_contiguous_below_leaks_witness:
  "fst (pmm_alloc_contiguous_below demo_pmm 2 0x200000) = 0x100000 \<and>
   \<not> fst (pmm_release_page (snd (pmm_alloc_contiguous_below demo_pmm 2 0x200000)) 0x101000)"
proof -
  have span: "pmm_span 0x100000 2 = [0x100000, 0x101000]"
    by (simp add: pmm_span_def numeral_2_eq_2 PMM_PAGE_SIZE_def)
  have "fst (pmm_alloc_contiguous_below demo_pmm 2 0x200000) = 0x100000"
    by (simp add: pmm_alloc_contiguous_below_def free_page_count_def demo_stack
        pmm_contiguous_below_from.simps(2) [of 1, unfolded Suc_1] Let_def PMM_PAGE_SIZE_def)
  with pmm_alloc_contiguous_below_leaks [OF demo_reachable surjective_pairing, of 2 "0x200000" "0x101000"]
  show ?thesis by (simp add: span)
qed

text \<open>
  C9. \<^verbatim>\<open>pmm_alloc_contiguous\<close> of a single page always fails and changes nothing, however many
  pages are free: the run length is compared with the request only after it was incremented.
\<close>

theorem pmm_alloc_contiguous_single_fails: "pmm_alloc_contiguous s 1 = (0, s)"
  by (rule pmm_alloc_contiguous_one)

end
