(* ===== verification/Ring_Buffer.thy ===== *)
theory Ring_Buffer
  imports Nexos_Prelude
begin

text \<open>
  The contract of a bounded ring buffer with a head, a tail and a count, as the kernel uses
  it for the character queue of a terminal (\<^verbatim>\<open>kernel/core/tty_queue.c\<close>) and for the data of a
  pipe (\<^verbatim>\<open>kernel/fs/file_pipe_backend.c\<close>). The locale \<open>ring_buffer\<close> states what one store and one
  fetch do to the raw fields; the lemmas derive that the buffer is a first-in first-out list.
\<close>

definition ring_contents :: "nat \<Rightarrow> (nat \<Rightarrow> 'a) \<Rightarrow> nat \<Rightarrow> nat \<Rightarrow> 'a list" where
  "ring_contents cap slot h n = map (\<lambda>i. slot ((h + i) mod cap)) [0..<n]"

definition ring_ok :: "nat \<Rightarrow> nat \<Rightarrow> nat \<Rightarrow> nat \<Rightarrow> bool" where
  "ring_ok cap h t n \<longleftrightarrow> h < cap \<and> n \<le> cap \<and> t = (h + n) mod cap"

lemma length_ring_contents [simp]: "length (ring_contents cap slot h n) = n"
  by (simp add: ring_contents_def)

lemma ring_offset_inj:
  fixes h i j cap :: nat
  assumes "(h + i) mod cap = (h + j) mod cap" and "i < j" and "j < cap"
  shows False
proof -
  from assms(1,2) have "cap dvd j - i"
    using mod_eq_dvd_iff_nat [of "h + i" "h + j" cap] by simp
  with assms show False by (auto dest: dvd_imp_le)
qed

lemma ring_contents_cong:
  assumes "0 < cap" and "\<And>i. i < cap \<Longrightarrow> slot i = slot' i"
  shows "ring_contents cap slot h n = ring_contents cap slot' h n"
  using assms by (simp add: ring_contents_def)

lemma ring_contents_push:
  assumes "ring_ok cap h t n" and "n < cap"
    and "\<And>i. i < cap \<Longrightarrow> slot' i = (if i = t then a else slot i)"
  shows "ring_contents cap slot' h (Suc n) = ring_contents cap slot h n @ [a]"
proof -
  from assms(1) have "0 < cap" by (auto simp: ring_ok_def)
  have "(h + i) mod cap \<noteq> t" if "i < n" for i
    using that assms ring_offset_inj [of h i cap n] by (auto simp: ring_ok_def)
  with assms \<open>0 < cap\<close> show ?thesis by (auto simp: ring_contents_def ring_ok_def)
qed

lemma ring_contents_pop:
  assumes "ring_ok cap h t (Suc n)"
  shows "ring_contents cap slot h (Suc n) = slot h # ring_contents cap slot (Suc h mod cap) n"
  using assms
  by (simp add: ring_contents_def ring_ok_def upt_conv_Cons map_Suc_upt [symmetric] mod_simps del: upt_Suc)

lemma ring_ok_push: "ring_ok cap h t n \<Longrightarrow> n < cap \<Longrightarrow> ring_ok cap h (Suc t mod cap) (Suc n)"
  by (simp add: ring_ok_def mod_simps)

lemma ring_ok_pop: "ring_ok cap h t (Suc n) \<Longrightarrow> ring_ok cap (Suc h mod cap) t n"
  by (simp add: ring_ok_def mod_simps)

locale ring_buffer =
  fixes cap :: nat
    and slot :: "'s \<Rightarrow> nat \<Rightarrow> 'a"
    and head :: "'s \<Rightarrow> nat" and tail :: "'s \<Rightarrow> nat" and used :: "'s \<Rightarrow> nat"
    and push :: "'a \<Rightarrow> 's \<Rightarrow> 's"
    and pop :: "'s \<Rightarrow> 'a \<times> 's"
  assumes push_law: "ring_ok cap (head s) (tail s) (used s) \<Longrightarrow> used s < cap \<Longrightarrow>
      (\<forall>i < cap. slot (push a s) i = (if i = tail s then a else slot s i)) \<and> head (push a s) = head s \<and>
      tail (push a s) = Suc (tail s) mod cap \<and> used (push a s) = Suc (used s)"
    and pop_law: "ring_ok cap (head s) (tail s) (used s) \<Longrightarrow> used s = Suc n \<Longrightarrow>
      fst (pop s) = slot s (head s) \<and> (\<forall>i < cap. slot (snd (pop s)) i = slot s i) \<and>
      head (snd (pop s)) = Suc (head s) mod cap \<and> tail (snd (pop s)) = tail s \<and> used (snd (pop s)) = n"
begin

definition ok :: "'s \<Rightarrow> bool" where
  "ok s \<longleftrightarrow> ring_ok cap (head s) (tail s) (used s)"

definition contents :: "'s \<Rightarrow> 'a list" where
  "contents s = ring_contents cap (slot s) (head s) (used s)"

lemma length_contents: "length (contents s) = used s"
  by (simp add: contents_def)

lemma ok_bound: "ok s \<Longrightarrow> used s \<le> cap"
  by (simp add: ok_def ring_ok_def)

lemma push_fifo:
  assumes "ok s" and "used s < cap"
  shows "ok (push a s)" "contents (push a s) = contents s @ [a]"
  using assms push_law [of s a]
  by (auto simp: ok_def contents_def intro: ring_ok_push ring_contents_push)

lemma pop_fifo:
  assumes "ok s" and "contents s = a # q"
  shows "fst (pop s) = a" "ok (snd (pop s))" "contents (snd (pop s)) = q"
proof -
  from assms(2) have n: "used s = Suc (length q)" using length_contents [of s] by simp
  from assms(1) have cap: "0 < cap" by (auto simp: ok_def ring_ok_def)
  note law = pop_law [OF assms(1) [unfolded ok_def] n]
  from law assms n show "fst (pop s) = a" "ok (snd (pop s))"
    by (auto simp: ok_def contents_def ring_contents_pop intro: ring_ok_pop)
  from law have "contents (snd (pop s)) = ring_contents cap (slot s) (Suc (head s) mod cap) (length q)"
    unfolding contents_def by (auto intro: ring_contents_cong [OF cap])
  with assms n show "contents (snd (pop s)) = q"
    by (simp add: ok_def contents_def ring_contents_pop)
qed

lemma push_list_fifo:
  assumes "ok s" and "used s + length xs \<le> cap"
  shows "ok (fold push xs s) \<and> contents (fold push xs s) = contents s @ xs"
  using assms
proof (induction xs arbitrary: s)
  case Nil
  then show ?case by simp
next
  case (Cons x xs)
  then have "used s < cap" by simp
  from push_fifo [OF Cons.prems(1) this, of x] Cons.IH [of "push x s"] Cons.prems length_contents
  show ?case by (metis (no_types) add_Suc_right add_Suc_shift append.assoc append_Cons append_Nil fold_simps(2) length_Cons length_append_singleton)
qed

end

end
