(* ===== verification/Tty_Queue.thy ===== *)
theory Tty_Queue
  imports Ring_Buffer
begin

text \<open>
  The character queue of a terminal (\<^verbatim>\<open>kernel/core/tty_queue.c\<close>): raw-mode input waits here
  until a process reads it. \<open>tty_queue\<close> holds the four queue fields of \<^verbatim>\<open>struct tty\<close>
  (\<^verbatim>\<open>kernel/internal/core/tty_internal.h\<close>); the operations are polymorphic in the rest of the record.
  A C \<^verbatim>\<open>char\<close> is a byte.
\<close>

definition TTY_CHAR_QUEUE_SIZE :: nat where
  "TTY_CHAR_QUEUE_SIZE = 128"

record tty_queue =
  char_queue :: "u8 \<Rightarrow> u8"
  char_head :: u8
  char_tail :: u8
  char_count :: u8

definition tty_can_queue_chars :: "'a tty_queue_scheme \<Rightarrow> u8 \<Rightarrow> bool" where
  "tty_can_queue_chars tty count \<longleftrightarrow> unat (char_count tty) + unat count \<le> TTY_CHAR_QUEUE_SIZE"

definition tty_queue_char :: "u8 \<Rightarrow> 'a tty_queue_scheme \<Rightarrow> 'a tty_queue_scheme" where
  "tty_queue_char ch tty =
     (if unat (char_count tty) \<ge> TTY_CHAR_QUEUE_SIZE then tty
      else tty\<lparr>char_queue := (char_queue tty)(char_tail tty := ch),
               char_tail := of_nat ((unat (char_tail tty) + 1) mod TTY_CHAR_QUEUE_SIZE),
               char_count := char_count tty + 1\<rparr>)"

definition tty_queue_escape_bracket :: "u8 \<Rightarrow> 'a tty_queue_scheme \<Rightarrow> 'a tty_queue_scheme" where
  "tty_queue_escape_bracket suffix tty =
     (if \<not> tty_can_queue_chars tty 3 then tty
      else tty_queue_char suffix (tty_queue_char 0x5b (tty_queue_char 0x1b tty)))"

definition tty_queue_escape_bracket_tilde :: "u8 \<Rightarrow> 'a tty_queue_scheme \<Rightarrow> 'a tty_queue_scheme" where
  "tty_queue_escape_bracket_tilde code tty =
     (if \<not> tty_can_queue_chars tty 4 then tty
      else tty_queue_char 0x7e (tty_queue_char code (tty_queue_char 0x5b (tty_queue_char 0x1b tty))))"

definition tty_pop_char :: "'a tty_queue_scheme \<Rightarrow> u8 option \<times> 'a tty_queue_scheme" where
  "tty_pop_char tty =
     (if char_count tty = 0 then (None, tty)
      else (Some (char_queue tty (char_head tty)),
            tty\<lparr>char_head := of_nat ((unat (char_head tty) + 1) mod TTY_CHAR_QUEUE_SIZE),
                char_count := char_count tty - 1\<rparr>))"

definition tty_clear_char_queue :: "'a tty_queue_scheme \<Rightarrow> 'a tty_queue_scheme" where
  "tty_clear_char_queue tty = tty\<lparr>char_head := 0, char_tail := 0, char_count := 0\<rparr>"

section \<open>The queue is a ring buffer\<close>

lemma unat_of_nat_u8 [simp]: "n < 256 \<Longrightarrow> unat (of_nat n :: u8) = n"
  by (simp add: unat_of_nat)

lemma of_nat_eq_u8: "i < 128 \<Longrightarrow> (of_nat i :: u8) = t \<longleftrightarrow> i = unat t" for t :: u8
  by (simp add: word_unat_eq_iff)

interpretation ttyq: ring_buffer TTY_CHAR_QUEUE_SIZE "\<lambda>s i. char_queue s (of_nat i)"
  "\<lambda>s. unat (char_head s)" "\<lambda>s. unat (char_tail s)" "\<lambda>s. unat (char_count s)"
  tty_queue_char "\<lambda>s. (the (fst (tty_pop_char s)), snd (tty_pop_char s))"
proof
  fix s :: "'a tty_queue_scheme" and a :: u8 and n :: nat
  assume ok: "ring_ok TTY_CHAR_QUEUE_SIZE (unat (char_head s)) (unat (char_tail s)) (unat (char_count s))"
  {
    assume "unat (char_count s) < TTY_CHAR_QUEUE_SIZE"
    moreover from this have "unat (char_count s + 1) = Suc (unat (char_count s))"
      by (subst unat_add_lem [THEN iffD1]) (simp_all add: TTY_CHAR_QUEUE_SIZE_def)
    ultimately show "(\<forall>i < TTY_CHAR_QUEUE_SIZE. char_queue (tty_queue_char a s) (of_nat i) =
          (if i = unat (char_tail s) then a else char_queue s (of_nat i))) \<and>
        unat (char_head (tty_queue_char a s)) = unat (char_head s) \<and>
        unat (char_tail (tty_queue_char a s)) = Suc (unat (char_tail s)) mod TTY_CHAR_QUEUE_SIZE \<and>
        unat (char_count (tty_queue_char a s)) = Suc (unat (char_count s))"
      by (auto simp: tty_queue_char_def TTY_CHAR_QUEUE_SIZE_def of_nat_eq_u8)
  next
    assume n: "unat (char_count s) = Suc n"
    then have "char_count s \<noteq> 0" by auto
    moreover from this n have "unat (char_count s - 1) = n" by (simp add: unat_minus_one)
    ultimately show "fst (the (fst (tty_pop_char s)), snd (tty_pop_char s)) =
          char_queue s (of_nat (unat (char_head s))) \<and>
        (\<forall>i < TTY_CHAR_QUEUE_SIZE. char_queue (snd (the (fst (tty_pop_char s)), snd (tty_pop_char s)))
           (of_nat i) = char_queue s (of_nat i)) \<and>
        unat (char_head (snd (the (fst (tty_pop_char s)), snd (tty_pop_char s)))) =
          Suc (unat (char_head s)) mod TTY_CHAR_QUEUE_SIZE \<and>
        unat (char_tail (snd (the (fst (tty_pop_char s)), snd (tty_pop_char s)))) = unat (char_tail s) \<and>
        unat (char_count (snd (the (fst (tty_pop_char s)), snd (tty_pop_char s)))) = n"
      by (simp add: tty_pop_char_def TTY_CHAR_QUEUE_SIZE_def)
  }
qed

definition tty_queued :: "'a tty_queue_scheme \<Rightarrow> u8 list" where
  "tty_queued = ttyq.contents"

definition tty_queue_ok :: "'a tty_queue_scheme \<Rightarrow> bool" where
  "tty_queue_ok = ttyq.ok"

lemma length_tty_queued: "length (tty_queued s) = unat (char_count s)"
  unfolding tty_queued_def by (rule ttyq.length_contents)

lemma tty_queue_char_fifo:
  assumes "tty_queue_ok s"
  shows "tty_queue_ok (tty_queue_char ch s) \<and>
         tty_queued (tty_queue_char ch s) =
           (if length (tty_queued s) < TTY_CHAR_QUEUE_SIZE then tty_queued s @ [ch] else tty_queued s)"
proof (cases "unat (char_count s) < TTY_CHAR_QUEUE_SIZE")
  case True
  with assms ttyq.push_fifo [of s ch] show ?thesis
    by (simp add: tty_queue_ok_def tty_queued_def ttyq.length_contents)
next
  case False
  with assms show ?thesis by (simp add: tty_queue_char_def length_tty_queued)
qed

lemma tty_pop_char_fifo:
  assumes "tty_queue_ok s"
  shows "tty_queue_ok (snd (tty_pop_char s)) \<and>
         (case tty_queued s of
            [] \<Rightarrow> tty_pop_char s = (None, s)
          | ch # rest \<Rightarrow> fst (tty_pop_char s) = Some ch \<and> tty_queued (snd (tty_pop_char s)) = rest)"
proof (cases "tty_queued s")
  case Nil
  then have "char_count s = 0" using length_tty_queued [of s] by (simp add: unat_eq_0)
  with Nil assms show ?thesis by (simp add: tty_pop_char_def)
next
  case (Cons ch rest)
  then have "char_count s \<noteq> 0" using length_tty_queued [of s] by auto
  with Cons assms ttyq.pop_fifo [of s ch rest] show ?thesis
    by (auto simp: tty_queue_ok_def tty_queued_def tty_pop_char_def)
qed

lemma tty_can_queue_chars_iff:
  "tty_can_queue_chars s n \<longleftrightarrow> length (tty_queued s) + unat n \<le> TTY_CHAR_QUEUE_SIZE"
  by (simp add: tty_can_queue_chars_def length_tty_queued)

lemma tty_clear_char_queue_empty:
  "tty_queue_ok (tty_clear_char_queue s) \<and> tty_queued (tty_clear_char_queue s) = []"
proof
  show "tty_queue_ok (tty_clear_char_queue s)"
    by (simp add: tty_queue_ok_def ttyq.ok_def) (simp add: ring_ok_def tty_clear_char_queue_def TTY_CHAR_QUEUE_SIZE_def)
  have "length (tty_queued (tty_clear_char_queue s)) = 0"
    unfolding length_tty_queued by (simp add: tty_clear_char_queue_def)
  then show "tty_queued (tty_clear_char_queue s) = []" by simp
qed

text \<open>
  C10. The character queue of a terminal is a first-in first-out queue of at most 128
  bytes: a byte is appended or, when the queue is full, dropped; an escape sequence is appended
  as a whole or not at all; \<^verbatim>\<open>tty_pop_char\<close> takes the oldest byte and fails only on the
  empty queue; clearing empties it. The queue fields stay consistent throughout.
\<close>

theorem tty_queue_refines_fifo:
  assumes "tty_queue_ok s"
  shows "tty_queue_ok (tty_queue_char ch s) \<and> tty_queue_ok (tty_queue_escape_bracket ch s) \<and>
    tty_queue_ok (tty_queue_escape_bracket_tilde ch s) \<and> tty_queue_ok (snd (tty_pop_char s)) \<and>
    tty_queue_ok (tty_clear_char_queue s) \<and>
    tty_queued (tty_queue_char ch s) =
      (if length (tty_queued s) < 128 then tty_queued s @ [ch] else tty_queued s) \<and>
    tty_queued (tty_queue_escape_bracket ch s) =
      (if length (tty_queued s) + 3 \<le> 128 then tty_queued s @ [0x1b, 0x5b, ch] else tty_queued s) \<and>
    tty_queued (tty_queue_escape_bracket_tilde ch s) =
      (if length (tty_queued s) + 4 \<le> 128 then tty_queued s @ [0x1b, 0x5b, ch, 0x7e] else tty_queued s) \<and>
    (case tty_queued s of
       [] \<Rightarrow> tty_pop_char s = (None, s)
     | c # rest \<Rightarrow> fst (tty_pop_char s) = Some c \<and> tty_queued (snd (tty_pop_char s)) = rest) \<and>
    tty_queued (tty_clear_char_queue s) = []"
  using assms
  by (simp add: tty_queue_char_fifo tty_pop_char_fifo tty_clear_char_queue_empty tty_queue_escape_bracket_def
      tty_queue_escape_bracket_tilde_def tty_can_queue_chars_iff TTY_CHAR_QUEUE_SIZE_def)

definition demo_queue :: tty_queue where
  "demo_queue = \<lparr>char_queue = (\<lambda>_. 0), char_head = 127, char_tail = 0, char_count = 1\<rparr>"

theorem tty_queue_refines_fifo_witness:
  "tty_queue_ok demo_queue \<and> tty_queued (tty_queue_escape_bracket 0x41 demo_queue) = [0, 0x1b, 0x5b, 0x41]"
proof -
  have ok: "tty_queue_ok demo_queue"
    by (simp add: tty_queue_ok_def ttyq.ok_def) (simp add: ring_ok_def demo_queue_def TTY_CHAR_QUEUE_SIZE_def)
  have "tty_queued demo_queue = [0]"
    by (simp add: tty_queued_def ttyq.contents_def) (simp add: ring_contents_def demo_queue_def)
  with tty_queue_refines_fifo [OF ok, of "0x41"] ok show ?thesis by simp
qed

end
