(* ===== verification/Kstring.thy ===== *)
theory Kstring
  imports Nexos_Prelude
begin

text \<open>
  The string and memory routines of \<^verbatim>\<open>lib/string.c\<close> and the parsers of \<^verbatim>\<open>lib/parse.c\<close>. A C string
  is the HOL string of the characters before its terminator, so the end of the list is the
  terminating zero. Memory is a function from addresses to bytes; the string instructions
  are loops over units of 1, 4 or 8 bytes, loaded and then stored as a whole.
\<close>

section \<open>Strings\<close>

definition str_len :: "string \<Rightarrow> nat" where
  "str_len text = length text"

fun streq :: "string \<Rightarrow> string \<Rightarrow> bool" where
  "streq (a # lhs) (b # rhs) = (if a \<noteq> b then False else streq lhs rhs)"
| "streq lhs rhs = (lhs = [] \<and> rhs = [])"

fun starts_with :: "string \<Rightarrow> string \<Rightarrow> bool" where
  "starts_with text [] = True"
| "starts_with [] (p # prefix) = False"
| "starts_with (t # text) (p # prefix) = (if t \<noteq> p then False else starts_with text prefix)"

fun skip_spaces :: "string \<Rightarrow> string" where
  "skip_spaces [] = []"
| "skip_spaces (c # text) = (if c = CHR '' '' then skip_spaces text else c # text)"

lemma streq_iff [simp]: "streq lhs rhs \<longleftrightarrow> lhs = rhs"
  by (induction lhs rhs rule: streq.induct) auto

lemma starts_with_iff: "starts_with t p \<longleftrightarrow> (\<exists>rest. t = p @ rest)"
  by (induction t p rule: starts_with.induct) auto

lemma skip_spaces_append [simp]: "skip_spaces (replicate n (CHR '' '') @ text) = skip_spaces text"
  by (induction n) auto

section \<open>Memory\<close>

type_synonym memory = "nat \<Rightarrow> u8"

text \<open>One string instruction: \<open>unit\<close> bytes are loaded, then stored.\<close>

definition move_unit :: "nat \<Rightarrow> nat \<Rightarrow> nat \<Rightarrow> memory \<Rightarrow> memory" where
  "move_unit u dst src m = (\<lambda>a. if dst \<le> a \<and> a < dst + u then m (src + (a - dst)) else m a)"

text \<open>\<^verbatim>\<open>rep movs\<close> with the direction flag clear.\<close>

primrec rep_movs_up :: "nat \<Rightarrow> nat \<Rightarrow> nat \<Rightarrow> nat \<Rightarrow> memory \<Rightarrow> memory" where
  "rep_movs_up u dst src 0 m = m"
| "rep_movs_up u dst src (Suc n) m = rep_movs_up u (dst + u) (src + u) n (move_unit u dst src m)"

text \<open>
  \<^verbatim>\<open>rep movs\<close> with the direction flag set; \<^verbatim>\<open>dst\<close> and \<^verbatim>\<open>src\<close> are the lowest addresses that the
  loop reaches, so the first unit moved is the last one.
\<close>

primrec rep_movs_down :: "nat \<Rightarrow> nat \<Rightarrow> nat \<Rightarrow> nat \<Rightarrow> memory \<Rightarrow> memory" where
  "rep_movs_down u dst src 0 m = m"
| "rep_movs_down u dst src (Suc n) m =
     rep_movs_down u dst src n (move_unit u (dst + n * u) (src + n * u) m)"

definition memcpy_scalar :: "nat \<Rightarrow> nat \<Rightarrow> nat \<Rightarrow> nat \<Rightarrow> memory \<Rightarrow> memory" where
  "memcpy_scalar word dst src sz m =
     (let units = sz div word; bytes = sz mod word
      in rep_movs_up 1 (dst + units * word) (src + units * word) bytes
           (rep_movs_up word dst src units m))"

primrec rep_stosb :: "nat \<Rightarrow> u8 \<Rightarrow> nat \<Rightarrow> memory \<Rightarrow> memory" where
  "rep_stosb dst v 0 m = m"
| "rep_stosb dst v (Suc n) m = rep_stosb (dst + 1) v n (m(dst := v))"

definition memset_scalar :: "nat \<Rightarrow> int \<Rightarrow> nat \<Rightarrow> memory \<Rightarrow> memory" where
  "memset_scalar dst val sz m = rep_stosb dst (of_int val) sz m"

text \<open>
  The assembly variants of \<^verbatim>\<open>lib/string_sse2.asm\<close>: blocks of 64 bytes as four 16-byte moves or
  stores, then the remaining bytes.
\<close>

definition memcpy_erms :: "nat \<Rightarrow> nat \<Rightarrow> nat \<Rightarrow> memory \<Rightarrow> memory" where
  "memcpy_erms dst src sz m = rep_movs_up 1 dst src sz m"

definition memcpy_sse2 :: "nat \<Rightarrow> nat \<Rightarrow> nat \<Rightarrow> memory \<Rightarrow> memory" where
  "memcpy_sse2 dst src sz m =
     (let blocks = sz div 64; tail = sz mod 64
      in rep_movs_up 1 (dst + blocks * 64) (src + blocks * 64) tail (rep_movs_up 16 dst src (blocks * 4) m))"

primrec rep_store :: "nat \<Rightarrow> nat \<Rightarrow> u8 \<Rightarrow> nat \<Rightarrow> memory \<Rightarrow> memory" where
  "rep_store u dst v 0 m = m"
| "rep_store u dst v (Suc n) m = rep_store u (dst + u) v n (\<lambda>a. if dst \<le> a \<and> a < dst + u then v else m a)"

definition memset_erms :: "nat \<Rightarrow> int \<Rightarrow> nat \<Rightarrow> memory \<Rightarrow> memory" where
  "memset_erms dst val sz m = rep_stosb dst (of_int val) sz m"

definition memset_sse2 :: "nat \<Rightarrow> int \<Rightarrow> nat \<Rightarrow> memory \<Rightarrow> memory" where
  "memset_sse2 dst val sz m =
     (let blocks = sz div 64; tail = sz mod 64
      in rep_stosb (dst + blocks * 64) (of_int val) tail (rep_store 16 dst (of_int val) (blocks * 4) m))"

text \<open>The choices made at run time: the flag found by \<^verbatim>\<open>cpuid\<close> and the two thresholds.\<close>

record string_runtime =
  runtime_erms :: bool
  copy_sse2_threshold :: nat
  set_sse2_threshold :: nat

definition memcpy :: "string_runtime \<Rightarrow> nat \<Rightarrow> nat \<Rightarrow> nat \<Rightarrow> nat \<Rightarrow> memory \<Rightarrow> memory" where
  "memcpy rt word dst src sz m =
     (if runtime_erms rt then memcpy_erms dst src sz m
      else if sz \<ge> copy_sse2_threshold rt then memcpy_sse2 dst src sz m
      else memcpy_scalar word dst src sz m)"

definition memset :: "string_runtime \<Rightarrow> nat \<Rightarrow> int \<Rightarrow> nat \<Rightarrow> memory \<Rightarrow> memory" where
  "memset rt dst val sz m =
     (if runtime_erms rt then memset_erms dst val sz m
      else if sz \<ge> set_sse2_threshold rt then memset_sse2 dst val sz m
      else memset_scalar dst val sz m)"

definition memmove :: "string_runtime \<Rightarrow> nat \<Rightarrow> nat \<Rightarrow> nat \<Rightarrow> nat \<Rightarrow> memory \<Rightarrow> memory" where
  "memmove rt word dst src sz m =
     (if dst = src \<or> sz = 0 then m
      else if dst < src \<or> dst \<ge> src + sz then memcpy rt word dst src sz m
      else
        (let units = sz div word; bytes = sz mod word;
             m1 = (if units \<noteq> 0 then rep_movs_down word (dst + bytes) (src + bytes) units m else m)
         in if bytes \<noteq> 0 then rep_movs_down 1 dst src bytes m1 else m1))"

text \<open>The reference: all bytes are read before any is written.\<close>

definition copied :: "nat \<Rightarrow> nat \<Rightarrow> nat \<Rightarrow> memory \<Rightarrow> memory" where
  "copied dst src n m = (\<lambda>a. if dst \<le> a \<and> a < dst + n then m (src + (a - dst)) else m a)"

lemma move_unit_copied: "move_unit u dst src m = copied dst src u m"
  by (simp add: move_unit_def copied_def)

lemma copied_zero [simp]: "copied dst src 0 m = m"
  by (auto simp: copied_def fun_eq_iff)

lemma copied_up:
  assumes "dst < src \<or> src + u + n \<le> dst"
  shows "copied (dst + u) (src + u) n (copied dst src u m) = copied dst src (u + n) m"
  using assms by (auto simp: copied_def fun_eq_iff)

lemma copied_down:
  assumes "src < dst"
  shows "copied dst src n (copied (dst + n) (src + n) u m) = copied dst src (n + u) m"
  using assms by (auto simp: copied_def fun_eq_iff)

lemma rep_movs_up_copied:
  assumes "dst < src \<or> src + n * u \<le> dst"
  shows "rep_movs_up u dst src n m = copied dst src (n * u) m"
  using assms
proof (induction n arbitrary: dst src m)
  case 0
  then show ?case by simp
next
  case (Suc n)
  from Suc.prems have "dst + u < src + u \<or> src + u + n * u \<le> dst + u" "dst < src \<or> src + u + n * u \<le> dst"
    by (auto simp: algebra_simps)
  with Suc.IH [of "dst + u" "src + u"] show ?case by (simp add: move_unit_copied copied_up)
qed

lemma rep_movs_down_copied:
  assumes "src < dst"
  shows "rep_movs_down u dst src n m = copied dst src (n * u) m"
  using assms
proof (induction n arbitrary: m)
  case 0
  then show ?case by simp
next
  case (Suc n)
  then show ?case by (simp add: move_unit_copied copied_down add_ac)
qed

text \<open>Units upwards and then single bytes: the shape of every variant of \<^verbatim>\<open>memcpy\<close>.\<close>

lemma units_then_bytes_copied:
  assumes "dst < src \<or> src + (n * u + r) \<le> dst"
  shows "rep_movs_up 1 (dst + n * u) (src + n * u) r (rep_movs_up u dst src n m) = copied dst src (n * u + r) m"
proof -
  have "rep_movs_up u dst src n m = copied dst src (n * u) m"
    using assms by (intro rep_movs_up_copied) linarith
  moreover have "rep_movs_up 1 (dst + n * u) (src + n * u) r m' = copied (dst + n * u) (src + n * u) r m'" for m'
    using assms rep_movs_up_copied [of "dst + n * u" "src + n * u" r 1] by auto
  moreover have "copied (dst + n * u) (src + n * u) r (copied dst src (n * u) m) = copied dst src (n * u + r) m"
    using assms by (intro copied_up) linarith
  ultimately show ?thesis by simp
qed

lemma memcpy_copied:
  assumes "dst < src \<or> src + sz \<le> dst"
  shows "memcpy rt word dst src sz m = copied dst src sz m"
proof -
  have "memcpy_scalar word dst src sz m = copied dst src sz m"
    using units_then_bytes_copied [of dst src "sz div word" word "sz mod word" m] assms
    by (simp add: memcpy_scalar_def Let_def)
  moreover have blocks: "sz div 64 * 4 * 16 + sz mod 64 = sz" "sz div 64 * 4 * 16 = sz div 64 * 64" by simp_all
  then have "memcpy_sse2 dst src sz m = copied dst src sz m"
    using units_then_bytes_copied [of dst src "sz div 64 * 4" 16 "sz mod 64" m] assms
    unfolding memcpy_sse2_def Let_def by metis
  moreover have "memcpy_erms dst src sz m = copied dst src sz m"
    using rep_movs_up_copied [of dst src sz 1 m] assms by (simp add: memcpy_erms_def)
  ultimately show ?thesis by (simp add: memcpy_def)
qed

section \<open>Parsers\<close>

definition char_between :: "char \<Rightarrow> char \<Rightarrow> char \<Rightarrow> bool" where
  "char_between lo hi c \<longleftrightarrow> (of_char lo :: nat) \<le> of_char c \<and> (of_char c :: nat) \<le> of_char hi"

definition parse_digit :: "nat \<Rightarrow> char \<Rightarrow> nat option" where
  "parse_digit base c =
     (if char_between (CHR ''0'') (CHR ''9'') c then Some (of_char c - of_char (CHR ''0''))
      else if base = 16 \<and> char_between (CHR ''a'') (CHR ''f'') c
      then Some (10 + (of_char c - of_char (CHR ''a'')))
      else if base = 16 \<and> char_between (CHR ''A'') (CHR ''F'') c
      then Some (10 + (of_char c - of_char (CHR ''A'')))
      else None)"

fun parse_digits :: "nat \<Rightarrow> string \<Rightarrow> 'a::len word \<Rightarrow> bool \<Rightarrow> 'a word option" where
  "parse_digits base [] result saw_digit = (if saw_digit then Some result else None)"
| "parse_digits base (c # text) result saw_digit =
     (case parse_digit base c of
        Some digit \<Rightarrow>
          if digit \<ge> base then None
          else parse_digits base text (result * of_nat base + of_nat digit) True
      | None \<Rightarrow>
          if c = CHR '' '' then (if saw_digit then Some result else None) else None)"

fun parse_prefix :: "string \<Rightarrow> nat \<times> string" where
  "parse_prefix (a # b # text) =
     (if a = CHR ''0'' \<and> (b = CHR ''x'' \<or> b = CHR ''X'') then (16, text) else (10, a # b # text))"
| "parse_prefix text = (10, text)"

definition parse_u32 :: "string \<Rightarrow> u32 option" where
  "parse_u32 text = (let (base, digits) = parse_prefix (skip_spaces text) in parse_digits base digits 0 False)"

definition parse_u64 :: "string \<Rightarrow> u64 option" where
  "parse_u64 text = (let (base, digits) = parse_prefix (skip_spaces text) in parse_digits base digits 0 False)"

text \<open>The copy loop of \<^verbatim>\<open>parse_token\<close>; \<open>out\<close> holds the characters written so far.\<close>

fun parse_token_copy :: "string \<Rightarrow> string \<Rightarrow> nat \<Rightarrow> string option" where
  "parse_token_copy [] out max_len = Some out"
| "parse_token_copy (c # text) out max_len =
     (if c = CHR '' '' then Some out
      else if length out + 1 \<ge> max_len then None
      else parse_token_copy text (out @ [c]) max_len)"

definition parse_token :: "string \<Rightarrow> nat \<Rightarrow> string option" where
  "parse_token text max_len =
     (if skip_spaces text = [] then None else parse_token_copy (skip_spaces text) [] max_len)"

section \<open>Properties\<close>

lemma rep_stosb_eq:
  "rep_stosb dst v n m = (\<lambda>a. if dst \<le> a \<and> a < dst + n then v else m a)"
  by (induction n arbitrary: dst m) (auto simp: fun_eq_iff)

lemma rep_store_eq:
  "rep_store u dst v n m = (\<lambda>a. if dst \<le> a \<and> a < dst + n * u then v else m a)"
  by (induction n arbitrary: dst m) (auto simp: fun_eq_iff)

lemma memset_eq: "memset rt dst v sz m = (\<lambda>a. if dst \<le> a \<and> a < dst + sz then of_int v else m a)"
proof -
  have b: "sz div 64 * 4 * 16 = sz div 64 * 64" "sz div 64 * 64 + sz mod 64 = sz" by simp_all
  have "memset_sse2 dst v sz m = (\<lambda>a. if dst \<le> a \<and> a < dst + sz then of_int v else m a)"
    unfolding memset_sse2_def Let_def rep_stosb_eq rep_store_eq b(1) using b(2) by (auto simp: fun_eq_iff)
  then show ?thesis by (simp add: memset_def memset_scalar_def memset_erms_def rep_stosb_eq)
qed

text \<open>
  C11. Whichever variant the processor and the thresholds select, \<^verbatim>\<open>memmove\<close> copies correctly for
  every overlap of source and destination: the result is the one of reading all bytes before
  writing any, although the code moves bytes, machine words or 16-byte units upwards or
  downwards. \<^verbatim>\<open>memset\<close> sets exactly the given bytes.
\<close>

theorem memmove_correct:
  "memmove rt word dst src sz m = (\<lambda>a. if dst \<le> a \<and> a < dst + sz then m (src + (a - dst)) else m a) \<and>
   memset rt dst v sz m = (\<lambda>a. if dst \<le> a \<and> a < dst + sz then of_int v else m a)"
proof
  let ?n = "sz div word * word" and ?r = "sz mod word"
  have *: "copied dst src ?r (copied (dst + ?r) (src + ?r) ?n m) = copied dst src sz m" if "src < dst"
    using copied_down [OF that, of ?r ?n m] by simp
  have "copied dst dst sz m = m" by (auto simp: copied_def fun_eq_iff)
  with * have "memmove rt word dst src sz m = copied dst src sz m"
    by (auto simp: memmove_def memcpy_copied rep_movs_down_copied Let_def not_less le_less)
  then show "memmove rt word dst src sz m = (\<lambda>a. if dst \<le> a \<and> a < dst + sz then m (src + (a - dst)) else m a)"
    by (simp add: copied_def)
qed (rule memset_eq)

section \<open>Numerals\<close>

text \<open>
  What a text denotes, independently of the parser: the value of a digit is its position in the
  alphabet of digits, in either case, and a numeral is read in base 10, or in base 16 after
  \<^verbatim>\<open>0x\<close> or \<^verbatim>\<open>0X\<close>.
\<close>

definition digit_of :: "nat \<Rightarrow> char \<Rightarrow> nat \<Rightarrow> bool" where
  "digit_of base c d \<longleftrightarrow> d < base \<and> (''0123456789abcdef'' ! d = c \<or> ''0123456789ABCDEF'' ! d = c)"

inductive denotes_digits :: "nat \<Rightarrow> string \<Rightarrow> nat \<Rightarrow> bool" where
  denotes_digit: "digit_of base c d \<Longrightarrow> denotes_digits base [c] d"
| denotes_digits_append: "denotes_digits base ds n \<Longrightarrow> digit_of base c d \<Longrightarrow> denotes_digits base (ds @ [c]) (base * n + d)"

definition denotes_number :: "string \<Rightarrow> nat \<Rightarrow> bool" where
  "denotes_number t n \<longleftrightarrow>
     (\<exists>k prefix base ds rest. t = replicate k (CHR '' '') @ prefix @ ds @ rest \<and>
        (prefix = [] \<and> base = 10 \<or> (prefix = ''0x'' \<or> prefix = ''0X'') \<and> base = 16) \<and>
        denotes_digits base ds n \<and> (rest = [] \<or> hd rest = CHR '' ''))"

lemma less_16_cases: "(d :: nat) < 16 \<Longrightarrow> d \<in> {0, 1, 2, 3, 4, 5, 6, 7, 8, 9, 10, 11, 12, 13, 14, 15}"
  by simp presburger

lemma alphabet_codes:
  assumes "d < 16"
  shows "(of_char (''0123456789abcdef'' ! d) :: nat) = (if d < 10 then 48 + d else 87 + d)"
    "(of_char (''0123456789ABCDEF'' ! d) :: nat) = (if d < 10 then 48 + d else 55 + d)"
  using less_16_cases [OF assms] by auto

lemma parse_digit_iff:
  assumes "base = 10 \<or> base = 16"
  shows "parse_digit base c = Some d \<longleftrightarrow> digit_of base c d"
proof -
  have code: "x = c \<longleftrightarrow> (of_char x :: nat) = of_char c" for x by simp
  have "digit_of base c d \<longleftrightarrow>
      d < base \<and> (of_char c = (if d < 10 then 48 + d else 87 + d) \<or> of_char c = (if d < 10 then 48 + d else 55 + d))"
  proof (cases "d < base")
    case True
    with assms have "d < 16" by auto
    show ?thesis unfolding digit_of_def code alphabet_codes [OF \<open>d < 16\<close>] by (simp only: eq_commute)
  qed (simp add: digit_of_def)
  with assms show ?thesis by (auto simp: parse_digit_def char_between_def split: if_splits)
qed

definition is_digit :: "nat \<Rightarrow> char \<Rightarrow> bool" where
  "is_digit base c \<longleftrightarrow> parse_digit base c \<noteq> None"

definition fold_digits :: "nat \<Rightarrow> string \<Rightarrow> nat \<Rightarrow> nat" where
  "fold_digits base ds v = foldl (\<lambda>v c. v * base + the (parse_digit base c)) v ds"

lemma parse_digit_less: "base = 10 \<or> base = 16 \<Longrightarrow> parse_digit base c = Some d \<Longrightarrow> d < base"
  by (simp add: parse_digit_iff digit_of_def)

lemma space_not_digit: "\<not> is_digit base (CHR '' '')"
  by (simp add: is_digit_def parse_digit_def char_between_def)

lemma parse_digits_eq:
  assumes "base = 10 \<or> base = 16"
  shows "parse_digits base t (of_nat v) saw =
    (let ds = takeWhile (is_digit base) t; rest = dropWhile (is_digit base) t
     in if (saw \<or> ds \<noteq> []) \<and> (rest = [] \<or> hd rest = CHR '' '') then Some (of_nat (fold_digits base ds v)) else None)"
proof (induction t arbitrary: v saw)
  case Nil
  then show ?case by (simp add: fold_digits_def)
next
  case (Cons c t)
  show ?case
  proof (cases "parse_digit base c")
    case None
    with space_not_digit show ?thesis by (auto simp: is_digit_def fold_digits_def)
  next
    case (Some d)
    have "of_nat v * of_nat base + of_nat d = (of_nat (v * base + d) :: 'a word)" by simp
    with Some parse_digit_less [OF assms Some] Cons.IH [of "v * base + d" True] show ?thesis
      by (simp add: is_digit_def fold_digits_def Let_def del: of_nat_add of_nat_mult)
  qed
qed

lemma denotes_digits_iff:
  assumes "base = 10 \<or> base = 16"
  shows "denotes_digits base ds n \<longleftrightarrow> ds \<noteq> [] \<and> (\<forall>c \<in> set ds. is_digit base c) \<and> n = fold_digits base ds 0"
proof
  assume "denotes_digits base ds n"
  then show "ds \<noteq> [] \<and> (\<forall>c \<in> set ds. is_digit base c) \<and> n = fold_digits base ds 0"
    using assms by (induction rule: denotes_digits.induct) (auto simp: is_digit_def fold_digits_def simp flip: parse_digit_iff)
next
  have "ds \<noteq> [] \<Longrightarrow> \<forall>c \<in> set ds. is_digit base c \<Longrightarrow> denotes_digits base ds (fold_digits base ds 0)"
  proof (induction ds rule: rev_induct)
    case (snoc c ds)
    from snoc.prems obtain d where d: "parse_digit base c = Some d" by (auto simp: is_digit_def)
    note digit = d [unfolded parse_digit_iff [OF assms]]
    show ?case
    proof (cases "ds = []")
      case True
      with denotes_digit [OF digit] d show ?thesis by (simp add: fold_digits_def)
    next
      case False
      with denotes_digits_append [OF snoc.IH digit] snoc.prems d show ?thesis by (simp add: fold_digits_def mult.commute)
    qed
  qed simp
  then show "ds \<noteq> [] \<and> (\<forall>c \<in> set ds. is_digit base c) \<and> n = fold_digits base ds 0 \<Longrightarrow> denotes_digits base ds n" by blast
qed

lemma skip_spaces_split: "\<exists>k. t = replicate k (CHR '' '') @ skip_spaces t"
proof (induction t)
  case (Cons c t)
  then obtain k where "t = replicate k (CHR '' '') @ skip_spaces t" by blast
  then show ?case by (cases "c = CHR '' ''") (auto intro: exI [of _ "Suc k"] exI [of _ 0])
qed simp

lemma skip_spaces_replicate: "t = [] \<or> hd t \<noteq> CHR '' '' \<Longrightarrow> skip_spaces (replicate k (CHR '' '') @ t) = t"
  by (induction k) (auto, cases t, simp_all)

lemma parse_prefix_split:
  assumes "parse_prefix t = (base, body)"
  shows "\<exists>prefix. t = prefix @ body \<and> (prefix = [] \<and> base = 10 \<or> (prefix = ''0x'' \<or> prefix = ''0X'') \<and> base = 16)"
  using assms by (induction t rule: parse_prefix.induct) (auto split: if_splits)

lemma parse_prefix_digits:
  assumes "prefix = [] \<and> base = 10 \<or> (prefix = ''0x'' \<or> prefix = ''0X'') \<and> base = 16"
    and "ds \<noteq> []" and "\<forall>c \<in> set ds. is_digit base c" and "rest = [] \<or> hd rest = CHR '' ''"
  shows "parse_prefix (prefix @ ds @ rest) = (base, ds @ rest)"
proof -
  have x: "\<not> is_digit 10 (CHR ''x'')" "\<not> is_digit 10 (CHR ''X'')"
    by (simp_all add: is_digit_def parse_digit_def char_between_def)
  obtain a ds' where ds: "ds = a # ds'" using assms(2) by (cases ds) auto
  show ?thesis
  proof (cases "ds' @ rest")
    case Nil
    with assms(1) ds show ?thesis by auto
  next
    case (Cons b t)
    with assms(3,4) ds have "b = CHR '' '' \<or> is_digit base b" by (cases ds') auto
    with assms(1) ds Cons x show ?thesis by auto
  qed
qed

lemma denotes_number_parse:
  assumes p: "parse_prefix (skip_spaces t) = (base, body)"
  shows "denotes_number t n \<longleftrightarrow>
    (let ds = takeWhile (is_digit base) body; rest = dropWhile (is_digit base) body
     in ds \<noteq> [] \<and> (rest = [] \<or> hd rest = CHR '' '') \<and> n = fold_digits base ds 0)"
  (is "_ \<longleftrightarrow> ?parsed")
proof
  assume "denotes_number t n"
  then obtain k prefix b ds rest where d: "t = replicate k (CHR '' '') @ prefix @ ds @ rest"
    "prefix = [] \<and> b = 10 \<or> (prefix = ''0x'' \<or> prefix = ''0X'') \<and> b = 16" "denotes_digits b ds n" "rest = [] \<or> hd rest = CHR '' ''"
    unfolding denotes_number_def by blast
  from d(2) have "b = 10 \<or> b = 16" by blast
  note ds = d(3) [unfolded denotes_digits_iff [OF this]]
  then have "hd (prefix @ ds @ rest) \<noteq> CHR '' ''" using d(2) space_not_digit [of b] by (cases ds) auto
  then have "skip_spaces t = prefix @ ds @ rest" unfolding d(1) by (intro skip_spaces_replicate) simp
  with p parse_prefix_digits [OF d(2) _ _ d(4)] ds have "base = b" "body = ds @ rest" by auto
  moreover from ds d(4) space_not_digit [of b]
  have "takeWhile (is_digit b) (ds @ rest) = ds" "dropWhile (is_digit b) (ds @ rest) = rest"
    by (cases rest; simp add: takeWhile_append2 dropWhile_append2)+
  ultimately show ?parsed using ds d(4) by (simp add: Let_def)
next
  assume parsed: ?parsed
  obtain k where k: "t = replicate k (CHR '' '') @ skip_spaces t" using skip_spaces_split by blast
  from parse_prefix_split [OF p] obtain prefix where prefix: "skip_spaces t = prefix @ body"
    "prefix = [] \<and> base = 10 \<or> (prefix = ''0x'' \<or> prefix = ''0X'') \<and> base = 16" by blast
  then have base: "base = 10 \<or> base = 16" by blast
  let ?ds = "takeWhile (is_digit base) body" and ?rest = "dropWhile (is_digit base) body"
  have "denotes_digits base ?ds n" using parsed unfolding denotes_digits_iff [OF base] by (auto simp: Let_def dest: set_takeWhileD)
  moreover have "t = replicate k (CHR '' '') @ prefix @ ?ds @ ?rest" using k prefix(1) by simp
  ultimately show "denotes_number t n" using parsed prefix(2) unfolding denotes_number_def Let_def by blast
qed

text \<open>
  C12. \<^verbatim>\<open>parse_u32\<close> and \<^verbatim>\<open>parse_u64\<close> accept exactly the texts made of leading spaces, decimal digits or
  \<^verbatim>\<open>0x\<close> or \<^verbatim>\<open>0X\<close> and hexadecimal digits of either case, and then the end of the text or a space. The value is the
  number the digits denote, reduced modulo $2^{32}$ and $2^{64}$: a number that is too large is not
  rejected. Every other text is rejected.
\<close>

theorem parse_number_value:
  "(parse_u32 t = Some v \<longleftrightarrow> (\<exists>n. denotes_number t n \<and> v = of_nat n)) \<and>
   (parse_u64 t = Some w \<longleftrightarrow> (\<exists>n. denotes_number t n \<and> w = of_nat n))"
proof -
  obtain base body where p: "parse_prefix (skip_spaces t) = (base, body)" by fastforce
  define ds where "ds = takeWhile (is_digit base) body"
  define rest where "rest = dropWhile (is_digit base) body"
  from parse_prefix_split [OF p] obtain prefix where prefix: "skip_spaces t = prefix @ body"
    "prefix = [] \<and> base = 10 \<or> (prefix = ''0x'' \<or> prefix = ''0X'') \<and> base = 16" by blast
  then have base: "base = 10 \<or> base = 16" by blast
  note res = parse_digits_eq [OF base, of body 0 False, folded ds_def rest_def, unfolded Let_def, simplified]
  have "denotes_number t n \<longleftrightarrow> ds \<noteq> [] \<and> (rest = [] \<or> hd rest = CHR '' '') \<and> n = fold_digits base ds 0" for n
    unfolding denotes_number_parse [OF p] ds_def rest_def Let_def ..
  with res [where 'a = 32] res [where 'a = 64] p show ?thesis by (auto simp: parse_u32_def parse_u64_def)
qed

theorem parse_number_value_witness:
  "denotes_number ''  0X1f 7'' 31 \<and> parse_u32 ''  0X1f 7'' = Some 31 \<and> parse_u64 ''  0X1f 7'' = Some 31"
proof -
  have "denotes_digits 16 ([CHR ''1''] @ [CHR ''f'']) (16 * 1 + 15)"
    by (intro denotes_digits_append denotes_digit) (simp_all add: digit_of_def)
  then have "denotes_number ''  0X1f 7'' 31"
    unfolding denotes_number_def
    by (intro exI [of _ 2] exI [of _ "''0X''"] exI [of _ 16] exI [of _ "''1f''"] exI [of _ "'' 7''"]) (simp add: numeral_2_eq_2)
  then show ?thesis using parse_number_value [of "''  0X1f 7''" 31 31] by auto
qed

end
