(* ===== verification/File_Types.thy ===== *)
theory File_Types
  imports Nexos_Prelude
begin

text \<open>
  Open files (\<^verbatim>\<open>struct file\<close>, here \<open>kfile\<close>, \<^verbatim>\<open>kernel/internal/fs/file_internal.h\<close>) and the operations on one
  file that need no backend: the first part of \<^verbatim>\<open>kernel/fs/file.c\<close>. A \<^verbatim>\<open>struct file *\<close> that the
  callers take from a table is the file itself; the table functions return an option where
  the source returns a null pointer. \<^verbatim>\<open>private_data\<close> points to a pipe of \<^verbatim>\<open>g_file_pipes\<close> or to a
  terminal, \<^verbatim>\<open>ops\<close> to one of the constant operation tables.
\<close>

section \<open>Types\<close>

datatype kernel_file_kind =
  KERNEL_FILE_NONE | KERNEL_FILE_TTY_STDIN | KERNEL_FILE_TTY_STDOUT | KERNEL_FILE_TTY_STDERR
| KERNEL_FILE_VFS | KERNEL_FILE_PIPE_READ | KERNEL_FILE_PIPE_WRITE

datatype private_ptr = NullPtr | PipePtr nat | TtyPtr nat

datatype file_ops =
  OpsNull | OpsPipeRead | OpsPipeWrite | OpsVfs | OpsTtyIn | OpsTtyOut | OpsDevfsTty | OpsDevfsUart

datatype vfs_mount_kind =
  VFS_MOUNT_NONE | VFS_MOUNT_ROOT | VFS_MOUNT_FAT32 | VFS_MOUNT_NXFS | VFS_MOUNT_DEVFS
| VFS_MOUNT_PROCFS | VFS_MOUNT_EVENTFS

datatype vfs_node_kind = VFS_NODE_NONE | VFS_NODE_DIR | VFS_NODE_FILE

record fat32_file =
  fat_name :: string
  first_cluster :: u32
  fat_size :: u32
  attributes :: u8
  lfn_entry_count :: u8
  fat_reserved :: u16
  dirent_index :: u32
  dirent_lba :: u32
  dirent_offset :: u32

record vfs_node =
  node_kind :: vfs_node_kind
  mount_kind :: vfs_mount_kind
  node_reserved :: u16
  mount_slot :: u32
  dev_major :: u32
  dev_minor :: u32
  aux_index :: u32
  aux_data :: u32
  handle_fat32 :: fat32_file

record kfile =
  file_kind :: kernel_file_kind
  file_flags :: u8
  file_offset :: u32
  dir_index :: u32
  vnode :: vfs_node
  opened_path :: string
  private_data :: private_ptr
  file_ops_ptr :: file_ops

definition KERNEL_FILE_CLOSE_ON_SPAWN :: u8 where "KERNEL_FILE_CLOSE_ON_SPAWN = 1"
definition KERNEL_FILE_ACCESS_READ :: u8 where "KERNEL_FILE_ACCESS_READ = 2"
definition KERNEL_FILE_ACCESS_WRITE :: u8 where "KERNEL_FILE_ACCESS_WRITE = 4"

definition NEX_ERR_AGAIN :: int where "NEX_ERR_AGAIN = 11"
definition NEX_ERR_ACCES :: int where "NEX_ERR_ACCES = 13"
definition NEX_ERR_PIPE :: int where "NEX_ERR_PIPE = 32"

definition KERNEL_FILE_IO_WOULD_BLOCK :: int where "KERNEL_FILE_IO_WOULD_BLOCK = - NEX_ERR_AGAIN"
definition KERNEL_FILE_IO_BROKEN_PIPE :: int where "KERNEL_FILE_IO_BROKEN_PIPE = - NEX_ERR_PIPE"

definition NOS_PATH_BUFFER_SIZE :: nat where "NOS_PATH_BUFFER_SIZE = 256"

definition VFS_DEV_TTY :: u32 where "VFS_DEV_TTY = 1"
definition VFS_DEV_STDIN :: u32 where "VFS_DEV_STDIN = 4"
definition VFS_DEV_STDOUT :: u32 where "VFS_DEV_STDOUT = 5"
definition VFS_DEV_STDERR :: u32 where "VFS_DEV_STDERR = 6"
definition VFS_DEV_TTYS0 :: u32 where "VFS_DEV_TTYS0 = 10"
definition VFS_DEV_TTY1 :: u32 where "VFS_DEV_TTY1 = 11"
definition VFS_DEV_TTY2 :: u32 where "VFS_DEV_TTY2 = 12"
definition VFS_DEV_TTY3 :: u32 where "VFS_DEV_TTY3 = 13"

lemmas file_consts = KERNEL_FILE_CLOSE_ON_SPAWN_def KERNEL_FILE_ACCESS_READ_def KERNEL_FILE_ACCESS_WRITE_def
  NEX_ERR_AGAIN_def NEX_ERR_ACCES_def NEX_ERR_PIPE_def KERNEL_FILE_IO_WOULD_BLOCK_def
  KERNEL_FILE_IO_BROKEN_PIPE_def

section \<open>Operations on one file\<close>

definition vfs_node_reset :: "vfs_node \<Rightarrow> vfs_node" where
  "vfs_node_reset node =
     node\<lparr>node_kind := VFS_NODE_NONE, mount_kind := VFS_MOUNT_NONE, mount_slot := 0,
          dev_major := 0, dev_minor := 0, aux_index := 0, aux_data := 0,
          handle_fat32 := (handle_fat32 node)\<lparr>fat_name := [], first_cluster := 0, fat_size := 0,
             attributes := 0, dirent_lba := 0, dirent_offset := 0\<rparr>\<rparr>"

definition file_reset :: "kfile \<Rightarrow> kfile" where
  "file_reset f =
     f\<lparr>file_kind := KERNEL_FILE_NONE, file_flags := 0, file_offset := 0, dir_index := 0,
          vnode := vfs_node_reset (vnode f), opened_path := [], private_data := NullPtr,
          file_ops_ptr := OpsNull\<rparr>"

definition file_set_offset :: "kfile \<Rightarrow> u32 \<Rightarrow> kfile" where
  "file_set_offset f off = f\<lparr>file_offset := off\<rparr>"

definition file_is_active :: "kfile \<Rightarrow> bool" where
  "file_is_active f \<longleftrightarrow> file_kind f \<noteq> KERNEL_FILE_NONE \<and> file_ops_ptr f \<noteq> OpsNull"

definition file_can_read :: "kfile \<Rightarrow> bool" where
  "file_can_read f \<longleftrightarrow>
     file_is_active f \<and>
     (file_kind f = KERNEL_FILE_TTY_STDIN \<or> file_kind f = KERNEL_FILE_PIPE_READ \<or>
      file_flags f AND KERNEL_FILE_ACCESS_READ \<noteq> 0)"

definition file_can_write :: "kfile \<Rightarrow> bool" where
  "file_can_write f \<longleftrightarrow>
     file_is_active f \<and>
     (file_kind f = KERNEL_FILE_TTY_STDOUT \<or> file_kind f = KERNEL_FILE_TTY_STDERR \<or>
      file_kind f = KERNEL_FILE_PIPE_WRITE \<or> file_flags f AND KERNEL_FILE_ACCESS_WRITE \<noteq> 0)"

definition file_can_readdir :: "kfile \<Rightarrow> bool" where
  "file_can_readdir f = file_can_read f"

definition file_tty_private_handle :: "kfile \<Rightarrow> private_ptr" where
  "file_tty_private_handle f =
     (if \<not> file_is_active f \<or> private_data f = NullPtr then NullPtr
      else if file_kind f = KERNEL_FILE_TTY_STDIN \<or> file_kind f = KERNEL_FILE_TTY_STDOUT \<or>
              file_kind f = KERNEL_FILE_TTY_STDERR
      then private_data f
      else if file_kind f \<noteq> KERNEL_FILE_VFS \<or> mount_kind (vnode f) \<noteq> VFS_MOUNT_DEVFS then NullPtr
      else if aux_index (vnode f) \<in> {VFS_DEV_TTY, VFS_DEV_TTY1, VFS_DEV_TTY2, VFS_DEV_TTY3,
                                        VFS_DEV_STDIN, VFS_DEV_STDOUT, VFS_DEV_STDERR}
      then private_data f
      else NullPtr)"

lemma file_reset_simps [simp]:
  "file_kind (file_reset f) = KERNEL_FILE_NONE" "file_flags (file_reset f) = 0" "file_ops_ptr (file_reset f) = OpsNull"
  "private_data (file_reset f) = NullPtr" "\<not> file_is_active (file_reset f)"
  by (simp_all add: file_reset_def file_is_active_def)

end
