(* ===== verification/Pipe.thy ===== *)
theory Pipe
  imports File_Types Kstring Ring_Buffer
begin

text \<open>
  Pipes (\<^verbatim>\<open>kernel/fs/file_pipe_backend.c\<close>): the four static pipes, their reader and writer counts,
  the ring buffer of 65536 bytes, and named pipes. The state is the array \<^verbatim>\<open>g_file_pipes\<close> and the
  sequence of calls made to \<^verbatim>\<open>process_wake_file_waiters\<close>, which acts on the process table only.
  A buffer argument is the list of its \<^verbatim>\<open>size\<close> bytes; a read returns the bytes it stored. The
  flags of a pipe are only ever 0 or 1.
\<close>

definition FILE_PIPE_MAX :: nat where "FILE_PIPE_MAX = 4"
definition FILE_PIPE_BUFFER_SIZE :: nat where "FILE_PIPE_BUFFER_SIZE = 65536"

record file_pipe =
  pipe_used :: bool
  pipe_named :: bool
  pipe_linked :: bool
  readers :: u8
  writers :: u8
  read_pos :: u32
  write_pos :: u32
  pipe_count :: u32
  pipe_name :: string
  pipe_buffer :: "u32 \<Rightarrow> u8"

record pipe_state =
  g_file_pipes :: "file_pipe list"
  wake_calls :: "(nat \<times> kernel_file_kind) list"

definition pipe_put :: "nat \<Rightarrow> file_pipe \<Rightarrow> pipe_state \<Rightarrow> pipe_state" where
  "pipe_put i p st = st\<lparr>g_file_pipes := (g_file_pipes st)[i := p]\<rparr>"

definition process_wake_call :: "nat \<Rightarrow> kernel_file_kind \<Rightarrow> pipe_state \<Rightarrow> pipe_state" where
  "process_wake_call i k st = st\<lparr>wake_calls := wake_calls st @ [(i, k)]\<rparr>"

section \<open>Helpers\<close>

definition file_pipe_init_with_ops :: "kfile \<Rightarrow> kernel_file_kind \<Rightarrow> file_ops \<Rightarrow> kfile" where
  "file_pipe_init_with_ops f k table = (file_reset f)\<lparr>file_kind := k, file_ops_ptr := table\<rparr>"

definition file_pipe_reset :: "file_pipe \<Rightarrow> file_pipe" where
  "file_pipe_reset pipe =
     pipe\<lparr>pipe_used := False, pipe_named := False, pipe_linked := False, readers := 0, writers := 0,
          read_pos := 0, write_pos := 0, pipe_count := 0, pipe_name := []\<rparr>"

definition file_pipe_clear_data :: "file_pipe \<Rightarrow> file_pipe" where
  "file_pipe_clear_data pipe = pipe\<lparr>read_pos := 0, write_pos := 0, pipe_count := 0\<rparr>"

definition file_pipe_find_named :: "pipe_state \<Rightarrow> string \<Rightarrow> nat option" where
  "file_pipe_find_named st path =
     first_index (\<lambda>i. pipe_used (g_file_pipes st ! i) \<and> pipe_named (g_file_pipes st ! i) \<and>
                      pipe_linked (g_file_pipes st ! i) \<and> streq (pipe_name (g_file_pipes st ! i)) path)
       0 FILE_PIPE_MAX"

definition file_pipe_find_unused :: "pipe_state \<Rightarrow> nat option" where
  "file_pipe_find_unused st = first_index (\<lambda>i. \<not> pipe_used (g_file_pipes st ! i)) 0 FILE_PIPE_MAX"

definition file_pipe_init_end :: "kfile \<Rightarrow> kernel_file_kind \<Rightarrow> nat \<Rightarrow> file_ops \<Rightarrow> kfile" where
  "file_pipe_init_end f k i table = (file_pipe_init_with_ops f k table)\<lparr>private_data := PipePtr i\<rparr>"

definition file_pipe_release_end :: "file_pipe \<Rightarrow> kernel_file_kind \<Rightarrow> file_pipe" where
  "file_pipe_release_end pipe k =
     (if k = KERNEL_FILE_PIPE_READ then
        (if readers pipe \<noteq> 0 then pipe\<lparr>readers := readers pipe - 1\<rparr> else pipe)
      else if k = KERNEL_FILE_PIPE_WRITE then
        (if writers pipe \<noteq> 0 then pipe\<lparr>writers := writers pipe - 1\<rparr> else pipe)
      else pipe)"

definition file_pipe_acquire_end :: "file_pipe \<Rightarrow> kernel_file_kind \<Rightarrow> file_pipe" where
  "file_pipe_acquire_end pipe k =
     (if k = KERNEL_FILE_PIPE_READ then pipe\<lparr>readers := readers pipe + 1\<rparr>
      else if k = KERNEL_FILE_PIPE_WRITE then pipe\<lparr>writers := writers pipe + 1\<rparr>
      else pipe)"

definition file_pipe_from_file :: "kfile \<Rightarrow> nat option" where
  "file_pipe_from_file f = (case private_data f of PipePtr i \<Rightarrow> Some i | _ \<Rightarrow> None)"

section \<open>Reading and writing\<close>

definition file_pipe_take_byte :: "file_pipe \<Rightarrow> u8 \<times> file_pipe" where
  "file_pipe_take_byte pipe =
     (pipe_buffer pipe (read_pos pipe),
      pipe\<lparr>read_pos := (read_pos pipe + 1) mod of_nat FILE_PIPE_BUFFER_SIZE,
           pipe_count := pipe_count pipe - 1\<rparr>)"

primrec file_pipe_read_loop :: "nat \<Rightarrow> u8 list \<Rightarrow> file_pipe \<Rightarrow> u8 list \<times> file_pipe" where
  "file_pipe_read_loop 0 out pipe = (out, pipe)"
| "file_pipe_read_loop (Suc n) out pipe =
     (if pipe_count pipe \<noteq> 0
      then (let (b, pipe') = file_pipe_take_byte pipe in file_pipe_read_loop n (out @ [b]) pipe')
      else (out, pipe))"

definition file_pipe_read :: "pipe_state \<Rightarrow> kfile \<Rightarrow> u32 \<Rightarrow> int \<times> u8 list \<times> pipe_state" where
  "file_pipe_read st f sz =
     (case file_pipe_from_file f of
        None \<Rightarrow> (0, [], st)
      | Some i \<Rightarrow>
          (let pipe = g_file_pipes st ! i in
           if sz = 0 then (0, [], st)
           else if pipe_count pipe = 0 then
             (if writers pipe = 0 then 0 else KERNEL_FILE_IO_WOULD_BLOCK, [], st)
           else
             (let (out, pipe') = file_pipe_read_loop (unat sz) [] pipe;
                  st' = pipe_put i pipe' st;
                  moved = length out
              in (int moved, out,
                  if moved \<noteq> 0 then process_wake_call i KERNEL_FILE_PIPE_WRITE st' else st'))))"

definition file_pipe_put_byte :: "u8 \<Rightarrow> file_pipe \<Rightarrow> file_pipe" where
  "file_pipe_put_byte b pipe =
     pipe\<lparr>pipe_buffer := (pipe_buffer pipe)(write_pos pipe := b),
          write_pos := (write_pos pipe + 1) mod of_nat FILE_PIPE_BUFFER_SIZE,
          pipe_count := pipe_count pipe + 1\<rparr>"

primrec file_pipe_write_loop :: "u8 list \<Rightarrow> nat \<Rightarrow> file_pipe \<Rightarrow> nat \<times> file_pipe" where
  "file_pipe_write_loop [] moved pipe = (moved, pipe)"
| "file_pipe_write_loop (b # data) moved pipe =
     (if unat (pipe_count pipe) < FILE_PIPE_BUFFER_SIZE
      then file_pipe_write_loop data (moved + 1) (file_pipe_put_byte b pipe)
      else (moved, pipe))"

definition file_pipe_write :: "pipe_state \<Rightarrow> kfile \<Rightarrow> u8 list \<Rightarrow> int \<times> pipe_state" where
  "file_pipe_write st f data =
     (case file_pipe_from_file f of
        None \<Rightarrow> (0, st)
      | Some i \<Rightarrow>
          (let pipe = g_file_pipes st ! i in
           if data = [] then (0, st)
           else if readers pipe = 0 then (KERNEL_FILE_IO_BROKEN_PIPE, st)
           else if unat (pipe_count pipe) \<ge> FILE_PIPE_BUFFER_SIZE then (KERNEL_FILE_IO_WOULD_BLOCK, st)
           else
             (let (moved, pipe') = file_pipe_write_loop data 0 pipe;
                  st' = pipe_put i pipe' st
              in (int moved,
                  if moved \<noteq> 0 then process_wake_call i KERNEL_FILE_PIPE_READ st' else st'))))"

section \<open>Closing\<close>

definition file_pipe_close :: "pipe_state \<Rightarrow> kfile \<Rightarrow> int \<times> pipe_state \<times> kfile" where
  "file_pipe_close st f =
     (let k = file_kind f in
      case file_pipe_from_file f of
        None \<Rightarrow> (0, st, file_reset f)
      | Some i \<Rightarrow>
          (let pipe = file_pipe_release_end (g_file_pipes st ! i) k;
               st1 = pipe_put i pipe st;
               st2 = (if k = KERNEL_FILE_PIPE_READ \<and> readers pipe = 0
                      then process_wake_call i KERNEL_FILE_PIPE_WRITE st1
                      else if k = KERNEL_FILE_PIPE_WRITE \<and> writers pipe = 0
                      then process_wake_call i KERNEL_FILE_PIPE_READ st1
                      else st1);
               st3 = (if readers pipe = 0 \<and> writers pipe = 0
                      then (if pipe_linked pipe then pipe_put i (file_pipe_clear_data pipe) st2
                            else pipe_put i (file_pipe_reset pipe) st2)
                      else st2)
           in (0, st3, file_reset f)))"

section \<open>Named pipes\<close>

definition file_pipe_backend_create_named :: "pipe_state \<Rightarrow> string \<Rightarrow> bool \<times> pipe_state" where
  "file_pipe_backend_create_named st path =
     (if path = [] \<or> file_pipe_find_named st path \<noteq> None then (False, st)
      else case file_pipe_find_unused st of
        None \<Rightarrow> (False, st)
      | Some i \<Rightarrow>
          (True, pipe_put i ((file_pipe_reset (g_file_pipes st ! i))
             \<lparr>pipe_used := True, pipe_named := True, pipe_linked := True,
              pipe_name := take (NOS_PATH_BUFFER_SIZE - 1) path\<rparr>) st))"

definition file_pipe_backend_unlink_named :: "pipe_state \<Rightarrow> string \<Rightarrow> bool \<times> pipe_state" where
  "file_pipe_backend_unlink_named st path =
     (case file_pipe_find_named st path of
        None \<Rightarrow> (False, st)
      | Some i \<Rightarrow>
          (let pipe = (g_file_pipes st ! i)\<lparr>pipe_linked := False, pipe_name := []\<rparr>;
               pipe' = (if readers pipe = 0 \<and> writers pipe = 0 then file_pipe_reset pipe else pipe)
           in (True, pipe_put i pipe' st)))"

definition file_pipe_backend_named_exists :: "pipe_state \<Rightarrow> string \<Rightarrow> bool" where
  "file_pipe_backend_named_exists st path \<longleftrightarrow> file_pipe_find_named st path \<noteq> None"

definition file_pipe_backend_open_named ::
    "pipe_state \<Rightarrow> kfile \<Rightarrow> string \<Rightarrow> bool \<Rightarrow> bool \<times> pipe_state \<times> kfile" where
  "file_pipe_backend_open_named st f path writable =
     (let k = (if writable then KERNEL_FILE_PIPE_WRITE else KERNEL_FILE_PIPE_READ);
          table = (if writable then OpsPipeWrite else OpsPipeRead)
      in case file_pipe_find_named st path of
           None \<Rightarrow> (False, st, f)
         | Some i \<Rightarrow>
             (let f1 = file_pipe_init_end f k i table;
                  f2 = f1\<lparr>file_flags := file_flags f1 OR
                         (if writable then KERNEL_FILE_ACCESS_WRITE else KERNEL_FILE_ACCESS_READ)\<rparr>
              in (True, pipe_put i (file_pipe_acquire_end (g_file_pipes st ! i) k) st, f2)))"

section \<open>The interface of the backend\<close>

definition file_pipe_backend_is_kind :: "kernel_file_kind \<Rightarrow> bool" where
  "file_pipe_backend_is_kind k \<longleftrightarrow> k = KERNEL_FILE_PIPE_READ \<or> k = KERNEL_FILE_PIPE_WRITE"

definition file_pipe_backend_init_pair ::
    "pipe_state \<Rightarrow> kfile \<Rightarrow> kfile \<Rightarrow> bool \<times> pipe_state \<times> kfile \<times> kfile" where
  "file_pipe_backend_init_pair st read_file write_file =
     (case file_pipe_find_unused st of
        None \<Rightarrow> (False, st, read_file, write_file)
      | Some i \<Rightarrow>
          (True, pipe_put i ((file_pipe_reset (g_file_pipes st ! i))
                    \<lparr>pipe_used := True, readers := 1, writers := 1\<rparr>) st,
           file_pipe_init_end read_file KERNEL_FILE_PIPE_READ i OpsPipeRead,
           file_pipe_init_end write_file KERNEL_FILE_PIPE_WRITE i OpsPipeWrite))"

definition file_pipe_backend_discard :: "pipe_state \<Rightarrow> kfile \<Rightarrow> pipe_state \<times> kfile" where
  "file_pipe_backend_discard st f =
     (if \<not> file_is_active f then (st, f) else snd (file_pipe_close st f))"

definition file_pipe_backend_clone ::
    "pipe_state \<Rightarrow> kfile \<Rightarrow> kfile \<Rightarrow> bool \<times> pipe_state \<times> kfile" where
  "file_pipe_backend_clone st dst src =
     (if \<not> file_is_active src \<or> \<not> file_pipe_backend_is_kind (file_kind src) then (False, st, dst)
      else case file_pipe_from_file src of
        None \<Rightarrow> (False, st, file_reset src)
      | Some i \<Rightarrow>
          (True, pipe_put i (file_pipe_acquire_end (g_file_pipes st ! i) (file_kind src)) st, src))"

definition file_pipe_backend_read_would_block :: "pipe_state \<Rightarrow> kfile \<Rightarrow> bool" where
  "file_pipe_backend_read_would_block st f =
     (if file_kind f \<noteq> KERNEL_FILE_PIPE_READ then False
      else case file_pipe_from_file f of
        None \<Rightarrow> False
      | Some i \<Rightarrow> pipe_count (g_file_pipes st ! i) = 0 \<and> writers (g_file_pipes st ! i) \<noteq> 0)"

definition file_pipe_backend_write_would_block :: "pipe_state \<Rightarrow> kfile \<Rightarrow> bool" where
  "file_pipe_backend_write_would_block st f =
     (if file_kind f \<noteq> KERNEL_FILE_PIPE_WRITE then False
      else case file_pipe_from_file f of
        None \<Rightarrow> False
      | Some i \<Rightarrow> unat (pipe_count (g_file_pipes st ! i)) \<ge> FILE_PIPE_BUFFER_SIZE \<and>
                  readers (g_file_pipes st ! i) \<noteq> 0)"

definition file_pipe_backend_has_readers :: "pipe_state \<Rightarrow> kfile \<Rightarrow> bool" where
  "file_pipe_backend_has_readers st f =
     (if file_kind f \<noteq> KERNEL_FILE_PIPE_WRITE then True
      else case file_pipe_from_file f of
        None \<Rightarrow> False
      | Some i \<Rightarrow> readers (g_file_pipes st ! i) \<noteq> 0)"

end
