(* ===== verification/Pipe_Fifo.thy ===== *)
theory Pipe_Fifo
  imports Pipe
begin

text \<open>
  The data of a pipe is a first-in first-out stream: the ring buffer contract holds for the
  fields of \<^verbatim>\<open>struct file_pipe\<close>, the loops of \<^verbatim>\<open>file_pipe_read\<close> and \<^verbatim>\<open>file_pipe_write\<close> move the longest
  possible prefix, and over any sequence of reads and writes no byte is lost, duplicated
  or reordered.
\<close>

section \<open>The ring buffer of a pipe\<close>

lemma unat_of_nat_u32 [simp]: "n < 4294967296 \<Longrightarrow> unat (of_nat n :: u32) = n"
  by (simp add: unat_of_nat)

lemma of_nat_eq_u32: "i < 65536 \<Longrightarrow> (of_nat i :: u32) = t \<longleftrightarrow> i = unat t" for t :: u32
  by (simp add: word_unat_eq_iff)

lemma unat_pipe_next:
  "unat (p :: u32) < 65536 \<Longrightarrow> unat ((p + 1) mod 65536) = Suc (unat p) mod 65536"
  by (subst unat_mod, subst unat_add_lem [THEN iffD1]) simp_all

interpretation pipeq: ring_buffer FILE_PIPE_BUFFER_SIZE "\<lambda>p i. pipe_buffer p (of_nat i)"
  "\<lambda>p. unat (read_pos p)" "\<lambda>p. unat (write_pos p)" "\<lambda>p. unat (pipe_count p)"
  file_pipe_put_byte file_pipe_take_byte
proof
  fix p :: file_pipe and b :: u8 and n :: nat
  assume ok: "ring_ok FILE_PIPE_BUFFER_SIZE (unat (read_pos p)) (unat (write_pos p)) (unat (pipe_count p))"
  then have pos: "unat (read_pos p) < 65536" "unat (write_pos p) < 65536"
    by (auto simp: ring_ok_def FILE_PIPE_BUFFER_SIZE_def)
  {
    assume "unat (pipe_count p) < FILE_PIPE_BUFFER_SIZE"
    then have "unat (pipe_count p + 1) = Suc (unat (pipe_count p))"
      by (subst unat_add_lem [THEN iffD1]) (simp_all add: FILE_PIPE_BUFFER_SIZE_def)
    with pos show "(\<forall>i < FILE_PIPE_BUFFER_SIZE. pipe_buffer (file_pipe_put_byte b p) (of_nat i) =
          (if i = unat (write_pos p) then b else pipe_buffer p (of_nat i))) \<and>
        unat (read_pos (file_pipe_put_byte b p)) = unat (read_pos p) \<and>
        unat (write_pos (file_pipe_put_byte b p)) = Suc (unat (write_pos p)) mod FILE_PIPE_BUFFER_SIZE \<and>
        unat (pipe_count (file_pipe_put_byte b p)) = Suc (unat (pipe_count p))"
      by (auto simp: file_pipe_put_byte_def FILE_PIPE_BUFFER_SIZE_def of_nat_eq_u32 unat_pipe_next)
  next
    assume n: "unat (pipe_count p) = Suc n"
    then have "pipe_count p \<noteq> 0" by auto
    with n have "unat (pipe_count p - 1) = n" by (simp add: unat_minus_one)
    with pos show "fst (file_pipe_take_byte p) = pipe_buffer p (of_nat (unat (read_pos p))) \<and>
        (\<forall>i < FILE_PIPE_BUFFER_SIZE.
           pipe_buffer (snd (file_pipe_take_byte p)) (of_nat i) = pipe_buffer p (of_nat i)) \<and>
        unat (read_pos (snd (file_pipe_take_byte p))) = Suc (unat (read_pos p)) mod FILE_PIPE_BUFFER_SIZE \<and>
        unat (write_pos (snd (file_pipe_take_byte p))) = unat (write_pos p) \<and>
        unat (pipe_count (snd (file_pipe_take_byte p))) = n"
      by (simp add: file_pipe_take_byte_def FILE_PIPE_BUFFER_SIZE_def unat_pipe_next)
  }
qed

definition pipe_ok :: "file_pipe \<Rightarrow> bool" where
  "pipe_ok = pipeq.ok"

definition pipe_data :: "file_pipe \<Rightarrow> u8 list" where
  "pipe_data = pipeq.contents"

lemma length_pipe_data: "length (pipe_data p) = unat (pipe_count p)"
  unfolding pipe_data_def by (rule pipeq.length_contents)

lemma pipe_ok_bound: "pipe_ok p \<Longrightarrow> length (pipe_data p) \<le> FILE_PIPE_BUFFER_SIZE"
  unfolding pipe_ok_def length_pipe_data by (rule pipeq.ok_bound)

lemma pipe_count_0_iff: "pipe_count p = 0 \<longleftrightarrow> pipe_data p = []"
  using length_pipe_data [of p] by (metis length_0_conv unat_eq_0)

text \<open>What the transfer leaves alone.\<close>

definition same_pipe_ends :: "file_pipe \<Rightarrow> file_pipe \<Rightarrow> bool" where
  "same_pipe_ends p q \<longleftrightarrow> pipe_used q = pipe_used p \<and> pipe_named q = pipe_named p \<and>
     pipe_linked q = pipe_linked p \<and> readers q = readers p \<and> writers q = writers p \<and> pipe_name q = pipe_name p"

lemma same_pipe_ends_trans: "same_pipe_ends p q \<Longrightarrow> same_pipe_ends q r \<Longrightarrow> same_pipe_ends p r"
  by (simp add: same_pipe_ends_def)

lemma same_pipe_ends_byte: "same_pipe_ends p p" "same_pipe_ends p (file_pipe_put_byte b p)"
  "same_pipe_ends p (snd (file_pipe_take_byte p))"
  by (simp_all add: same_pipe_ends_def file_pipe_put_byte_def file_pipe_take_byte_def)

lemma file_pipe_write_loop_fifo:
  assumes "pipe_ok p" and "file_pipe_write_loop data n p = (m, q)"
  shows "pipe_ok q \<and> same_pipe_ends p q \<and>
         m = n + min (length data) (FILE_PIPE_BUFFER_SIZE - length (pipe_data p)) \<and>
         pipe_data q = pipe_data p @ take (m - n) data"
  using assms
proof (induction data arbitrary: n p)
  case Nil
  then show ?case by (simp add: same_pipe_ends_def)
next
  case (Cons b data)
  show ?case
  proof (cases "unat (pipe_count p) < FILE_PIPE_BUFFER_SIZE")
    case True
    note put = pipeq.push_fifo [OF Cons.prems(1) [unfolded pipe_ok_def] True, of b, folded pipe_ok_def pipe_data_def]
    from True Cons.prems(2) have "file_pipe_write_loop data (n + 1) (file_pipe_put_byte b p) = (m, q)" by simp
    from Cons.IH [OF put(1) this] same_pipe_ends_byte(2) [of p b] put(2) True show ?thesis
      by (auto simp: length_pipe_data [symmetric] Suc_diff_le Suc_diff_Suc dest: same_pipe_ends_trans)
  next
    case False
    with Cons.prems show ?thesis by (auto simp: length_pipe_data same_pipe_ends_def)
  qed
qed

lemma file_pipe_read_loop_fifo:
  assumes "pipe_ok p" and "file_pipe_read_loop n out p = (got, q)"
  shows "pipe_ok q \<and> same_pipe_ends p q \<and> got = out @ take n (pipe_data p) \<and> pipe_data q = drop n (pipe_data p)"
  using assms
proof (induction n arbitrary: out p)
  case 0
  then show ?case by (simp add: same_pipe_ends_def)
next
  case (Suc n)
  show ?case
  proof (cases "pipe_data p")
    case Nil
    with Suc.prems pipe_count_0_iff [of p] show ?thesis by (simp add: same_pipe_ends_def)
  next
    case (Cons b rest)
    note take = pipeq.pop_fifo [OF Suc.prems(1) [unfolded pipe_ok_def] Cons [unfolded pipe_data_def],
        folded pipe_ok_def pipe_data_def]
    obtain c r where cr: "file_pipe_take_byte p = (c, r)" by fastforce
    with Suc.prems(2) Cons pipe_count_0_iff [of p] have "file_pipe_read_loop n (out @ [c]) r = (got, q)" by simp
    from Suc.IH [OF _ this] take cr same_pipe_ends_byte(3) [of p] Cons show ?thesis
      by (auto dest: same_pipe_ends_trans)
  qed
qed

end
