(* ===== verification/File_Table.thy ===== *)
theory File_Table
  imports Pipe_Fifo
begin

text \<open>
  Files and file tables (\<^verbatim>\<open>kernel/fs/file.c\<close>), the VFS backend (\<^verbatim>\<open>kernel/fs/file_backend.c\<close>) and the
  binding of device nodes (\<^verbatim>\<open>kernel/fs/file_device_backend.c\<close>). The VFS and the device drivers
  behind an open file are the fields of a \<open>backend\<close> record: functions on a driver state \<open>'s\<close>
  that the dispatching code calls. A file table is a list whose length is the \<^verbatim>\<open>count\<close>
  argument of the source.
\<close>

record 's backend =
  vfs_read :: "vfs_node \<Rightarrow> u32 \<Rightarrow> u32 \<Rightarrow> u32 \<Rightarrow> 's \<Rightarrow> int \<times> u8 list \<times> vfs_node \<times> u32 \<times> 's"
  vfs_write :: "vfs_node \<Rightarrow> u32 \<Rightarrow> u8 list \<Rightarrow> string \<Rightarrow> 's \<Rightarrow> int \<times> vfs_node \<times> u32 \<times> 's"
  vfs_readdir :: "vfs_node \<Rightarrow> u32 \<Rightarrow> 's \<Rightarrow> int \<times> vfs_node \<times> u32 \<times> 's"
  device_read :: "file_ops \<Rightarrow> kfile \<Rightarrow> u32 \<Rightarrow> u32 \<Rightarrow> 's \<Rightarrow> int \<times> u8 list \<times> 's"
  device_write :: "file_ops \<Rightarrow> kfile \<Rightarrow> u8 list \<Rightarrow> 's \<Rightarrow> int \<times> 's"

section \<open>Device nodes\<close>

definition file_init_with_ops :: "kfile \<Rightarrow> kernel_file_kind \<Rightarrow> file_ops \<Rightarrow> kfile" where
  "file_init_with_ops f k table = (file_reset f)\<lparr>file_kind := k, file_ops_ptr := table\<rparr>"

definition file_device_init_with_ops :: "kfile \<Rightarrow> kernel_file_kind \<Rightarrow> file_ops \<Rightarrow> kfile" where
  "file_device_init_with_ops f k table = (file_reset f)\<lparr>file_kind := k, file_ops_ptr := table\<rparr>"

definition file_or_flags :: "u8 \<Rightarrow> kfile \<Rightarrow> kfile" where
  "file_or_flags fl f = f\<lparr>file_flags := file_flags f OR fl\<rparr>"

definition file_init_console_in :: "kfile \<Rightarrow> private_ptr \<Rightarrow> kfile" where
  "file_init_console_in f console_handle =
     (file_or_flags KERNEL_FILE_ACCESS_READ (file_device_init_with_ops f KERNEL_FILE_TTY_STDIN OpsTtyIn))
       \<lparr>private_data := console_handle\<rparr>"

definition file_init_console_out :: "kfile \<Rightarrow> private_ptr \<Rightarrow> kfile" where
  "file_init_console_out f console_handle =
     (file_or_flags KERNEL_FILE_ACCESS_WRITE (file_device_init_with_ops f KERNEL_FILE_TTY_STDOUT OpsTtyOut))
       \<lparr>private_data := console_handle\<rparr>"

definition file_init_console_err :: "kfile \<Rightarrow> private_ptr \<Rightarrow> kfile" where
  "file_init_console_err f console_handle =
     (file_or_flags KERNEL_FILE_ACCESS_WRITE (file_device_init_with_ops f KERNEL_FILE_TTY_STDERR OpsTtyOut))
       \<lparr>private_data := console_handle\<rparr>"

definition file_device_tty_for_node :: "vfs_node \<Rightarrow> private_ptr \<Rightarrow> private_ptr" where
  "file_device_tty_for_node node console_handle =
     (if aux_index node = VFS_DEV_TTY1 then TtyPtr 0
      else if aux_index node = VFS_DEV_TTY2 then TtyPtr 1
      else if aux_index node = VFS_DEV_TTY3 then TtyPtr 2
      else console_handle)"

definition file_device_bind_vfs_node :: "kfile \<Rightarrow> vfs_node \<Rightarrow> file_ops \<Rightarrow> kfile" where
  "file_device_bind_vfs_node f node table =
     (file_device_init_with_ops f KERNEL_FILE_VFS table)\<lparr>vnode := node\<rparr>"

text \<open>
  The result is \<open>None\<close> when the node is not a device this backend serves. Binding the serial
  line also calls \<^verbatim>\<open>uart_set_console_input_enabled(0)\<close>; the driver keeps that flag.
\<close>

definition file_device_backend_bind :: "kfile \<Rightarrow> vfs_node \<Rightarrow> private_ptr \<Rightarrow> kfile option" where
  "file_device_backend_bind f node console_handle =
     (if mount_kind node \<noteq> VFS_MOUNT_DEVFS then None
      else if aux_index node \<in> {VFS_DEV_TTY, VFS_DEV_TTY1, VFS_DEV_TTY2, VFS_DEV_TTY3} then
        Some ((file_or_flags (KERNEL_FILE_ACCESS_READ OR KERNEL_FILE_ACCESS_WRITE)
                 (file_device_bind_vfs_node f node OpsDevfsTty))
                \<lparr>private_data := file_device_tty_for_node node console_handle\<rparr>)
      else if aux_index node = VFS_DEV_STDIN then
        Some ((file_or_flags KERNEL_FILE_ACCESS_READ (file_device_bind_vfs_node f node OpsTtyIn))
                \<lparr>private_data := console_handle\<rparr>)
      else if aux_index node = VFS_DEV_STDOUT then
        Some ((file_or_flags KERNEL_FILE_ACCESS_WRITE (file_device_bind_vfs_node f node OpsTtyOut))
                \<lparr>private_data := console_handle\<rparr>)
      else if aux_index node = VFS_DEV_STDERR then
        Some ((file_or_flags KERNEL_FILE_ACCESS_WRITE (file_device_bind_vfs_node f node OpsTtyOut))
                \<lparr>private_data := console_handle\<rparr>)
      else if aux_index node = VFS_DEV_TTYS0 then
        Some (file_or_flags (KERNEL_FILE_ACCESS_READ OR KERNEL_FILE_ACCESS_WRITE)
                (file_device_bind_vfs_node f node OpsDevfsUart))
      else None)"

section \<open>The VFS backend\<close>

definition file_copy_opened_path :: "kfile \<Rightarrow> string \<Rightarrow> kfile" where
  "file_copy_opened_path f path = f\<lparr>opened_path := take (NOS_PATH_BUFFER_SIZE - 1) path\<rparr>"

definition file_init_vfs :: "kfile \<Rightarrow> vfs_node \<Rightarrow> string \<Rightarrow> private_ptr \<Rightarrow> kfile" where
  "file_init_vfs f node path console_handle =
     (case file_device_backend_bind f node console_handle of
        Some f' \<Rightarrow> file_copy_opened_path f' path
      | None \<Rightarrow> file_copy_opened_path ((file_init_with_ops f KERNEL_FILE_VFS OpsVfs)\<lparr>vnode := node\<rparr>) path)"

definition KERNEL_FILE_READ_NONBLOCK :: u32 where "KERNEL_FILE_READ_NONBLOCK = 1"
definition KERNEL_FILE_READ_CHAR :: u32 where "KERNEL_FILE_READ_CHAR = 2"

definition file_vfs_read ::
    "'s backend \<Rightarrow> kfile \<Rightarrow> u32 \<Rightarrow> u32 \<Rightarrow> 's \<Rightarrow> int \<times> u8 list \<times> kfile \<times> 's" where
  "file_vfs_read be f sz fl s =
     (let vfs_flags = (if fl AND KERNEL_FILE_READ_NONBLOCK \<noteq> 0 then 1 else 0) OR
                      (if fl AND KERNEL_FILE_READ_CHAR \<noteq> 0 then 2 else 0);
          (rc, bytes, node, off, s') = vfs_read be (vnode f) (file_offset f) sz vfs_flags s
      in (rc, bytes, f\<lparr>vnode := node, file_offset := off\<rparr>, s'))"

definition file_vfs_write :: "'s backend \<Rightarrow> kfile \<Rightarrow> u8 list \<Rightarrow> 's \<Rightarrow> int \<times> kfile \<times> 's" where
  "file_vfs_write be f data s =
     (let (rc, node, off, s') = vfs_write be (vnode f) (file_offset f) data (opened_path f) s
      in (rc, f\<lparr>vnode := node, file_offset := off\<rparr>, s'))"

definition file_vfs_readdir :: "'s backend \<Rightarrow> kfile \<Rightarrow> 's \<Rightarrow> int \<times> kfile \<times> 's" where
  "file_vfs_readdir be f s =
     (let (rc, node, idx, s') = vfs_readdir be (vnode f) (dir_index f) s
      in (rc, f\<lparr>vnode := node, dir_index := idx\<rparr>, s'))"

section \<open>Pipes as files\<close>

definition file_init_pipe_pair ::
    "pipe_state \<Rightarrow> kfile \<Rightarrow> kfile \<Rightarrow> bool \<times> pipe_state \<times> kfile \<times> kfile" where
  "file_init_pipe_pair st read_file write_file =
     (case file_pipe_backend_init_pair st read_file write_file of
        (False, st', r, w) \<Rightarrow> (False, st', r, w)
      | (True, st', r, w) \<Rightarrow>
          (True, st', file_or_flags KERNEL_FILE_ACCESS_READ r, file_or_flags KERNEL_FILE_ACCESS_WRITE w))"

definition file_discard :: "pipe_state \<Rightarrow> kfile \<Rightarrow> pipe_state \<times> kfile" where
  "file_discard st f =
     (if \<not> file_is_active f then (st, f)
      else if file_pipe_backend_is_kind (file_kind f) then file_pipe_backend_discard st f
      else (st, file_reset f))"

text \<open>\<^verbatim>\<open>dst\<close> and \<^verbatim>\<open>src\<close> are different files: every caller clones between two tables or tests the descriptors.\<close>

definition file_clone :: "pipe_state \<Rightarrow> kfile \<Rightarrow> kfile \<Rightarrow> bool \<times> pipe_state \<times> kfile" where
  "file_clone st dst src =
     (if \<not> file_is_active src then (False, st, dst)
      else
        (let (st1, dst1) = file_discard st dst in
         if file_pipe_backend_is_kind (file_kind src) then file_pipe_backend_clone st1 dst1 src
         else (True, st1, src)))"

definition file_read_would_block :: "pipe_state \<Rightarrow> kfile \<Rightarrow> bool" where
  "file_read_would_block st f =
     (if file_kind f = KERNEL_FILE_TTY_STDIN then True
      else if file_kind f = KERNEL_FILE_VFS \<and> mount_kind (vnode f) = VFS_MOUNT_DEVFS \<and>
              aux_index (vnode f) \<in> {VFS_DEV_TTY, VFS_DEV_TTY1, VFS_DEV_TTY2, VFS_DEV_TTY3,
                                      VFS_DEV_STDIN, VFS_DEV_TTYS0}
      then True
      else file_pipe_backend_read_would_block st f)"

definition file_write_would_block :: "pipe_state \<Rightarrow> kfile \<Rightarrow> bool" where
  "file_write_would_block st f = file_pipe_backend_write_would_block st f"

section \<open>Dispatch\<close>

text \<open>Which entries of an operation table are null.\<close>

definition ops_has_read :: "file_ops \<Rightarrow> bool" where
  "ops_has_read table \<longleftrightarrow> table \<notin> {OpsNull, OpsPipeWrite, OpsTtyOut}"

definition ops_has_write :: "file_ops \<Rightarrow> bool" where
  "ops_has_write table \<longleftrightarrow> table \<notin> {OpsNull, OpsPipeRead, OpsTtyIn}"

definition file_read ::
    "'s backend \<Rightarrow> kfile \<Rightarrow> u32 \<Rightarrow> u32 \<Rightarrow> pipe_state \<times> 's \<Rightarrow> int \<times> u8 list \<times> kfile \<times> pipe_state \<times> 's" where
  "file_read be f sz fl w =
     (let (st, s) = w in
      if \<not> file_is_active f \<or> \<not> ops_has_read (file_ops_ptr f) then (- 1, [], f, st, s)
      else if \<not> file_can_read f then (- NEX_ERR_ACCES, [], f, st, s)
      else case file_ops_ptr f of
        OpsPipeRead \<Rightarrow> (let (rc, bytes, st') = file_pipe_read st f sz in (rc, bytes, f, st', s))
      | OpsVfs \<Rightarrow> (let (rc, bytes, f', s') = file_vfs_read be f sz fl s in (rc, bytes, f', st, s'))
      | table \<Rightarrow> (let (rc, bytes, s') = device_read be table f sz fl s in (rc, bytes, f, st, s')))"

definition file_write :: "'s backend \<Rightarrow> kfile \<Rightarrow> u8 list \<Rightarrow> pipe_state \<times> 's \<Rightarrow> int \<times> kfile \<times> pipe_state \<times> 's" where
  "file_write be f data w =
     (let (st, s) = w in
      if \<not> file_is_active f \<or> \<not> ops_has_write (file_ops_ptr f) then (- 1, f, st, s)
      else if \<not> file_can_write f then (- NEX_ERR_ACCES, f, st, s)
      else case file_ops_ptr f of
        OpsPipeWrite \<Rightarrow> (let (rc, st') = file_pipe_write st f data in (rc, f, st', s))
      | OpsVfs \<Rightarrow> (let (rc, f', s') = file_vfs_write be f data s in (rc, f', st, s'))
      | table \<Rightarrow> (let (rc, s') = device_write be table f data s in (rc, f, st, s')))"

definition file_close :: "pipe_state \<Rightarrow> kfile \<Rightarrow> int \<times> pipe_state \<times> kfile" where
  "file_close st f =
     (if \<not> file_is_active f then (- 1, st, f)
      else if file_ops_ptr f \<in> {OpsPipeRead, OpsPipeWrite} then file_pipe_close st f
      else (0, st, file_reset f))"

definition file_readdir :: "'s backend \<Rightarrow> kfile \<Rightarrow> 's \<Rightarrow> int \<times> kfile \<times> 's" where
  "file_readdir be f s =
     (if \<not> file_is_active f then (- 1, f, s)
      else if \<not> file_can_readdir f then (- NEX_ERR_ACCES, f, s)
      else if file_ops_ptr f = OpsVfs then file_vfs_readdir be f s
      else (- 1, f, s))"

section \<open>File tables\<close>

definition file_table_slot :: "kfile list \<Rightarrow> nat \<Rightarrow> kfile option" where
  "file_table_slot table fd = (if fd \<ge> length table then None else Some (table ! fd))"

definition file_table_active :: "kfile list \<Rightarrow> nat \<Rightarrow> kfile option" where
  "file_table_active table fd =
     (case file_table_slot table fd of
        None \<Rightarrow> None
      | Some f \<Rightarrow> if file_is_active f then Some f else None)"

definition file_table_alloc :: "kfile list \<Rightarrow> nat \<Rightarrow> nat option" where
  "file_table_alloc table start_index =
     (if start_index \<ge> length table then None
      else first_index (\<lambda>i. \<not> file_is_active (table ! i)) start_index (length table - start_index))"

definition file_table_open_vfs ::
    "kfile list \<Rightarrow> nat \<Rightarrow> vfs_node \<Rightarrow> string \<Rightarrow> private_ptr \<Rightarrow> (nat \<times> kfile list) option" where
  "file_table_open_vfs table start_index node path console_handle =
     (case file_table_alloc table start_index of
        None \<Rightarrow> None
      | Some fd \<Rightarrow> Some (fd, table[fd := file_init_vfs (table ! fd) node path console_handle]))"

definition file_table_pipe_write_fd :: "kfile list \<Rightarrow> nat \<Rightarrow> nat option \<Rightarrow> nat option" where
  "file_table_pipe_write_fd table read_fd write_fd =
     (if write_fd = None \<or> write_fd = Some read_fd
      then (case first_index (\<lambda>i. \<not> file_is_active (table ! i)) (read_fd + 1) (length table - (read_fd + 1)) of
              Some i \<Rightarrow> Some i
            | None \<Rightarrow> write_fd)
      else write_fd)"

definition file_table_open_pipe_pair ::
    "pipe_state \<Rightarrow> kfile list \<Rightarrow> nat \<Rightarrow> (nat \<times> nat) option \<times> pipe_state \<times> kfile list" where
  "file_table_open_pipe_pair st table start_index =
     (case file_table_alloc table start_index of
        None \<Rightarrow> (None, st, table)
      | Some read_fd \<Rightarrow>
          (case file_table_pipe_write_fd table read_fd (file_table_alloc table start_index) of
             None \<Rightarrow> (None, st, table)
           | Some write_fd \<Rightarrow>
               if write_fd = read_fd then (None, st, table)
               else
                 (case file_init_pipe_pair st (table ! read_fd) (table ! write_fd) of
                    (False, st1, r, w) \<Rightarrow>
                      (let (st2, r') = file_discard st1 r; (st3, w') = file_discard st2 w
                       in (None, st3, table[read_fd := r', write_fd := w']))
                  | (True, st1, r, w) \<Rightarrow>
                      (Some (read_fd, write_fd), st1,
                       table[read_fd := file_or_flags KERNEL_FILE_CLOSE_ON_SPAWN r,
                             write_fd := file_or_flags KERNEL_FILE_CLOSE_ON_SPAWN w]))))"

definition file_table_open_named_pipe ::
    "pipe_state \<Rightarrow> kfile list \<Rightarrow> nat \<Rightarrow> string \<Rightarrow> bool \<Rightarrow> nat option \<times> pipe_state \<times> kfile list" where
  "file_table_open_named_pipe st table start_index path writable =
     (case file_table_alloc table start_index of
        None \<Rightarrow> (None, st, table)
      | Some fd \<Rightarrow>
          (case file_pipe_backend_open_named st (table ! fd) path writable of
             (False, st', f) \<Rightarrow> (None, st', table[fd := f])
           | (True, st', f) \<Rightarrow> (Some fd, st', table[fd := f])))"

end
