(* ===== verification/Pipe_Refs.thy ===== *)
theory Pipe_Refs
  imports File_Table
begin

text \<open>
  Pipes and the files that refer to them. The system is the pipe array with the list of all
  open-file slots of all processes; its steps are the file operations that create, duplicate,
  close or use a pipe end. While no pipe has more than 255 open ends of one kind, which is what
  its one-byte counts can hold, the reader and writer counts of a pipe are the numbers of open
  ends, so that end of file and broken pipe are reported exactly when the other side has no open
  end, and a pipe slot is in use exactly while something refers to it.
\<close>

type_synonym pipe_system = "pipe_state \<times> kfile list"

definition is_end :: "kernel_file_kind \<Rightarrow> nat \<Rightarrow> kfile \<Rightarrow> bool" where
  "is_end k i f \<longleftrightarrow> file_is_active f \<and> file_kind f = k \<and> private_data f = PipePtr i"

definition open_ends :: "kernel_file_kind \<Rightarrow> nat \<Rightarrow> kfile list \<Rightarrow> nat" where
  "open_ends k i fs = length (filter (is_end k i) fs)"

definition ends_fit :: "kfile list \<Rightarrow> bool" where
  "ends_fit fs \<longleftrightarrow>
     (\<forall>i < FILE_PIPE_MAX. open_ends KERNEL_FILE_PIPE_READ i fs \<le> 255 \<and> open_ends KERNEL_FILE_PIPE_WRITE i fs \<le> 255)"

definition file_wf :: "kfile \<Rightarrow> bool" where
  "file_wf f \<longleftrightarrow>
     (file_is_active f \<longrightarrow>
        (file_kind f = KERNEL_FILE_PIPE_READ \<longleftrightarrow> file_ops_ptr f = OpsPipeRead) \<and>
        (file_kind f = KERNEL_FILE_PIPE_WRITE \<longleftrightarrow> file_ops_ptr f = OpsPipeWrite) \<and>
        (file_pipe_backend_is_kind (file_kind f) \<longrightarrow> (\<exists>i < FILE_PIPE_MAX. private_data f = PipePtr i)))"

definition pipe_local :: "file_pipe \<Rightarrow> bool" where
  "pipe_local p \<longleftrightarrow> pipe_ok p \<and> (pipe_linked p \<longrightarrow> pipe_named p) \<and>
     (pipe_used p \<longleftrightarrow> readers p \<noteq> 0 \<or> writers p \<noteq> 0 \<or> pipe_linked p)"

definition refs_inv :: "pipe_system \<Rightarrow> bool" where
  "refs_inv sys \<longleftrightarrow>
     (let (st, fs) = sys in
      length (g_file_pipes st) = FILE_PIPE_MAX \<and> (\<forall>f \<in> set fs. file_wf f) \<and>
      (\<forall>i < FILE_PIPE_MAX.
         pipe_local (g_file_pipes st ! i) \<and>
         unat (readers (g_file_pipes st ! i)) = open_ends KERNEL_FILE_PIPE_READ i fs \<and>
         unat (writers (g_file_pipes st ! i)) = open_ends KERNEL_FILE_PIPE_WRITE i fs))"

lemma refs_invD:
  assumes "refs_inv (st, fs)"
  shows "length (g_file_pipes st) = FILE_PIPE_MAX"
    "\<And>a. a < length fs \<Longrightarrow> file_wf (fs ! a)"
    "\<And>i. i < FILE_PIPE_MAX \<Longrightarrow> pipe_local (g_file_pipes st ! i)"
    "\<And>i. i < FILE_PIPE_MAX \<Longrightarrow> unat (readers (g_file_pipes st ! i)) = open_ends KERNEL_FILE_PIPE_READ i fs"
    "\<And>i. i < FILE_PIPE_MAX \<Longrightarrow> unat (writers (g_file_pipes st ! i)) = open_ends KERNEL_FILE_PIPE_WRITE i fs"
  using assms by (auto simp: refs_inv_def)

lemma length_filter_update:
  assumes "a < length xs"
  shows "length (filter P (xs[a := x])) + of_bool (P (xs ! a)) = length (filter P xs) + of_bool (P x)"
proof -
  have "length (filter P xs) = length (filter P (take a xs @ xs ! a # drop (Suc a) xs))"
    using assms by (simp flip: id_take_nth_drop)
  then show ?thesis using assms by (simp add: upd_conv_take_nth_drop)
qed

lemma open_ends_update:
  assumes "a < length fs"
  shows "open_ends k i (fs[a := f]) + of_bool (is_end k i (fs ! a)) =
         open_ends k i fs + of_bool (is_end k i f)"
  unfolding open_ends_def using assms by (rule length_filter_update)

text \<open>The general step: one pipe and one file change together.\<close>

lemma refs_inv_change:
  assumes inv: "refs_inv (st, fs)" and i: "i < FILE_PIPE_MAX" and a: "a < length fs"
    and wf: "file_wf f" and loc: "pipe_local p"
    and others: "\<And>k j. file_pipe_backend_is_kind k \<Longrightarrow> j \<noteq> i \<Longrightarrow> is_end k j f = is_end k j (fs ! a)"
    and r: "unat (readers p) + of_bool (is_end KERNEL_FILE_PIPE_READ i (fs ! a)) =
            unat (readers (g_file_pipes st ! i)) + of_bool (is_end KERNEL_FILE_PIPE_READ i f)"
    and w: "unat (writers p) + of_bool (is_end KERNEL_FILE_PIPE_WRITE i (fs ! a)) =
            unat (writers (g_file_pipes st ! i)) + of_bool (is_end KERNEL_FILE_PIPE_WRITE i f)"
  shows "refs_inv (pipe_put i p st, fs[a := f])"
proof -
  note I = refs_invD [OF inv]
  have other: "open_ends k j (fs[a := f]) = open_ends k j fs" if "file_pipe_backend_is_kind k" "j \<noteq> i" for k j
    using open_ends_update [OF a, of k j f] others [OF that] by simp
  have "unat (readers p) = open_ends KERNEL_FILE_PIPE_READ i (fs[a := f])"
    and "unat (writers p) = open_ends KERNEL_FILE_PIPE_WRITE i (fs[a := f])"
    using open_ends_update [OF a, of _ i f] r w I(4,5) [OF i] by (metis add_right_cancel)+
  moreover have "file_wf g" if "g \<in> set (fs[a := f])" for g
    using that inv wf set_update_subset_insert [of fs a f] by (auto simp: refs_inv_def)
  ultimately show ?thesis
    using I(1,3-5) i loc other unfolding refs_inv_def
    by (simp add: pipe_put_def nth_list_update file_pipe_backend_is_kind_def)
qed

lemma refs_inv_pipe_only:
  assumes "refs_inv (st, fs)" and "i < FILE_PIPE_MAX" and "pipe_local p"
    and "readers p = readers (g_file_pipes st ! i)" and "writers p = writers (g_file_pipes st ! i)"
  shows "refs_inv (pipe_put i p st, fs)"
  using assms by (auto simp: refs_inv_def pipe_put_def nth_list_update)

lemma refs_inv_wake: "refs_inv (process_wake_call i k st, fs) = refs_inv (st, fs)"
  by (simp add: refs_inv_def process_wake_call_def)

section \<open>Closing an end\<close>

definition pipe_after_release :: "file_pipe \<Rightarrow> file_pipe" where
  "pipe_after_release p =
     (if readers p = 0 \<and> writers p = 0
      then (if pipe_linked p then file_pipe_clear_data p else file_pipe_reset p) else p)"

lemma pipe_put_twice [simp]: "pipe_put i q (pipe_put i p st) = pipe_put i q st"
  "pipe_put i q (process_wake_call j k st) = process_wake_call j k (pipe_put i q st)"
  by (simp_all add: pipe_put_def process_wake_call_def)

lemma file_pipe_close_eq:
  assumes "private_data f = PipePtr i"
  shows "\<exists>wake. file_pipe_close st f =
     (0, wake (pipe_put i (pipe_after_release (file_pipe_release_end (g_file_pipes st ! i) (file_kind f))) st),
      file_reset f) \<and> (wake = (\<lambda>st. st) \<or> (\<exists>k. wake = process_wake_call i k))"
proof -
  let ?p = "file_pipe_release_end (g_file_pipes st ! i) (file_kind f)"
  let ?wake = "if file_kind f = KERNEL_FILE_PIPE_READ \<and> readers ?p = 0
    then process_wake_call i KERNEL_FILE_PIPE_WRITE
    else if file_kind f = KERNEL_FILE_PIPE_WRITE \<and> writers ?p = 0
    then process_wake_call i KERNEL_FILE_PIPE_READ else (\<lambda>st. st)"
  have "file_pipe_close st f = (0, ?wake (pipe_put i (pipe_after_release ?p) st), file_reset f)"
    using assms
    by (cases "readers ?p = 0"; cases "writers ?p = 0"; cases "file_kind f")
      (simp_all add: file_pipe_close_def file_pipe_from_file_def pipe_after_release_def Let_def)
  moreover have "?wake = (\<lambda>st. st) \<or> (\<exists>k. ?wake = process_wake_call i k)" by auto
  ultimately show ?thesis by blast
qed

lemma pipe_ok_empty: "pipe_ok (file_pipe_clear_data p)" "pipe_ok (file_pipe_reset p)"
  "pipe_data (file_pipe_clear_data p) = []" "pipe_data (file_pipe_reset p) = []"
proof -
  show "pipe_ok (file_pipe_clear_data p)" "pipe_ok (file_pipe_reset p)"
    by (simp_all add: pipe_ok_def pipeq.ok_def)
      (simp_all add: ring_ok_def file_pipe_clear_data_def file_pipe_reset_def FILE_PIPE_BUFFER_SIZE_def)
  show "pipe_data (file_pipe_clear_data p) = []" "pipe_data (file_pipe_reset p) = []"
    by (simp_all add: file_pipe_clear_data_def file_pipe_reset_def flip: pipe_count_0_iff)
qed

lemma pipe_ok_cong:
  assumes "pipe_ok p" and "read_pos q = read_pos p" and "write_pos q = write_pos p" and "pipe_count q = pipe_count p"
  shows "pipe_ok q"
  using assms by (simp add: pipe_ok_def pipeq.ok_def)

lemma pipe_local_after_release:
  assumes "pipe_ok q" and "pipe_linked q \<longrightarrow> pipe_named q"
    and "pipe_used q \<longleftrightarrow> r \<or> pipe_linked q" and "readers q \<noteq> 0 \<or> writers q \<noteq> 0 \<longrightarrow> r"
  shows "pipe_local (pipe_after_release q)"
proof (cases "readers q = 0 \<and> writers q = 0")
  case False
  with assms show ?thesis by (auto simp: pipe_local_def pipe_after_release_def)
next
  case True
  with assms pipe_ok_empty [of q] show ?thesis
    by (cases "pipe_linked q") (simp_all add: pipe_local_def pipe_after_release_def,
      simp_all add: file_pipe_reset_def file_pipe_clear_data_def)
qed

lemma pipe_local_release:
  assumes "pipe_local p"
  shows "pipe_local (pipe_after_release (file_pipe_release_end p k))"
proof (rule pipe_local_after_release)
  show "pipe_ok (file_pipe_release_end p k)"
    using assms pipe_ok_cong [of p] by (auto simp: pipe_local_def file_pipe_release_end_def)
  show "pipe_used (file_pipe_release_end p k) \<longleftrightarrow>
      (readers p \<noteq> 0 \<or> writers p \<noteq> 0) \<or> pipe_linked (file_pipe_release_end p k)"
    using assms by (simp add: pipe_local_def file_pipe_release_end_def)
qed (use assms in \<open>auto simp: pipe_local_def file_pipe_release_end_def split: if_splits\<close>)

lemma after_release_counts [simp]:
  "readers (pipe_after_release p) = readers p" "writers (pipe_after_release p) = writers p"
  by (simp_all add: pipe_after_release_def file_pipe_clear_data_def file_pipe_reset_def)

lemma is_end_reset [simp]: "\<not> is_end k i (file_reset f)"
  by (simp add: is_end_def)

lemma is_end_inactive: "\<not> file_is_active f \<Longrightarrow> \<not> is_end k i f"
  by (simp add: is_end_def)

lemma file_wf_inactive: "\<not> file_is_active f \<Longrightarrow> file_wf f"
  by (simp add: file_wf_def)

lemma refs_inv_close:
  assumes inv: "refs_inv (st, fs)" and a: "a < length fs" and act: "file_is_active (fs ! a)"
    and k: "file_pipe_backend_is_kind (file_kind (fs ! a))" and cl: "file_pipe_close st (fs ! a) = (rc, st', f')"
  shows "refs_inv (st', fs[a := f'])"
proof -
  note I = refs_invD [OF inv]
  from I(2) [OF a] act k obtain i where i: "i < FILE_PIPE_MAX" "private_data (fs ! a) = PipePtr i"
    by (auto simp: file_wf_def)
  let ?p = "g_file_pipes st ! i" and ?k = "file_kind (fs ! a)"
  let ?q = "pipe_after_release (file_pipe_release_end ?p ?k)"
  have e: "is_end ?k i (fs ! a)" using act i by (simp add: is_end_def)
  then have pos: "0 < open_ends ?k i fs" using a by (auto simp: open_ends_def filter_empty_conv)
  have "unat (readers ?q) + of_bool (is_end KERNEL_FILE_PIPE_READ i (fs ! a)) = unat (readers ?p)"
    "unat (writers ?q) + of_bool (is_end KERNEL_FILE_PIPE_WRITE i (fs ! a)) = unat (writers ?p)"
    using k e pos I(4,5) [OF i(1)]
    by (auto simp: file_pipe_backend_is_kind_def file_pipe_release_end_def is_end_def unat_minus_one unat_gt_0)
  then have "refs_inv (pipe_put i ?q st, fs[a := file_reset (fs ! a)])"
    using I(3) [OF i(1)] i
    by (intro refs_inv_change [OF inv i(1) a]) (auto simp: pipe_local_release file_wf_inactive is_end_def)
  with file_pipe_close_eq [OF i(2), of st] cl show ?thesis by (auto simp: refs_inv_wake)
qed

lemma refs_inv_file_only:
  assumes inv: "refs_inv (st, fs)" and a: "a < length fs" and "file_wf f"
    and "\<And>k i. file_pipe_backend_is_kind k \<Longrightarrow> is_end k i f = is_end k i (fs ! a)"
  shows "refs_inv (st, fs[a := f])"
proof -
  have "pipe_put 0 (g_file_pipes st ! 0) st = st"
    using refs_invD(1) [OF inv] by (simp add: pipe_put_def FILE_PIPE_MAX_def)
  moreover have "refs_inv (pipe_put 0 (g_file_pipes st ! 0) st, fs[a := f])"
    using assms refs_invD(3) [OF inv]
    by (intro refs_inv_change) (auto simp: FILE_PIPE_MAX_def file_pipe_backend_is_kind_def)
  ultimately show ?thesis by simp
qed

lemma refs_inv_discard:
  assumes inv: "refs_inv (st, fs)" and a: "a < length fs" and d: "file_discard st (fs ! a) = (st', f')"
  shows "refs_inv (st', fs[a := f'])" "\<not> file_is_active f'"
proof -
  have "refs_inv (st', fs[a := f']) \<and> \<not> file_is_active f'"
  proof (cases "file_is_active (fs ! a) \<and> file_pipe_backend_is_kind (file_kind (fs ! a))")
    case True
    obtain rc st1 f1 where c: "file_pipe_close st (fs ! a) = (rc, st1, f1)" by (metis prod_cases3)
    then have "f1 = file_reset (fs ! a)"
      by (auto simp: file_pipe_close_def Let_def split: option.splits)
    with c True d refs_inv_close [OF inv a _ _ c] show ?thesis
      by (auto simp: file_discard_def file_pipe_backend_discard_def)
  next
    case False
    then have e: "\<not> is_end k i (fs ! a)" if "file_pipe_backend_is_kind k" for k i
      using that by (auto simp: is_end_def)
    show ?thesis
    proof (cases "file_is_active (fs ! a)")
      case True
      with False d have "st' = st" "f' = file_reset (fs ! a)" by (auto simp: file_discard_def)
      moreover have "refs_inv (st, fs[a := file_reset (fs ! a)])"
        using e by (intro refs_inv_file_only [OF inv a]) (simp_all add: file_wf_inactive)
      ultimately show ?thesis by simp
    next
      case False
      with d have "st' = st" "f' = fs ! a" by (auto simp: file_discard_def)
      with inv False show ?thesis by simp
    qed
  qed
  then show "refs_inv (st', fs[a := f'])" "\<not> file_is_active f'" by auto
qed

section \<open>Opening and duplicating an end\<close>

lemma open_ends_le: "open_ends k i fs \<le> length fs"
  by (simp add: open_ends_def)

lemma ends_fit_small: "length fs \<le> 255 \<Longrightarrow> ends_fit fs"
  unfolding ends_fit_def using open_ends_le order_trans by blast

lemma ends_fit_kind:
  "ends_fit fs \<Longrightarrow> i < FILE_PIPE_MAX \<Longrightarrow> file_pipe_backend_is_kind k \<Longrightarrow> open_ends k i fs \<le> 255"
  by (auto simp: ends_fit_def file_pipe_backend_is_kind_def)

lemma unat_succ_u8: "unat (x :: u8) < 255 \<Longrightarrow> unat (x + 1) = unat x + 1"
  by (subst unat_add_lem [THEN iffD1]) simp_all

lemma refs_inv_acquire:
  assumes inv: "refs_inv (st, fs)" and i: "i < FILE_PIPE_MAX" and a: "a < length fs"
    and inact: "\<not> file_is_active (fs ! a)" and wf: "file_wf f" and e: "is_end k i f"
    and k: "file_pipe_backend_is_kind k" and used: "pipe_used (g_file_pipes st ! i)"
    and fit: "ends_fit (fs[a := f])"
  shows "refs_inv (pipe_put i (file_pipe_acquire_end (g_file_pipes st ! i) k) st, fs[a := f])"
proof (rule refs_inv_change [OF inv i a wf])
  note I = refs_invD [OF inv]
  let ?p = "g_file_pipes st ! i"
  have no: "\<not> is_end k' j (fs ! a)" for k' j using inact by (simp add: is_end_def)
  have "open_ends k i fs < 255"
    using open_ends_update [OF a, of k i f] ends_fit_kind [OF fit i k] e no by simp
  then have lt: "k = KERNEL_FILE_PIPE_READ \<Longrightarrow> unat (readers ?p) < 255"
    "k = KERNEL_FILE_PIPE_WRITE \<Longrightarrow> unat (writers ?p) < 255" using I(4,5) [OF i] by auto
  then have nz: "k = KERNEL_FILE_PIPE_READ \<Longrightarrow> readers ?p + 1 \<noteq> 0" "k = KERNEL_FILE_PIPE_WRITE \<Longrightarrow> writers ?p + 1 \<noteq> 0"
    using unat_succ_u8 by (metis add_is_0 one_neq_zero unat_eq_0)+
  show "pipe_local (file_pipe_acquire_end ?p k)"
    using I(3) [OF i] used nz k pipe_ok_cong [of ?p]
    by (auto simp: pipe_local_def file_pipe_acquire_end_def file_pipe_backend_is_kind_def)
  show "is_end k' j f = is_end k' j (fs ! a)" if "j \<noteq> i" for k' j
    using that e no by (auto simp: is_end_def)
  show "unat (readers (file_pipe_acquire_end ?p k)) + of_bool (is_end KERNEL_FILE_PIPE_READ i (fs ! a)) =
      unat (readers ?p) + of_bool (is_end KERNEL_FILE_PIPE_READ i f)"
    "unat (writers (file_pipe_acquire_end ?p k)) + of_bool (is_end KERNEL_FILE_PIPE_WRITE i (fs ! a)) =
      unat (writers ?p) + of_bool (is_end KERNEL_FILE_PIPE_WRITE i f)"
    using no e k lt by (auto simp: file_pipe_acquire_end_def is_end_def file_pipe_backend_is_kind_def unat_succ_u8)
qed

lemma refs_inv_pipe_used:
  assumes inv: "refs_inv (st, fs)" and b: "b < length fs" and e: "is_end k i (fs ! b)"
    and k: "file_pipe_backend_is_kind k" and i: "i < FILE_PIPE_MAX"
  shows "pipe_used (g_file_pipes st ! i)"
proof -
  note I = refs_invD [OF inv]
  have "0 < open_ends k i fs" using b e by (auto simp: open_ends_def filter_empty_conv)
  with k I(4,5) [OF i] have "readers (g_file_pipes st ! i) \<noteq> 0 \<or> writers (g_file_pipes st ! i) \<noteq> 0"
    by (auto simp: file_pipe_backend_is_kind_def unat_gt_0)
  with I(3) [OF i] show ?thesis by (auto simp: pipe_local_def)
qed

lemma refs_inv_clone:
  assumes inv: "refs_inv (st, fs)" and a: "a < length fs" and b: "b < length fs" and "a \<noteq> b"
    and cl: "file_clone st (fs ! a) (fs ! b) = (ok, st', f')" and fit: "ends_fit (fs[a := f'])"
  shows "refs_inv (st', fs[a := f'])"
proof (cases "file_is_active (fs ! b)")
  case False
  with inv cl show ?thesis by (auto simp: file_clone_def)
next
  case act: True
  obtain st1 d where d: "file_discard st (fs ! a) = (st1, d)" by fastforce
  note inv1 = refs_inv_discard [OF inv a d]
  have wf: "file_wf (fs ! b)" using refs_invD(2) [OF inv b] .
  have upd: "fs[a := d, a := g] = fs[a := g]" for g by simp
  show ?thesis
  proof (cases "file_pipe_backend_is_kind (file_kind (fs ! b))")
    case False
    with cl act d have "st' = st1" "f' = fs ! b" by (auto simp: file_clone_def)
    moreover have "refs_inv (st1, fs[a := d, a := fs ! b])"
      using inv1(2) a wf False by (intro refs_inv_file_only [OF inv1(1)]) (auto simp: is_end_def)
    ultimately show ?thesis by simp
  next
    case True
    with wf act obtain i where i: "i < FILE_PIPE_MAX" "private_data (fs ! b) = PipePtr i" by (auto simp: file_wf_def)
    with act have e: "is_end (file_kind (fs ! b)) i (fs ! b)" by (simp add: is_end_def)
    have "pipe_used (g_file_pipes st1 ! i)"
      using refs_inv_pipe_used [OF inv1(1), of b] b e \<open>a \<noteq> b\<close> True i by simp
    moreover have "f' = fs ! b"
      using cl act d True i by (auto simp: file_clone_def file_pipe_backend_clone_def file_pipe_from_file_def)
    ultimately have "refs_inv (pipe_put i (file_pipe_acquire_end (g_file_pipes st1 ! i) (file_kind (fs ! b))) st1, fs[a := fs ! b])"
      using refs_inv_acquire [OF inv1(1) i(1) _ _ wf e True, of a] a inv1(2) fit by simp
    with cl act d True i show ?thesis
      by (auto simp: file_clone_def file_pipe_backend_clone_def file_pipe_from_file_def)
  qed
qed

lemma is_end_flags [simp]: "is_end k i (file_or_flags fl f) = is_end k i f"
  "file_wf (file_or_flags fl f) = file_wf f"
  by (simp_all add: is_end_def file_wf_def file_or_flags_def file_is_active_def)

lemma init_end_simps [simp]:
  "is_end k' j (file_pipe_init_end f KERNEL_FILE_PIPE_READ i OpsPipeRead) \<longleftrightarrow> k' = KERNEL_FILE_PIPE_READ \<and> j = i"
  "is_end k' j (file_pipe_init_end f KERNEL_FILE_PIPE_WRITE i OpsPipeWrite) \<longleftrightarrow> k' = KERNEL_FILE_PIPE_WRITE \<and> j = i"
  "i < FILE_PIPE_MAX \<Longrightarrow> file_wf (file_pipe_init_end f KERNEL_FILE_PIPE_READ i OpsPipeRead)"
  "i < FILE_PIPE_MAX \<Longrightarrow> file_wf (file_pipe_init_end f KERNEL_FILE_PIPE_WRITE i OpsPipeWrite)"
  by (auto simp: is_end_def file_wf_def file_pipe_init_end_def file_pipe_init_with_ops_def file_is_active_def)

lemma refs_inv_pair:
  assumes inv: "refs_inv (st, fs)" and a: "a < length fs" and b: "b < length fs" and ab: "a \<noteq> b"
    and ina: "\<not> file_is_active (fs ! a)" and inb: "\<not> file_is_active (fs ! b)"
    and pr: "file_init_pipe_pair st (fs ! a) (fs ! b) = (ok, st', r, w)"
  shows "refs_inv (st', fs[a := file_or_flags fl r, b := file_or_flags fl w])"
proof (cases "file_pipe_find_unused st")
  case None
  with pr have "st' = st" "r = fs ! a" "w = fs ! b"
    by (auto simp: file_init_pipe_pair_def file_pipe_backend_init_pair_def)
  with inv a b ab ina inb show ?thesis
    by (auto intro!: refs_inv_file_only simp: file_wf_inactive is_end_def file_or_flags_def file_is_active_def)
next
  case (Some i)
  then have i: "i < FILE_PIPE_MAX" and free: "\<not> pipe_used (g_file_pipes st ! i)"
    using first_index_SomeD [of _ 0 FILE_PIPE_MAX i] by (auto simp: file_pipe_find_unused_def)
  note I = refs_invD [OF inv]
  let ?r = "file_or_flags fl (file_or_flags KERNEL_FILE_ACCESS_READ
        (file_pipe_init_end (fs ! a) KERNEL_FILE_PIPE_READ i OpsPipeRead))"
  let ?w = "file_or_flags fl (file_or_flags KERNEL_FILE_ACCESS_WRITE
        (file_pipe_init_end (fs ! b) KERNEL_FILE_PIPE_WRITE i OpsPipeWrite))"
  let ?p = "\<lambda>x. (file_pipe_reset (g_file_pipes st ! i))\<lparr>pipe_used := True, readers := 1, writers := x\<rparr>"
  have zero: "readers (g_file_pipes st ! i) = 0" "writers (g_file_pipes st ! i) = 0"
    using I(3) [OF i] free by (auto simp: pipe_local_def)
  have loc: "pipe_local (?p x)" for x
    using pipe_ok_cong [OF pipe_ok_empty(2) [of "g_file_pipes st ! i"], of "?p x"]
    by (simp add: pipe_local_def) (simp add: file_pipe_reset_def)
  have "refs_inv (pipe_put i (?p 0) st, fs[a := ?r])"
    by (rule refs_inv_change [OF inv i a]) (use i ina zero loc in \<open>auto simp: is_end_inactive\<close>)
  from refs_inv_change [OF this i, of b ?w "?p 1"] I(1) i b ab inb loc
  have "refs_inv (pipe_put i (?p 1) (pipe_put i (?p 0) st), fs[a := ?r, b := ?w])"
    by (auto simp: pipe_put_def is_end_inactive)
  moreover from pr Some have "st' = pipe_put i (?p 1) st" "file_or_flags fl r = ?r" "file_or_flags fl w = ?w"
    by (auto simp: file_init_pipe_pair_def file_pipe_backend_init_pair_def)
  ultimately show ?thesis by simp
qed

lemma find_named_linked:
  assumes "file_pipe_find_named st path = Some i"
  shows "i < FILE_PIPE_MAX" "pipe_used (g_file_pipes st ! i)" "pipe_linked (g_file_pipes st ! i)"
    "pipe_name (g_file_pipes st ! i) = path"
  using assms first_index_SomeD [of _ 0 FILE_PIPE_MAX i] by (auto simp: file_pipe_find_named_def)

lemma refs_inv_open_named:
  assumes inv: "refs_inv (st, fs)" and a: "a < length fs" and ina: "\<not> file_is_active (fs ! a)"
    and op: "file_pipe_backend_open_named st (fs ! a) path wr = (ok, st', f)" and fit: "ends_fit (fs[a := f])"
  shows "refs_inv (st', fs[a := f])"
proof (cases "file_pipe_find_named st path")
  case None
  with op inv show ?thesis by (auto simp: file_pipe_backend_open_named_def Let_def)
next
  case (Some i)
  note i = find_named_linked [OF Some]
  let ?k = "if wr then KERNEL_FILE_PIPE_WRITE else KERNEL_FILE_PIPE_READ"
  let ?f = "file_or_flags (if wr then KERNEL_FILE_ACCESS_WRITE else KERNEL_FILE_ACCESS_READ)
    (file_pipe_init_end (fs ! a) ?k i (if wr then OpsPipeWrite else OpsPipeRead))"
  from op Some have f: "f = ?f" and st': "st' = pipe_put i (file_pipe_acquire_end (g_file_pipes st ! i) ?k) st"
    by (auto simp: file_pipe_backend_open_named_def Let_def file_or_flags_def)
  show ?thesis unfolding f st'
    by (rule refs_inv_acquire [OF inv i(1) a ina _ _ _ i(2) fit [unfolded f]])
      (use i in \<open>auto simp: file_pipe_backend_is_kind_def\<close>)
qed

lemma refs_inv_create_named:
  assumes inv: "refs_inv (st, fs)" and cr: "file_pipe_backend_create_named st path = (ok, st')"
  shows "refs_inv (st', fs)"
proof (cases "path = [] \<or> file_pipe_find_named st path \<noteq> None \<or> file_pipe_find_unused st = None")
  case True
  with cr inv show ?thesis by (auto simp: file_pipe_backend_create_named_def split: if_splits)
next
  case False
  then obtain i where i: "file_pipe_find_unused st = Some i" by auto
  then have lt: "i < FILE_PIPE_MAX" and free: "\<not> pipe_used (g_file_pipes st ! i)"
    using first_index_SomeD [of _ 0 FILE_PIPE_MAX i] by (auto simp: file_pipe_find_unused_def)
  let ?p = "(file_pipe_reset (g_file_pipes st ! i))\<lparr>pipe_used := True, pipe_named := True,
      pipe_linked := True, pipe_name := take (NOS_PATH_BUFFER_SIZE - 1) path\<rparr>"
  have zero: "readers (g_file_pipes st ! i) = 0" "writers (g_file_pipes st ! i) = 0"
    using refs_invD(3) [OF inv lt] free by (auto simp: pipe_local_def)
  have "pipe_local ?p"
    using pipe_ok_cong [OF pipe_ok_empty(2) [of "g_file_pipes st ! i"], of ?p] by (simp add: pipe_local_def)
  then have "refs_inv (pipe_put i ?p st, fs)"
    using zero by (intro refs_inv_pipe_only [OF inv lt]) (simp_all add: file_pipe_reset_def)
  with cr False i show ?thesis by (auto simp: file_pipe_backend_create_named_def)
qed

lemma refs_inv_unlink_named:
  assumes inv: "refs_inv (st, fs)" and un: "file_pipe_backend_unlink_named st path = (ok, st')"
  shows "refs_inv (st', fs)"
proof (cases "file_pipe_find_named st path")
  case None
  with un inv show ?thesis by (auto simp: file_pipe_backend_unlink_named_def)
next
  case (Some i)
  note i = find_named_linked [OF Some]
  let ?q = "(g_file_pipes st ! i)\<lparr>pipe_linked := False, pipe_name := []\<rparr>"
  have "pipe_ok ?q" using refs_invD(3) [OF inv i(1)] pipe_ok_cong by (auto simp: pipe_local_def)
  with i(2) have "pipe_local (pipe_after_release ?q)"
    by (intro pipe_local_after_release [where r = True]) simp_all
  then have "refs_inv (pipe_put i (pipe_after_release ?q) st, fs)"
    by (rule refs_inv_pipe_only [OF inv i(1)]) simp_all
  with un Some show ?thesis
    by (auto simp: file_pipe_backend_unlink_named_def pipe_after_release_def Let_def split: if_splits)
qed

section \<open>Transfers\<close>

lemma pipe_local_same_ends: "pipe_local p \<Longrightarrow> pipe_ok q \<Longrightarrow> same_pipe_ends p q \<Longrightarrow> pipe_local q"
  by (simp add: pipe_local_def same_pipe_ends_def)

lemma file_pipe_write_effect:
  assumes ok: "pipe_ok (g_file_pipes st ! i)" and ptr: "private_data f = PipePtr i"
    and w: "file_pipe_write st f data = (rc, st')" and i: "i < length (g_file_pipes st)"
  shows "\<exists>n. n \<le> length data \<and> (0 \<le> rc \<longrightarrow> rc = int n) \<and> (rc < 0 \<longrightarrow> n = 0) \<and>
    wake_calls st' = wake_calls st @ (if n = 0 then [] else [(i, KERNEL_FILE_PIPE_READ)]) \<and>
    pipe_ok (g_file_pipes st' ! i) \<and> same_pipe_ends (g_file_pipes st ! i) (g_file_pipes st' ! i) \<and>
    pipe_data (g_file_pipes st' ! i) = pipe_data (g_file_pipes st ! i) @ take n data \<and>
    length (g_file_pipes st') = length (g_file_pipes st) \<and>
    (\<forall>j. j \<noteq> i \<longrightarrow> g_file_pipes st' ! j = g_file_pipes st ! j)"
proof (cases "data = [] \<or> readers (g_file_pipes st ! i) = 0 \<or>
              FILE_PIPE_BUFFER_SIZE \<le> unat (pipe_count (g_file_pipes st ! i))")
  case True
  with w ptr ok have "st' = st \<and> (0 \<le> rc \<longrightarrow> rc = 0)"
    by (auto simp: file_pipe_write_def file_pipe_from_file_def Let_def file_consts split: if_splits)
  with ok show ?thesis by (intro exI [of _ 0]) (auto simp: same_pipe_ends_def)
next
  case False
  obtain n q where l: "file_pipe_write_loop data 0 (g_file_pipes st ! i) = (n, q)" by fastforce
  note q = file_pipe_write_loop_fifo [OF ok l]
  from False w ptr l have rc: "rc = int n" and "g_file_pipes st' = (g_file_pipes st)[i := q]"
    and "wake_calls st' = wake_calls st @ (if n = 0 then [] else [(i, KERNEL_FILE_PIPE_READ)])"
    by (auto simp: file_pipe_write_def file_pipe_from_file_def Let_def pipe_put_def process_wake_call_def
        split: if_splits)
  with q i show ?thesis by (intro exI [of _ n]) auto
qed

lemma file_pipe_read_effect:
  assumes ok: "pipe_ok (g_file_pipes st ! i)" and ptr: "private_data f = PipePtr i"
    and r: "file_pipe_read st f sz = (rc, out, st')" and i: "i < length (g_file_pipes st)"
  shows "out = take (unat sz) (pipe_data (g_file_pipes st ! i)) \<and>
    (0 \<le> rc \<longrightarrow> rc = int (length out)) \<and> (rc < 0 \<longrightarrow> out = []) \<and>
    wake_calls st' = wake_calls st @ (if out = [] then [] else [(i, KERNEL_FILE_PIPE_WRITE)]) \<and>
    pipe_ok (g_file_pipes st' ! i) \<and> same_pipe_ends (g_file_pipes st ! i) (g_file_pipes st' ! i) \<and>
    pipe_data (g_file_pipes st' ! i) = drop (unat sz) (pipe_data (g_file_pipes st ! i)) \<and>
    length (g_file_pipes st') = length (g_file_pipes st) \<and>
    (\<forall>j. j \<noteq> i \<longrightarrow> g_file_pipes st' ! j = g_file_pipes st ! j)"
proof (cases "sz = 0 \<or> pipe_count (g_file_pipes st ! i) = 0")
  case True
  with r ptr pipe_count_0_iff [of "g_file_pipes st ! i"] ok show ?thesis
    by (auto simp: file_pipe_read_def file_pipe_from_file_def Let_def file_consts same_pipe_ends_def split: if_splits)
next
  case False
  obtain got q where l: "file_pipe_read_loop (unat sz) [] (g_file_pipes st ! i) = (got, q)" by fastforce
  note q = file_pipe_read_loop_fifo [OF ok l]
  from False r ptr l have "rc = int (length got)" "out = got" "g_file_pipes st' = (g_file_pipes st)[i := q]"
    and "wake_calls st' = wake_calls st @ (if got = [] then [] else [(i, KERNEL_FILE_PIPE_WRITE)])"
    by (auto simp: file_pipe_read_def file_pipe_from_file_def Let_def pipe_put_def process_wake_call_def
        split: if_splits)
  with q i show ?thesis by auto
qed

end
