(* ===== verification/Pipe_Props.thy ===== *)
theory Pipe_Props
  imports Pipe_Refs
begin

text \<open>
  Properties of pipes over every sequence of file operations (\<^verbatim>\<open>kernel/fs/file_pipe_backend.c\<close>,
  \<^verbatim>\<open>kernel/fs/file.c\<close>): exact reference counts, end of file and broken pipe, stream integrity and
  the absence of lost wake-ups.
\<close>

section \<open>Reachable systems\<close>

text \<open>
  A slot that is opened was inactive, as \<^verbatim>\<open>file_table_alloc\<close> guarantees; a file is cloned into
  another slot than its own.
\<close>

inductive pipe_sys_step :: "pipe_system \<Rightarrow> pipe_system \<Rightarrow> bool" where
  sys_pair: "a < length fs \<Longrightarrow> b < length fs \<Longrightarrow> a \<noteq> b \<Longrightarrow> \<not> file_is_active (fs ! a) \<Longrightarrow>
     \<not> file_is_active (fs ! b) \<Longrightarrow> file_init_pipe_pair st (fs ! a) (fs ! b) = (ok, st', r, w) \<Longrightarrow>
     pipe_sys_step (st, fs) (st', fs[a := file_or_flags fl r, b := file_or_flags fl w])"
| sys_open_named: "a < length fs \<Longrightarrow> \<not> file_is_active (fs ! a) \<Longrightarrow>
     file_pipe_backend_open_named st (fs ! a) path wr = (ok, st', f) \<Longrightarrow>
     pipe_sys_step (st, fs) (st', fs[a := f])"
| sys_open_vfs: "a < length fs \<Longrightarrow> \<not> file_is_active (fs ! a) \<Longrightarrow>
     pipe_sys_step (st, fs) (st, fs[a := file_init_vfs (fs ! a) node path console])"
| sys_clone: "a < length fs \<Longrightarrow> b < length fs \<Longrightarrow> a \<noteq> b \<Longrightarrow>
     file_clone st (fs ! a) (fs ! b) = (ok, st', f) \<Longrightarrow> pipe_sys_step (st, fs) (st', fs[a := f])"
| sys_discard: "a < length fs \<Longrightarrow> file_discard st (fs ! a) = (st', f) \<Longrightarrow>
     pipe_sys_step (st, fs) (st', fs[a := f])"
| sys_close: "a < length fs \<Longrightarrow> file_close st (fs ! a) = (rc, st', f) \<Longrightarrow>
     pipe_sys_step (st, fs) (st', fs[a := f])"
| sys_read: "a < length fs \<Longrightarrow> is_end KERNEL_FILE_PIPE_READ i (fs ! a) \<Longrightarrow>
     file_pipe_read st (fs ! a) sz = (rc, out, st') \<Longrightarrow> pipe_sys_step (st, fs) (st', fs)"
| sys_write: "a < length fs \<Longrightarrow> is_end KERNEL_FILE_PIPE_WRITE i (fs ! a) \<Longrightarrow>
     file_pipe_write st (fs ! a) data = (rc, st') \<Longrightarrow> pipe_sys_step (st, fs) (st', fs)"
| sys_create: "file_pipe_backend_create_named st path = (ok, st') \<Longrightarrow> pipe_sys_step (st, fs) (st', fs)"
| sys_unlink: "file_pipe_backend_unlink_named st path = (ok, st') \<Longrightarrow> pipe_sys_step (st, fs) (st', fs)"

definition pipe_sys_initial :: "pipe_system \<Rightarrow> bool" where
  "pipe_sys_initial sys \<longleftrightarrow>
     (let (st, fs) = sys in
      g_file_pipes st = map file_pipe_reset (g_file_pipes st) \<and> length (g_file_pipes st) = FILE_PIPE_MAX \<and>
      (\<forall>f \<in> set fs. \<not> file_is_active f))"

text \<open>
  The reference counts of a pipe are single bytes. A system is reachable here when it is reached
  by steps after each of which no pipe has more than 255 open ends of one kind; the number of
  file slots is not bounded.
\<close>

inductive pipe_sys_reachable :: "pipe_system \<Rightarrow> bool" where
  sys_initial: "pipe_sys_initial sys \<Longrightarrow> pipe_sys_reachable sys"
| sys_step: "pipe_sys_reachable sys \<Longrightarrow> pipe_sys_step sys sys' \<Longrightarrow> ends_fit (snd sys') \<Longrightarrow>
     pipe_sys_reachable sys'"

lemma is_end_kind_bound:
  assumes "refs_inv (st, fs)" and "a < length fs" and "is_end k i (fs ! a)" and "file_pipe_backend_is_kind k"
  shows "i < FILE_PIPE_MAX" "private_data (fs ! a) = PipePtr i"
  using refs_invD(2) [OF assms(1,2)] assms(3,4) by (auto simp: file_wf_def is_end_def)

lemma refs_inv_same_ends:
  assumes inv: "refs_inv (st, fs)" and i: "i < FILE_PIPE_MAX"
    and "pipe_ok (g_file_pipes st' ! i)" and "same_pipe_ends (g_file_pipes st ! i) (g_file_pipes st' ! i)"
    and "length (g_file_pipes st') = length (g_file_pipes st)"
    and "\<forall>j. j \<noteq> i \<longrightarrow> g_file_pipes st' ! j = g_file_pipes st ! j"
  shows "refs_inv (st', fs)"
proof -
  note I = refs_invD [OF inv]
  have "pipe_local (g_file_pipes st' ! j) \<and> readers (g_file_pipes st' ! j) = readers (g_file_pipes st ! j) \<and>
        writers (g_file_pipes st' ! j) = writers (g_file_pipes st ! j)" if "j < FILE_PIPE_MAX" for j
    using that I(3) assms(4,6) pipe_local_same_ends [OF I(3) [OF i] assms(3,4)]
    by (cases "j = i") (simp_all add: same_pipe_ends_def)
  with inv assms(5) show ?thesis by (simp add: refs_inv_def)
qed

lemma device_bind_kind:
  assumes "file_device_backend_bind f node console = Some g"
  shows "file_kind g = KERNEL_FILE_VFS" "file_ops_ptr g \<notin> {OpsPipeRead, OpsPipeWrite}"
  using assms
  by (auto simp: file_device_backend_bind_def file_or_flags_def file_device_bind_vfs_node_def
      file_device_init_with_ops_def split: if_splits)

lemma file_init_vfs_kind:
  "file_kind (file_init_vfs f node path console) = KERNEL_FILE_VFS"
  "file_ops_ptr (file_init_vfs f node path console) \<notin> {OpsPipeRead, OpsPipeWrite}"
  using device_bind_kind [of f node console]
  by (simp_all add: file_init_vfs_def file_copy_opened_path_def file_init_with_ops_def split: option.split)

lemma file_init_vfs_not_pipe:
  "file_pipe_backend_is_kind k \<Longrightarrow> \<not> is_end k i (file_init_vfs f node path console)"
  "file_wf (file_init_vfs f node path console)"
  using file_init_vfs_kind [of f node path console]
  by (auto simp: is_end_def file_wf_def file_pipe_backend_is_kind_def)

lemma refs_inv_file_close:
  assumes inv: "refs_inv (st, fs)" and a: "a < length fs" and cl: "file_close st (fs ! a) = (rc, st', f)"
  shows "refs_inv (st', fs[a := f])"
proof -
  have wf: "file_wf (fs ! a)" using refs_invD(2) [OF inv a] .
  show ?thesis
  proof (cases "file_is_active (fs ! a) \<and> file_pipe_backend_is_kind (file_kind (fs ! a))")
    case True
    with wf cl have "file_pipe_close st (fs ! a) = (rc, st', f)"
      by (auto simp: file_close_def file_wf_def file_pipe_backend_is_kind_def)
    with True refs_inv_close [OF inv a] show ?thesis by blast
  next
    case False
    with wf cl have "st' = st" and f: "f = fs ! a \<or> f = file_reset (fs ! a)"
      by (auto simp: file_close_def file_wf_def file_pipe_backend_is_kind_def split: if_splits)
    moreover from False have "\<not> is_end k i (fs ! a)" if "file_pipe_backend_is_kind k" for k i
      using that by (auto simp: is_end_def)
    ultimately show ?thesis
      using inv a wf by (auto intro!: refs_inv_file_only simp: file_wf_inactive)
  qed
qed

lemma pipe_sys_step_inv:
  assumes "pipe_sys_step sys sys'" and "refs_inv sys" and "ends_fit (snd sys')"
  shows "refs_inv sys'"
  using assms
proof (cases rule: pipe_sys_step.cases)
  case (sys_open_vfs a fs st node path console)
  then show ?thesis
    using assms(2) by (simp add: refs_inv_file_only file_init_vfs_not_pipe is_end_inactive)
next
  case (sys_read a fs i st sz rc out st')
  with assms(2) have inv: "refs_inv (st, fs)" by simp
  note i = is_end_kind_bound [OF inv sys_read(3,4)]
  have "file_pipe_backend_is_kind KERNEL_FILE_PIPE_READ" by (simp add: file_pipe_backend_is_kind_def)
  note i = i [OF this]
  have "pipe_ok (g_file_pipes st ! i)" using refs_invD(3) [OF inv i(1)] by (simp add: pipe_local_def)
  from file_pipe_read_effect [OF this i(2) sys_read(5)] refs_invD(1) [OF inv] i(1) sys_read(2)
  show ?thesis by (auto intro: refs_inv_same_ends [OF inv i(1)])
next
  case (sys_write a fs i st data rc st')
  with assms(2) have inv: "refs_inv (st, fs)" by simp
  have "file_pipe_backend_is_kind KERNEL_FILE_PIPE_WRITE" by (simp add: file_pipe_backend_is_kind_def)
  note i = is_end_kind_bound [OF inv sys_write(3,4) this]
  have "pipe_ok (g_file_pipes st ! i)" using refs_invD(3) [OF inv i(1)] by (simp add: pipe_local_def)
  from file_pipe_write_effect [OF this i(2) sys_write(5)] refs_invD(1) [OF inv] i(1) sys_write(2)
  show ?thesis by (auto intro: refs_inv_same_ends [OF inv i(1)])
next
  case (sys_pair a fs b st ok st' r w fl)
  with assms(2) show ?thesis using refs_inv_pair by simp
next
  case (sys_open_named a fs st path wr ok st' f)
  with assms(2,3) show ?thesis using refs_inv_open_named by simp
next
  case (sys_clone a fs b st ok st' f)
  with assms(2,3) show ?thesis using refs_inv_clone by simp
next
  case (sys_discard a fs st st' f)
  with assms(2) show ?thesis using refs_inv_discard(1) by simp
next
  case (sys_close a fs st rc st' f)
  with assms(2) show ?thesis using refs_inv_file_close by simp
next
  case (sys_create st path ok st' fs)
  with assms(2) show ?thesis using refs_inv_create_named by simp
next
  case (sys_unlink st path ok st' fs)
  with assms(2) show ?thesis using refs_inv_unlink_named by simp
qed

lemma pipe_sys_reachable_inv: "pipe_sys_reachable sys \<Longrightarrow> refs_inv sys"
proof (induction rule: pipe_sys_reachable.induct)
  case (sys_initial sys)
  obtain st fs where sys: "sys = (st, fs)" by fastforce
  with sys_initial have pipes: "g_file_pipes st = map file_pipe_reset (g_file_pipes st)"
    "length (g_file_pipes st) = FILE_PIPE_MAX" and fs: "\<forall>f \<in> set fs. \<not> file_is_active f"
    by (auto simp: pipe_sys_initial_def)
  have "\<exists>p. g_file_pipes st ! i = file_pipe_reset p" if "i < FILE_PIPE_MAX" for i
    using pipes that by (metis nth_map)
  moreover have "pipe_local (file_pipe_reset p)" for p
    using pipe_ok_empty(2) [of p] by (simp add: pipe_local_def) (simp add: file_pipe_reset_def)
  moreover have "open_ends k i fs = 0" for k i using fs by (auto simp: open_ends_def is_end_inactive filter_empty_conv)
  ultimately show ?case
    using pipes(2) fs unfolding sys refs_inv_def by (fastforce simp: file_wf_inactive file_pipe_reset_def)
qed (blast intro: pipe_sys_step_inv)

section \<open>Wake-ups\<close>

definition read_blocked :: "file_pipe \<Rightarrow> bool" where
  "read_blocked p \<longleftrightarrow> pipe_count p = 0 \<and> writers p \<noteq> 0"

definition write_blocked :: "file_pipe \<Rightarrow> bool" where
  "write_blocked p \<longleftrightarrow> FILE_PIPE_BUFFER_SIZE \<le> unat (pipe_count p) \<and> readers p \<noteq> 0"

definition new_wakes :: "pipe_state \<Rightarrow> pipe_state \<Rightarrow> (nat \<times> kernel_file_kind) set" where
  "new_wakes st st' = set (drop (length (wake_calls st)) (wake_calls st'))"

text \<open>
  A transition of pipe \<open>i\<close> loses no wake-up: when it ends the state in which an end blocks, and that
  end can still be open, the waiters of that end are woken.
\<close>

definition wakes_waiters :: "nat \<Rightarrow> pipe_state \<Rightarrow> pipe_state \<Rightarrow> bool" where
  "wakes_waiters i st st' \<longleftrightarrow>
     (let p = g_file_pipes st ! i; q = g_file_pipes st' ! i in
      (read_blocked p \<and> \<not> read_blocked q \<and> readers q \<noteq> 0 \<longrightarrow>
         (i, KERNEL_FILE_PIPE_READ) \<in> new_wakes st st') \<and>
      (write_blocked p \<and> \<not> write_blocked q \<and> writers q \<noteq> 0 \<longrightarrow>
         (i, KERNEL_FILE_PIPE_WRITE) \<in> new_wakes st st'))"

lemma wakes_same: "g_file_pipes st' ! i = g_file_pipes st ! i \<Longrightarrow> wakes_waiters i st st'"
  by (auto simp: wakes_waiters_def Let_def)

lemma wakes_quiet:
  assumes "read_blocked (g_file_pipes st ! i) \<Longrightarrow> read_blocked (g_file_pipes st' ! i)"
    and "write_blocked (g_file_pipes st ! i) \<Longrightarrow> write_blocked (g_file_pipes st' ! i)"
  shows "wakes_waiters i st st'"
  using assms by (auto simp: wakes_waiters_def Let_def)

lemma pipe_put_nth: "i < length (g_file_pipes st) \<Longrightarrow> g_file_pipes (pipe_put i p st) ! j = (if j = i then p else g_file_pipes st ! j)"
  by (simp add: pipe_put_def)

lemma wake_call_simps [simp]: "g_file_pipes (process_wake_call i k st) = g_file_pipes st"
  "wake_calls (process_wake_call i k st) = wake_calls st @ [(i, k)]" "wake_calls (pipe_put i p st) = wake_calls st"
  by (simp_all add: process_wake_call_def pipe_put_def)

lemma file_pipe_close_wakes:
  assumes j: "j < length (g_file_pipes st)" and ptr: "private_data f = PipePtr j"
    and cl: "file_pipe_close st f = (rc, st', f')"
  shows "wakes_waiters i st st'"
proof (cases "i = j")
  case False
  with file_pipe_close_eq [OF ptr, of st] cl j have "g_file_pipes st' ! i = g_file_pipes st ! i"
    by (auto simp: pipe_put_nth)
  then show ?thesis by (rule wakes_same)
next
  case True
  let ?q = "file_pipe_release_end (g_file_pipes st ! j) (file_kind f)"
  have pipe: "g_file_pipes st' ! j = pipe_after_release ?q"
    using file_pipe_close_eq [OF ptr, of st] cl j by (auto simp: pipe_put_nth)
  have wake: "(j, KERNEL_FILE_PIPE_WRITE) \<in> new_wakes st st'" if "file_kind f = KERNEL_FILE_PIPE_READ" "readers ?q = 0"
    using that cl ptr by (auto simp: file_pipe_close_def file_pipe_from_file_def Let_def new_wakes_def split: if_splits)
  have wake': "(j, KERNEL_FILE_PIPE_READ) \<in> new_wakes st st'" if "file_kind f = KERNEL_FILE_PIPE_WRITE" "writers ?q = 0"
    using that cl ptr by (auto simp: file_pipe_close_def file_pipe_from_file_def Let_def new_wakes_def split: if_splits)
  have cnt: "pipe_count ?q = pipe_count (g_file_pipes st ! j)" by (simp add: file_pipe_release_end_def)
  have r: "(j, KERNEL_FILE_PIPE_READ) \<in> new_wakes st st'"
    if "read_blocked (g_file_pipes st ! j)" "\<not> read_blocked (pipe_after_release ?q)" "readers ?q \<noteq> 0"
    using that cnt wake' by (cases "file_kind f")
      (auto simp: read_blocked_def pipe_after_release_def file_pipe_release_end_def split: if_splits)
  have w: "(j, KERNEL_FILE_PIPE_WRITE) \<in> new_wakes st st'"
    if "write_blocked (g_file_pipes st ! j)" "\<not> write_blocked (pipe_after_release ?q)" "writers ?q \<noteq> 0"
    using that cnt wake by (cases "file_kind f")
      (auto simp: write_blocked_def pipe_after_release_def file_pipe_release_end_def split: if_splits)
  from r w show ?thesis by (simp add: True wakes_waiters_def Let_def pipe)
qed

lemma file_pipe_write_wakes:
  assumes j: "j < length (g_file_pipes st)" and ptr: "private_data f = PipePtr j"
    and ok: "pipe_ok (g_file_pipes st ! j)" and w: "file_pipe_write st f data = (rc, st')"
  shows "wakes_waiters i st st'"
proof -
  from file_pipe_write_effect [OF ok ptr w j] obtain n where
    same: "same_pipe_ends (g_file_pipes st ! j) (g_file_pipes st' ! j)"
    and data: "pipe_data (g_file_pipes st' ! j) = pipe_data (g_file_pipes st ! j) @ take n data"
    and others: "\<forall>k. k \<noteq> j \<longrightarrow> g_file_pipes st' ! k = g_file_pipes st ! k"
    and wake: "wake_calls st' = wake_calls st @ (if n = 0 then [] else [(j, KERNEL_FILE_PIPE_READ)])"
    by blast
  have "write_blocked (g_file_pipes st ! j) \<Longrightarrow> write_blocked (g_file_pipes st' ! j)"
    using same data by (auto simp: write_blocked_def same_pipe_ends_def simp flip: length_pipe_data)
  moreover have "n \<noteq> 0" if "read_blocked (g_file_pipes st ! j)" "\<not> read_blocked (g_file_pipes st' ! j)"
    using that same data by (auto simp: read_blocked_def same_pipe_ends_def pipe_count_0_iff)
  ultimately show ?thesis
    using others wake by (cases "i = j") (auto simp: wakes_waiters_def Let_def new_wakes_def intro: wakes_same)
qed

lemma file_pipe_read_wakes:
  assumes j: "j < length (g_file_pipes st)" and ptr: "private_data f = PipePtr j"
    and ok: "pipe_ok (g_file_pipes st ! j)" and r: "file_pipe_read st f sz = (rc, out, st')"
  shows "wakes_waiters i st st'"
proof -
  note eff = file_pipe_read_effect [OF ok ptr r j]
  then have same: "same_pipe_ends (g_file_pipes st ! j) (g_file_pipes st' ! j)"
    and data: "pipe_data (g_file_pipes st' ! j) = drop (unat sz) (pipe_data (g_file_pipes st ! j))"
    and out: "out = take (unat sz) (pipe_data (g_file_pipes st ! j))"
    and others: "\<forall>k. k \<noteq> j \<longrightarrow> g_file_pipes st' ! k = g_file_pipes st ! k"
    and wake: "wake_calls st' = wake_calls st @ (if out = [] then [] else [(j, KERNEL_FILE_PIPE_WRITE)])"
    by blast+
  have "read_blocked (g_file_pipes st ! j) \<Longrightarrow> read_blocked (g_file_pipes st' ! j)"
    using same data by (auto simp: read_blocked_def same_pipe_ends_def pipe_count_0_iff)
  moreover have "out \<noteq> []" if "write_blocked (g_file_pipes st ! j)" "\<not> write_blocked (g_file_pipes st' ! j)"
  proof
    assume "out = []"
    with out data have "pipe_data (g_file_pipes st' ! j) = pipe_data (g_file_pipes st ! j)"
      by (metis append_Nil append_take_drop_id)
    with that same show False by (auto simp: write_blocked_def same_pipe_ends_def simp flip: length_pipe_data)
  qed
  ultimately show ?thesis
    using others wake by (cases "i = j") (auto simp: wakes_waiters_def Let_def new_wakes_def intro: wakes_same)
qed

lemma discard_wakes:
  assumes inv: "refs_inv (st, fs)" and a: "a < length fs" and d: "file_discard st (fs ! a) = (st', f)"
  shows "wakes_waiters i st st'"
proof (cases "file_is_active (fs ! a) \<and> file_pipe_backend_is_kind (file_kind (fs ! a))")
  case True
  with refs_invD(2) [OF inv a] obtain j where j: "j < FILE_PIPE_MAX" "private_data (fs ! a) = PipePtr j"
    by (auto simp: file_wf_def)
  obtain rc where "file_pipe_close st (fs ! a) = (rc, st', f)"
    using d True by (cases "file_pipe_close st (fs ! a)") (auto simp: file_discard_def file_pipe_backend_discard_def)
  with j refs_invD(1) [OF inv] show ?thesis by (auto intro: file_pipe_close_wakes)
next
  case False
  with d have "st' = st" by (auto simp: file_discard_def split: if_splits)
  then show ?thesis by (simp add: wakes_same)
qed

lemma close_wakes:
  assumes inv: "refs_inv (st, fs)" and a: "a < length fs" and cl: "file_close st (fs ! a) = (rc, st', f)"
  shows "wakes_waiters i st st'"
proof (cases "file_is_active (fs ! a) \<and> file_ops_ptr (fs ! a) \<in> {OpsPipeRead, OpsPipeWrite}")
  case True
  with refs_invD(2) [OF inv a] obtain j where j: "j < FILE_PIPE_MAX" "private_data (fs ! a) = PipePtr j"
    by (auto simp: file_wf_def file_pipe_backend_is_kind_def)
  with True cl refs_invD(1) [OF inv] show ?thesis by (auto simp: file_close_def intro: file_pipe_close_wakes)
next
  case False
  with cl have "st' = st" by (auto simp: file_close_def split: if_splits)
  then show ?thesis by (simp add: wakes_same)
qed

lemma acquire_quiet:
  assumes j: "j < length (g_file_pipes st)" and st': "st' = pipe_put j (file_pipe_acquire_end (g_file_pipes st ! j) k) st"
    and k: "file_pipe_backend_is_kind k"
    and pos: "k = KERNEL_FILE_PIPE_READ \<Longrightarrow> readers (g_file_pipes st' ! j) \<noteq> 0"
      "k = KERNEL_FILE_PIPE_WRITE \<Longrightarrow> writers (g_file_pipes st' ! j) \<noteq> 0"
  shows "read_blocked (g_file_pipes st ! i) \<Longrightarrow> read_blocked (g_file_pipes st' ! i)"
    "write_blocked (g_file_pipes st ! i) \<Longrightarrow> write_blocked (g_file_pipes st' ! i)"
  using j k pos unfolding st'
  by (auto simp: pipe_put_nth file_pipe_acquire_end_def read_blocked_def write_blocked_def
      file_pipe_backend_is_kind_def split: if_splits)

lemma refs_inv_end_pos:
  assumes inv: "refs_inv (st, fs)" and a: "a < length fs" and e: "is_end k i (fs ! a)" and i: "i < FILE_PIPE_MAX"
  shows "k = KERNEL_FILE_PIPE_READ \<Longrightarrow> readers (g_file_pipes st ! i) \<noteq> 0"
    "k = KERNEL_FILE_PIPE_WRITE \<Longrightarrow> writers (g_file_pipes st ! i) \<noteq> 0"
proof -
  have "0 < open_ends k i fs" using a e by (auto simp: open_ends_def filter_empty_conv)
  with refs_invD(4,5) [OF inv i]
  show "k = KERNEL_FILE_PIPE_READ \<Longrightarrow> readers (g_file_pipes st ! i) \<noteq> 0"
    "k = KERNEL_FILE_PIPE_WRITE \<Longrightarrow> writers (g_file_pipes st ! i) \<noteq> 0" by auto
qed

lemma open_named_wakes:
  assumes inv: "refs_inv (st, fs)" and a: "a < length fs" and ina: "\<not> file_is_active (fs ! a)"
    and op: "file_pipe_backend_open_named st (fs ! a) path wr = (ok, st', f)" and fit: "ends_fit (fs[a := f])"
  shows "wakes_waiters i st st'"
proof (cases "file_pipe_find_named st path")
  case None
  with op show ?thesis by (auto simp: file_pipe_backend_open_named_def Let_def intro: wakes_same)
next
  case (Some j)
  note inv' = refs_inv_open_named [OF inv a ina op fit]
  let ?k = "if wr then KERNEL_FILE_PIPE_WRITE else KERNEL_FILE_PIPE_READ"
  from op Some have st': "st' = pipe_put j (file_pipe_acquire_end (g_file_pipes st ! j) ?k) st"
    and f: "is_end ?k j f"
    by (auto simp: file_pipe_backend_open_named_def Let_def file_pipe_init_end_def
        file_pipe_init_with_ops_def is_end_def file_is_active_def)
  note j = find_named_linked(1) [OF Some]
  have pos: "?k = KERNEL_FILE_PIPE_READ \<Longrightarrow> readers (g_file_pipes st' ! j) \<noteq> 0"
    "?k = KERNEL_FILE_PIPE_WRITE \<Longrightarrow> writers (g_file_pipes st' ! j) \<noteq> 0"
    using refs_inv_end_pos [OF inv', of a ?k j] a f j by simp_all
  have k: "file_pipe_backend_is_kind ?k" by (simp add: file_pipe_backend_is_kind_def)
  have "j < length (g_file_pipes st)" using j refs_invD(1) [OF inv] by simp
  from acquire_quiet [OF this st' k pos] show ?thesis by (intro wakes_quiet)
qed

lemma clone_wakes:
  assumes inv: "refs_inv (st, fs)" and a: "a < length fs" and b: "b < length fs" and ab: "a \<noteq> b"
    and cl: "file_clone st (fs ! a) (fs ! b) = (ok, st', f)" and fit: "ends_fit (fs[a := f])"
  shows "wakes_waiters i st st'"
proof (cases "file_is_active (fs ! b)")
  case False
  with cl show ?thesis by (auto simp: file_clone_def intro: wakes_same)
next
  case act: True
  obtain st1 d where d: "file_discard st (fs ! a) = (st1, d)" by fastforce
  note w1 = discard_wakes [OF inv a d, of i] and inv1 = refs_inv_discard [OF inv a d]
  show ?thesis
  proof (cases "file_pipe_backend_is_kind (file_kind (fs ! b))")
    case False
    with cl act d have "st' = st1" by (auto simp: file_clone_def)
    with w1 show ?thesis by simp
  next
    case True
    with refs_invD(2) [OF inv b] act obtain j where j: "j < FILE_PIPE_MAX" "private_data (fs ! b) = PipePtr j"
      by (auto simp: file_wf_def)
    let ?k = "file_kind (fs ! b)"
    from cl act d True j have st': "st' = pipe_put j (file_pipe_acquire_end (g_file_pipes st1 ! j) ?k) st1"
      and f: "f = fs ! b"
      by (auto simp: file_clone_def file_pipe_backend_clone_def file_pipe_from_file_def)
    have e: "is_end ?k j (fs ! b)" using act j by (simp add: is_end_def)
    have ea: "a < length (fs[a := f])" "is_end ?k j (fs[a := f] ! a)" using a e f by simp_all
    have eb: "b < length (fs[a := d])" "is_end ?k j (fs[a := d] ! b)" using b ab e by simp_all
    note pos = refs_inv_end_pos [OF refs_inv_clone [OF inv a b ab cl fit] ea j(1)]
    note pos1 = refs_inv_end_pos [OF inv1(1) eb j(1)]
    have lj: "j < length (g_file_pipes st1)" using j refs_invD(1) [OF inv1(1)] by simp
    have quiet: "read_blocked (g_file_pipes st1 ! i) \<Longrightarrow> read_blocked (g_file_pipes st' ! i)"
      "write_blocked (g_file_pipes st1 ! i) \<Longrightarrow> write_blocked (g_file_pipes st' ! i)"
      using acquire_quiet [OF lj st' True pos] by simp_all
    have "readers (g_file_pipes st' ! i) \<noteq> 0 \<Longrightarrow> readers (g_file_pipes st1 ! i) \<noteq> 0"
      "writers (g_file_pipes st' ! i) \<noteq> 0 \<Longrightarrow> writers (g_file_pipes st1 ! i) \<noteq> 0"
      using pos1 lj unfolding st'
      by (auto simp: pipe_put_nth file_pipe_acquire_end_def split: if_splits)
    moreover have "new_wakes st st' = new_wakes st st1" by (simp add: new_wakes_def st')
    ultimately show ?thesis using w1 quiet by (auto simp: wakes_waiters_def Let_def)
  qed
qed

lemma unblocked_unused:
  assumes "refs_inv (st, fs)" and "j < FILE_PIPE_MAX" and "\<not> pipe_used (g_file_pipes st ! j)"
  shows "\<not> read_blocked (g_file_pipes st ! j)" "\<not> write_blocked (g_file_pipes st ! j)"
  using refs_invD(3) [OF assms(1,2)] assms(3) by (auto simp: pipe_local_def read_blocked_def write_blocked_def)

lemma put_unused_wakes:
  assumes inv: "refs_inv (st, fs)" and j: "j < FILE_PIPE_MAX" and "\<not> pipe_used (g_file_pipes st ! j)"
  shows "wakes_waiters i st (pipe_put j p st)"
proof (cases "i = j")
  case True
  with unblocked_unused [OF assms] show ?thesis by (auto intro: wakes_quiet)
next
  case False
  with j refs_invD(1) [OF inv] show ?thesis by (auto simp: pipe_put_nth intro: wakes_same)
qed

lemma find_unused_free:
  "file_pipe_find_unused st = Some j \<Longrightarrow> j < FILE_PIPE_MAX \<and> \<not> pipe_used (g_file_pipes st ! j)"
  using first_index_SomeD [of _ 0 FILE_PIPE_MAX j] by (auto simp: file_pipe_find_unused_def)

lemma unlink_wakes:
  assumes inv: "refs_inv (st, fs)" and un: "file_pipe_backend_unlink_named st path = (ok, st')"
  shows "wakes_waiters i st st'"
proof (cases "file_pipe_find_named st path")
  case None
  with un show ?thesis by (auto simp: file_pipe_backend_unlink_named_def intro: wakes_same)
next
  case (Some j)
  note j = find_named_linked(1) [OF Some]
  show ?thesis
    using un Some j refs_invD(1) [OF inv]
    by (intro wakes_quiet)
      (auto simp: file_pipe_backend_unlink_named_def Let_def pipe_put_nth read_blocked_def write_blocked_def
        file_pipe_reset_def split: if_splits)
qed

lemma pipe_sys_step_wakes:
  assumes step: "pipe_sys_step (st, fs) (st', fs')" and inv: "refs_inv (st, fs)" and i: "i < FILE_PIPE_MAX"
    and fit: "ends_fit fs'"
  shows "wakes_waiters i st st'"
  using step
proof (cases rule: pipe_sys_step.cases)
  case (sys_pair a b ok r w fl)
  then show ?thesis using find_unused_free put_unused_wakes [OF inv] wakes_same
    by (auto simp: file_init_pipe_pair_def file_pipe_backend_init_pair_def split: option.splits)
next
  case (sys_create path ok)
  then show ?thesis using find_unused_free put_unused_wakes [OF inv] wakes_same
    by (auto simp: file_pipe_backend_create_named_def split: option.splits if_splits)
next
  case (sys_read a j sz rc out)
  have "file_pipe_backend_is_kind KERNEL_FILE_PIPE_READ" by (simp add: file_pipe_backend_is_kind_def)
  from is_end_kind_bound [OF inv sys_read(2,3) this] refs_invD(1,3) [OF inv] sys_read(4)
  show ?thesis by (auto simp: pipe_local_def intro: file_pipe_read_wakes)
next
  case (sys_write a j data rc)
  have "file_pipe_backend_is_kind KERNEL_FILE_PIPE_WRITE" by (simp add: file_pipe_backend_is_kind_def)
  from is_end_kind_bound [OF inv sys_write(2,3) this] refs_invD(1,3) [OF inv] sys_write(4)
  show ?thesis by (auto simp: pipe_local_def intro: file_pipe_write_wakes)
next
  case (sys_open_vfs a node path console)
  then show ?thesis by (simp add: wakes_same)
next
  case (sys_open_named a path wr ok f)
  then show ?thesis using open_named_wakes [OF inv] fit by simp
next
  case (sys_clone a b ok f)
  then show ?thesis using clone_wakes [OF inv] fit by simp
next
  case (sys_discard a f)
  then show ?thesis using discard_wakes [OF inv] by simp
next
  case (sys_close a rc f)
  then show ?thesis using close_wakes [OF inv] by simp
next
  case (sys_unlink path ok)
  then show ?thesis using unlink_wakes [OF inv] by simp
qed

section \<open>Streams\<close>

text \<open>A sequence of transfers through one pipe: what was read and what was accepted, in order.\<close>

datatype transfer = Rd u32 | Wr "u8 list"

fun run_transfers :: "kfile \<Rightarrow> kfile \<Rightarrow> transfer list \<Rightarrow> pipe_state \<Rightarrow> u8 list \<times> u8 list \<times> pipe_state" where
  "run_transfers r w [] st = ([], [], st)"
| "run_transfers r w (Rd sz # ts) st =
     (let (rc, out, st1) = file_pipe_read st r sz; (got, sent, st2) = run_transfers r w ts st1
      in (out @ got, sent, st2))"
| "run_transfers r w (Wr data # ts) st =
     (let (rc, st1) = file_pipe_write st w data; (got, sent, st2) = run_transfers r w ts st1
      in (got, take (nat rc) data @ sent, st2))"

lemma run_transfers_stream:
  assumes "pipe_ok (g_file_pipes st ! i)" and "i < length (g_file_pipes st)"
    and "private_data r = PipePtr i" and "private_data w = PipePtr i"
    and "run_transfers r w ts st = (got, sent, st')"
  shows "got @ pipe_data (g_file_pipes st' ! i) = pipe_data (g_file_pipes st ! i) @ sent"
  using assms
proof (induction ts arbitrary: st got sent)
  case Nil
  then show ?case by simp
next
  case (Cons t ts)
  show ?case
  proof (cases t)
    case (Rd sz)
    obtain rc out st1 where rd: "file_pipe_read st r sz = (rc, out, st1)" by (metis prod_cases3)
    obtain got1 where run: "run_transfers r w ts st1 = (got1, sent, st')" and got: "got = out @ got1"
      using Cons.prems(5) rd by (auto simp: Rd Let_def split: prod.splits)
    note eff = file_pipe_read_effect [OF Cons.prems(1,3) rd Cons.prems(2)]
    with Cons.prems have "got1 @ pipe_data (g_file_pipes st' ! i) = pipe_data (g_file_pipes st1 ! i) @ sent"
      by (intro Cons.IH [OF _ _ _ _ run]) auto
    with eff got show ?thesis by (metis append.assoc append_take_drop_id)
  next
    case (Wr data)
    obtain rc st1 where wr: "file_pipe_write st w data = (rc, st1)" by fastforce
    obtain sent1 where run: "run_transfers r w ts st1 = (got, sent1, st')" and sent: "sent = take (nat rc) data @ sent1"
      using Cons.prems(5) wr by (auto simp: Wr Let_def split: prod.splits)
    note eff = file_pipe_write_effect [OF Cons.prems(1,4) wr Cons.prems(2)]
    then obtain n where n: "(0 \<le> rc \<longrightarrow> rc = int n) \<and> (rc < 0 \<longrightarrow> n = 0)" "pipe_ok (g_file_pipes st1 ! i)"
      "pipe_data (g_file_pipes st1 ! i) = pipe_data (g_file_pipes st ! i) @ take n data"
      "length (g_file_pipes st1) = length (g_file_pipes st)" by auto
    then have "nat rc = n" by (cases "0 \<le> rc") auto
    moreover have "got @ pipe_data (g_file_pipes st' ! i) = pipe_data (g_file_pipes st1 ! i) @ sent1"
      using Cons.prems n by (intro Cons.IH [OF _ _ _ _ run]) auto
    ultimately show ?thesis using n(3) sent by simp
  qed
qed

section \<open>A concrete system\<close>

definition demo_pipe :: file_pipe where
  "demo_pipe = \<lparr>pipe_used = False, pipe_named = False, pipe_linked = False, readers = 0, writers = 0,
     read_pos = 0, write_pos = 0, pipe_count = 0, pipe_name = [], pipe_buffer = (\<lambda>_. 0)\<rparr>"

definition demo_file :: kfile where
  "demo_file = \<lparr>file_kind = KERNEL_FILE_NONE, file_flags = 0, file_offset = 0, dir_index = 0,
     vnode = \<lparr>node_kind = VFS_NODE_NONE, mount_kind = VFS_MOUNT_NONE, node_reserved = 0, mount_slot = 0,
       dev_major = 0, dev_minor = 0, aux_index = 0, aux_data = 0,
       handle_fat32 = \<lparr>fat_name = [], first_cluster = 0, fat_size = 0, attributes = 0, lfn_entry_count = 0,
         fat_reserved = 0, dirent_index = 0, dirent_lba = 0, dirent_offset = 0\<rparr>\<rparr>,
     opened_path = [], private_data = NullPtr, file_ops_ptr = OpsNull\<rparr>"

definition demo_state :: pipe_state where
  "demo_state = \<lparr>g_file_pipes = [demo_pipe, demo_pipe, demo_pipe, demo_pipe], wake_calls = []\<rparr>"

definition demo_read_end :: kfile where
  "demo_read_end = file_or_flags 0 (file_or_flags KERNEL_FILE_ACCESS_READ
     (file_pipe_init_end demo_file KERNEL_FILE_PIPE_READ 0 OpsPipeRead))"

definition demo_write_end :: kfile where
  "demo_write_end = file_or_flags 0 (file_or_flags KERNEL_FILE_ACCESS_WRITE
     (file_pipe_init_end demo_file KERNEL_FILE_PIPE_WRITE 0 OpsPipeWrite))"

definition demo_opened :: pipe_state where
  "demo_opened = pipe_put 0 (demo_pipe\<lparr>pipe_used := True, readers := 1, writers := 1\<rparr>) demo_state"

lemma demo_pipe_reset: "file_pipe_reset demo_pipe = demo_pipe"
  by (simp add: file_pipe_reset_def demo_pipe_def)

lemma demo_init_pair:
  "file_init_pipe_pair demo_state demo_file demo_file =
     (True, demo_opened, file_or_flags KERNEL_FILE_ACCESS_READ (file_pipe_init_end demo_file KERNEL_FILE_PIPE_READ 0 OpsPipeRead),
      file_or_flags KERNEL_FILE_ACCESS_WRITE (file_pipe_init_end demo_file KERNEL_FILE_PIPE_WRITE 0 OpsPipeWrite))"
proof -
  have "file_pipe_find_unused demo_state = Some 0"
    by (simp add: file_pipe_find_unused_def FILE_PIPE_MAX_def numeral_eq_Suc demo_state_def demo_pipe_def)
  then show ?thesis
    by (simp add: file_init_pipe_pair_def file_pipe_backend_init_pair_def demo_opened_def demo_pipe_reset)
      (simp add: demo_state_def demo_pipe_reset)
qed

lemma demo_initial: "pipe_sys_initial (demo_state, replicate n demo_file)"
  by (simp add: pipe_sys_initial_def demo_state_def demo_pipe_reset FILE_PIPE_MAX_def)
    (simp add: demo_file_def file_is_active_def)

lemma demo_sys_reachable: "pipe_sys_reachable (demo_opened, [demo_read_end, demo_write_end])"
proof -
  have "pipe_sys_initial (demo_state, [demo_file, demo_file])"
    using demo_initial [of 2] by (simp add: numeral_2_eq_2)
  moreover have "pipe_sys_step (demo_state, [demo_file, demo_file])
      (demo_opened, [demo_file, demo_file][0 := demo_read_end, 1 := demo_write_end])"
    unfolding demo_read_end_def demo_write_end_def
    by (rule sys_pair) (simp_all add: demo_init_pair, simp_all add: demo_file_def file_is_active_def)
  ultimately show ?thesis by (auto intro: sys_initial sys_step simp: ends_fit_small)
qed

lemma demo_ends: "is_end k i demo_read_end \<longleftrightarrow> k = KERNEL_FILE_PIPE_READ \<and> i = 0"
  "is_end k i demo_write_end \<longleftrightarrow> k = KERNEL_FILE_PIPE_WRITE \<and> i = 0"
  by (simp_all add: demo_read_end_def demo_write_end_def)

section \<open>Descriptors\<close>

lemma file_table_alloc_Some:
  "file_table_alloc table start = Some fd \<longleftrightarrow>
     start \<le> fd \<and> fd < length table \<and> \<not> file_is_active (table ! fd) \<and>
     (\<forall>j. start \<le> j \<and> j < fd \<longrightarrow> file_is_active (table ! j))"
  by (auto simp: file_table_alloc_def first_index_Some_iff)

lemma pipe_write_fd_Some:
  "file_table_pipe_write_fd table r (Some r) = Some w \<and> w \<noteq> r \<longleftrightarrow>
     r < w \<and> w < length table \<and> \<not> file_is_active (table ! w) \<and>
     (\<forall>j. r < j \<and> j < w \<longrightarrow> file_is_active (table ! j))"
  (is "?lhs \<longleftrightarrow> _")
proof -
  let ?fi = "first_index (\<lambda>i. \<not> file_is_active (table ! i)) (r + 1) (length table - (r + 1))"
  have "?lhs \<longleftrightarrow> ?fi = Some w"
    by (cases ?fi) (auto simp: file_table_pipe_write_fd_def dest: first_index_SomeD(1))
  then show ?thesis by (auto simp: first_index_Some_iff Suc_le_eq)
qed

lemma pipe_write_fd_free:
  assumes "r < b" and "b < length table" and "\<not> file_is_active (table ! b)"
  shows "\<exists>w. file_table_pipe_write_fd table r (Some r) = Some w \<and> w \<noteq> r"
proof -
  let ?P = "\<lambda>w. r < w \<and> w < length table \<and> \<not> file_is_active (table ! w)"
  from assms have "?P b" by simp
  then have "?P (LEAST w. ?P w)" by (rule LeastI)
  moreover have "\<forall>j. r < j \<and> j < (LEAST w. ?P w) \<longrightarrow> file_is_active (table ! j)"
    using not_less_Least [of _ ?P] calculation by (meson order.strict_trans)
  ultimately show ?thesis unfolding pipe_write_fd_Some by blast
qed

lemma init_pair_result:
  "file_init_pipe_pair st r w =
     (case file_pipe_find_unused st of
        None \<Rightarrow> (False, st, r, w)
      | Some i \<Rightarrow>
          (True, pipe_put i ((file_pipe_reset (g_file_pipes st ! i))\<lparr>pipe_used := True, readers := 1, writers := 1\<rparr>) st,
           file_or_flags KERNEL_FILE_ACCESS_READ (file_pipe_init_end r KERNEL_FILE_PIPE_READ i OpsPipeRead),
           file_or_flags KERNEL_FILE_ACCESS_WRITE (file_pipe_init_end w KERNEL_FILE_PIPE_WRITE i OpsPipeWrite)))"
  by (simp add: file_init_pipe_pair_def file_pipe_backend_init_pair_def split: option.split)

section \<open>Duplicating one end many times\<close>

fun duplicate_into :: "nat \<Rightarrow> nat list \<Rightarrow> pipe_system \<Rightarrow> pipe_system" where
  "duplicate_into b [] sys = sys"
| "duplicate_into b (a # as) (st, fs) =
     (let (ok, st', f) = file_clone st (fs ! a) (fs ! b) in duplicate_into b as (st', fs[a := f]))"

lemma clone_read_end:
  assumes "is_end KERNEL_FILE_PIPE_READ i src" and "\<not> file_is_active dst"
  shows "file_clone st dst src =
    (True, pipe_put i ((g_file_pipes st ! i)\<lparr>readers := readers (g_file_pipes st ! i) + 1\<rparr>) st, src)"
  using assms by (simp add: file_clone_def file_discard_def is_end_def file_pipe_backend_is_kind_def
      file_pipe_backend_clone_def file_pipe_from_file_def file_pipe_acquire_end_def)

lemma duplicate_into_reads:
  assumes "duplicate_into b as (st, fs) = (st', fs')" and "is_end KERNEL_FILE_PIPE_READ i (fs ! b)"
    and "i < length (g_file_pipes st)" and "b < length fs" and "b \<notin> set as" and "distinct as"
    and "\<And>a. a \<in> set as \<Longrightarrow> a < length fs" and "\<And>a. a \<in> set as \<Longrightarrow> \<not> file_is_active (fs ! a)"
  shows "pipe_sys_step\<^sup>*\<^sup>* (st, fs) (st', fs') \<and>
    readers (g_file_pipes st' ! i) = readers (g_file_pipes st ! i) + of_nat (length as) \<and>
    open_ends KERNEL_FILE_PIPE_READ i fs' = open_ends KERNEL_FILE_PIPE_READ i fs + length as \<and>
    (\<forall>c. c \<notin> set as \<longrightarrow> fs' ! c = fs ! c)"
  using assms
proof (induction as arbitrary: st fs)
  case Nil
  then show ?case by simp
next
  case (Cons a as)
  let ?p = "(g_file_pipes st ! i)\<lparr>readers := readers (g_file_pipes st ! i) + 1\<rparr>"
  have a: "a < length fs" "\<not> file_is_active (fs ! a)" "a \<noteq> b" using Cons.prems by auto
  note cl = clone_read_end [OF Cons.prems(2) a(2), of st]
  have step: "pipe_sys_step (st, fs) (pipe_put i ?p st, fs[a := fs ! b])"
    using a Cons.prems(4) cl by (intro sys_clone) auto
  have ina: "\<not> file_is_active (fs[a := fs ! b] ! c)" if "c \<in> set as" for c
    using that Cons.prems(6) Cons.prems(8) [of c] by (cases "c = a") simp_all
  have "duplicate_into b as (pipe_put i ?p st, fs[a := fs ! b]) = (st', fs')"
    using Cons.prems(1) cl by simp
  note IH = Cons.IH [OF this _ _ _ _ _ _ ina]
  have len: "i < length (g_file_pipes (pipe_put i ?p st))" using Cons.prems(3) by (simp add: pipe_put_def)
  have run: "pipe_sys_step\<^sup>*\<^sup>* (pipe_put i ?p st, fs[a := fs ! b]) (st', fs')"
    "readers (g_file_pipes st' ! i) = readers ?p + of_nat (length as)"
    "open_ends KERNEL_FILE_PIPE_READ i fs' = open_ends KERNEL_FILE_PIPE_READ i (fs[a := fs ! b]) + length as"
    "\<forall>c. c \<notin> set as \<longrightarrow> fs' ! c = fs[a := fs ! b] ! c"
    using IH Cons.prems(2-7) a(3) len by (simp_all add: pipe_put_nth)
  have "open_ends KERNEL_FILE_PIPE_READ i (fs[a := fs ! b]) = open_ends KERNEL_FILE_PIPE_READ i fs + 1"
    using open_ends_update [OF a(1), of KERNEL_FILE_PIPE_READ i "fs ! b"] Cons.prems(2) is_end_inactive [OF a(2)]
    by simp
  moreover have "\<forall>c. c \<notin> set (a # as) \<longrightarrow> fs' ! c = fs ! c" using run(4) by auto
  ultimately show ?case using run(2,3) converse_rtranclp_into_rtranclp [OF step run(1)] by simp
qed

lemma pipe_reset_unused: "\<not> pipe_used (file_pipe_reset p)"
  by (simp add: file_pipe_reset_def)

lemma fresh_pair:
  assumes "pipe_sys_initial (st, fs)" and "a < length fs" and "b < length fs" and "a \<noteq> b"
    and "file_init_pipe_pair st (fs ! a) (fs ! b) = (ok, st', r, w)"
  shows "ok" "pipe_sys_step (st, fs) (st', fs[a := r, b := w])" "is_end KERNEL_FILE_PIPE_WRITE 0 w"
    "is_end KERNEL_FILE_PIPE_READ 0 r" "readers (g_file_pipes st' ! 0) = 1" "length (g_file_pipes st') = FILE_PIPE_MAX"
    "open_ends KERNEL_FILE_PIPE_READ 0 (fs[a := r, b := w]) = 1"
proof -
  have init: "g_file_pipes st ! 0 = file_pipe_reset (g_file_pipes st ! 0)" "length (g_file_pipes st) = FILE_PIPE_MAX"
    "\<forall>f \<in> set fs. \<not> file_is_active f"
    using assms(1) by (auto simp: pipe_sys_initial_def FILE_PIPE_MAX_def) (metis nth_map zero_less_numeral)
  then have "\<not> pipe_used (g_file_pipes st ! 0)" by (metis pipe_reset_unused)
  then have "file_pipe_find_unused st = Some 0"
    by (simp add: file_pipe_find_unused_def FILE_PIPE_MAX_def numeral_eq_Suc)
  with assms(5) have res: "ok" "r = file_or_flags KERNEL_FILE_ACCESS_READ (file_pipe_init_end (fs ! a) KERNEL_FILE_PIPE_READ 0 OpsPipeRead)"
    "w = file_or_flags KERNEL_FILE_ACCESS_WRITE (file_pipe_init_end (fs ! b) KERNEL_FILE_PIPE_WRITE 0 OpsPipeWrite)"
    "st' = pipe_put 0 ((file_pipe_reset (g_file_pipes st ! 0))\<lparr>pipe_used := True, readers := 1, writers := 1\<rparr>) st"
    by (auto simp: init_pair_result)
  then show ends: "ok" "is_end KERNEL_FILE_PIPE_WRITE 0 w" "is_end KERNEL_FILE_PIPE_READ 0 r" by simp_all
  show "readers (g_file_pipes st' ! 0) = 1" "length (g_file_pipes st') = FILE_PIPE_MAX"
    using res(4) init(2) by (simp_all add: pipe_put_def FILE_PIPE_MAX_def)
  have ina: "\<not> file_is_active (fs ! a)" "\<not> file_is_active (fs ! b)" using init(3) assms(2,3) by simp_all
  have "file_or_flags 0 f = f" for f by (simp add: file_or_flags_def)
  with sys_pair [OF assms(2-4) ina assms(5), of 0]
  show "pipe_sys_step (st, fs) (st', fs[a := r, b := w])" by simp
  have "open_ends KERNEL_FILE_PIPE_READ 0 fs = 0"
    using init(3) by (auto simp: open_ends_def is_end_inactive filter_empty_conv)
  with open_ends_update [OF assms(2), of KERNEL_FILE_PIPE_READ 0 r]
    open_ends_update [of b "fs[a := r]" KERNEL_FILE_PIPE_READ 0 w] assms(3,4) ina ends res(3)
  show "open_ends KERNEL_FILE_PIPE_READ 0 (fs[a := r, b := w]) = 1" by (simp add: is_end_inactive)
qed

section \<open>Properties\<close>

text \<open>
  C13. In every system reached by opening, duplicating, closing and using files in any number of
  file slots, as long as no pipe has had more than 255 open ends of one kind, the reader and
  writer counts of a pipe are the numbers of open read and write ends, and a pipe slot is in use exactly while an end is open or its name is linked: pipes
  are neither leaked nor freed early.
\<close>

theorem pipe_counts_exact:
  assumes "pipe_sys_reachable (st, fs)" and "i < FILE_PIPE_MAX"
  shows "unat (readers (g_file_pipes st ! i)) = open_ends KERNEL_FILE_PIPE_READ i fs \<and>
         unat (writers (g_file_pipes st ! i)) = open_ends KERNEL_FILE_PIPE_WRITE i fs \<and>
         (pipe_used (g_file_pipes st ! i) \<longleftrightarrow>
            (\<exists>f \<in> set fs. is_end KERNEL_FILE_PIPE_READ i f \<or> is_end KERNEL_FILE_PIPE_WRITE i f) \<or>
            pipe_linked (g_file_pipes st ! i))"
proof -
  have "open_ends k i fs \<noteq> 0 \<longleftrightarrow> (\<exists>f \<in> set fs. is_end k i f)" for k
    by (auto simp: open_ends_def filter_empty_conv)
  with refs_invD(3-5) [OF pipe_sys_reachable_inv [OF assms(1)] assms(2)] show ?thesis
    by (auto simp: pipe_local_def simp flip: unat_eq_0)
qed

theorem pipe_counts_exact_witness:
  "pipe_sys_reachable (demo_opened, [demo_read_end, demo_write_end]) \<and>
   unat (readers (g_file_pipes demo_opened ! 0)) = open_ends KERNEL_FILE_PIPE_READ 0 [demo_read_end, demo_write_end]"
  using pipe_counts_exact [OF demo_sys_reachable, of 0] demo_sys_reachable by (simp add: FILE_PIPE_MAX_def)

text \<open>
  C14. In every system reached without any pipe having had more than 255 open ends of one kind, a read of a non-zero size from an open read end returns the oldest bytes, as many as
  asked for and available, and removes them; with no data it reports end of file exactly when
  no write end is open and asks to block otherwise, and then changes nothing.
\<close>

theorem pipe_read_result:
  assumes "pipe_sys_reachable (st, fs)" and "a < length fs" and "is_end KERNEL_FILE_PIPE_READ i (fs ! a)"
    and "sz \<noteq> 0" and "file_pipe_read st (fs ! a) sz = (rc, out, st')"
  shows "if pipe_data (g_file_pipes st ! i) = [] then
           out = [] \<and> st' = st \<and>
           rc = (if open_ends KERNEL_FILE_PIPE_WRITE i fs = 0 then 0 else - 11)
         else
           out = take (unat sz) (pipe_data (g_file_pipes st ! i)) \<and> out \<noteq> [] \<and> rc = int (length out) \<and>
           pipe_data (g_file_pipes st' ! i) = drop (unat sz) (pipe_data (g_file_pipes st ! i))"
proof -
  have inv: "refs_inv (st, fs)" using assms(1) by (rule pipe_sys_reachable_inv)
  have "file_pipe_backend_is_kind KERNEL_FILE_PIPE_READ" by (simp add: file_pipe_backend_is_kind_def)
  note i = is_end_kind_bound [OF inv assms(2,3) this]
  have ok: "pipe_ok (g_file_pipes st ! i)" using refs_invD(3) [OF inv i(1)] by (simp add: pipe_local_def)
  have sz: "unat sz \<noteq> 0" using assms(4) by (simp add: unat_eq_0)
  show ?thesis
  proof (cases "pipe_data (g_file_pipes st ! i) = []")
    case True
    have "writers (g_file_pipes st ! i) = 0 \<longleftrightarrow> open_ends KERNEL_FILE_PIPE_WRITE i fs = 0"
      using refs_invD(5) [OF inv i(1)] by (simp flip: unat_eq_0)
    with True assms(4,5) i pipe_count_0_iff [of "g_file_pipes st ! i"] show ?thesis
      by (auto simp: file_pipe_read_def file_pipe_from_file_def Let_def file_consts split: if_splits)
  next
    case False
    with assms(4,5) i pipe_count_0_iff [of "g_file_pipes st ! i"] have "0 \<le> rc"
      by (auto simp: file_pipe_read_def file_pipe_from_file_def Let_def split: prod.splits)
    with False sz file_pipe_read_effect [OF ok i(2) assms(5)] refs_invD(1) [OF inv] i(1) show ?thesis by simp
  qed
qed

theorem pipe_read_result_witness:
  "file_pipe_read demo_opened demo_read_end 10 = (- 11, [], demo_opened)"
proof -
  have "pipe_data (g_file_pipes demo_opened ! 0) = []"
    by (simp flip: pipe_count_0_iff add: demo_opened_def pipe_put_def demo_state_def demo_pipe_def)
  moreover have "open_ends KERNEL_FILE_PIPE_WRITE 0 [demo_read_end, demo_write_end] = 1"
    by (simp add: open_ends_def demo_ends)
  ultimately show ?thesis
    using pipe_read_result [OF demo_sys_reachable, of 0 0 10 "fst (file_pipe_read demo_opened demo_read_end 10)"
        "fst (snd (file_pipe_read demo_opened demo_read_end 10))"
        "snd (snd (file_pipe_read demo_opened demo_read_end 10))"]
    by (simp add: demo_ends prod_eq_iff)
qed

text \<open>
  C15. In every system reached without any pipe having had more than 255 open ends of one kind, a write of a non-empty buffer to an open write end reports a broken pipe exactly when no
  read end is open; otherwise it asks to block exactly when the buffer is full, and else appends
  the longest prefix that fits and returns its length.
\<close>

theorem pipe_write_result:
  assumes "pipe_sys_reachable (st, fs)" and "a < length fs" and "is_end KERNEL_FILE_PIPE_WRITE i (fs ! a)"
    and "data \<noteq> []" and "file_pipe_write st (fs ! a) data = (rc, st')"
  shows "let old = pipe_data (g_file_pipes st ! i);
             n = min (length data) (65536 - length old)
         in if open_ends KERNEL_FILE_PIPE_READ i fs = 0 then rc = - 32 \<and> st' = st
            else if length old = 65536 then rc = - 11 \<and> st' = st
            else rc = int n \<and> 0 < n \<and> pipe_data (g_file_pipes st' ! i) = old @ take n data"
proof -
  have inv: "refs_inv (st, fs)" using assms(1) by (rule pipe_sys_reachable_inv)
  have "file_pipe_backend_is_kind KERNEL_FILE_PIPE_WRITE" by (simp add: file_pipe_backend_is_kind_def)
  note i = is_end_kind_bound [OF inv assms(2,3) this]
  let ?p = "g_file_pipes st ! i"
  have ok: "pipe_ok ?p" using refs_invD(3) [OF inv i(1)] by (simp add: pipe_local_def)
  note bound = pipe_ok_bound [OF ok]
  have r: "readers ?p = 0 \<longleftrightarrow> open_ends KERNEL_FILE_PIPE_READ i fs = 0"
    using refs_invD(4) [OF inv i(1)] by (simp flip: unat_eq_0)
  have ptr: "file_pipe_from_file (fs ! a) = Some i" using i(2) by (simp add: file_pipe_from_file_def)
  obtain n q where l: "file_pipe_write_loop data 0 ?p = (n, q)" by fastforce
  note q = file_pipe_write_loop_fifo [OF ok l]
  consider "readers ?p = 0" | "readers ?p \<noteq> 0" "length (pipe_data ?p) = 65536"
    | "readers ?p \<noteq> 0" "length (pipe_data ?p) < 65536"
    using bound by (fastforce simp: FILE_PIPE_BUFFER_SIZE_def)
  then show ?thesis
  proof cases
    case 3
    then have "n = min (length data) (65536 - length (pipe_data ?p))" "0 < n"
      using q assms(4) by (auto simp: FILE_PIPE_BUFFER_SIZE_def)
    moreover from 3 have "\<not> FILE_PIPE_BUFFER_SIZE \<le> unat (pipe_count ?p)"
      by (simp add: FILE_PIPE_BUFFER_SIZE_def flip: length_pipe_data)
    with 3 assms(4,5) ptr l \<open>0 < n\<close> have "rc = int n \<and> st' = process_wake_call i KERNEL_FILE_PIPE_READ (pipe_put i q st)"
      by (simp add: file_pipe_write_def Let_def)
    ultimately show ?thesis
      using q 3 r refs_invD(1) [OF inv] i(1) by (simp add: Let_def pipe_put_nth)
  qed (use assms(4,5) ptr r in \<open>auto simp: file_pipe_write_def Let_def file_consts FILE_PIPE_BUFFER_SIZE_def
        simp flip: length_pipe_data\<close>)
qed

theorem pipe_write_result_witness:
  "fst (file_pipe_write demo_opened demo_write_end [1, 2, 3]) = 3 \<and>
   pipe_data (g_file_pipes (snd (file_pipe_write demo_opened demo_write_end [1, 2, 3])) ! 0) = [1, 2, 3]"
proof -
  have "pipe_data (g_file_pipes demo_opened ! 0) = []"
    by (simp flip: pipe_count_0_iff add: demo_opened_def pipe_put_def demo_state_def demo_pipe_def)
  moreover have "open_ends KERNEL_FILE_PIPE_READ 0 [demo_read_end, demo_write_end] = 1"
    by (simp add: open_ends_def demo_ends)
  ultimately show ?thesis
    using pipe_write_result [OF demo_sys_reachable, of 1 0 "[1, 2, 3]"
        "fst (file_pipe_write demo_opened demo_write_end [1, 2, 3])"
        "snd (file_pipe_write demo_opened demo_write_end [1, 2, 3])"]
    by (simp add: demo_ends)
qed

text \<open>
  C16. In every system reached without any pipe having had more than 255 open ends of one kind, a
  pipe is a reliable byte stream: over any sequence of reads and writes on its two ends,
  the bytes returned by the reads, followed by what is left in the buffer, are the bytes that were
  in the buffer followed by those the writes accepted, in the same order.
\<close>

theorem pipe_stream_integrity:
  assumes "pipe_sys_reachable (st, fs)" and "r \<in> set fs" and "w \<in> set fs"
    and "is_end KERNEL_FILE_PIPE_READ i r" and "is_end KERNEL_FILE_PIPE_WRITE i w"
    and "run_transfers r w ts st = (got, sent, st')"
  shows "got @ pipe_data (g_file_pipes st' ! i) = pipe_data (g_file_pipes st ! i) @ sent"
proof -
  have inv: "refs_inv (st, fs)" using assms(1) by (rule pipe_sys_reachable_inv)
  from assms(2,4) obtain a where "a < length fs" "is_end KERNEL_FILE_PIPE_READ i (fs ! a)"
    by (auto simp: in_set_conv_nth)
  from is_end_kind_bound(1) [OF inv this] have i: "i < FILE_PIPE_MAX" by (simp add: file_pipe_backend_is_kind_def)
  with refs_invD(1,3) [OF inv] assms(4-6) show ?thesis
    by (intro run_transfers_stream) (auto simp: pipe_local_def is_end_def)
qed

theorem pipe_stream_integrity_witness:
  "let (got, sent, st') = run_transfers demo_read_end demo_write_end [Wr [1, 2, 3], Rd 2, Wr [4]] demo_opened
   in got @ pipe_data (g_file_pipes st' ! 0) = sent"
proof -
  obtain got sent st' where run:
    "run_transfers demo_read_end demo_write_end [Wr [1, 2, 3], Rd 2, Wr [4]] demo_opened = (got, sent, st')"
    by (metis prod_cases3)
  have "pipe_data (g_file_pipes demo_opened ! 0) = []"
    by (simp flip: pipe_count_0_iff add: demo_opened_def pipe_put_def demo_state_def demo_pipe_def)
  with pipe_stream_integrity [OF demo_sys_reachable _ _ _ _ run, of 0]
  have "got @ pipe_data (g_file_pipes st' ! 0) = sent" by (simp add: demo_ends)
  then show ?thesis by (simp only: run Let_def prod.case)
qed

text \<open>
  C17. No wake-up is lost in a system where no pipe has, or has had, more than 255 open ends of
  one kind: whenever an operation ends the state in which a read end (or a write
  end) of a pipe would block, while such an end is still open, \<^verbatim>\<open>process_wake_file_waiters\<close> is
  called for that pipe and that kind of end during the operation.
\<close>

theorem pipe_no_lost_wakeup:
  assumes "pipe_sys_reachable (st, fs)" and "pipe_sys_step (st, fs) (st', fs')" and "i < FILE_PIPE_MAX"
    and "ends_fit fs'"
  shows "(read_blocked (g_file_pipes st ! i) \<and> \<not> read_blocked (g_file_pipes st' ! i) \<and>
          0 < open_ends KERNEL_FILE_PIPE_READ i fs' \<longrightarrow> (i, KERNEL_FILE_PIPE_READ) \<in> new_wakes st st') \<and>
         (write_blocked (g_file_pipes st ! i) \<and> \<not> write_blocked (g_file_pipes st' ! i) \<and>
          0 < open_ends KERNEL_FILE_PIPE_WRITE i fs' \<longrightarrow> (i, KERNEL_FILE_PIPE_WRITE) \<in> new_wakes st st')"
proof -
  have inv: "refs_inv (st, fs)" using assms(1) by (rule pipe_sys_reachable_inv)
  have inv': "refs_inv (st', fs')" using pipe_sys_step_inv [OF assms(2) inv] assms(4) by simp
  have "0 < open_ends KERNEL_FILE_PIPE_READ i fs' \<Longrightarrow> readers (g_file_pipes st' ! i) \<noteq> 0"
    "0 < open_ends KERNEL_FILE_PIPE_WRITE i fs' \<Longrightarrow> writers (g_file_pipes st' ! i) \<noteq> 0"
    using refs_invD(4,5) [OF inv' assms(3)] by auto
  with pipe_sys_step_wakes [OF assms(2) inv assms(3,4)] show ?thesis
    by (auto simp: wakes_waiters_def Let_def)
qed

theorem pipe_no_lost_wakeup_witness:
  "\<exists>st'. pipe_sys_step (demo_opened, [demo_read_end, demo_write_end]) (st', [demo_read_end, demo_write_end]) \<and>
     read_blocked (g_file_pipes demo_opened ! 0) \<and> \<not> read_blocked (g_file_pipes st' ! 0) \<and>
     (0, KERNEL_FILE_PIPE_READ) \<in> new_wakes demo_opened st'"
proof -
  define st' where "st' = snd (file_pipe_write demo_opened demo_write_end [7])"
  have opened: "g_file_pipes demo_opened ! 0 = demo_pipe\<lparr>pipe_used := True, readers := 1, writers := 1\<rparr>"
    by (simp add: demo_opened_def pipe_put_def demo_state_def)
  have step: "pipe_sys_step (demo_opened, [demo_read_end, demo_write_end]) (st', [demo_read_end, demo_write_end])"
    by (rule sys_write [of 1 _ 0 _ "[7]" "fst (file_pipe_write demo_opened demo_write_end [7])"])
      (simp_all add: demo_ends st'_def)
  have blocked: "read_blocked (g_file_pipes demo_opened ! 0)"
    by (simp add: read_blocked_def opened demo_pipe_def)
  have ptr: "file_pipe_from_file demo_write_end = Some 0"
    by (simp add: demo_write_end_def file_pipe_from_file_def file_or_flags_def file_pipe_init_end_def)
  have "\<not> read_blocked (g_file_pipes st' ! 0)"
    unfolding st'_def file_pipe_write_def ptr option.case opened
    by (simp add: Let_def pipe_put_nth demo_pipe_def FILE_PIPE_BUFFER_SIZE_def file_pipe_put_byte_def read_blocked_def)
      (simp add: pipe_put_def demo_opened_def demo_state_def)
  with pipe_no_lost_wakeup [OF demo_sys_reachable step, of 0] ends_fit_small step blocked show ?thesis
    by (auto simp: FILE_PIPE_MAX_def open_ends_def demo_ends)
qed

text \<open>
  C18. The end counts are single bytes without an overflow check: open a pipe in a system of at
  least 257 file slots (the kernel has 32 processes with 16 descriptors each) and duplicate its
  read end 255 times. Then 256 read ends are open and the reader count is 0, and every write of a
  non-empty buffer to the open write end reports a broken pipe.
\<close>

theorem pipe_reader_count_wraps:
  assumes "pipe_sys_initial (st0, fs0)" and "257 \<le> length fs0"
    and "file_init_pipe_pair st0 (fs0 ! 0) (fs0 ! 1) = (ok, st1, r, w)"
    and "duplicate_into 0 [2..<257] (st1, fs0[0 := r, 1 := w]) = (st, fs)"
  shows "ok \<and> pipe_sys_step\<^sup>*\<^sup>* (st0, fs0) (st, fs) \<and>
    (\<exists>i < FILE_PIPE_MAX. is_end KERNEL_FILE_PIPE_WRITE i (fs ! 1) \<and> open_ends KERNEL_FILE_PIPE_READ i fs = 256 \<and>
       readers (g_file_pipes st ! i) = 0 \<and> (\<forall>data. data \<noteq> [] \<longrightarrow> file_pipe_write st (fs ! 1) data = (- 32, st)))"
proof -
  have len: "0 < length fs0" "1 < length fs0" using assms(2) by linarith+
  note fresh = fresh_pair [OF assms(1) len zero_neq_one assms(3)]
  let ?fs = "fs0[0 := r, 1 := w]"
  define as where "as = [2..<257 :: nat]"
  have as: "set as = {2..<257}" "length as = 255" "distinct as" unfolding as_def by (simp_all only: set_upt length_upt distinct_upt)
  have ina: "\<not> file_is_active (?fs ! a)" if "a \<in> set as" for a
    using that assms(1,2) by (auto simp: pipe_sys_initial_def nth_list_update as(1))
  have "pipe_sys_step\<^sup>*\<^sup>* (st1, ?fs) (st, fs) \<and>
    readers (g_file_pipes st ! 0) = readers (g_file_pipes st1 ! 0) + of_nat (length as) \<and>
    open_ends KERNEL_FILE_PIPE_READ 0 fs = open_ends KERNEL_FILE_PIPE_READ 0 ?fs + length as \<and>
    (\<forall>c. c \<notin> set as \<longrightarrow> fs ! c = ?fs ! c)"
    by (rule duplicate_into_reads [OF assms(4) [folded as_def]])
      (use fresh len assms(2) ina in \<open>auto simp: as FILE_PIPE_MAX_def\<close>)
  then have dup: "pipe_sys_step\<^sup>*\<^sup>* (st1, ?fs) (st, fs)" "readers (g_file_pipes st ! 0) = 0"
    "open_ends KERNEL_FILE_PIPE_READ 0 fs = 256" "fs ! 1 = w"
    using fresh(5,7) as len by simp_all
  have "file_pipe_write st w data = (- 32, st)" if "data \<noteq> []" for data
    using that fresh(3) dup(2) by (simp add: file_pipe_write_def file_pipe_from_file_def is_end_def Let_def file_consts)
  with fresh(3) dup(2-4)
  have "0 < FILE_PIPE_MAX \<and> is_end KERNEL_FILE_PIPE_WRITE 0 (fs ! 1) \<and> open_ends KERNEL_FILE_PIPE_READ 0 fs = 256 \<and>
    readers (g_file_pipes st ! 0) = 0 \<and> (\<forall>data. data \<noteq> [] \<longrightarrow> file_pipe_write st (fs ! 1) data = (- 32, st))"
    by (simp add: FILE_PIPE_MAX_def)
  with fresh(1) converse_rtranclp_into_rtranclp [OF fresh(2) dup(1)] show ?thesis by blast
qed

theorem pipe_reader_count_wraps_witness:
  "\<exists>st fs. pipe_sys_step\<^sup>*\<^sup>* (demo_state, replicate 512 demo_file) (st, fs) \<and>
     (\<exists>i. open_ends KERNEL_FILE_PIPE_READ i fs = 256 \<and> file_pipe_write st (fs ! 1) [1] = (- 32, st))"
proof -
  let ?fs = "replicate 512 demo_file"
  obtain ok st1 r w where pr: "file_init_pipe_pair demo_state (?fs ! 0) (?fs ! 1) = (ok, st1, r, w)"
    by (metis prod_cases4)
  obtain st fs where dup: "duplicate_into 0 [2..<257] (st1, ?fs[0 := r, 1 := w]) = (st, fs)" by fastforce
  have "pipe_sys_initial (demo_state, ?fs)" by (rule demo_initial)
  note wraps = pipe_reader_count_wraps [OF this _ pr dup]
  have "257 \<le> length ?fs" by (simp only: length_replicate)
  from wraps [OF this] show ?thesis by blast
qed

text \<open>
  C19. Opening a pipe pair takes the two lowest free descriptors from \<^verbatim>\<open>start_index\<close> on, makes
  the first the read end and the second the write end of one pipe, both closed on spawn, and
  leaves every other descriptor alone. It fails only when every pipe is in use or fewer than two
  descriptors are free, and then nothing has changed.
\<close>

theorem file_table_open_pipe_pair_spec:
  "case file_table_open_pipe_pair st table start of
     (None, st', table') \<Rightarrow>
       st' = st \<and> table' = table \<and>
       (file_pipe_find_unused st = None \<or>
        \<not> (\<exists>a b. start \<le> a \<and> a < b \<and> b < length table \<and> \<not> file_is_active (table ! a) \<and> \<not> file_is_active (table ! b)))
   | (Some (r, w), st', table') \<Rightarrow>
       start \<le> r \<and> r < w \<and> w < length table \<and> \<not> file_is_active (table ! r) \<and> \<not> file_is_active (table ! w) \<and>
       (\<forall>fd. start \<le> fd \<and> fd < w \<and> fd \<noteq> r \<longrightarrow> file_is_active (table ! fd)) \<and>
       length table' = length table \<and> (\<forall>fd. fd \<noteq> r \<and> fd \<noteq> w \<longrightarrow> table' ! fd = table ! fd) \<and>
       (\<exists>i. is_end KERNEL_FILE_PIPE_READ i (table' ! r) \<and> is_end KERNEL_FILE_PIPE_WRITE i (table' ! w)) \<and>
       file_flags (table' ! r) AND KERNEL_FILE_CLOSE_ON_SPAWN \<noteq> 0 \<and>
       file_flags (table' ! w) AND KERNEL_FILE_CLOSE_ON_SPAWN \<noteq> 0"
proof (cases "file_table_alloc table start")
  case None
  then have "\<not> (\<exists>a. start \<le> a \<and> a < length table \<and> \<not> file_is_active (table ! a))"
    by (auto simp: file_table_alloc_def first_index_None_iff split: if_splits)
  with None show ?thesis by (auto simp: file_table_open_pipe_pair_def)
next
  case (Some r)
  note r = Some [unfolded file_table_alloc_Some]
  show ?thesis
  proof (cases "\<exists>w. file_table_pipe_write_fd table r (Some r) = Some w \<and> w \<noteq> r")
    case False
    then have "\<not> (\<exists>a b. start \<le> a \<and> a < b \<and> b < length table \<and> \<not> file_is_active (table ! a) \<and>
                        \<not> file_is_active (table ! b))"
      using r pipe_write_fd_free [of r _ table] by (metis order.strict_trans1 not_le order.strict_trans2 linorder_neqE_nat)
    with False Some show ?thesis by (auto simp: file_table_open_pipe_pair_def split: option.split)
  next
    case True
    then obtain w where w: "file_table_pipe_write_fd table r (Some r) = Some w" "w \<noteq> r" by blast
    then have w': "r < w" "w < length table" "\<not> file_is_active (table ! w)"
      "\<forall>j. r < j \<and> j < w \<longrightarrow> file_is_active (table ! j)"
      using pipe_write_fd_Some [of table r w] by auto
    have lows: "\<forall>fd. start \<le> fd \<and> fd < w \<and> fd \<noteq> r \<longrightarrow> file_is_active (table ! fd)"
      using r w'(4) by (metis nat_neq_iff)
    have cos: "file_flags (file_or_flags KERNEL_FILE_CLOSE_ON_SPAWN f) AND KERNEL_FILE_CLOSE_ON_SPAWN \<noteq> 0" for f
      by (simp add: file_or_flags_def file_consts bit.conj_disj_distrib2)
    show ?thesis
    proof (cases "file_pipe_find_unused st")
      case None
      with Some r w w' show ?thesis
        by (simp add: file_table_open_pipe_pair_def init_pair_result file_discard_def)
    next
      case (Some i)
      with \<open>file_table_alloc table start = Some r\<close> r w w' lows cos show ?thesis
        by (simp add: file_table_open_pipe_pair_def init_pair_result)
    qed
  qed
qed

theorem file_table_open_pipe_pair_spec_witness:
  "fst (file_table_open_pipe_pair demo_state [demo_file, demo_file] 0) = Some (0, 1) \<and>
   (\<exists>i. is_end KERNEL_FILE_PIPE_READ i (snd (snd (file_table_open_pipe_pair demo_state [demo_file, demo_file] 0)) ! 0) \<and>
        is_end KERNEL_FILE_PIPE_WRITE i (snd (snd (file_table_open_pipe_pair demo_state [demo_file, demo_file] 0)) ! 1))"
proof -
  let ?res = "file_table_open_pipe_pair demo_state [demo_file, demo_file] 0"
  have "\<not> file_is_active demo_file" by (simp add: demo_file_def file_is_active_def)
  then have "fst ?res = Some (0, 1)"
    by (simp add: file_table_open_pipe_pair_def file_table_alloc_def file_table_pipe_write_fd_def demo_init_pair)
  moreover obtain st' table' where "?res = (fst ?res, st', table')" by (metis prod.collapse)
  ultimately show ?thesis
    using file_table_open_pipe_pair_spec [of demo_state "[demo_file, demo_file]" 0] by auto
qed

end
