(* ===== verification/Process_Model.thy ===== *)
theory Process_Model
  imports File_Table
begin

text \<open>
  Processes (\<^verbatim>\<open>struct process\<close>, \<^verbatim>\<open>kernel/internal/proc/process_types_internal.h\<close>) and the operations
  of \<^verbatim>\<open>kernel/proc/process_model.c\<close> and \<^verbatim>\<open>kernel/proc/process_context.c\<close>. An array of process pointers is a list of optional processes;
  distinct slots point to distinct processes. The \<^verbatim>\<open>name\<close> pointer is null or points to
  \<^verbatim>\<open>name_storage\<close>; \<^verbatim>\<open>address_space\<close> is the identity of the structure it points to.
\<close>

section \<open>Types\<close>

datatype process_state =
  PROCESS_STATE_FREE | PROCESS_STATE_READY | PROCESS_STATE_RUNNING | PROCESS_STATE_SLEEPING
| PROCESS_STATE_STOPPED | PROCESS_STATE_EXITED | PROCESS_STATE_WAITING

datatype process_image_kind = PROCESS_IMAGE_NONE | PROCESS_IMAGE_ELF

datatype name_ptr = NameNull | NameStorage

record process_identity_context =
  id_uid :: u32
  id_gid :: u32
  id_caps :: u32

record process_context =
  ctx_registers :: "u64 list"
  ctx_instruction_pointer :: u64
  ctx_stack_pointer :: u64
  ctx_flags :: u64
  ctx_code_selector :: u16
  ctx_stack_selector :: u16
  ctx_user_mode :: bool

record syscall_frame =
  frame_rax :: u64
  frame_regs :: "u64 list"
  frame_instruction_pointer :: u64
  frame_cs :: u64
  frame_rflags :: u64
  frame_stack_pointer :: u64
  frame_ss :: u64

record process =
  proc_pid :: u32
  proc_slot :: u32
  proc_state :: process_state
  proc_exit_code :: "32 word"
  has_saved_frame :: bool
  stop_pending :: bool
  wake_tick :: u32
  parent_pid :: u32
  wait_pid :: u32
  wait_info_user :: u64
  proc_caps :: u32
  next_spawn_caps :: u32
  next_spawn_caps_set :: bool
  proc_uid :: u32
  proc_gid :: u32
  identity_depth :: nat
  identity_stack :: "process_identity_context list"
  proc_name :: name_ptr
  name_storage :: string
  cwd_storage :: string
  image_kind :: process_image_kind
  proc_entry :: u64
  proc_stack_top :: u64
  console_handle :: private_ptr
  proc_files :: "kfile list"
  proc_address_space :: "nat option"
  proc_context :: process_context
  saved_frame :: syscall_frame

definition PROCESS_FILE_MAX :: nat where "PROCESS_FILE_MAX = 16"
definition PROCESS_IDENTITY_STACK_MAX :: nat where "PROCESS_IDENTITY_STACK_MAX = 8"
definition PROCESS_CONTEXT_REGISTER_COUNT :: nat where "PROCESS_CONTEXT_REGISTER_COUNT = 8"
definition PROCESS_CONTEXT_RETURN :: nat where "PROCESS_CONTEXT_RETURN = 0"
definition PROCESS_CAP_SYS_ADMIN :: u32 where "PROCESS_CAP_SYS_ADMIN = 0x7ff"
definition NOS_NAME_BUFFER_SIZE :: nat where "NOS_NAME_BUFFER_SIZE = 256"
definition SYS_FD_STDIN :: nat where "SYS_FD_STDIN = 0"
definition SYS_FD_STDOUT :: nat where "SYS_FD_STDOUT = 1"
definition SYS_FD_STDERR :: nat where "SYS_FD_STDERR = 2"

section \<open>Context\<close>

definition process_context_reset :: "process_context \<Rightarrow> process_context" where
  "process_context_reset ctx =
     ctx\<lparr>ctx_registers := replicate PROCESS_CONTEXT_REGISTER_COUNT 0, ctx_instruction_pointer := 0,
         ctx_stack_pointer := 0, ctx_flags := 0, ctx_code_selector := 0, ctx_stack_selector := 0,
         ctx_user_mode := False\<rparr>"

definition process_context_set_return_value :: "process_context \<Rightarrow> u64 \<Rightarrow> process_context" where
  "process_context_set_return_value ctx v =
     ctx\<lparr>ctx_registers := (ctx_registers ctx)[PROCESS_CONTEXT_RETURN := v]\<rparr>"

definition process_context_return_value :: "process_context \<Rightarrow> u64" where
  "process_context_return_value ctx = ctx_registers ctx ! PROCESS_CONTEXT_RETURN"

section \<open>Reset, capabilities and identity\<close>

definition process_model_reset_file :: "kfile \<Rightarrow> kfile" where
  "process_model_reset_file f =
     f\<lparr>file_kind := KERNEL_FILE_NONE, file_flags := 0, file_offset := 0, dir_index := 0,
       opened_path := [], private_data := NullPtr, file_ops_ptr := OpsNull\<rparr>"

definition process_model_reset :: "process \<Rightarrow> u32 \<Rightarrow> process_state \<Rightarrow> process" where
  "process_model_reset proc slot st =
     proc\<lparr>proc_pid := 0, proc_slot := slot, proc_state := st, proc_exit_code := 0,
          has_saved_frame := False, stop_pending := False, wake_tick := 0, parent_pid := 0,
          wait_pid := 0, wait_info_user := 0, proc_caps := 0, next_spawn_caps := 0,
          next_spawn_caps_set := False, proc_uid := 0, proc_gid := 0, identity_depth := 0,
          identity_stack := replicate PROCESS_IDENTITY_STACK_MAX \<lparr>id_uid = 0, id_gid = 0, id_caps = 0\<rparr>,
          proc_name := NameNull, name_storage := [], cwd_storage := ''/'',
          image_kind := PROCESS_IMAGE_NONE, proc_entry := 0, proc_stack_top := 0,
          console_handle := NullPtr, proc_address_space := None,
          proc_context := process_context_reset (proc_context proc),
          proc_files := map process_model_reset_file (proc_files proc)\<rparr>"

definition process_capabilities :: "process option \<Rightarrow> u32" where
  "process_capabilities proc =
     (case proc of None \<Rightarrow> 0
      | Some p \<Rightarrow> if proc_uid p = 0 then PROCESS_CAP_SYS_ADMIN else proc_caps p)"

definition process_set_capabilities :: "process \<Rightarrow> u32 \<Rightarrow> process" where
  "process_set_capabilities proc caps = proc\<lparr>proc_caps := caps AND PROCESS_CAP_SYS_ADMIN\<rparr>"

definition process_has_capability :: "process option \<Rightarrow> u32 \<Rightarrow> bool" where
  "process_has_capability proc cap =
     (case proc of None \<Rightarrow> False
      | Some p \<Rightarrow> if cap = 0 then False
                  else if proc_uid p = 0 then cap AND PROCESS_CAP_SYS_ADMIN = cap
                  else proc_caps p AND cap = cap)"

definition process_uid :: "process option \<Rightarrow> u32" where
  "process_uid proc = (case proc of None \<Rightarrow> 0 | Some p \<Rightarrow> proc_uid p)"

definition process_gid :: "process option \<Rightarrow> u32" where
  "process_gid proc = (case proc of None \<Rightarrow> 0 | Some p \<Rightarrow> proc_gid p)"

definition process_set_identity :: "process \<Rightarrow> u32 \<Rightarrow> u32 \<Rightarrow> process" where
  "process_set_identity proc uid gid = proc\<lparr>proc_uid := uid, proc_gid := gid\<rparr>"

definition process_identity_push :: "process \<Rightarrow> bool \<times> process" where
  "process_identity_push proc =
     (if identity_depth proc \<ge> PROCESS_IDENTITY_STACK_MAX then (False, proc)
      else (True, proc\<lparr>identity_stack := (identity_stack proc)
                         [identity_depth proc := \<lparr>id_uid = proc_uid proc, id_gid = proc_gid proc,
                                                  id_caps = proc_caps proc\<rparr>],
                       identity_depth := identity_depth proc + 1\<rparr>))"

definition process_identity_pop :: "process \<Rightarrow> bool \<times> process" where
  "process_identity_pop proc =
     (if identity_depth proc = 0 then (False, proc)
      else
        (let saved = identity_stack proc ! (identity_depth proc - 1)
         in (True, proc\<lparr>identity_depth := identity_depth proc - 1,
                        proc_uid := id_uid saved, proc_gid := id_gid saved, proc_caps := id_caps saved,
                        identity_stack := (identity_stack proc)
                          [identity_depth proc - 1 := \<lparr>id_uid = 0, id_gid = 0, id_caps = 0\<rparr>]\<rparr>)))"

definition process_inherit_identity :: "process \<Rightarrow> process option \<Rightarrow> process" where
  "process_inherit_identity proc parent =
     (case parent of
        None \<Rightarrow> process_set_identity proc 0 0
      | Some q \<Rightarrow> process_set_identity proc (process_uid parent) (process_gid parent))"

definition process_next_spawn_capabilities :: "process option \<Rightarrow> u32 \<Rightarrow> u32" where
  "process_next_spawn_capabilities proc fallback =
     (case proc of None \<Rightarrow> fallback | Some p \<Rightarrow> if next_spawn_caps_set p then next_spawn_caps p else fallback)"

definition process_next_spawn_capabilities_enabled :: "process option \<Rightarrow> bool" where
  "process_next_spawn_capabilities_enabled proc = (case proc of None \<Rightarrow> False | Some p \<Rightarrow> next_spawn_caps_set p)"

definition process_set_next_spawn_capabilities :: "process \<Rightarrow> u32 \<Rightarrow> process" where
  "process_set_next_spawn_capabilities proc caps =
     proc\<lparr>next_spawn_caps := caps AND PROCESS_CAP_SYS_ADMIN, next_spawn_caps_set := True\<rparr>"

definition process_clear_next_spawn_capabilities :: "process \<Rightarrow> process" where
  "process_clear_next_spawn_capabilities proc = proc\<lparr>next_spawn_caps := 0, next_spawn_caps_set := False\<rparr>"

section \<open>Names and snapshots\<close>

definition process_set_name :: "process \<Rightarrow> string option \<Rightarrow> process" where
  "process_set_name proc name =
     (case name of
        None \<Rightarrow> proc\<lparr>name_storage := [], proc_name := NameNull\<rparr>
      | Some n \<Rightarrow> proc\<lparr>name_storage := take (NOS_NAME_BUFFER_SIZE - 1) n, proc_name := NameStorage\<rparr>)"

definition process_refresh_name_ptr :: "process \<Rightarrow> process" where
  "process_refresh_name_ptr proc =
     proc\<lparr>proc_name := (if name_storage proc \<noteq> [] then NameStorage else NameNull)\<rparr>"

record process_snapshot =
  snap_pid :: u32
  snap_slot :: u32
  snap_state :: process_state
  snap_exit_code :: "32 word"
  snap_wake_tick :: u32
  snap_image_kind :: process_image_kind
  snap_caps :: u32
  snap_uid :: u32
  snap_gid :: u32
  snap_name :: string

definition process_snapshot_fill :: "process option \<Rightarrow> process_snapshot" where
  "process_snapshot_fill proc =
     (case proc of
        None \<Rightarrow>
          \<lparr>snap_pid = 0, snap_slot = 0, snap_state = PROCESS_STATE_FREE, snap_exit_code = 0, snap_wake_tick = 0,
           snap_image_kind = PROCESS_IMAGE_NONE, snap_caps = 0, snap_uid = 0, snap_gid = 0, snap_name = []\<rparr>
      | Some p \<Rightarrow>
          \<lparr>snap_pid = proc_pid p, snap_slot = proc_slot p, snap_state = proc_state p,
           snap_exit_code = proc_exit_code p, snap_wake_tick = wake_tick p, snap_image_kind = image_kind p,
           snap_caps = process_capabilities proc, snap_uid = process_uid proc, snap_gid = process_gid proc,
           snap_name = take (NOS_NAME_BUFFER_SIZE - 1) (name_storage p)\<rparr>)"

section \<open>Waiting and waking\<close>

definition process_lifecycle_child_matches_wait :: "process option \<Rightarrow> u32 \<Rightarrow> u32 \<Rightarrow> u32 \<Rightarrow> u32 \<Rightarrow> bool" where
  "process_lifecycle_child_matches_wait child child_parent_pid waiter_pid requested_pid wait_last_pid =
     (case child of
        None \<Rightarrow> False
      | Some c \<Rightarrow> if child_parent_pid \<noteq> waiter_pid then False
                  else requested_pid = wait_last_pid \<or> proc_pid c = requested_pid)"

definition process_lifecycle_prepare_wait :: "process \<Rightarrow> process" where
  "process_lifecycle_prepare_wait waiter = waiter\<lparr>proc_state := PROCESS_STATE_WAITING\<rparr>"

definition process_lifecycle_clear_wait :: "process \<Rightarrow> process" where
  "process_lifecycle_clear_wait waiter = waiter\<lparr>wait_pid := 0, wait_info_user := 0\<rparr>"

definition process_lifecycle_waiter_matches_exit :: "process option \<Rightarrow> u32 \<Rightarrow> u32 \<Rightarrow> bool" where
  "process_lifecycle_waiter_matches_exit waiter waiter_wait_pid exited_pid =
     (case waiter of
        None \<Rightarrow> False
      | Some w \<Rightarrow> if proc_state w \<noteq> PROCESS_STATE_WAITING then False
                  else waiter_wait_pid = 0 \<or> waiter_wait_pid = exited_pid)"

definition process_lifecycle_finish_wait :: "process \<Rightarrow> 32 word \<Rightarrow> process" where
  "process_lifecycle_finish_wait waiter exit_code =
     waiter\<lparr>proc_context := process_context_set_return_value (proc_context waiter) (ucast exit_code),
            proc_state := PROCESS_STATE_READY\<rparr>"

definition process_lifecycle_wake_file_waiter ::
    "process \<Rightarrow> private_ptr \<Rightarrow> kernel_file_kind \<Rightarrow> bool \<times> process" where
  "process_lifecycle_wake_file_waiter proc ptr k =
     (if proc_state proc \<noteq> PROCESS_STATE_WAITING \<or> ptr = NullPtr then (False, proc)
      else case first_index (\<lambda>fd. file_is_active (proc_files proc ! fd) \<and> file_kind (proc_files proc ! fd) = k \<and>
                                  private_data (proc_files proc ! fd) = ptr) 0 PROCESS_FILE_MAX of
        Some fd \<Rightarrow> (True, proc\<lparr>proc_state := PROCESS_STATE_READY\<rparr>)
      | None \<Rightarrow> (False, proc))"

definition process_lifecycle_can_signal_child :: "process option \<Rightarrow> u32 \<Rightarrow> u32 \<Rightarrow> u32 \<Rightarrow> bool" where
  "process_lifecycle_can_signal_child child child_parent_pid caller_pid target_pid =
     (case child of
        None \<Rightarrow> False
      | Some c \<Rightarrow> proc_pid c = target_pid \<and> child_parent_pid = caller_pid \<and>
                  proc_state c \<noteq> PROCESS_STATE_FREE \<and> proc_state c \<noteq> PROCESS_STATE_EXITED)"

definition process_lifecycle_find_wait_child ::
    "process option list \<Rightarrow> u32 \<Rightarrow> u32 \<Rightarrow> u32 \<Rightarrow> (nat \<times> bool) option" where
  "process_lifecycle_find_wait_child slots waiter_pid requested_pid wait_last_pid =
     (if waiter_pid = 0 then None
      else
        map_option (\<lambda>slot. (slot, proc_state (the (slots ! slot)) = PROCESS_STATE_EXITED))
          (first_index (\<lambda>slot.
             process_lifecycle_child_matches_wait (slots ! slot)
               (case slots ! slot of None \<Rightarrow> 0 | Some c \<Rightarrow> parent_pid c) waiter_pid requested_pid wait_last_pid \<and>
             \<not> (requested_pid = wait_last_pid \<and> proc_state (the (slots ! slot)) \<noteq> PROCESS_STATE_EXITED))
             0 (length slots)))"

definition process_lifecycle_find_pid_slot :: "process option list \<Rightarrow> u32 \<Rightarrow> nat option" where
  "process_lifecycle_find_pid_slot slots pid =
     (if pid = 0 then None
      else first_index (\<lambda>slot. case slots ! slot of
             None \<Rightarrow> False
           | Some p \<Rightarrow> proc_pid p = pid \<and> proc_state p \<noteq> PROCESS_STATE_FREE) 0 (length slots))"

definition process_lifecycle_collect_exited_child ::
    "process option \<Rightarrow> (32 word \<times> process_snapshot) option" where
  "process_lifecycle_collect_exited_child child =
     (case child of
        None \<Rightarrow> None
      | Some c \<Rightarrow> if proc_state c \<noteq> PROCESS_STATE_EXITED then None
                  else Some (proc_exit_code c, process_snapshot_fill child))"

definition process_lifecycle_pid_active :: "process option list \<Rightarrow> u32 \<Rightarrow> bool" where
  "process_lifecycle_pid_active slots pid =
     (if pid = 0 then False
      else first_index (\<lambda>slot. case slots ! slot of
             None \<Rightarrow> False
           | Some p \<Rightarrow> proc_pid p = pid \<and> proc_state p \<noteq> PROCESS_STATE_FREE \<and>
                       proc_state p \<noteq> PROCESS_STATE_EXITED) 0 (length slots) \<noteq> None)"

text \<open>\<^verbatim>\<open>reap_slot\<close> is the callback of the caller: it acts on the slots.\<close>

primrec process_lifecycle_reap_from ::
    "nat \<Rightarrow> nat \<Rightarrow> (nat \<Rightarrow> process option list \<Rightarrow> process option list) \<Rightarrow> process option list \<Rightarrow>
     process option list" where
  "process_lifecycle_reap_from 0 slot reap_slot slots = slots"
| "process_lifecycle_reap_from (Suc n) slot reap_slot slots =
     process_lifecycle_reap_from n (Suc slot) reap_slot
       (case slots ! slot of
          None \<Rightarrow> slots
        | Some p \<Rightarrow>
            if proc_state p = PROCESS_STATE_EXITED \<and> \<not> process_lifecycle_pid_active slots (parent_pid p)
            then reap_slot slot slots else slots)"

definition process_lifecycle_reap_orphan_zombies ::
    "process option list \<Rightarrow> (nat \<Rightarrow> process option list \<Rightarrow> process option list) \<Rightarrow> process option list" where
  "process_lifecycle_reap_orphan_zombies slots reap_slot =
     process_lifecycle_reap_from (length slots) 0 reap_slot slots"

text \<open>
  The result is the number of processes woken, the slots, and the slots for which
  \<^verbatim>\<open>copy_wait_info\<close> was called.
\<close>

definition process_lifecycle_wake_one :: "u32 \<Rightarrow> 32 word \<Rightarrow> process option \<Rightarrow> process option" where
  "process_lifecycle_wake_one exited_pid exit_code p =
     (if process_lifecycle_waiter_matches_exit p (case p of None \<Rightarrow> 0 | Some w \<Rightarrow> wait_pid w) exited_pid
      then map_option (\<lambda>w. process_lifecycle_clear_wait (process_lifecycle_finish_wait w exit_code)) p
      else p)"

definition process_lifecycle_wake_exit_waiters ::
    "process option list \<Rightarrow> u32 \<Rightarrow> 32 word \<Rightarrow> nat \<times> process option list \<times> nat list" where
  "process_lifecycle_wake_exit_waiters slots exited_pid exit_code =
     (if exited_pid = 0 then (0, slots, [])
      else case first_index (\<lambda>slot. case slots ! slot of None \<Rightarrow> False | Some p \<Rightarrow> proc_pid p = exited_pid)
                  0 (length slots) of
        None \<Rightarrow> (0, slots, [])
      | Some _ \<Rightarrow>
          (let woken = filter (\<lambda>slot. process_lifecycle_waiter_matches_exit (slots ! slot)
                         (case slots ! slot of None \<Rightarrow> 0 | Some w \<Rightarrow> wait_pid w) exited_pid) [0..<length slots]
           in (length woken, map (process_lifecycle_wake_one exited_pid exit_code) slots, woken)))"

definition process_lifecycle_mark_exited_for_scheduler :: "process \<Rightarrow> 32 word \<Rightarrow> process" where
  "process_lifecycle_mark_exited_for_scheduler proc exit_code =
     proc\<lparr>proc_exit_code := exit_code, proc_state := PROCESS_STATE_EXITED, wake_tick := 0\<rparr>"

definition process_lifecycle_mark_exited_and_wake ::
    "nat \<Rightarrow> 32 word \<Rightarrow> bool \<Rightarrow> process option list \<Rightarrow> nat \<times> process option list \<times> nat list" where
  "process_lifecycle_mark_exited_and_wake slot exit_code clear_wait_state slots =
     (case slots ! slot of
        None \<Rightarrow> (0, slots, [])
      | Some proc \<Rightarrow>
          (let p1 = process_lifecycle_mark_exited_for_scheduler proc exit_code;
               p2 = (if clear_wait_state then process_lifecycle_clear_wait p1 else p1)
           in process_lifecycle_wake_exit_waiters (slots[slot := Some p2]) (proc_pid p2) exit_code))"

section \<open>File arrays\<close>

definition process_forget_file_array :: "kfile list \<Rightarrow> kfile list" where
  "process_forget_file_array files = map file_reset files"

primrec process_discard_file_array :: "pipe_state \<Rightarrow> kfile list \<Rightarrow> pipe_state \<times> kfile list" where
  "process_discard_file_array st [] = (st, [])"
| "process_discard_file_array st (f # files) =
     (let (st1, f1) = file_discard st f;
          (st2, fs) = process_discard_file_array st1 files
      in (st2, f1 # fs))"

text \<open>
  The loops of \<^verbatim>\<open>process_clone_spawn_files\<close> and \<^verbatim>\<open>process_clone_all_files\<close> from descriptor \<open>fd\<close> on,
  over \<open>n\<close> descriptors; \<open>skip\<close> is the condition of the \<^verbatim>\<open>continue\<close>.
\<close>

primrec process_clone_files_from ::
    "(kfile \<Rightarrow> bool) \<Rightarrow> nat \<Rightarrow> nat \<Rightarrow> kfile list \<Rightarrow> pipe_state \<Rightarrow> kfile list \<Rightarrow> bool \<times> pipe_state \<times> kfile list" where
  "process_clone_files_from skip 0 fd src st out = (True, st, out)"
| "process_clone_files_from skip (Suc n) fd src st out =
     (if skip (src ! fd) then process_clone_files_from skip n (Suc fd) src st out
      else
        (let (ok, st1, f) = file_clone st (out ! fd) (src ! fd) in
         if \<not> ok then (False, process_discard_file_array st1 (out[fd := f]))
         else process_clone_files_from skip n (Suc fd) src st1 (out[fd := f])))"

definition skip_on_spawn :: "kfile \<Rightarrow> bool" where
  "skip_on_spawn src \<longleftrightarrow> \<not> file_is_active src \<or> file_flags src AND KERNEL_FILE_CLOSE_ON_SPAWN \<noteq> 0"

definition process_clone_spawn_files ::
    "process option \<Rightarrow> pipe_state \<Rightarrow> kfile list \<Rightarrow> bool \<times> pipe_state \<times> kfile list" where
  "process_clone_spawn_files parent st out =
     (case parent of
        None \<Rightarrow> (True, st, process_forget_file_array out)
      | Some p \<Rightarrow> process_clone_files_from skip_on_spawn PROCESS_FILE_MAX 0 (proc_files p) st
                    (process_forget_file_array out))"

definition process_clone_all_files ::
    "process option \<Rightarrow> pipe_state \<Rightarrow> kfile list \<Rightarrow> bool \<times> pipe_state \<times> kfile list" where
  "process_clone_all_files parent st out =
     (case parent of
        None \<Rightarrow> (True, st, process_forget_file_array out)
      | Some p \<Rightarrow> process_clone_files_from (\<lambda>f. \<not> file_is_active f) PROCESS_FILE_MAX 0 (proc_files p) st
                    (process_forget_file_array out))"

definition process_refresh_console_from_files :: "process \<Rightarrow> process" where
  "process_refresh_console_from_files proc =
     (let t0 = file_tty_private_handle (proc_files proc ! SYS_FD_STDIN);
          t1 = (if t0 = NullPtr then file_tty_private_handle (proc_files proc ! SYS_FD_STDOUT) else t0);
          t2 = (if t1 = NullPtr then file_tty_private_handle (proc_files proc ! SYS_FD_STDERR) else t1)
      in if t2 \<noteq> NullPtr then proc\<lparr>console_handle := t2\<rparr> else proc)"

text \<open>\<^verbatim>\<open>process_install_cloned_files\<close> moves the cloned array in: for every descriptor it discards
  the old file, stores the clone and resets the source slot. A discard reads only the old file and
  the pipes, so the discards are grouped.\<close>

definition process_install_cloned_files ::
    "process option \<Rightarrow> pipe_state \<Rightarrow> kfile list \<Rightarrow> process option \<times> pipe_state \<times> kfile list" where
  "process_install_cloned_files proc st cloned =
     (case proc of
        None \<Rightarrow> (let (st1, fs) = process_discard_file_array st cloned in (None, st1, fs))
      | Some p \<Rightarrow>
          (let st1 = fst (process_discard_file_array st (proc_files p))
           in (Some (process_refresh_console_from_files (p\<lparr>proc_files := cloned\<rparr>)), st1, map file_reset cloned)))"

text \<open>The terminals' \<^verbatim>\<open>foreground_pid\<close> fields (\<^verbatim>\<open>kernel/core/tty.c\<close>), by terminal.\<close>

definition process_ensure_terminal_owner :: "process \<Rightarrow> (nat \<Rightarrow> u32) \<Rightarrow> process \<times> (nat \<Rightarrow> u32)" where
  "process_ensure_terminal_owner proc foreground =
     (if proc_pid proc = 0 then (proc, foreground)
      else
        (let p = process_refresh_console_from_files proc in
         case console_handle p of
           TtyPtr t \<Rightarrow>
             (p, if foreground t = 0 \<or> foreground t = proc_pid p then foreground(t := proc_pid p) else foreground)
         | _ \<Rightarrow> (p, foreground)))"

definition process_cwd :: "process option \<Rightarrow> string" where
  "process_cwd proc =
     (case proc of None \<Rightarrow> ''/'' | Some p \<Rightarrow> if cwd_storage p = [] then ''/'' else cwd_storage p)"

definition process_set_cwd :: "process \<Rightarrow> string option \<Rightarrow> process" where
  "process_set_cwd proc path =
     (case path of
        None \<Rightarrow> proc\<lparr>cwd_storage := ''/''\<rparr>
      | Some p \<Rightarrow> if p = [] then proc\<lparr>cwd_storage := ''/''\<rparr>
                  else proc\<lparr>cwd_storage := take (NOS_PATH_BUFFER_SIZE - 1) p\<rparr>)"

end
