(* ===== verification/Cap_Policy.thy ===== *)
theory Cap_Policy
  imports Process_Model
begin

text \<open>
  The capability policy of executables (\<^verbatim>\<open>kernel/proc/process_cap_policy.c\<close>): the mask in the mode
  word of a file on an NXFS volume, and the audit event of every decision. The policy reads the
  \<^verbatim>\<open>nxfs_inode\<close> member of the node's handle union, of which the mode is modelled.
\<close>

record exec_node = vfs_node +
  nxfs_inode_mode :: u32

record syscall_capability_event =
  event_source :: string
  event_action :: string
  event_caps :: string
  event_required :: u32
  event_allowed :: u32
  event_missing :: u32
  event_decision :: u32
  event_reason :: u32

definition PROCESS_CAP_POLICY_MODE_SHIFT :: nat where "PROCESS_CAP_POLICY_MODE_SHIFT = 16"
definition PROCESS_CAP_POLICY_PRESENT :: u32 where "PROCESS_CAP_POLICY_PRESENT = push_bit 31 1"
definition SYS_CAP_DECISION_ALLOW :: u32 where "SYS_CAP_DECISION_ALLOW = 1"
definition SYS_CAP_REASON_EXEC_POLICY :: u32 where "SYS_CAP_REASON_EXEC_POLICY = 4"

definition g_process_cap_policy_cap_names :: "(u32 \<times> string) list" where
  "g_process_cap_policy_cap_names =
     [(0x1, ''power''), (0x2, ''raw-block''), (0x4, ''mount''), (0x8, ''signal''), (0x10, ''grant''),
      (0x20, ''audio''), (0x40, ''net-raw''), (0x80, ''display''), (0x100, ''input''),
      (0x200, ''clipboard''), (0x400, ''debug'')]"

definition process_cap_policy_copy_text :: "nat \<Rightarrow> string \<Rightarrow> string" where
  "process_cap_policy_copy_text dst_size src = take (dst_size - 1) src"

text \<open>The text written so far is the destination; its length is \<^verbatim>\<open>*pos_io\<close>.\<close>

definition process_cap_policy_append_text :: "nat \<Rightarrow> string \<Rightarrow> string \<Rightarrow> string" where
  "process_cap_policy_append_text dst_size dst src = dst @ take (dst_size - 1 - length dst) src"

primrec copy_cap_names_loop :: "(u32 \<times> string) list \<Rightarrow> nat \<Rightarrow> u32 \<Rightarrow> bool \<Rightarrow> string \<Rightarrow> string" where
  "copy_cap_names_loop [] dst_size caps wrote dst = dst"
| "copy_cap_names_loop (cn # names) dst_size caps wrote dst =
     (if caps AND fst cn = 0 then copy_cap_names_loop names dst_size caps wrote dst
      else
        (let d1 = (if wrote then process_cap_policy_append_text dst_size dst '','' else dst)
         in copy_cap_names_loop names dst_size caps True (process_cap_policy_append_text dst_size d1 (snd cn))))"

definition process_cap_policy_copy_cap_names :: "nat \<Rightarrow> u32 \<Rightarrow> string" where
  "process_cap_policy_copy_cap_names dst_size caps0 =
     (if dst_size = 0 then []
      else
        (let caps = caps0 AND PROCESS_CAP_SYS_ADMIN in
         if caps = 0 then process_cap_policy_copy_text dst_size ''none''
         else copy_cap_names_loop g_process_cap_policy_cap_names dst_size caps False []))"

definition process_cap_policy_emit_audit :: "string \<Rightarrow> u32 \<Rightarrow> u32 \<Rightarrow> bool \<Rightarrow> syscall_capability_event" where
  "process_cap_policy_emit_audit image_name base_caps result_caps matched =
     (let required = base_caps AND PROCESS_CAP_SYS_ADMIN; allowed = result_caps AND PROCESS_CAP_SYS_ADMIN
      in \<lparr>event_source = process_cap_policy_copy_text 32 (if matched then ''exec-node-policy'' else ''exec-node-unmatched''),
          event_action = process_cap_policy_copy_text 32 image_name,
          event_caps = process_cap_policy_copy_cap_names 128 result_caps,
          event_required = required, event_allowed = allowed, event_missing = required AND NOT allowed,
          event_decision = SYS_CAP_DECISION_ALLOW, event_reason = SYS_CAP_REASON_EXEC_POLICY\<rparr>)"

definition process_cap_policy_node_mask :: "exec_node option \<Rightarrow> u32 option" where
  "process_cap_policy_node_mask node =
     (case node of
        None \<Rightarrow> None
      | Some n \<Rightarrow>
          if node_kind n \<noteq> VFS_NODE_FILE \<or> mount_kind n \<noteq> VFS_MOUNT_NXFS then None
          else if nxfs_inode_mode n AND PROCESS_CAP_POLICY_PRESENT = 0 then None
          else Some (drop_bit PROCESS_CAP_POLICY_MODE_SHIFT (nxfs_inode_mode n) AND PROCESS_CAP_SYS_ADMIN))"

text \<open>The result is the capability set and the emitted audit event.\<close>

definition process_exec_policy_capabilities ::
    "exec_node option \<Rightarrow> string \<Rightarrow> u32 \<Rightarrow> u32 \<times> syscall_capability_event" where
  "process_exec_policy_capabilities node image_name base_caps =
     (let matched = process_cap_policy_node_mask node;
          result_caps = (case matched of
             None \<Rightarrow> base_caps AND PROCESS_CAP_SYS_ADMIN
           | Some policy_mask \<Rightarrow> base_caps AND PROCESS_CAP_SYS_ADMIN AND policy_mask)
      in (result_caps, process_cap_policy_emit_audit image_name base_caps result_caps (matched \<noteq> None)))"

end
