(* ===== verification/Proc_Syscalls.thy ===== *)
theory Proc_Syscalls
  imports Cap_Policy
begin

text \<open>
  The credential system calls (\<^verbatim>\<open>SYS_CAPABILITY\<close> and \<^verbatim>\<open>SYS_IDENTITY\<close> of
  \<^verbatim>\<open>kernel/sys/syscall_common_request_core.c\<close>) and the credentials of a spawned process
  (\<^verbatim>\<open>kernel/proc/job_control.c\<close>). The current process is an argument; a call returns the value of
  the system call and the process. User memory is accessed through the operations of
  \<^verbatim>\<open>struct syscall_common_user_copy_ops\<close>, which are parameters.
\<close>

section \<open>Operations of the caller\<close>

record user_copy_ops =
  copy_user_cstr :: "(u64 \<Rightarrow> nat \<Rightarrow> string option) option"
  copy_identity_to_user :: "(u64 \<Rightarrow> u32 \<times> u32 \<Rightarrow> bool) option"
  bad_pointer :: "u64 option"
  bad_pointer_value :: u64

definition syscall_common_copy_bad_pointer :: "user_copy_ops option \<Rightarrow> u64" where
  "syscall_common_copy_bad_pointer ops =
     (case ops of
        None \<Rightarrow> - 1
      | Some o' \<Rightarrow> (case bad_pointer o' of Some v \<Rightarrow> v | None \<Rightarrow> bad_pointer_value o'))"

definition SYS_ERR_INVAL :: u64 where "SYS_ERR_INVAL = - 22"
definition SYS_ERR_AGAIN :: u64 where "SYS_ERR_AGAIN = - 11"
definition syscall_common_access_denied :: u64 where "syscall_common_access_denied = - 13"

definition PROCESS_CAP_GRANT :: u32 where "PROCESS_CAP_GRANT = 0x10"

lemmas syscall_consts = SYS_ERR_INVAL_def SYS_ERR_AGAIN_def syscall_common_access_denied_def PROCESS_CAP_GRANT_def
  PROCESS_CAP_SYS_ADMIN_def

section \<open>Capabilities\<close>

definition SYS_CAP_OP_GET :: u32 where "SYS_CAP_OP_GET = 0"
definition SYS_CAP_OP_DROP :: u32 where "SYS_CAP_OP_DROP = 1"
definition SYS_CAP_OP_GRANT :: u32 where "SYS_CAP_OP_GRANT = 2"
definition SYS_CAP_OP_SPAWN_SET :: u32 where "SYS_CAP_OP_SPAWN_SET = 3"
definition SYS_CAP_OP_SPAWN_CLEAR :: u32 where "SYS_CAP_OP_SPAWN_CLEAR = 4"
definition SYS_CAP_OP_SPAWN_GET :: u32 where "SYS_CAP_OP_SPAWN_GET = 5"
definition SYS_CAP_OP_AUTH_GRANT :: u32 where "SYS_CAP_OP_AUTH_GRANT = 6"

lemmas cap_ops = SYS_CAP_OP_GET_def SYS_CAP_OP_DROP_def SYS_CAP_OP_GRANT_def SYS_CAP_OP_SPAWN_SET_def
  SYS_CAP_OP_SPAWN_CLEAR_def SYS_CAP_OP_SPAWN_GET_def SYS_CAP_OP_AUTH_GRANT_def

definition syscall_common_request_core_capability :: "u32 \<Rightarrow> u32 \<Rightarrow> process option \<Rightarrow> u64 \<times> process option" where
  "syscall_common_request_core_capability op cap_mask proc =
     (case proc of
        None \<Rightarrow> (SYS_ERR_INVAL, proc)
      | Some p \<Rightarrow>
          if cap_mask AND NOT PROCESS_CAP_SYS_ADMIN \<noteq> 0 then (SYS_ERR_INVAL, proc)
          else
            (let current = process_capabilities proc in
             if op = SYS_CAP_OP_GET then (ucast current, proc)
             else if op = SYS_CAP_OP_DROP then
               (let p' = process_set_capabilities p (current AND NOT cap_mask)
                in (ucast (process_capabilities (Some p')), Some p'))
             else if op = SYS_CAP_OP_GRANT then
               (if \<not> process_has_capability proc PROCESS_CAP_GRANT then (syscall_common_access_denied, proc)
                else (let p' = process_set_capabilities p (current OR cap_mask)
                      in (ucast (process_capabilities (Some p')), Some p')))
             else if op = SYS_CAP_OP_SPAWN_SET then
               (if cap_mask AND NOT current \<noteq> 0 then (syscall_common_access_denied, proc)
                else (let p' = process_set_next_spawn_capabilities p cap_mask
                      in (ucast (process_next_spawn_capabilities (Some p') current), Some p')))
             else if op = SYS_CAP_OP_SPAWN_CLEAR then
               (let p' = process_clear_next_spawn_capabilities p
                in (ucast (process_capabilities (Some p')), Some p'))
             else if op = SYS_CAP_OP_SPAWN_GET then
               (ucast (if process_next_spawn_capabilities_enabled proc
                       then process_next_spawn_capabilities proc current else current), proc)
             else if op = SYS_CAP_OP_AUTH_GRANT then
               (if process_uid proc \<noteq> 0 then (syscall_common_access_denied, proc)
                else (let p' = process_set_capabilities p (current OR cap_mask)
                      in (ucast (process_capabilities (Some p')), Some p')))
             else (SYS_ERR_INVAL, proc)))"

definition syscall_token_copied :: "user_copy_ops option \<Rightarrow> u64 \<Rightarrow> bool" where
  "syscall_token_copied ops token_addr \<longleftrightarrow>
     (case ops of
        None \<Rightarrow> False
      | Some o' \<Rightarrow> (case copy_user_cstr o' of
                     None \<Rightarrow> False
                   | Some copy \<Rightarrow> token_addr \<noteq> 0 \<and> copy token_addr 64 \<noteq> None))"

definition syscall_common_request_core_capability_request ::
    "u32 \<Rightarrow> u32 \<Rightarrow> u64 \<Rightarrow> user_copy_ops option \<Rightarrow> process option \<Rightarrow> u64 \<times> process option" where
  "syscall_common_request_core_capability_request op cap_mask token_addr ops proc =
     (if op = SYS_CAP_OP_AUTH_GRANT \<and> \<not> syscall_token_copied ops token_addr
      then (syscall_common_copy_bad_pointer ops, proc)
      else syscall_common_request_core_capability op cap_mask proc)"

section \<open>Identity\<close>

definition SYS_IDENTITY_OP_GET :: u32 where "SYS_IDENTITY_OP_GET = 0"
definition SYS_IDENTITY_OP_DROP_USER :: u32 where "SYS_IDENTITY_OP_DROP_USER = 1"
definition SYS_IDENTITY_OP_AUTH_ROOT :: u32 where "SYS_IDENTITY_OP_AUTH_ROOT = 2"
definition SYS_IDENTITY_OP_PUSH :: u32 where "SYS_IDENTITY_OP_PUSH = 3"
definition SYS_IDENTITY_OP_POP :: u32 where "SYS_IDENTITY_OP_POP = 4"

lemmas identity_ops = SYS_IDENTITY_OP_GET_def SYS_IDENTITY_OP_DROP_USER_def SYS_IDENTITY_OP_AUTH_ROOT_def
  SYS_IDENTITY_OP_PUSH_def SYS_IDENTITY_OP_POP_def

definition identity_get :: "user_copy_ops option \<Rightarrow> u64 \<Rightarrow> process option \<Rightarrow> u64" where
  "identity_get ops user_info_addr proc =
     (case ops of
        None \<Rightarrow> SYS_ERR_INVAL
      | Some o' \<Rightarrow>
          (case copy_identity_to_user o' of
             None \<Rightarrow> SYS_ERR_INVAL
           | Some copy \<Rightarrow>
               if user_info_addr = 0 then SYS_ERR_INVAL
               else if copy user_info_addr (process_uid proc, process_gid proc) then 1
               else syscall_common_copy_bad_pointer ops))"

definition syscall_common_request_core_identity ::
    "u32 \<Rightarrow> u32 \<Rightarrow> user_copy_ops option \<Rightarrow> u64 \<Rightarrow> process option \<Rightarrow> u64 \<times> process option" where
  "syscall_common_request_core_identity op uid0 ops user_info_addr proc =
     (case proc of
        None \<Rightarrow> (SYS_ERR_INVAL, proc)
      | Some p \<Rightarrow>
          if op = SYS_IDENTITY_OP_GET then (identity_get ops user_info_addr proc, proc)
          else if op = SYS_IDENTITY_OP_DROP_USER then
            (if process_uid proc \<noteq> 0 then (syscall_common_access_denied, proc)
             else
               (let uid = (if uid0 = 0 then 1000 else uid0)
                in (1, Some (process_clear_next_spawn_capabilities
                              (process_set_capabilities (process_set_identity p uid uid) 0)))))
          else if op = SYS_IDENTITY_OP_AUTH_ROOT then
            (if process_uid proc \<noteq> 0 then (syscall_common_access_denied, proc)
             else (1, Some (process_set_capabilities (process_set_identity p 0 0) PROCESS_CAP_SYS_ADMIN)))
          else if op = SYS_IDENTITY_OP_PUSH then
            (let (ok, p') = process_identity_push p in (if ok then 1 else SYS_ERR_AGAIN, Some p'))
          else if op = SYS_IDENTITY_OP_POP then
            (let (ok, p') = process_identity_pop p in (if ok then 1 else SYS_ERR_INVAL, Some p'))
          else (SYS_ERR_INVAL, proc))"

definition syscall_common_request_core_identity_request ::
    "u32 \<Rightarrow> u32 \<Rightarrow> u64 \<Rightarrow> u64 \<Rightarrow> user_copy_ops option \<Rightarrow> process option \<Rightarrow> u64 \<times> process option" where
  "syscall_common_request_core_identity_request op uid token_addr user_info_addr ops proc =
     (if op = SYS_IDENTITY_OP_AUTH_ROOT \<and> \<not> syscall_token_copied ops token_addr
      then (syscall_common_copy_bad_pointer ops, proc)
      else syscall_common_request_core_identity op uid ops user_info_addr proc)"

section \<open>Credentials of a spawned process\<close>

record spawn_node = exec_node +
  nxfs_inode_uid :: u32
  nxfs_inode_gid :: u32

definition job_exec_node_setuid_local :: "spawn_node option \<Rightarrow> (u32 \<times> u32) option" where
  "job_exec_node_setuid_local node =
     (case node of
        None \<Rightarrow> None
      | Some n \<Rightarrow>
          if node_kind n \<noteq> VFS_NODE_FILE \<or> mount_kind n \<noteq> VFS_MOUNT_NXFS \<or> nxfs_inode_mode n AND 0x800 = 0 then None
          else Some (nxfs_inode_uid n, nxfs_inode_gid n))"

definition job_apply_exec_identity_local :: "process \<Rightarrow> spawn_node option \<Rightarrow> u32 \<Rightarrow> u32 \<times> process" where
  "job_apply_exec_identity_local proc node base_caps =
     (case job_exec_node_setuid_local node of
        None \<Rightarrow> (base_caps, proc)
      | Some (uid, gid) \<Rightarrow>
          (if uid = 0 then PROCESS_CAP_SYS_ADMIN else base_caps,
           process_set_identity (snd (process_identity_push proc)) uid gid))"

definition spawn_to_exec_node :: "spawn_node \<Rightarrow> exec_node" where
  "spawn_to_exec_node n = exec_node.truncate n"

text \<open>
  The block of \<^verbatim>\<open>job_spawn_process\<close> that sets the credentials of the new process \<open>proc\<close>. It only acts
  when the parent is the current process (\<open>parent_is_current\<close>); before the first process both
  are null. The result is the parent, the process and the audit event, if one is emitted.
\<close>

definition job_spawn_credentials ::
    "bool \<Rightarrow> process option \<Rightarrow> process \<Rightarrow> spawn_node option \<Rightarrow> string \<Rightarrow>
     process option \<times> process \<times> syscall_capability_event option" where
  "job_spawn_credentials parent_is_current parent proc node resolved_image_name =
     (if \<not> parent_is_current then (parent, proc, None)
      else
        (let base0 = process_next_spawn_capabilities parent (process_capabilities parent);
             (base_caps, proc1) = job_apply_exec_identity_local proc node base0;
             (caps, event) = process_exec_policy_capabilities (map_option spawn_to_exec_node node) resolved_image_name base_caps
         in (map_option process_clear_next_spawn_capabilities parent, process_set_capabilities proc1 caps, Some event)))"

end
