(* ===== verification/Credentials.thy ===== *)
theory Credentials
  imports Proc_Syscalls
begin

text \<open>
  What the credential operations guarantee: sets of capabilities as bit masks, the steps a process
  can take on its own credentials, what bounds them, and the discipline of the identity stack.
\<close>

section \<open>Capability sets\<close>

definition caps_within :: "u32 \<Rightarrow> u32 \<Rightarrow> bool" where
  "caps_within x b \<longleftrightarrow> x AND NOT b = 0"

lemma caps_within_bits: "caps_within x b \<longleftrightarrow> (\<forall>n. bit x n \<longrightarrow> bit b n)"
proof -
  have "caps_within x b \<longleftrightarrow> (\<forall>n < 32. bit x n \<longrightarrow> bit b n)"
    by (auto simp: caps_within_def bit_eq_iff bit_simps)
  then show ?thesis using bit_imp_le_length [of x] by auto
qed

lemma caps_within_refl [simp]: "caps_within x x"
  by (simp add: caps_within_bits)

lemma caps_within_trans: "caps_within x y \<Longrightarrow> caps_within y z \<Longrightarrow> caps_within x z"
  by (simp add: caps_within_bits)

lemma caps_within_and [simp]: "caps_within (x AND y) x" "caps_within (x AND y) y" "caps_within 0 x"
  by (simp_all add: caps_within_bits bit_simps)

lemma caps_within_andI: "caps_within x b \<Longrightarrow> caps_within (x AND y) b"
  by (simp add: caps_within_bits bit_simps)

section \<open>Steps of a process on its credentials\<close>

inductive cred_step :: "process \<Rightarrow> process \<Rightarrow> bool" where
  cred_capability:
    "syscall_common_request_core_capability_request op m token ops (Some p) = (v, Some p') \<Longrightarrow> cred_step p p'"
| cred_identity:
    "syscall_common_request_core_identity_request op uid token info ops (Some p) = (v, Some p') \<Longrightarrow> cred_step p p'"

definition cred_bounded :: "u32 \<Rightarrow> process \<Rightarrow> bool" where
  "cred_bounded b p \<longleftrightarrow>
     proc_uid p \<noteq> 0 \<and> caps_within (proc_caps p) b \<and>
     (next_spawn_caps_set p \<longrightarrow> caps_within (next_spawn_caps p) b) \<and>
     length (identity_stack p) = PROCESS_IDENTITY_STACK_MAX \<and>
     (\<forall>i < identity_depth p. id_uid (identity_stack p ! i) \<noteq> 0 \<and> caps_within (id_caps (identity_stack p ! i)) b)"

lemmas cred_defs = process_set_capabilities_def process_set_identity_def process_set_next_spawn_capabilities_def
  process_clear_next_spawn_capabilities_def process_capabilities_def process_uid_def process_gid_def
  process_next_spawn_capabilities_def process_next_spawn_capabilities_enabled_def

lemma no_grant:
  assumes "caps_within c b" and "b AND PROCESS_CAP_GRANT = 0"
  shows "c AND PROCESS_CAP_GRANT \<noteq> PROCESS_CAP_GRANT"
proof
  assume "c AND PROCESS_CAP_GRANT = PROCESS_CAP_GRANT"
  moreover have "bit PROCESS_CAP_GRANT 4" by (simp add: PROCESS_CAP_GRANT_def)
  ultimately have "bit c 4" by (metis bit_and_iff)
  with assms(1) \<open>bit PROCESS_CAP_GRANT 4\<close> have "bit (b AND PROCESS_CAP_GRANT) 4"
    by (simp add: caps_within_bits bit_and_iff)
  with assms(2) show False by simp
qed

lemma cred_bounded_capability:
  assumes b: "cred_bounded b p" and g: "b AND PROCESS_CAP_GRANT = 0"
    and st: "syscall_common_request_core_capability op m (Some p) = (v, Some p')"
  shows "cred_bounded b p'"
proof -
  have uid: "proc_uid p \<noteq> 0" and caps: "caps_within (proc_caps p) b" using b by (auto simp: cred_bounded_def)
  have "\<not> process_has_capability (Some p) PROCESS_CAP_GRANT"
    using no_grant [OF caps g] uid by (simp add: process_has_capability_def)
  then consider "p' = p" | "p' = process_set_capabilities p (proc_caps p AND NOT m)"
    | "p' = process_set_next_spawn_capabilities p m" "caps_within m (proc_caps p)"
    | "p' = process_clear_next_spawn_capabilities p"
    using st uid
    by (auto simp: syscall_common_request_core_capability_def Let_def process_capabilities_def process_uid_def
        caps_within_def split: if_splits)
  then show ?thesis
  proof cases
    case 3
    then have "caps_within (m AND PROCESS_CAP_SYS_ADMIN) b" by (meson caps caps_within_andI caps_within_trans)
    with 3 b show ?thesis by (simp add: cred_bounded_def cred_defs)
  qed (use b caps in \<open>simp_all add: cred_bounded_def cred_defs caps_within_andI\<close>)
qed

lemma cred_bounded_push: "cred_bounded b p \<Longrightarrow> cred_bounded b (snd (process_identity_push p))"
  by (auto simp: cred_bounded_def process_identity_push_def nth_list_update less_Suc_eq)

lemma cred_bounded_pop: "cred_bounded b p \<Longrightarrow> cred_bounded b (snd (process_identity_pop p))"
  by (auto simp: cred_bounded_def process_identity_pop_def Let_def nth_list_update)

lemma cred_bounded_identity:
  assumes b: "cred_bounded b p"
    and st: "syscall_common_request_core_identity op uid ops info (Some p) = (v, Some p')"
  shows "cred_bounded b p'"
proof -
  have uid: "proc_uid p \<noteq> 0" using b by (simp add: cred_bounded_def)
  with st consider "p' = p" | "p' = snd (process_identity_push p)" | "p' = snd (process_identity_pop p)"
    by (auto simp: syscall_common_request_core_identity_def process_uid_def Let_def split: if_splits prod.splits)
  then show ?thesis
  proof cases
    case 1
    with b show ?thesis by simp
  next
    case 2
    with cred_bounded_push [OF b] show ?thesis by simp
  next
    case 3
    with cred_bounded_pop [OF b] show ?thesis by simp
  qed
qed

lemma cred_bounded_step:
  assumes "cred_step p p'" and "cred_bounded b p" and "b AND PROCESS_CAP_GRANT = 0"
  shows "cred_bounded b p'"
  using assms(1)
proof cases
  case (cred_capability op m token ops v)
  then have "p' = p \<or> syscall_common_request_core_capability op m (Some p) = (v, Some p')"
    by (simp add: syscall_common_request_core_capability_request_def split: if_splits)
  with assms cred_bounded_capability [of b p op m v p'] show ?thesis by auto
next
  case (cred_identity op uid token info ops v)
  then have "p' = p \<or> syscall_common_request_core_identity op uid ops info (Some p) = (v, Some p')"
    by (simp add: syscall_common_request_core_identity_request_def split: if_splits)
  with assms cred_bounded_identity [of b p op uid ops info v p'] show ?thesis by auto
qed

section \<open>The identity stack\<close>

text \<open>
  Well-nested use of the stack: any credential change that leaves the stack alone, and a push,
  a nested run and a pop.
\<close>

definition same_stack :: "process \<Rightarrow> process \<Rightarrow> bool" where
  "same_stack p q \<longleftrightarrow> identity_depth q = identity_depth p \<and> identity_stack q = identity_stack p"

inductive cred_nested :: "process \<Rightarrow> process \<Rightarrow> bool" where
  nested_refl: "cred_nested p p"
| nested_change: "cred_nested p q \<Longrightarrow> cred_step q r \<Longrightarrow> same_stack q r \<Longrightarrow> cred_nested p r"
| nested_call: "cred_nested p q \<Longrightarrow> process_identity_push q = (True, q1) \<Longrightarrow> cred_nested q1 q2 \<Longrightarrow>
    process_identity_pop q2 = (True, r) \<Longrightarrow> cred_nested p r"

definition stack_kept :: "process \<Rightarrow> process \<Rightarrow> bool" where
  "stack_kept p q \<longleftrightarrow>
     identity_depth q = identity_depth p \<and> length (identity_stack q) = length (identity_stack p) \<and>
     take (identity_depth p) (identity_stack q) = take (identity_depth p) (identity_stack p)"

lemma stack_kept_nth:
  assumes "stack_kept p q" and "i < identity_depth p"
  shows "identity_stack q ! i = identity_stack p ! i"
proof -
  have "take (identity_depth p) (identity_stack q) ! i = take (identity_depth p) (identity_stack p) ! i"
    using assms(1) by (simp add: stack_kept_def)
  with assms(2) show ?thesis by simp
qed

lemma push_pop_restores:
  assumes push: "process_identity_push p = (True, p1)" and kept: "stack_kept p1 p2"
    and len: "length (identity_stack p) = PROCESS_IDENTITY_STACK_MAX"
  obtains p3 where "process_identity_pop p2 = (True, p3)" "proc_uid p3 = proc_uid p" "proc_gid p3 = proc_gid p"
    "proc_caps p3 = proc_caps p" "stack_kept p p3"
proof -
  let ?d = "identity_depth p"
  from push have d: "?d < PROCESS_IDENTITY_STACK_MAX" and p1: "identity_depth p1 = Suc ?d"
    "identity_stack p1 = (identity_stack p)[?d := \<lparr>id_uid = proc_uid p, id_gid = proc_gid p, id_caps = proc_caps p\<rparr>]"
    by (auto simp: process_identity_push_def split: if_splits)
  have "identity_stack p2 ! ?d = identity_stack p1 ! ?d"
    using stack_kept_nth [OF kept, of ?d] p1 d len by simp
  then have top: "identity_stack p2 ! ?d = \<lparr>id_uid = proc_uid p, id_gid = proc_gid p, id_caps = proc_caps p\<rparr>"
    using p1 d len by simp
  have "take ?d (take (Suc ?d) (identity_stack p2)) = take ?d (take (Suc ?d) (identity_stack p1))"
    using kept p1(1) by (simp add: stack_kept_def)
  then have "take ?d (identity_stack p2) = take ?d (identity_stack p)" using p1(2) by (simp add: min_def)
  moreover have "identity_depth p2 = Suc ?d" "length (identity_stack p2) = length (identity_stack p)"
    using kept p1 by (simp_all add: stack_kept_def)
  ultimately show ?thesis
    using that [of "snd (process_identity_pop p2)"] top
    by (simp add: process_identity_pop_def Let_def stack_kept_def)
qed

lemma stack_kept_refl: "stack_kept p p"
  by (simp add: stack_kept_def)

lemma stack_kept_trans: "stack_kept p q \<Longrightarrow> stack_kept q r \<Longrightarrow> stack_kept p r"
  by (simp add: stack_kept_def)

lemma cred_nested_keeps:
  assumes "cred_nested p q" and "length (identity_stack p) = PROCESS_IDENTITY_STACK_MAX"
  shows "stack_kept p q"
  using assms
proof induction
  case (nested_refl p)
  show ?case by (rule stack_kept_refl)
next
  case (nested_change p q r)
  then show ?case by (simp add: stack_kept_def same_stack_def)
next
  case (nested_call p q q1 q2 r)
  then have pq: "stack_kept p q" by simp
  with nested_call.prems have lenq: "length (identity_stack q) = PROCESS_IDENTITY_STACK_MAX"
    by (simp add: stack_kept_def)
  with nested_call.hyps(2) have "length (identity_stack q1) = PROCESS_IDENTITY_STACK_MAX"
    by (auto simp: process_identity_push_def split: if_splits)
  with nested_call.IH have "stack_kept q1 q2" by simp
  from push_pop_restores [OF nested_call.hyps(2) this lenq] nested_call.hyps(4) have "stack_kept q r" by auto
  with pq show ?case by (rule stack_kept_trans)
qed

end
