(* ===== verification/Spawn_Files.thy ===== *)
theory Spawn_Files
  imports Process_Model Pipe_Refs
begin

text \<open>
  Descriptors across process creation and exit: the loops that clone and discard a process's
  files keep the pipes' reference counts exact, where the system's file slots are those of all
  processes followed by the array being filled.
\<close>

lemma open_ends_append: "open_ends k i (fs @ gs) = open_ends k i fs + open_ends k i gs"
  by (simp add: open_ends_def)

lemma open_ends_inactive: "\<forall>f \<in> set fs. \<not> file_is_active f \<Longrightarrow> open_ends k i fs = 0"
  by (auto simp: open_ends_def filter_empty_conv is_end_def)

lemma refs_inv_append_inactive:
  assumes "refs_inv (st, fs)" and "\<forall>f \<in> set gs. \<not> file_is_active f"
  shows "refs_inv (st, fs @ gs)"
  using assms by (auto simp: refs_inv_def open_ends_append open_ends_inactive file_wf_inactive)

lemma file_reset_inactive [simp]: "\<not> file_is_active (file_reset f)"
  by (simp add: file_is_active_def file_reset_def)

section \<open>Cloning\<close>

lemma file_clone_active:
  assumes inv: "refs_inv (st, fs)" and b: "b < length fs" and act: "file_is_active (fs ! b)"
    and dst: "\<not> file_is_active dst"
  obtains st' where "file_clone st dst (fs ! b) = (True, st', fs ! b)"
proof (cases "file_pipe_backend_is_kind (file_kind (fs ! b))")
  case False
  with act dst that show ?thesis by (simp add: file_clone_def file_discard_def)
next
  case True
  with refs_invD(2) [OF inv b] act obtain i where "private_data (fs ! b) = PipePtr i" by (auto simp: file_wf_def)
  with True act dst that show ?thesis
    by (simp add: file_clone_def file_discard_def file_pipe_backend_clone_def file_pipe_from_file_def)
qed

definition holds_files :: "kfile list \<Rightarrow> nat \<Rightarrow> kfile list \<Rightarrow> bool" where
  "holds_files fs base files \<longleftrightarrow> base + length files \<le> length fs \<and> (\<forall>fd < length files. fs ! (base + fd) = files ! fd)"

lemma ends_fit_mono: "ends_fit gs \<Longrightarrow> (\<And>k i. open_ends k i fs \<le> open_ends k i gs) \<Longrightarrow> ends_fit fs"
  unfolding ends_fit_def by (meson order_trans)

text \<open>Filling an idle slot of the array moves an end from the files still to be cloned to the array.\<close>

lemma ends_fit_fill:
  assumes "ends_fit (fs @ out @ f # gs)" and "fd < length out" and "\<not> file_is_active (out ! fd)"
  shows "ends_fit (fs @ out[fd := f] @ gs)" "ends_fit (fs @ out[fd := f])"
proof -
  have "open_ends k i (out[fd := f]) = open_ends k i out + open_ends k i [f]" for k i
    using open_ends_update [OF assms(2), of k i f] is_end_inactive [OF assms(3)] by (simp add: open_ends_def)
  moreover have "open_ends k i (f # gs) = open_ends k i [f] + open_ends k i gs" for k i by (simp add: open_ends_def)
  ultimately show "ends_fit (fs @ out[fd := f] @ gs)" "ends_fit (fs @ out[fd := f])"
    by (intro ends_fit_mono [OF assms(1)]; simp add: open_ends_append)+
qed

lemma process_clone_files_from_ok:
  assumes "refs_inv (st, fs @ out)" and "holds_files fs base src" and "length out = length src"
    and "fd + n \<le> length src" and "\<And>f. \<not> file_is_active f \<Longrightarrow> skip f"
    and "\<And>j. fd \<le> j \<Longrightarrow> j < length src \<Longrightarrow> \<not> file_is_active (out ! j)"
    and "ends_fit (fs @ out @ filter (\<lambda>f. \<not> skip f) (take n (drop fd src)))"
  shows "\<exists>st' out'. process_clone_files_from skip n fd src st out = (True, st', out') \<and> refs_inv (st', fs @ out') \<and>
           length out' = length out \<and>
           (\<forall>j < length out. out' ! j = (if fd \<le> j \<and> j < fd + n \<and> \<not> skip (src ! j) then src ! j else out ! j))"
  using assms
proof (induction n arbitrary: fd st out)
  case 0
  then show ?case by auto
next
  case (Suc n)
  show ?case
  proof (cases "skip (src ! fd)")
    case True
    have "\<exists>st' out'. process_clone_files_from skip n (Suc fd) src st out = (True, st', out') \<and> refs_inv (st', fs @ out') \<and>
           length out' = length out \<and>
           (\<forall>j < length out. out' ! j = (if Suc fd \<le> j \<and> j < Suc fd + n \<and> \<not> skip (src ! j) then src ! j else out ! j))"
      using Suc.prems True by (intro Suc.IH) (auto simp: take_Suc_conv_app_nth Cons_nth_drop_Suc [symmetric])
    with True show ?thesis by (auto simp: le_Suc_eq Suc_le_eq)
  next
    case False
    let ?a = "length fs + fd"
    have b: "base + fd < length fs" "fs ! (base + fd) = src ! fd" and fd: "fd < length src"
      using Suc.prems by (auto simp: holds_files_def)
    with False Suc.prems(5) have act: "file_is_active ((fs @ out) ! (base + fd))" by (auto simp: nth_append)
    have inact: "\<not> file_is_active (out ! fd)" using Suc.prems(6) fd by simp
    from file_clone_active [OF Suc.prems(1) _ act inact] b
    obtain st1 where cl: "file_clone st (out ! fd) (src ! fd) = (True, st1, src ! fd)" by (auto simp: nth_append)
    have cl1: "file_clone st ((fs @ out) ! ?a) ((fs @ out) ! (base + fd)) = (True, st1, src ! fd)"
      using cl b by (simp add: nth_append)
    have "take (Suc n) (drop fd src) = src ! fd # take n (drop (Suc fd) src)"
      using fd by (simp flip: Cons_nth_drop_Suc)
    with False Suc.prems(7) have "ends_fit (fs @ out @ src ! fd # filter (\<lambda>f. \<not> skip f) (take n (drop (Suc fd) src)))"
      by simp
    note fit = ends_fit_fill [OF this _ inact]
    have inv1: "refs_inv (st1, fs @ out[fd := src ! fd])"
      using refs_inv_clone [OF Suc.prems(1) _ _ _ cl1] fit(2) b fd Suc.prems(3) by (simp add: list_update_append)
    have "\<exists>st' out'. process_clone_files_from skip n (Suc fd) src st1 (out[fd := src ! fd]) = (True, st', out') \<and>
           refs_inv (st', fs @ out') \<and> length out' = length (out[fd := src ! fd]) \<and>
           (\<forall>j < length (out[fd := src ! fd]). out' ! j =
              (if Suc fd \<le> j \<and> j < Suc fd + n \<and> \<not> skip (src ! j) then src ! j else out[fd := src ! fd] ! j))"
      using Suc.prems(2-6) inv1 fit(1) fd by (intro Suc.IH) auto
    then obtain st' out' where out': "process_clone_files_from skip n (Suc fd) src st1 (out[fd := src ! fd]) = (True, st', out')"
      "refs_inv (st', fs @ out')" "length out' = length out"
      "\<And>j. j < length out \<Longrightarrow> out' ! j =
         (if Suc fd \<le> j \<and> j < Suc fd + n \<and> \<not> skip (src ! j) then src ! j else out[fd := src ! fd] ! j)"
      by auto
    have "out' ! j = (if fd \<le> j \<and> j < fd + Suc n \<and> \<not> skip (src ! j) then src ! j else out ! j)" if "j < length out" for j
      using out'(4) [OF that] that False by (cases "j = fd") (auto simp: nth_list_update)
    with False cl out' show ?thesis by simp
  qed
qed

section \<open>Discarding\<close>

lemma process_discard_file_array_ok:
  assumes "refs_inv (st, fs @ out @ gs)"
  shows "\<exists>st' out'. process_discard_file_array st out = (st', out') \<and> refs_inv (st', fs @ out' @ gs) \<and>
           length out' = length out \<and> (\<forall>f \<in> set out'. \<not> file_is_active f)"
  using assms
proof (induction out arbitrary: st fs)
  case Nil
  then show ?case by simp
next
  case (Cons f out)
  obtain st1 f1 where d: "file_discard st f = (st1, f1)" by fastforce
  then have "file_discard st ((fs @ (f # out) @ gs) ! length fs) = (st1, f1)" by simp
  from refs_inv_discard [OF Cons.prems _ this]
  have "refs_inv (st1, (fs @ [f1]) @ out @ gs)" and f1: "\<not> file_is_active f1" by simp_all
  from Cons.IH [OF this(1)] obtain st' out' where
    "process_discard_file_array st1 out = (st', out')" "refs_inv (st', (fs @ [f1]) @ out' @ gs)"
    "length out' = length out" "\<forall>f \<in> set out'. \<not> file_is_active f" by blast
  with d f1 show ?case by simp
qed

lemma refs_inv_counts:
  assumes "refs_inv (st, fs @ out)" and "refs_inv (st', fs @ out')" and "i < FILE_PIPE_MAX"
    and "\<forall>f \<in> set out. \<not> file_is_active f" and "\<forall>f \<in> set out'. \<not> file_is_active f"
  shows "readers (g_file_pipes st' ! i) = readers (g_file_pipes st ! i) \<and>
         writers (g_file_pipes st' ! i) = writers (g_file_pipes st ! i)"
  using refs_invD(4,5) [OF assms(1) assms(3)] refs_invD(4,5) [OF assms(2) assms(3)] assms(4,5)
  by (simp add: open_ends_append open_ends_inactive word_unat_eq_iff)

lemma process_clone_spawn_files_ok:
  assumes inv: "refs_inv (st, fs)" and held: "holds_files fs base (proc_files parent)"
    and len: "length (proc_files parent) = PROCESS_FILE_MAX" "length out = PROCESS_FILE_MAX"
    and fit: "ends_fit (fs @ filter (\<lambda>f. \<not> skip_on_spawn f) (proc_files parent))"
  shows "\<exists>st' out'. process_clone_spawn_files (Some parent) st out = (True, st', out') \<and> refs_inv (st', fs @ out') \<and>
     length out' = PROCESS_FILE_MAX \<and>
     (\<forall>fd < PROCESS_FILE_MAX. if skip_on_spawn (proc_files parent ! fd) then \<not> file_is_active (out' ! fd)
                              else out' ! fd = proc_files parent ! fd)"
proof -
  let ?out = "process_forget_file_array out"
  have idle: "\<forall>f \<in> set ?out. \<not> file_is_active f" and lo: "length ?out = PROCESS_FILE_MAX"
    using len by (auto simp: process_forget_file_array_def)
  with inv have inv0: "refs_inv (st, fs @ ?out)" by (intro refs_inv_append_inactive) simp_all
  have fit0: "ends_fit (fs @ ?out @ filter (\<lambda>f. \<not> skip_on_spawn f) (proc_files parent))"
    by (rule ends_fit_mono [OF fit]) (use idle in \<open>simp add: open_ends_append open_ends_inactive\<close>)
  from process_clone_files_from_ok [OF inv0 held, of 0 PROCESS_FILE_MAX skip_on_spawn] len lo idle fit0
  obtain st' out' where
    "process_clone_files_from skip_on_spawn PROCESS_FILE_MAX 0 (proc_files parent) st ?out = (True, st', out')"
    "refs_inv (st', fs @ out')" "length out' = PROCESS_FILE_MAX"
    "\<forall>j < PROCESS_FILE_MAX. out' ! j = (if \<not> skip_on_spawn (proc_files parent ! j) then proc_files parent ! j else ?out ! j)"
    by (auto simp: skip_on_spawn_def)
  with idle lo show ?thesis by (auto simp: process_clone_spawn_files_def)
qed

end
