(* ===== verification/Process_Props.thy ===== *)
theory Process_Props
  imports Credentials Spawn_Files Pipe_Props
begin

text \<open>
  Properties of processes: what the credential system calls can and can not change, how
  identities nest, what a spawned process inherits, and how waiting and exiting interact.
\<close>

section \<open>A process to evaluate on\<close>

definition demo_process :: process where
  "demo_process =
     \<lparr>proc_pid = 7, proc_slot = 1, proc_state = PROCESS_STATE_RUNNING, proc_exit_code = 0,
      has_saved_frame = False, stop_pending = False, wake_tick = 0, parent_pid = 3, wait_pid = 0,
      wait_info_user = 0, proc_caps = 0x21, next_spawn_caps = 0, next_spawn_caps_set = False,
      proc_uid = 1000, proc_gid = 1000, identity_depth = 0,
      identity_stack = replicate PROCESS_IDENTITY_STACK_MAX \<lparr>id_uid = 0, id_gid = 0, id_caps = 0\<rparr>,
      proc_name = NameNull, name_storage = [], cwd_storage = ''/'', image_kind = PROCESS_IMAGE_ELF,
      proc_entry = 0, proc_stack_top = 0, console_handle = NullPtr,
      proc_files = replicate PROCESS_FILE_MAX demo_file, proc_address_space = None,
      proc_context = \<lparr>ctx_registers = replicate PROCESS_CONTEXT_REGISTER_COUNT 0, ctx_instruction_pointer = 0,
        ctx_stack_pointer = 0, ctx_flags = 0, ctx_code_selector = 0, ctx_stack_selector = 0, ctx_user_mode = True\<rparr>,
      saved_frame = \<lparr>frame_rax = 0, frame_regs = [], frame_instruction_pointer = 0, frame_cs = 0, frame_rflags = 0,
        frame_stack_pointer = 0, frame_ss = 0\<rparr>\<rparr>"

section \<open>Credentials\<close>

text \<open>
  C20. A process that is not root can not raise its privileges by itself: if none of its
  current and saved identities is root and none of their capabilities, nor its next-spawn set, lies
  outside a set \<open>b\<close> that does not contain the grant capability, then no sequence of capability and identity system
  calls makes it root or puts a capability outside \<open>b\<close> into its own set or into the set it hands on
  when it spawns a process.
\<close>

theorem process_privileges_confined:
  assumes "cred_bounded b p" and "b AND PROCESS_CAP_GRANT = 0" and "cred_step\<^sup>*\<^sup>* p q"
  shows "proc_uid q \<noteq> 0 \<and> caps_within (process_capabilities (Some q)) b \<and>
         caps_within (process_next_spawn_capabilities (Some q) (process_capabilities (Some q))) b"
proof -
  from assms(3,1) have "cred_bounded b q"
    by (induction rule: rtranclp_induct) (use assms(2) cred_bounded_step in auto)
  then show ?thesis by (simp add: cred_bounded_def cred_defs)
qed

theorem process_privileges_confined_witness:
  "let q = the (snd (syscall_common_request_core_capability_request SYS_CAP_OP_DROP 0x1 0 None (Some demo_process)))
   in cred_bounded 0x21 demo_process \<and> proc_uid q \<noteq> 0 \<and> caps_within (process_capabilities (Some q)) 0x21"
proof -
  let ?r = "syscall_common_request_core_capability_request SYS_CAP_OP_DROP 0x1 0 None (Some demo_process)"
  have b: "cred_bounded 0x21 demo_process" by (simp add: cred_bounded_def demo_process_def)
  have "snd ?r = Some (process_set_capabilities demo_process 0x20)"
    by (simp add: syscall_common_request_core_capability_request_def syscall_common_request_core_capability_def
        cap_ops syscall_consts process_capabilities_def demo_process_def Let_def)
  then have "?r = (fst ?r, Some (the (snd ?r)))" by (metis option.sel prod.collapse)
  then have "cred_step\<^sup>*\<^sup>* demo_process (the (snd ?r))" by (intro r_into_rtranclp cred_capability)
  with process_privileges_confined [OF b _ this] b show ?thesis by (simp add: PROCESS_CAP_GRANT_def Let_def)
qed

text \<open>
  C21. Identities nest: after a push, any well-nested use of the stack (changes of credentials,
  and further pushes closed by their pops) and a pop, the user, the group and the capabilities
  are those of the push, and the identities saved below are untouched.
\<close>

theorem identity_push_pop_restores:
  assumes "process_identity_push p = (True, p1)" and "cred_nested p1 p2"
    and "length (identity_stack p) = PROCESS_IDENTITY_STACK_MAX"
  shows "\<exists>p3. process_identity_pop p2 = (True, p3) \<and> proc_uid p3 = proc_uid p \<and> proc_gid p3 = proc_gid p \<and>
           proc_caps p3 = proc_caps p \<and> stack_kept p p3"
proof -
  from assms(1,3) have "length (identity_stack p1) = PROCESS_IDENTITY_STACK_MAX"
    by (auto simp: process_identity_push_def split: if_splits)
  with cred_nested_keeps [OF assms(2)] push_pop_restores [OF assms(1) _ assms(3), of p2] show ?thesis by metis
qed

theorem identity_push_pop_restores_witness:
  "\<exists>p1 p2 p3. process_identity_push demo_process = (True, p1) \<and> cred_nested p1 p2 \<and> proc_caps p2 = 0x20 \<and>
     process_identity_pop p2 = (True, p3) \<and> proc_caps p3 = 0x21"
proof -
  let ?p1 = "snd (process_identity_push demo_process)"
  let ?p2 = "process_set_capabilities ?p1 0x20"
  have push: "process_identity_push demo_process = (True, ?p1)"
    by (simp add: process_identity_push_def demo_process_def PROCESS_IDENTITY_STACK_MAX_def)
  have "proc_uid ?p1 = 1000" "proc_caps ?p1 = 0x21"
    by (simp_all add: process_identity_push_def demo_process_def PROCESS_IDENTITY_STACK_MAX_def)
  then have "syscall_common_request_core_capability_request SYS_CAP_OP_DROP 0x1 0 None (Some ?p1) =
      (ucast (process_capabilities (Some ?p2)), Some ?p2)"
    by (simp add: syscall_common_request_core_capability_request_def syscall_common_request_core_capability_def
        cap_ops syscall_consts process_capabilities_def Let_def)
  then have "cred_step ?p1 ?p2" by (rule cred_capability)
  moreover have "same_stack ?p1 ?p2" by (simp add: same_stack_def process_set_capabilities_def)
  ultimately have nested: "cred_nested ?p1 ?p2" using nested_change nested_refl by blast
  have len: "length (identity_stack demo_process) = PROCESS_IDENTITY_STACK_MAX" by (simp add: demo_process_def)
  have "proc_caps ?p2 = 0x20" by (simp add: process_set_capabilities_def PROCESS_CAP_SYS_ADMIN_def)
  moreover have "proc_caps demo_process = 0x21" by (simp add: demo_process_def)
  ultimately show ?thesis using push nested identity_push_pop_restores [OF push nested len] by metis
qed

text \<open>
  C22. Dropping capabilities has no effect on a root process: after the drop of any mask it still
  has every capability, because the checks look at the user before the mask.
\<close>

theorem root_drop_ineffective:
  assumes "proc_uid p = 0"
    and "syscall_common_request_core_capability SYS_CAP_OP_DROP m (Some p) = (v, Some p')"
    and "cap \<noteq> 0" and "caps_within cap PROCESS_CAP_SYS_ADMIN"
  shows "process_has_capability (Some p') cap"
proof -
  from assms(2) have "p' = p \<or> p' = process_set_capabilities p (process_capabilities (Some p) AND NOT m)"
    by (auto simp: syscall_common_request_core_capability_def cap_ops Let_def split: if_splits)
  with assms(1) have "proc_uid p' = 0" by (auto simp: process_set_capabilities_def)
  moreover have "cap AND PROCESS_CAP_SYS_ADMIN = cap"
    using assms(4) by (auto simp: caps_within_bits bit_eq_iff bit_simps)
  ultimately show ?thesis using assms(3) by (simp add: process_has_capability_def)
qed

theorem root_drop_ineffective_witness:
  "process_has_capability
     (snd (syscall_common_request_core_capability SYS_CAP_OP_DROP 0x1 (Some (demo_process\<lparr>proc_uid := 0\<rparr>)))) 0x1"
proof -
  let ?p = "demo_process\<lparr>proc_uid := 0\<rparr>"
  have "syscall_common_request_core_capability SYS_CAP_OP_DROP 0x1 (Some ?p) =
      (0x7ff, Some (process_set_capabilities ?p 0x7fe))"
    by (simp add: syscall_common_request_core_capability_def cap_ops syscall_consts cred_defs Let_def)
  moreover have "caps_within 0x1 PROCESS_CAP_SYS_ADMIN" by (simp add: caps_within_def PROCESS_CAP_SYS_ADMIN_def)
  ultimately show ?thesis using root_drop_ineffective [of ?p 1 _ "process_set_capabilities ?p 0x7fe" 1] by simp
qed

lemma spawn_identity:
  assumes "job_apply_exec_identity_local proc node base0 = (base, proc1)"
  shows "proc_uid proc1 = (case job_exec_node_setuid_local node of None \<Rightarrow> proc_uid proc | Some (uid, gid) \<Rightarrow> uid)"
    "base = (if \<exists>gid. job_exec_node_setuid_local node = Some (0, gid) then PROCESS_CAP_SYS_ADMIN else base0)"
    "cred_bounded b proc \<Longrightarrow> proc_uid proc1 \<noteq> 0 \<Longrightarrow> cred_bounded b proc1"
  using assms cred_bounded_push [of b proc]
  by (auto simp: job_apply_exec_identity_local_def process_set_identity_def cred_bounded_def split: option.splits)

lemma exec_policy_caps:
  assumes "process_exec_policy_capabilities node img base = (caps, ev)"
  shows "caps = (case process_cap_policy_node_mask node of None \<Rightarrow> base AND PROCESS_CAP_SYS_ADMIN
                 | Some k \<Rightarrow> base AND PROCESS_CAP_SYS_ADMIN AND k)"
    "caps AND PROCESS_CAP_SYS_ADMIN = caps" "event_required ev = base AND PROCESS_CAP_SYS_ADMIN" "event_allowed ev = caps"
    "event_missing ev = event_required ev AND NOT caps"
proof -
  show caps: "caps = (case process_cap_policy_node_mask node of None \<Rightarrow> base AND PROCESS_CAP_SYS_ADMIN
                 | Some k \<Rightarrow> base AND PROCESS_CAP_SYS_ADMIN AND k)"
    using assms by (auto simp: process_exec_policy_capabilities_def Let_def)
  then show mask: "caps AND PROCESS_CAP_SYS_ADMIN = caps" by (auto simp: bit_eq_iff bit_simps split: option.split)
  have ev: "ev = process_cap_policy_emit_audit img base caps (process_cap_policy_node_mask node \<noteq> None)"
    using assms caps by (auto simp: process_exec_policy_capabilities_def Let_def)
  show "event_required ev = base AND PROCESS_CAP_SYS_ADMIN" "event_allowed ev = caps"
    "event_missing ev = event_required ev AND NOT caps"
    unfolding ev by (simp_all add: process_cap_policy_emit_audit_def Let_def mask and.assoc)
qed

text \<open>
  C23. What a process spawned by the current process may do. If it is root (its own user was, or the
  file is set-user-id root), every capability check passes, whatever its mask. If it is not, its
  effective capabilities are exactly those its parent hands on, its next-spawn set or without
  one its own capabilities, cut to the mask of the file's policy if there is one; and a parent
  and a new process confined to a set \<open>b\<close> yield a process confined to \<open>b\<close>. The audit event
  records what was to be handed on (every capability for a set-user-id root file), the mask granted
  and the difference of the two, and the parent's next-spawn set is used up.
\<close>

theorem spawn_credentials_bounded:
  assumes "job_spawn_credentials True (Some parent) proc node img = (parent', proc', Some ev)"
    and "handed = process_next_spawn_capabilities (Some parent) (process_capabilities (Some parent)) AND PROCESS_CAP_SYS_ADMIN"
  shows "proc_uid proc' = (case job_exec_node_setuid_local node of None \<Rightarrow> proc_uid proc | Some (uid, gid) \<Rightarrow> uid) \<and>
         process_capabilities (Some proc') =
           (if proc_uid proc' = 0 then PROCESS_CAP_SYS_ADMIN
            else case process_cap_policy_node_mask (map_option spawn_to_exec_node node) of
                   None \<Rightarrow> handed | Some k \<Rightarrow> handed AND k) \<and>
         (\<forall>b. cred_bounded b parent \<and> cred_bounded b proc \<and> proc_uid proc' \<noteq> 0 \<longrightarrow> cred_bounded b proc') \<and>
         event_required ev =
           (if \<exists>gid. job_exec_node_setuid_local node = Some (0, gid) then PROCESS_CAP_SYS_ADMIN else handed) \<and>
         event_allowed ev = proc_caps proc' \<and> event_missing ev = event_required ev AND NOT (proc_caps proc') \<and>
         (\<exists>p. parent' = Some p \<and> \<not> next_spawn_caps_set p)"
proof -
  let ?base0 = "process_next_spawn_capabilities (Some parent) (process_capabilities (Some parent))"
  obtain base proc1 where app: "job_apply_exec_identity_local proc node ?base0 = (base, proc1)" by fastforce
  obtain caps ev1 where pol: "process_exec_policy_capabilities (map_option spawn_to_exec_node node) img base = (caps, ev1)"
    by fastforce
  have res: "parent' = Some (process_clear_next_spawn_capabilities parent)" "proc' = process_set_capabilities proc1 caps"
    "ev = ev1" using assms(1) app pol by (auto simp: job_spawn_credentials_def Let_def)
  note id = spawn_identity [OF app] and caps = exec_policy_caps [OF pol]
  have p': "proc_uid proc' = proc_uid proc1" "proc_caps proc' = caps"
    using caps(2) by (simp_all add: res(2) process_set_capabilities_def)
  have base: "base AND PROCESS_CAP_SYS_ADMIN =
      (if \<exists>gid. job_exec_node_setuid_local node = Some (0, gid) then PROCESS_CAP_SYS_ADMIN else handed)"
    by (simp add: id(2) assms(2))
  have user: "base AND PROCESS_CAP_SYS_ADMIN = handed" if "proc_uid proc' \<noteq> 0"
    using that id(1) p'(1) by (auto simp: base split: option.splits)
  have "cred_bounded b proc'" if "cred_bounded b parent" "cred_bounded b proc" "proc_uid proc' \<noteq> 0" for b
  proof -
    have "caps_within handed b" using that(1) by (auto simp: assms(2) cred_bounded_def cred_defs caps_within_andI)
    with user [OF that(3)] caps(1) have "caps_within caps b"
      by (auto simp: caps_within_bits bit_simps split: option.splits)
    with id(3) [OF that(2)] that(3) p' show ?thesis by (simp add: res(2) cred_bounded_def process_set_capabilities_def)
  qed
  moreover have "process_capabilities (Some proc') = (if proc_uid proc' = 0 then PROCESS_CAP_SYS_ADMIN
      else case process_cap_policy_node_mask (map_option spawn_to_exec_node node) of None \<Rightarrow> handed | Some k \<Rightarrow> handed AND k)"
    using user caps(1) p'(2) by (auto simp: process_capabilities_def and.assoc split: option.split)
  ultimately show ?thesis
    using id(1) p' caps(3-5) base by (auto simp: res process_clear_next_spawn_capabilities_def)
qed

theorem spawn_credentials_bounded_witness:
  "let (parent', proc', ev) = job_spawn_credentials True (Some demo_process) demo_process None ''sh''
   in process_capabilities (Some proc') = 0x21 \<and> cred_bounded 0x21 proc' \<and> event_missing (the ev) = 0"
proof -
  let ?r = "job_spawn_credentials True (Some demo_process) demo_process None ''sh''"
  have "snd (snd ?r) \<noteq> None" by (simp add: job_spawn_credentials_def Let_def split_def)
  then obtain parent' proc' ev where r: "?r = (parent', proc', Some ev)" by (metis not_None_eq prod.collapse)
  have b: "cred_bounded 0x21 demo_process" by (simp add: cred_bounded_def demo_process_def)
  have "(0x21 :: u32) = process_next_spawn_capabilities (Some demo_process) (process_capabilities (Some demo_process)) AND
      PROCESS_CAP_SYS_ADMIN" by (simp add: cred_defs demo_process_def PROCESS_CAP_SYS_ADMIN_def)
  note spawn = spawn_credentials_bounded [OF r this]
  have none: "job_exec_node_setuid_local None = None" "process_cap_policy_node_mask None = None"
    by (simp_all add: job_exec_node_setuid_local_def process_cap_policy_node_mask_def)
  have uid: "proc_uid demo_process = 1000" by (simp add: demo_process_def)
  with spawn b none have "proc_uid proc' \<noteq> 0" "process_capabilities (Some proc') = 0x21" "cred_bounded 0x21 proc'"
    "event_missing ev = 0x21 AND NOT (proc_caps proc')" by auto
  then show ?thesis by (simp add: r process_capabilities_def)
qed

section \<open>Descriptors of a spawned process\<close>

text \<open>
  C24. Cloning the descriptors for a new process succeeds in every system whose pipe counts are
  exact and in which, with the ends the new process gets, no pipe will have more than 255 open ends
  of one kind; it hands on exactly the open files that are not marked close-on-spawn, under the same
  descriptors, and leaves the counts of all pipes exact with the new descriptors counted.
  Discarding the new array again restores the counts.
\<close>

theorem clone_spawn_files_spec:
  assumes "refs_inv (st, fs)" and "holds_files fs base (proc_files parent)"
    and "length (proc_files parent) = PROCESS_FILE_MAX" and "length out = PROCESS_FILE_MAX"
    and "ends_fit (fs @ filter (\<lambda>f. \<not> skip_on_spawn f) (proc_files parent))"
  shows "\<exists>st' out'. process_clone_spawn_files (Some parent) st out = (True, st', out') \<and> refs_inv (st', fs @ out') \<and>
     (\<forall>fd < PROCESS_FILE_MAX. if skip_on_spawn (proc_files parent ! fd) then \<not> file_is_active (out' ! fd)
                              else out' ! fd = proc_files parent ! fd) \<and>
     (\<forall>i < FILE_PIPE_MAX. let st'' = fst (process_discard_file_array st' out') in
        readers (g_file_pipes st'' ! i) = readers (g_file_pipes st ! i) \<and>
        writers (g_file_pipes st'' ! i) = writers (g_file_pipes st ! i))"
proof -
  from process_clone_spawn_files_ok [OF assms] obtain st' out' where
    cl: "process_clone_spawn_files (Some parent) st out = (True, st', out')" "refs_inv (st', fs @ out')"
    "\<forall>fd < PROCESS_FILE_MAX. if skip_on_spawn (proc_files parent ! fd) then \<not> file_is_active (out' ! fd)
                              else out' ! fd = proc_files parent ! fd" by blast
  from process_discard_file_array_ok [of st' fs out' "[]"] cl(2) obtain st'' out'' where
    d: "process_discard_file_array st' out' = (st'', out'')" "refs_inv (st'', fs @ out'')"
    "\<forall>f \<in> set out''. \<not> file_is_active f" by auto
  have "readers (g_file_pipes st'' ! i) = readers (g_file_pipes st ! i) \<and>
        writers (g_file_pipes st'' ! i) = writers (g_file_pipes st ! i)" if "i < FILE_PIPE_MAX" for i
    using refs_inv_counts [of st fs "[]" st'' out'' i] assms(1) d(2,3) that by simp
  with cl d show ?thesis by (auto simp: Let_def)
qed

lemma demo_refs_inv: "refs_inv (demo_opened, [demo_read_end, demo_write_end])"
  using demo_sys_reachable by (rule pipe_sys_reachable_inv)

definition demo_files :: "kfile list" where
  "demo_files = [demo_read_end, demo_write_end] @ replicate 14 demo_file"

theorem clone_spawn_files_spec_witness:
  "\<exists>st' out'. process_clone_spawn_files (Some (demo_process\<lparr>proc_files := demo_files\<rparr>)) demo_opened
       (replicate 16 demo_file) = (True, st', out') \<and> out' ! 0 = demo_read_end \<and>
     readers (g_file_pipes (fst (process_discard_file_array st' out')) ! 0) = 1"
proof -
  let ?parent = "demo_process\<lparr>proc_files := demo_files\<rparr>"
  have "\<not> file_is_active demo_file" by (simp add: demo_file_def file_is_active_def)
  then have inv: "refs_inv (demo_opened, demo_files)"
    unfolding demo_files_def by (intro refs_inv_append_inactive [OF demo_refs_inv]) simp_all
  have held: "holds_files demo_files 0 (proc_files ?parent)" by (simp add: holds_files_def)
  have keep: "\<not> skip_on_spawn (proc_files ?parent ! 0)"
    by (simp add: demo_files_def skip_on_spawn_def demo_read_end_def file_or_flags_def file_pipe_init_end_def
        file_pipe_init_with_ops_def file_is_active_def file_reset_def file_consts)
  have one: "readers (g_file_pipes demo_opened ! 0) = 1" by (simp add: demo_opened_def pipe_put_def demo_state_def)
  have "length (demo_files @ filter (\<lambda>f. \<not> skip_on_spawn f) (proc_files ?parent)) \<le> 255"
    using length_filter_le [of "\<lambda>f. \<not> skip_on_spawn f" demo_files] by (simp add: demo_files_def)
  from ends_fit_small [OF this] clone_spawn_files_spec [OF inv held, of "replicate 16 demo_file"] keep one
  show ?thesis by (auto simp: PROCESS_FILE_MAX_def demo_files_def FILE_PIPE_MAX_def Let_def)
qed

section \<open>Waiting and exiting\<close>

definition child_waited :: "process option \<Rightarrow> u32 \<Rightarrow> u32 \<Rightarrow> u32 \<Rightarrow> bool" where
  "child_waited p waiter requested last_pid \<longleftrightarrow>
     (\<exists>c. p = Some c \<and> parent_pid c = waiter \<and>
          (if requested = last_pid then proc_state c = PROCESS_STATE_EXITED else proc_pid c = requested))"

text \<open>
  C25. The search for a child to wait for returns the first slot with a child of the waiter that
  has the requested process id or, in a wait for any child, has exited, and says whether it has
  exited. A wait for any child therefore reports that there is none while all children run.
\<close>

theorem find_wait_child_spec:
  "(process_lifecycle_find_wait_child slots waiter requested last_pid = Some (slot, exited) \<longleftrightarrow>
      waiter \<noteq> 0 \<and> slot < length slots \<and> child_waited (slots ! slot) waiter requested last_pid \<and>
      exited = (proc_state (the (slots ! slot)) = PROCESS_STATE_EXITED) \<and>
      (\<forall>j < slot. \<not> child_waited (slots ! j) waiter requested last_pid)) \<and>
   ((\<forall>c. Some c \<in> set slots \<and> parent_pid c = waiter \<longrightarrow> proc_state c \<noteq> PROCESS_STATE_EXITED) \<longrightarrow>
      process_lifecycle_find_wait_child slots waiter last_pid last_pid = None)"
proof -
  have match: "(process_lifecycle_child_matches_wait p (case p of None \<Rightarrow> 0 | Some c \<Rightarrow> parent_pid c) waiter r last_pid \<and>
      \<not> (r = last_pid \<and> proc_state (the p) \<noteq> PROCESS_STATE_EXITED)) = child_waited p waiter r last_pid" for p r
    by (auto simp: process_lifecycle_child_matches_wait_def child_waited_def split: option.split)
  have "child_waited (slots ! i) waiter last_pid last_pid \<Longrightarrow> i < length slots \<Longrightarrow>
      \<exists>c. Some c \<in> set slots \<and> parent_pid c = waiter \<and> proc_state c = PROCESS_STATE_EXITED" for i
    unfolding child_waited_def by (metis nth_mem)
  then show ?thesis
    unfolding process_lifecycle_find_wait_child_def match
    by (auto simp: first_index_Some_iff first_index_None_iff)
qed

theorem find_wait_child_spec_witness:
  "process_lifecycle_find_wait_child [None, Some (demo_process\<lparr>proc_state := PROCESS_STATE_EXITED\<rparr>)] 3 7 0xffffffff =
     Some (1, True) \<and>
   process_lifecycle_find_wait_child [Some demo_process] 3 0xffffffff 0xffffffff = None"
proof
  show "process_lifecycle_find_wait_child [None, Some (demo_process\<lparr>proc_state := PROCESS_STATE_EXITED\<rparr>)] 3 7 0xffffffff =
     Some (1, True)"
    using find_wait_child_spec [where slots = "[None, Some (demo_process\<lparr>proc_state := PROCESS_STATE_EXITED\<rparr>)]"
      and waiter = 3 and requested = 7 and last_pid = "0xffffffff" and slot = 1 and exited = True] by (simp add: child_waited_def demo_process_def)
  show "process_lifecycle_find_wait_child [Some demo_process] 3 0xffffffff 0xffffffff = None"
    using find_wait_child_spec [of "[Some demo_process]" 3 0 "0xffffffff"] by (simp add: demo_process_def)
qed

definition matches_exit :: "process option \<Rightarrow> u32 \<Rightarrow> bool" where
  "matches_exit p pid \<longleftrightarrow> (\<exists>w. p = Some w \<and> proc_state w = PROCESS_STATE_WAITING \<and> (wait_pid w = 0 \<or> wait_pid w = pid))"

lemma waiter_matches_exit_iff:
  "process_lifecycle_waiter_matches_exit p (case p of None \<Rightarrow> 0 | Some w \<Rightarrow> wait_pid w) pid \<longleftrightarrow> matches_exit p pid"
  by (auto simp: process_lifecycle_waiter_matches_exit_def matches_exit_def split: option.split)

definition woken :: "32 word \<Rightarrow> process \<Rightarrow> process" where
  "woken code w =
     w\<lparr>proc_context := process_context_set_return_value (proc_context w) (ucast code),
       proc_state := PROCESS_STATE_READY, wait_pid := 0, wait_info_user := 0\<rparr>"

lemma woken_eq: "process_lifecycle_clear_wait (process_lifecycle_finish_wait w code) = woken code w"
  by (simp add: woken_def process_lifecycle_clear_wait_def process_lifecycle_finish_wait_def)

lemma exit_wake_result:
  assumes "slot < length slots" and "slots ! slot = Some proc" and "proc_pid proc \<noteq> 0"
  shows "case process_lifecycle_mark_exited_and_wake slot code clr slots of (n, slots', notified) \<Rightarrow>
     length slots' = length slots \<and>
     (\<exists>z. slots' ! slot = Some z \<and> proc_state z = PROCESS_STATE_EXITED \<and> proc_exit_code z = code \<and> wake_tick z = 0) \<and>
     notified = filter (\<lambda>j. j \<noteq> slot \<and> matches_exit (slots ! j) (proc_pid proc)) [0..<length slots] \<and> n = length notified \<and>
     (\<forall>j < length slots. j \<noteq> slot \<longrightarrow>
        slots' ! j = (if j \<in> set notified then map_option (woken code) (slots ! j) else slots ! j))"
proof -
  define z where "z = (if clr then process_lifecycle_clear_wait (process_lifecycle_mark_exited_for_scheduler proc code)
            else process_lifecycle_mark_exited_for_scheduler proc code)"
  define slots1 where "slots1 = slots[slot := Some z]"
  have z: "proc_pid z = proc_pid proc" "proc_state z = PROCESS_STATE_EXITED" "proc_exit_code z = code" "wake_tick z = 0"
    by (simp_all add: z_def process_lifecycle_mark_exited_for_scheduler_def process_lifecycle_clear_wait_def)
  have nth: "slots1 ! slot = Some z" "\<And>j. j \<noteq> slot \<Longrightarrow> slots1 ! j = slots ! j" "length slots1 = length slots"
    using assms(1) by (simp_all add: slots1_def)
  then have "first_index (\<lambda>j. case slots1 ! j of None \<Rightarrow> False | Some p \<Rightarrow> proc_pid p = proc_pid proc) 0 (length slots1) \<noteq> None"
    using assms(1) z(1) by (auto simp: first_index_None_iff)
  then obtain i where i: "first_index (\<lambda>j. case slots1 ! j of None \<Rightarrow> False | Some p \<Rightarrow> proc_pid p = proc_pid proc)
      0 (length slots1) = Some i" by blast
  have m: "matches_exit (slots1 ! j) pid \<longleftrightarrow> j \<noteq> slot \<and> matches_exit (slots ! j) pid" for j pid
    using nth z(2) by (cases "j = slot") (auto simp: matches_exit_def)
  have wake: "process_lifecycle_mark_exited_and_wake slot code clr slots =
      process_lifecycle_wake_exit_waiters slots1 (proc_pid proc) code"
    unfolding process_lifecycle_mark_exited_and_wake_def assms(2) Let_def option.case z_def [symmetric]
      slots1_def [symmetric] z(1) ..
  have res: "process_lifecycle_mark_exited_and_wake slot code clr slots =
      (let notified = filter (\<lambda>j. matches_exit (slots1 ! j) (proc_pid proc)) [0..<length slots]
       in (length notified, map (process_lifecycle_wake_one (proc_pid proc) code) slots1, notified))"
    unfolding wake using assms(3) i nth(3)
    by (simp add: process_lifecycle_wake_exit_waiters_def waiter_matches_exit_iff Let_def)
  have one: "process_lifecycle_wake_one pid code p = (if matches_exit p pid then map_option (woken code) p else p)" for pid p
    by (simp add: process_lifecycle_wake_one_def waiter_matches_exit_iff woken_eq)
  have "\<not> matches_exit (Some z) pid" for pid using z(2) by (simp add: matches_exit_def)
  with assms(1) nth z m show ?thesis by (simp add: res Let_def one)
qed

text \<open>
  C26. When the process of a slot exits, it becomes a zombie with its exit code, and the processes
  woken are exactly the waiting ones whose wait record is empty or names it: each becomes
  ready with the exit code as the result of its system call and an empty wait record. Every
  other slot is untouched, and the count and the list of notified slots are exact.
\<close>

theorem exit_wakes_matching_waiters:
  assumes "slot < length slots" and "slots ! slot = Some proc" and "proc_pid proc \<noteq> 0"
  shows "case process_lifecycle_mark_exited_and_wake slot code clr slots of (n, slots', notified) \<Rightarrow>
     length slots' = length slots \<and>
     (\<exists>z. slots' ! slot = Some z \<and> proc_state z = PROCESS_STATE_EXITED \<and> proc_exit_code z = code \<and> wake_tick z = 0) \<and>
     notified = filter (\<lambda>j. j \<noteq> slot \<and> matches_exit (slots ! j) (proc_pid proc)) [0..<length slots] \<and> n = length notified \<and>
     (\<forall>j < length slots. j \<noteq> slot \<longrightarrow>
        slots' ! j = (if j \<in> set notified then map_option (woken code) (slots ! j) else slots ! j))"
  using exit_wake_result [OF assms] .

definition demo_waiter :: process where
  "demo_waiter = demo_process\<lparr>proc_pid := 9, proc_state := PROCESS_STATE_WAITING\<rparr>"

theorem exit_wakes_matching_waiters_witness:
  "fst (process_lifecycle_mark_exited_and_wake 0 5 False [Some demo_process, Some demo_waiter, None]) = 1"
proof -
  have "proc_pid demo_process \<noteq> 0" "matches_exit (Some demo_waiter) pid" "\<not> matches_exit None pid" for pid
    by (simp_all add: demo_process_def demo_waiter_def matches_exit_def)
  then show ?thesis
    using exit_wakes_matching_waiters [of 0 "[Some demo_process, Some demo_waiter, None]" demo_process 5 False]
    by (auto simp: numeral_3_eq_3 split: prod.splits)
qed

section \<open>The wait record\<close>

text \<open>
  The process tables the kernel can reach, as far as the wait record \<^verbatim>\<open>proc->wait\<close> is concerned: a
  slot is reset or released, a wait record is cleared, a process exits and wakes its waiters, or
  something else about a process changes (its state when it blocks or is woken, its identity, its
  files, its registers). \<^verbatim>\<open>process_model_reset\<close> and \<^verbatim>\<open>process_lifecycle_clear_wait\<close> are the only code
  that assigns \<^verbatim>\<open>wait.pid\<close>.
\<close>

inductive process_table_reachable :: "process option list \<Rightarrow> bool" where
  table_boot: "process_table_reachable (replicate n None)"
| table_reset: "process_table_reachable slots \<Longrightarrow>
     process_table_reachable (slots[i := Some (process_model_reset p slot st)])"
| table_release: "process_table_reachable slots \<Longrightarrow> process_table_reachable (slots[i := None])"
| table_clear: "process_table_reachable slots \<Longrightarrow> i < length slots \<Longrightarrow> slots ! i = Some p \<Longrightarrow>
     process_table_reachable (slots[i := Some (process_lifecycle_clear_wait p)])"
| table_exit: "process_table_reachable slots \<Longrightarrow> i < length slots \<Longrightarrow>
     process_lifecycle_mark_exited_and_wake i code clr slots = (n, slots', notified) \<Longrightarrow> process_table_reachable slots'"
| table_other: "process_table_reachable slots \<Longrightarrow> i < length slots \<Longrightarrow> slots ! i = Some p \<Longrightarrow>
     wait_pid q = wait_pid p \<Longrightarrow>
     length (ctx_registers (proc_context q)) = length (ctx_registers (proc_context p)) \<Longrightarrow>
     process_table_reachable (slots[i := Some q])"

definition wait_record_empty :: "process option \<Rightarrow> bool" where
  "wait_record_empty s \<longleftrightarrow> (\<forall>p. s = Some p \<longrightarrow> wait_pid p = 0 \<and> ctx_registers (proc_context p) \<noteq> [])"

lemma wait_record_empty_update:
  "\<forall>s \<in> set slots. wait_record_empty s \<Longrightarrow> wait_record_empty s' \<Longrightarrow> \<forall>s \<in> set (slots[i := s']). wait_record_empty s"
  using set_update_subset_insert [of slots i s'] by blast

lemma wait_record_empty_exit:
  assumes "\<forall>s \<in> set slots. wait_record_empty s" and "i < length slots"
    and "process_lifecycle_mark_exited_and_wake i code clr slots = (n, slots', notified)"
  shows "\<forall>s \<in> set slots'. wait_record_empty s"
proof (cases "slots ! i")
  case None
  with assms show ?thesis by (auto simp: process_lifecycle_mark_exited_and_wake_def)
next
  case (Some p)
  define z where "z = (if clr then process_lifecycle_clear_wait (process_lifecycle_mark_exited_for_scheduler p code)
    else process_lifecycle_mark_exited_for_scheduler p code)"
  have "wait_record_empty (Some p)" using assms(1,2) Some by (metis nth_mem)
  then have "wait_record_empty (Some z)"
    by (simp add: z_def wait_record_empty_def process_lifecycle_clear_wait_def process_lifecycle_mark_exited_for_scheduler_def)
  note upd = wait_record_empty_update [OF assms(1) this, of i]
  have "wait_record_empty (process_lifecycle_wake_one pid code s)" if "wait_record_empty s" for pid s
    using that by (auto simp: process_lifecycle_wake_one_def wait_record_empty_def process_lifecycle_clear_wait_def
        process_lifecycle_finish_wait_def process_context_set_return_value_def)
  moreover have "slots' = slots[i := Some z] \<or> (\<exists>pid. slots' = map (process_lifecycle_wake_one pid code) (slots[i := Some z]))"
    using assms(3) unfolding process_lifecycle_mark_exited_and_wake_def Some Let_def option.case z_def [symmetric]
    by (auto simp: process_lifecycle_wake_exit_waiters_def Let_def split: if_splits option.splits)
  ultimately show ?thesis using upd by auto
qed

lemma process_table_wait_empty: "process_table_reachable slots \<Longrightarrow> \<forall>s \<in> set slots. wait_record_empty s"
proof (induction rule: process_table_reachable.induct)
  case (table_exit slots i code clr n slots' notified)
  then show ?case using wait_record_empty_exit by blast
next
  case (table_clear slots i p)
  then have "wait_record_empty (Some p)" by (metis nth_mem)
  with table_clear show ?case
    by (intro wait_record_empty_update) (auto simp: wait_record_empty_def process_lifecycle_clear_wait_def)
next
  case (table_other slots i p q)
  then have "wait_record_empty (Some p)" by (metis nth_mem)
  with table_other show ?case by (intro wait_record_empty_update) (auto simp: wait_record_empty_def)
next
  case (table_reset slots i p slot st)
  then show ?case
    by (intro wait_record_empty_update)
      (auto simp: wait_record_empty_def process_model_reset_def process_context_reset_def PROCESS_CONTEXT_REGISTER_COUNT_def)
next
  case (table_release slots i)
  then show ?case by (intro wait_record_empty_update) (auto simp: wait_record_empty_def)
qed (auto simp: wait_record_empty_def)

text \<open>
  C27. In every process table the kernel can reach, the exit of a process with a non-zero id wakes every other
  waiting process, whether or not it is the parent of the exiting one and whatever it waits for, a child,
  a pipe or a terminal: the wait record that should tell them apart is empty in all of them. Each
  becomes ready with the exit code in place of the result of the system call it is blocked in.
\<close>

theorem exit_wakes_every_waiter:
  assumes "process_table_reachable slots" and "slot < length slots" and "slots ! slot = Some proc" and "proc_pid proc \<noteq> 0"
  shows "case process_lifecycle_mark_exited_and_wake slot code clr slots of (n, slots', notified) \<Rightarrow>
     notified = filter (\<lambda>j. j \<noteq> slot \<and> (\<exists>w. slots ! j = Some w \<and> proc_state w = PROCESS_STATE_WAITING)) [0..<length slots] \<and>
     (\<forall>j \<in> set notified. \<exists>w. slots' ! j = Some w \<and> proc_state w = PROCESS_STATE_READY \<and>
        process_context_return_value (proc_context w) = ucast code)"
proof -
  have rec: "wait_pid w = 0 \<and> ctx_registers (proc_context w) \<noteq> []" if "j < length slots" "slots ! j = Some w" for j w
    using process_table_wait_empty [OF assms(1)] that unfolding wait_record_empty_def by (metis nth_mem)
  then have every: "matches_exit (slots ! j) (proc_pid proc) \<longleftrightarrow> (\<exists>w. slots ! j = Some w \<and> proc_state w = PROCESS_STATE_WAITING)"
    if "j < length slots" for j using that by (auto simp: matches_exit_def)
  have result: "process_context_return_value (proc_context (woken code w)) = ucast code" "proc_state (woken code w) = PROCESS_STATE_READY"
    if "ctx_registers (proc_context w) \<noteq> []" for w
    using that by (simp_all add: woken_def process_context_return_value_def process_context_set_return_value_def PROCESS_CONTEXT_RETURN_def)
  obtain n slots' notified where res: "process_lifecycle_mark_exited_and_wake slot code clr slots = (n, slots', notified)"
    by (metis prod_cases3)
  note wake = exit_wake_result [OF assms(2-4), of code clr, unfolded res prod.case]
  have "filter (\<lambda>j. j \<noteq> slot \<and> matches_exit (slots ! j) (proc_pid proc)) [0..<length slots] =
      filter (\<lambda>j. j \<noteq> slot \<and> (\<exists>w. slots ! j = Some w \<and> proc_state w = PROCESS_STATE_WAITING)) [0..<length slots]"
    by (rule filter_cong) (use every in auto)
  with wake have "notified = filter (\<lambda>j. j \<noteq> slot \<and> (\<exists>w. slots ! j = Some w \<and> proc_state w = PROCESS_STATE_WAITING))
      [0..<length slots]" by simp
  moreover from this have "\<exists>w. slots' ! j = Some w \<and> proc_state w = PROCESS_STATE_READY \<and>
      process_context_return_value (proc_context w) = ucast code" if "j \<in> set notified" for j
    using that wake rec result by auto
  ultimately show ?thesis unfolding res prod.case by blast
qed

lemma demo_table_reachable: "process_table_reachable [Some demo_process, Some demo_waiter]"
proof -
  let ?r = "process_model_reset demo_process 0 PROCESS_STATE_READY"
  have r: "wait_pid ?r = 0" "length (ctx_registers (proc_context ?r)) = 8"
    by (simp_all add: process_model_reset_def process_context_reset_def PROCESS_CONTEXT_REGISTER_COUNT_def)
  have "process_table_reachable ((replicate 2 None)[0 := Some ?r, 1 := Some ?r])"
    by (intro table_reset table_boot)
  then have "process_table_reachable [Some ?r, Some ?r]" by (simp add: numeral_2_eq_2)
  from table_other [OF this, of 0 ?r demo_process] r
  have "process_table_reachable [Some demo_process, Some ?r]" by (simp add: demo_process_def PROCESS_CONTEXT_REGISTER_COUNT_def)
  from table_other [OF this, of 1 ?r demo_waiter] r show ?thesis
    by (simp add: demo_waiter_def) (simp add: demo_process_def PROCESS_CONTEXT_REGISTER_COUNT_def)
qed

theorem exit_wakes_every_waiter_witness:
  "parent_pid demo_process \<noteq> proc_pid demo_waiter \<and>
   (\<exists>w. fst (snd (process_lifecycle_mark_exited_and_wake 0 5 False [Some demo_process, Some demo_waiter])) ! 1 = Some w \<and>
      proc_state w = PROCESS_STATE_READY \<and> process_context_return_value (proc_context w) = 5)"
proof -
  have "proc_pid demo_process \<noteq> 0" "proc_state demo_waiter = PROCESS_STATE_WAITING" "parent_pid demo_process \<noteq> proc_pid demo_waiter"
    by (simp_all add: demo_process_def demo_waiter_def)
  then show ?thesis
    using exit_wakes_every_waiter [OF demo_table_reachable, of 0 demo_process 5 False] by (auto split: prod.splits)
qed

end
