(* ===== verification/Sched_Policy.thy ===== *)
theory Sched_Policy
  imports Process_Model
begin

text \<open>
  The scheduling policy (\<^verbatim>\<open>kernel/sched/sched_policy.c\<close>). The static variables are one record. The
  root session's process and the job runtimes are arguments: a runtime that is not in use
  is \<open>None\<close>, as \<^verbatim>\<open>job_get_runtime\<close> returns it, and so is a null pointer in a slot array. A slot
  number that the code returns as \<^verbatim>\<open>0xffffffff\<close> or as -2 for "none" is \<open>None\<close>.
\<close>

section \<open>State\<close>

datatype sched_mode = SCHED_MODE_INTERACTIVE | SCHED_MODE_BATCH

record sched_policy =
  g_sched_mode :: sched_mode
  g_sched_next_slot :: nat
  g_sched_root_session_turn :: bool
  g_sched_excluded_pid :: u32
  g_sched_next_wake_tick :: u32

definition USER_PROCESS_LIMIT :: nat where "USER_PROCESS_LIMIT = 32"

definition sched_policy_tick_before :: "u32 \<Rightarrow> u32 \<Rightarrow> bool" where
  "sched_policy_tick_before lhs rhs \<longleftrightarrow> sint (lhs - rhs) < 0"

definition sched_policy_process_runnable :: "process option \<Rightarrow> bool" where
  "sched_policy_process_runnable process =
     (case process of
        None \<Rightarrow> False
      | Some p \<Rightarrow> proc_state p = PROCESS_STATE_READY \<or> proc_state p = PROCESS_STATE_RUNNING)"

definition sched_policy_process_present :: "process option \<Rightarrow> bool" where
  "sched_policy_process_present process =
     (case process of
        None \<Rightarrow> False
      | Some p \<Rightarrow> proc_state p \<noteq> PROCESS_STATE_FREE \<and> image_kind p \<noteq> PROCESS_IMAGE_NONE)"

definition sched_policy_init :: "sched_policy \<Rightarrow> sched_policy" where
  "sched_policy_init sp =
     sp\<lparr>g_sched_next_slot := 0, g_sched_root_session_turn := True, g_sched_mode := SCHED_MODE_INTERACTIVE,
        g_sched_excluded_pid := 0, g_sched_next_wake_tick := 0\<rparr>"

definition sched_policy_set_excluded_pid :: "u32 \<Rightarrow> sched_policy \<Rightarrow> sched_policy" where
  "sched_policy_set_excluded_pid pid sp = sp\<lparr>g_sched_excluded_pid := pid\<rparr>"

definition sched_policy_set_mode :: "sched_mode \<Rightarrow> sched_policy \<Rightarrow> sched_policy" where
  "sched_policy_set_mode mode sp = sp\<lparr>g_sched_mode := mode\<rparr>"

section \<open>Waking sleepers\<close>

definition sched_policy_note_sleep :: "u32 \<Rightarrow> sched_policy \<Rightarrow> sched_policy" where
  "sched_policy_note_sleep tick sp =
     (if tick = 0 then sp
      else if g_sched_next_wake_tick sp = 0 \<or> sched_policy_tick_before tick (g_sched_next_wake_tick sp)
      then sp\<lparr>g_sched_next_wake_tick := tick\<rparr> else sp)"

definition wake_process :: "process \<Rightarrow> process" where
  "wake_process p = p\<lparr>proc_state := PROCESS_STATE_READY, wake_tick := 0\<rparr>"

text \<open>
  The loops over the slots: \<open>due\<close> is the condition under which a slot is looked at; the
  accumulators are the number of processes woken and the earliest tick still waited for.
\<close>

primrec sched_policy_wake_loop ::
    "(process \<Rightarrow> bool) \<Rightarrow> u32 \<Rightarrow> process option list \<Rightarrow> nat \<Rightarrow> u32 \<Rightarrow> process option list \<times> nat \<times> u32" where
  "sched_policy_wake_loop due now [] woke next_wake = ([], woke, next_wake)"
| "sched_policy_wake_loop due now (q # slots) woke next_wake =
     (case q of
        None \<Rightarrow> apfst (Cons None) (sched_policy_wake_loop due now slots woke next_wake)
      | Some p \<Rightarrow>
          if \<not> due p then apfst (Cons q) (sched_policy_wake_loop due now slots woke next_wake)
          else if \<not> sched_policy_tick_before now (wake_tick p)
          then apfst (Cons (Some (wake_process p))) (sched_policy_wake_loop due now slots (woke + 1) next_wake)
          else apfst (Cons q)
                 (sched_policy_wake_loop due now slots woke
                    (if next_wake = 0 \<or> sched_policy_tick_before (wake_tick p) next_wake then wake_tick p else next_wake)))"

definition sched_policy_update_wake_times ::
    "u32 \<Rightarrow> sched_policy \<Rightarrow> process \<Rightarrow> process option list \<Rightarrow> nat \<times> sched_policy \<times> process \<times> process option list" where
  "sched_policy_update_wake_times current_ticks sp root runtimes =
     (if g_sched_next_wake_tick sp = 0 \<or> sched_policy_tick_before current_ticks (g_sched_next_wake_tick sp)
      then (0, sp, root, runtimes)
      else
        (let asleep = (image_kind root \<noteq> PROCESS_IMAGE_NONE \<and> proc_state root = PROCESS_STATE_SLEEPING);
             expired = (asleep \<and> \<not> sched_policy_tick_before current_ticks (wake_tick root));
             root' = (if expired then wake_process root else root);
             (runtimes', woke, next_wake) =
               sched_policy_wake_loop (\<lambda>p. proc_state p = PROCESS_STATE_SLEEPING) current_ticks runtimes
                 (if expired then 1 else 0) (if asleep \<and> \<not> expired then wake_tick root else 0)
         in (woke, sp\<lparr>g_sched_next_wake_tick := next_wake\<rparr>, root', runtimes')))"

definition sched_policy_wake_sleepers_in_slots ::
    "process option list \<Rightarrow> u32 \<Rightarrow> sched_policy \<Rightarrow> nat \<times> sched_policy \<times> process option list" where
  "sched_policy_wake_sleepers_in_slots slots current_ticks sp =
     (let (slots', woke, next_wake) =
            sched_policy_wake_loop (\<lambda>p. proc_state p = PROCESS_STATE_SLEEPING \<and> wake_tick p \<noteq> 0) current_ticks slots 0 0
      in (woke, sp\<lparr>g_sched_next_wake_tick := next_wake\<rparr>, slots'))"

section \<open>Selection\<close>

definition sched_policy_select_next_in_slots :: "process option list \<Rightarrow> nat \<Rightarrow> nat option" where
  "sched_policy_select_next_in_slots slots current_slot0 =
     (let capacity = length slots;
          current_slot = (if current_slot0 \<ge> capacity then 0 else current_slot0)
      in if capacity = 0 then None
         else map_option (\<lambda>offset. (current_slot + offset) mod capacity)
                (first_index (\<lambda>offset. sched_policy_process_runnable (slots ! ((current_slot + offset) mod capacity)))
                   1 capacity))"

text \<open>\<^verbatim>\<open>active_pids\<close> are the pids of the sessions on the kernel stack of the processor.\<close>

definition sched_policy_pid_active_on_kernel_stack :: "u32 list \<Rightarrow> u32 \<Rightarrow> bool" where
  "sched_policy_pid_active_on_kernel_stack active_pids pid = (if pid = 0 then False else pid \<in> set active_pids)"

definition sched_policy_pid_allowed :: "u32 list \<Rightarrow> sched_policy \<Rightarrow> process \<Rightarrow> bool" where
  "sched_policy_pid_allowed active_pids sp proc =
     (if g_sched_excluded_pid sp \<noteq> 0 \<and> proc_pid proc = g_sched_excluded_pid sp then False
      else \<not> sched_policy_pid_active_on_kernel_stack active_pids (proc_pid proc))"

definition sched_policy_eligible :: "u32 list \<Rightarrow> sched_policy \<Rightarrow> process option \<Rightarrow> bool" where
  "sched_policy_eligible active_pids sp runtime =
     (case runtime of
        None \<Rightarrow> False
      | Some p \<Rightarrow> proc_state p = PROCESS_STATE_READY \<and> sched_policy_pid_allowed active_pids sp p)"

definition sched_policy_select_job_runtime ::
    "u32 list \<Rightarrow> process option list \<Rightarrow> sched_policy \<Rightarrow> nat option \<times> sched_policy" where
  "sched_policy_select_job_runtime active_pids runtimes sp =
     (case first_index (\<lambda>pass. sched_policy_eligible active_pids sp
                          (runtimes ! ((g_sched_next_slot sp + pass) mod USER_PROCESS_LIMIT))) 0 USER_PROCESS_LIMIT of
        None \<Rightarrow> (None, sp)
      | Some pass \<Rightarrow>
          (let slot = (g_sched_next_slot sp + pass) mod USER_PROCESS_LIMIT
           in (Some slot, sp\<lparr>g_sched_next_slot := (slot + 1) mod USER_PROCESS_LIMIT\<rparr>)))"

datatype sched_choice = RootSession | JobRuntime nat | NoSession

definition sched_policy_select_next ::
    "u32 list \<Rightarrow> process \<Rightarrow> process option list \<Rightarrow> sched_policy \<Rightarrow> sched_choice \<times> sched_policy" where
  "sched_policy_select_next active_pids root runtimes sp =
     (let root_session_ready = (proc_state root = PROCESS_STATE_READY \<and> sched_policy_pid_allowed active_pids sp root) in
      if g_sched_mode sp = SCHED_MODE_INTERACTIVE \<and> root_session_ready \<and> g_sched_root_session_turn sp
      then (RootSession, sp\<lparr>g_sched_root_session_turn := False\<rparr>)
      else
        case sched_policy_select_job_runtime active_pids runtimes sp of
          (Some slot, sp1) \<Rightarrow> (JobRuntime slot, sp1\<lparr>g_sched_root_session_turn := True\<rparr>)
        | (None, sp1) \<Rightarrow>
            if root_session_ready then (RootSession, sp1\<lparr>g_sched_root_session_turn := False\<rparr>) else (NoSession, sp1))"

section \<open>Transitions and statistics\<close>

datatype sched_runqueue_reason =
  SCHED_RUNQUEUE_PREEMPT | SCHED_RUNQUEUE_YIELD | SCHED_RUNQUEUE_BLOCK | SCHED_RUNQUEUE_EXIT | SCHED_RUNQUEUE_SLEEP

text \<open>Every enumerated reason is handled; the result is the process and \<^verbatim>\<open>*completed\<close>.\<close>

fun sched_policy_apply_runqueue_transition :: "sched_runqueue_reason \<Rightarrow> process \<Rightarrow> process \<times> bool" where
  "sched_policy_apply_runqueue_transition SCHED_RUNQUEUE_PREEMPT p = (p\<lparr>proc_state := PROCESS_STATE_READY\<rparr>, False)"
| "sched_policy_apply_runqueue_transition SCHED_RUNQUEUE_YIELD p = (p\<lparr>proc_state := PROCESS_STATE_READY\<rparr>, False)"
| "sched_policy_apply_runqueue_transition SCHED_RUNQUEUE_BLOCK p = (p\<lparr>proc_state := PROCESS_STATE_WAITING\<rparr>, False)"
| "sched_policy_apply_runqueue_transition SCHED_RUNQUEUE_SLEEP p = (p\<lparr>proc_state := PROCESS_STATE_SLEEPING\<rparr>, False)"
| "sched_policy_apply_runqueue_transition SCHED_RUNQUEUE_EXIT p =
     (if proc_state p \<noteq> PROCESS_STATE_EXITED then p\<lparr>proc_state := PROCESS_STATE_EXITED\<rparr> else p, True)"

definition sched_policy_restore_runqueue_current :: "sched_runqueue_reason \<Rightarrow> process \<Rightarrow> process option" where
  "sched_policy_restore_runqueue_current reason p =
     (if reason = SCHED_RUNQUEUE_EXIT then None else Some (p\<lparr>proc_state := PROCESS_STATE_RUNNING\<rparr>))"

record sched_policy_stats =
  total_processes :: nat
  ready_processes :: nat
  sleeping_processes :: nat
  stats_current_slot :: nat

definition sched_policy_collect_stats_from_slots :: "process option list \<Rightarrow> nat \<Rightarrow> sched_policy_stats" where
  "sched_policy_collect_stats_from_slots slots current_slot =
     (let present = filter sched_policy_process_present slots
      in \<lparr>total_processes = length present,
          ready_processes = length (filter sched_policy_process_runnable present),
          sleeping_processes = length (filter (\<lambda>q. \<not> sched_policy_process_runnable q \<and>
             (case q of None \<Rightarrow> False | Some p \<Rightarrow> proc_state p = PROCESS_STATE_SLEEPING)) present),
          stats_current_slot = current_slot\<rparr>)"

definition sched_policy_get_stats :: "process \<Rightarrow> process option list \<Rightarrow> sched_policy \<Rightarrow> sched_policy_stats" where
  "sched_policy_get_stats root runtimes sp =
     (let in_state = (\<lambda>s q. case q of None \<Rightarrow> False | Some p \<Rightarrow> proc_state p = s)
      in \<lparr>total_processes = 1 + USER_PROCESS_LIMIT,
          ready_processes = length (filter (in_state PROCESS_STATE_READY) (Some root # runtimes)),
          sleeping_processes = length (filter (in_state PROCESS_STATE_SLEEPING) (Some root # runtimes)),
          stats_current_slot = g_sched_next_slot sp\<rparr>)"

end
