(* ===== verification/Runqueue.thy ===== *)
theory Runqueue
  imports Sched_Policy
begin

text \<open>
  The run queue (\<^verbatim>\<open>kernel/sched/runqueue.c\<close>): rescheduling on preemption, yield, block, sleep and
  exit over an array of process pointers. \<^verbatim>\<open>SCHED_RUNQUEUE_NONE\<close> is \<open>None\<close>; the operations also
  act on the policy's state, where the earliest wake-up is noted. The counters are 32-bit words.
\<close>

section \<open>Operations\<close>

record sched_runqueue =
  rq_slots :: "process option list"
  rq_current :: nat
  rq_active :: u32
  rq_completed :: u32
  rq_switches :: u32

definition sched_runqueue_entry_valid :: "process option \<Rightarrow> bool" where
  "sched_runqueue_entry_valid proc = (case proc of None \<Rightarrow> False | Some p \<Rightarrow> proc_state p \<noteq> PROCESS_STATE_FREE)"

definition sched_runqueue_reset :: "sched_runqueue \<Rightarrow> sched_runqueue" where
  "sched_runqueue_reset q = q\<lparr>rq_current := 0, rq_active := 0, rq_completed := 0, rq_switches := 0\<rparr>"

definition sched_runqueue_init :: "sched_runqueue \<Rightarrow> process option list \<Rightarrow> sched_runqueue" where
  "sched_runqueue_init q slots = sched_runqueue_reset (q\<lparr>rq_slots := slots\<rparr>)"

definition sched_runqueue_activate :: "sched_runqueue \<Rightarrow> nat \<Rightarrow> bool \<times> sched_runqueue" where
  "sched_runqueue_activate q slot =
     (if slot \<ge> length (rq_slots q) \<or> \<not> sched_runqueue_entry_valid (rq_slots q ! slot) then (False, q)
      else (True, q\<lparr>rq_active := rq_active q + 1\<rparr>))"

definition rq_update :: "nat \<Rightarrow> (process \<Rightarrow> process) \<Rightarrow> sched_runqueue \<Rightarrow> sched_runqueue" where
  "rq_update slot f q = q\<lparr>rq_slots := (rq_slots q)[slot := map_option f (rq_slots q ! slot)]\<rparr>"

definition sched_runqueue_start :: "sched_runqueue \<Rightarrow> nat \<Rightarrow> bool \<times> sched_runqueue" where
  "sched_runqueue_start q slot =
     (if slot \<ge> length (rq_slots q) \<or> \<not> sched_runqueue_entry_valid (rq_slots q ! slot) \<or>
         \<not> sched_policy_process_runnable (rq_slots q ! slot) then (False, q)
      else (True, rq_update slot (\<lambda>p. p\<lparr>proc_state := PROCESS_STATE_RUNNING\<rparr>) (q\<lparr>rq_current := slot\<rparr>)))"

definition sched_runqueue_reschedule :: "sched_runqueue_reason \<Rightarrow> sched_runqueue \<Rightarrow> nat option \<times> sched_runqueue" where
  "sched_runqueue_reschedule reason q =
     (if rq_current q \<ge> length (rq_slots q) then (None, q)
      else case rq_slots q ! rq_current q of
        None \<Rightarrow> (None, q)
      | Some current \<Rightarrow>
          (let (p1, completed) = sched_policy_apply_runqueue_transition reason current;
               q1 = q\<lparr>rq_slots := (rq_slots q)[rq_current q := Some p1]\<rparr>;
               q2 = (if completed then q1\<lparr>rq_completed := rq_completed q1 + 1\<rparr> else q1)
           in case sched_policy_select_next_in_slots (rq_slots q2) (rq_current q2) of
                None \<Rightarrow>
                  (case sched_policy_restore_runqueue_current reason p1 of
                     Some p2 \<Rightarrow> (Some (rq_current q2), q2\<lparr>rq_slots := (rq_slots q2)[rq_current q2 := Some p2]\<rparr>)
                   | None \<Rightarrow> (None, q2))
              | Some nxt \<Rightarrow>
                  (let q3 = (if nxt \<noteq> rq_current q2 then q2\<lparr>rq_current := nxt, rq_switches := rq_switches q2 + 1\<rparr> else q2)
                   in (Some (rq_current q3), rq_update (rq_current q3) (\<lambda>p. p\<lparr>proc_state := PROCESS_STATE_RUNNING\<rparr>) q3))))"

definition sched_runqueue_sleep_step ::
    "u32 \<Rightarrow> sched_runqueue \<times> sched_policy \<Rightarrow> nat option \<times> sched_runqueue \<times> sched_policy" where
  "sched_runqueue_sleep_step sleep_until qs =
     (let (q, sp) = qs; current_slot = rq_current q in
      if current_slot \<ge> length (rq_slots q) \<or> rq_slots q ! current_slot = None then (None, q, sp)
      else
        (let tick = (if sleep_until = 0 then 1 else sleep_until);
             q1 = rq_update current_slot (\<lambda>p. p\<lparr>wake_tick := tick\<rparr>) q;
             sp1 = sched_policy_note_sleep tick sp;
             (nxt, q2) = sched_runqueue_reschedule SCHED_RUNQUEUE_SLEEP q1
         in if nxt = None \<or> nxt = Some current_slot
            then (None, rq_update current_slot (\<lambda>p. p\<lparr>wake_tick := 0, proc_state := PROCESS_STATE_RUNNING\<rparr>) q2, sp1)
            else (nxt, q2, sp1)))"

definition sched_runqueue_step ::
    "sched_runqueue_reason \<Rightarrow> u32 \<Rightarrow> u32 \<Rightarrow> sched_runqueue \<times> sched_policy \<Rightarrow> nat option \<times> sched_runqueue \<times> sched_policy" where
  "sched_runqueue_step reason current_ticks sleep_until qs =
     (let (q, sp) = qs in
      if reason = SCHED_RUNQUEUE_PREEMPT then
        (let (woke, sp1, slots) = sched_policy_wake_sleepers_in_slots (rq_slots q) current_ticks sp;
             (nxt, q1) = sched_runqueue_reschedule reason (q\<lparr>rq_slots := slots\<rparr>)
         in (nxt, q1, sp1))
      else if reason \<noteq> SCHED_RUNQUEUE_SLEEP then
        (let (nxt, q1) = sched_runqueue_reschedule reason q in (nxt, q1, sp))
      else sched_runqueue_sleep_step sleep_until qs)"

definition sched_runqueue_tick :: "u32 \<Rightarrow> sched_runqueue \<times> sched_policy \<Rightarrow> nat option \<times> sched_runqueue \<times> sched_policy" where
  "sched_runqueue_tick current_ticks qs = sched_runqueue_step SCHED_RUNQUEUE_PREEMPT current_ticks 0 qs"

definition sched_runqueue_yield :: "sched_runqueue \<times> sched_policy \<Rightarrow> nat option \<times> sched_runqueue \<times> sched_policy" where
  "sched_runqueue_yield qs = sched_runqueue_step SCHED_RUNQUEUE_YIELD 0 0 qs"

definition sched_runqueue_block :: "sched_runqueue \<times> sched_policy \<Rightarrow> nat option \<times> sched_runqueue \<times> sched_policy" where
  "sched_runqueue_block qs = sched_runqueue_step SCHED_RUNQUEUE_BLOCK 0 0 qs"

definition sched_runqueue_sleep_until ::
    "u32 \<Rightarrow> sched_runqueue \<times> sched_policy \<Rightarrow> nat option \<times> sched_runqueue \<times> sched_policy" where
  "sched_runqueue_sleep_until tick qs = sched_runqueue_step SCHED_RUNQUEUE_SLEEP 0 tick qs"

definition sched_runqueue_exit :: "sched_runqueue \<times> sched_policy \<Rightarrow> nat option \<times> sched_runqueue \<times> sched_policy" where
  "sched_runqueue_exit qs = sched_runqueue_step SCHED_RUNQUEUE_EXIT 0 0 qs"

definition sched_runqueue_current :: "sched_runqueue \<Rightarrow> process option" where
  "sched_runqueue_current q = (if rq_current q \<ge> length (rq_slots q) then None else rq_slots q ! rq_current q)"

definition sched_runqueue_process :: "sched_runqueue \<Rightarrow> nat \<Rightarrow> process option" where
  "sched_runqueue_process q slot = (if slot < length (rq_slots q) then rq_slots q ! slot else None)"

definition sched_runqueue_mark_completed :: "sched_runqueue \<Rightarrow> sched_runqueue" where
  "sched_runqueue_mark_completed q = q\<lparr>rq_completed := rq_completed q + 1\<rparr>"

definition sched_runqueue_collect_policy_stats :: "sched_runqueue \<Rightarrow> sched_policy_stats" where
  "sched_runqueue_collect_policy_stats q = sched_policy_collect_stats_from_slots (rq_slots q) (rq_current q)"

section \<open>The choice of the next process\<close>

text \<open>Cyclic distance from \<open>a\<close> to \<open>b\<close> in a ring of \<open>n\<close> slots, counted from 1 to \<open>n\<close>.\<close>

definition ring_dist :: "nat \<Rightarrow> nat \<Rightarrow> nat \<Rightarrow> nat" where
  "ring_dist n a b = (if a < b then b - a else b + n - a)"

lemma ring_dist_bounds: "a < n \<Longrightarrow> b < n \<Longrightarrow> 1 \<le> ring_dist n a b \<and> ring_dist n a b \<le> n"
  by (auto simp: ring_dist_def)

lemma ring_dist_mod: "a < n \<Longrightarrow> b < n \<Longrightarrow> (a + ring_dist n a b) mod n = b"
  by (auto simp: ring_dist_def)

lemma ring_dist_offset: "a < n \<Longrightarrow> 1 \<le> k \<Longrightarrow> k \<le> n \<Longrightarrow> ring_dist n a ((a + k) mod n) = k"
  by (cases "a + k < n") (auto simp: ring_dist_def le_mod_geq)

lemma ring_dist_inj: "a < n \<Longrightarrow> b < n \<Longrightarrow> c < n \<Longrightarrow> ring_dist n a b = ring_dist n a c \<Longrightarrow> b = c"
  using ring_dist_mod by metis

lemma ring_dist_between:
  "a < n \<Longrightarrow> b < n \<Longrightarrow> c < n \<Longrightarrow> b \<noteq> c \<Longrightarrow> ring_dist n a b < ring_dist n a c \<Longrightarrow> ring_dist n b c < ring_dist n a c"
  by (auto simp: ring_dist_def split: if_splits)

definition runnable_slot :: "process option list \<Rightarrow> nat \<Rightarrow> bool" where
  "runnable_slot slots j \<longleftrightarrow> j < length slots \<and> sched_policy_process_runnable (slots ! j)"

lemma select_next_Some:
  assumes "c < length slots"
  shows "sched_policy_select_next_in_slots slots c = Some j \<longleftrightarrow>
    runnable_slot slots j \<and> (\<forall>k. runnable_slot slots k \<longrightarrow> ring_dist (length slots) c j \<le> ring_dist (length slots) c k)"
    (is "?lhs \<longleftrightarrow> ?rhs")
proof -
  let ?n = "length slots"
  have n: "0 < ?n" using assms by linarith
  have run: "runnable_slot slots ((c + k) mod ?n) \<longleftrightarrow> sched_policy_process_runnable (slots ! ((c + k) mod ?n))" for k
    using n by (simp add: runnable_slot_def)
  have sel: "sched_policy_select_next_in_slots slots c =
      map_option (\<lambda>k. (c + k) mod ?n) (first_index (\<lambda>k. runnable_slot slots ((c + k) mod ?n)) 1 ?n)"
    using assms n by (simp add: sched_policy_select_next_in_slots_def run Let_def)
  show ?thesis
  proof
    assume ?lhs
    then obtain k where k: "1 \<le> k" "k < 1 + ?n" "runnable_slot slots ((c + k) mod ?n)" "j = (c + k) mod ?n"
      and least: "\<forall>l. 1 \<le> l \<and> l < k \<longrightarrow> \<not> runnable_slot slots ((c + l) mod ?n)"
      by (auto simp: sel first_index_Some_iff)
    have "ring_dist ?n c j \<le> ring_dist ?n c i" if "runnable_slot slots i" for i
    proof (rule ccontr)
      assume "\<not> ?thesis"
      moreover have i: "i < ?n" using that by (simp add: runnable_slot_def)
      ultimately have "ring_dist ?n c i < k" using k ring_dist_offset [OF assms] by simp
      with least ring_dist_bounds [OF assms i] ring_dist_mod [OF assms i] that show False by metis
    qed
    with k show ?rhs by simp
  next
    assume r: ?rhs
    then have j: "j < ?n" by (simp add: runnable_slot_def)
    let ?k = "ring_dist ?n c j"
    have "\<not> runnable_slot slots ((c + l) mod ?n)" if "1 \<le> l" "l < ?k" for l
      using r that ring_dist_offset [OF assms that(1)] ring_dist_bounds [OF assms j] by (metis leD le_trans less_imp_le)
    then have "first_index (\<lambda>k. runnable_slot slots ((c + k) mod ?n)) 1 ?n = Some ?k"
      using r ring_dist_bounds [OF assms j] ring_dist_mod [OF assms j] by (simp add: first_index_Some_iff less_Suc_eq_le)
    with ring_dist_mod [OF assms j] show ?lhs by (simp add: sel)
  qed
qed

lemma select_next_None:
  assumes "c < length slots"
  shows "sched_policy_select_next_in_slots slots c = None \<longleftrightarrow> (\<forall>k. \<not> runnable_slot slots k)"
proof
  assume none: "sched_policy_select_next_in_slots slots c = None"
  show "\<forall>k. \<not> runnable_slot slots k"
  proof (rule ccontr)
    assume "\<not> ?thesis"
    then obtain k where "runnable_slot slots k" by blast
    then obtain j where "is_arg_min (ring_dist (length slots) c) (runnable_slot slots) j"
      using ex_has_least_nat [of "runnable_slot slots" k "ring_dist (length slots) c"] by (auto simp: is_arg_min_linorder)
    then have "sched_policy_select_next_in_slots slots c = Some j"
      using select_next_Some [OF assms] by (simp add: is_arg_min_linorder)
    with none show False by simp
  qed
next
  assume "\<forall>k. \<not> runnable_slot slots k"
  then show "sched_policy_select_next_in_slots slots c = None" using select_next_Some [OF assms] by (meson option.exhaust)
qed

end
