(* ===== verification/Runqueue_Inv.thy ===== *)
theory Runqueue_Inv
  imports Runqueue
begin

text \<open>
  What a step of the run queue does: the entry of the current process changes as the reason
  says, the next runnable process in cyclic order becomes the running one, and nothing else
  changes except that due sleepers become ready. From this follow that at most one process
  runs, and that a ready process is reached within one round.
\<close>

section \<open>Waking in the slots\<close>

definition wake_due :: "(process \<Rightarrow> bool) \<Rightarrow> u32 \<Rightarrow> process \<Rightarrow> process" where
  "wake_due due now p = (if due p \<and> \<not> sched_policy_tick_before now (wake_tick p) then wake_process p else p)"

lemma wake_loop_slots:
  "fst (sched_policy_wake_loop due now slots woke nw) = map (map_option (wake_due due now)) slots"
  by (induction slots arbitrary: woke nw) (auto simp: wake_due_def split: option.split)

lemma wake_loop_count:
  "fst (snd (sched_policy_wake_loop due now slots woke nw)) =
     woke + length (filter (\<lambda>q. case q of None \<Rightarrow> False
                             | Some p \<Rightarrow> due p \<and> \<not> sched_policy_tick_before now (wake_tick p)) slots)"
  by (induction slots arbitrary: woke nw) (auto split: option.split)

lemma wake_due_state:
  assumes "\<And>p. due p \<Longrightarrow> proc_state p = PROCESS_STATE_SLEEPING"
  shows "proc_state (wake_due due now p) = PROCESS_STATE_RUNNING \<longleftrightarrow> proc_state p = PROCESS_STATE_RUNNING"
    "proc_state p \<noteq> PROCESS_STATE_SLEEPING \<Longrightarrow> wake_due due now p = p"
  using assms by (auto simp: wake_due_def wake_process_def)

section \<open>One reschedule\<close>

definition set_running :: "process \<Rightarrow> process" where
  "set_running p = p\<lparr>proc_state := PROCESS_STATE_RUNNING\<rparr>"

definition after_reason :: "sched_runqueue_reason \<Rightarrow> process \<Rightarrow> process" where
  "after_reason reason p = fst (sched_policy_apply_runqueue_transition reason p)"

lemma after_reason_not_running [simp]: "proc_state (after_reason reason p) \<noteq> PROCESS_STATE_RUNNING"
  by (cases reason) (simp_all add: after_reason_def)

definition left_slots :: "sched_runqueue_reason \<Rightarrow> sched_runqueue \<Rightarrow> process option list" where
  "left_slots reason q = (rq_slots q)[rq_current q := map_option (after_reason reason) (rq_slots q ! rq_current q)]"

lemma reschedule_next:
  assumes "rq_current q < length (rq_slots q)" and "rq_slots q ! rq_current q = Some p"
    and "sched_policy_select_next_in_slots (left_slots reason q) (rq_current q) = Some j"
  shows "fst (sched_runqueue_reschedule reason q) = Some j"
    "rq_current (snd (sched_runqueue_reschedule reason q)) = j"
    "rq_slots (snd (sched_runqueue_reschedule reason q)) =
       (left_slots reason q)[j := map_option set_running (left_slots reason q ! j)]"
  using assms
  by (auto simp: sched_runqueue_reschedule_def left_slots_def after_reason_def rq_update_def set_running_def [abs_def] Let_def
      split: prod.split)

lemma reschedule_none:
  assumes "rq_current q < length (rq_slots q)" and "rq_slots q ! rq_current q = Some p"
    and "sched_policy_select_next_in_slots (left_slots reason q) (rq_current q) = None"
  shows "fst (sched_runqueue_reschedule reason q) = (if reason = SCHED_RUNQUEUE_EXIT then None else Some (rq_current q))"
    "rq_current (snd (sched_runqueue_reschedule reason q)) = rq_current q"
    "rq_slots (snd (sched_runqueue_reschedule reason q)) =
       (if reason = SCHED_RUNQUEUE_EXIT then left_slots reason q
        else (rq_slots q)[rq_current q := Some (set_running (after_reason reason p))])"
  using assms
  by (auto simp: sched_runqueue_reschedule_def left_slots_def after_reason_def set_running_def
      sched_policy_restore_runqueue_current_def Let_def split: prod.split)

section \<open>At most one running process\<close>

definition running_slot :: "process option list \<Rightarrow> nat \<Rightarrow> bool" where
  "running_slot slots j \<longleftrightarrow> j < length slots \<and> (\<exists>p. slots ! j = Some p \<and> proc_state p = PROCESS_STATE_RUNNING)"

definition rq_ok :: "sched_runqueue \<Rightarrow> bool" where
  "rq_ok q \<longleftrightarrow> rq_current q < length (rq_slots q) \<and> (\<forall>j. running_slot (rq_slots q) j \<longrightarrow> j = rq_current q)"

lemma running_slot_update:
  "j < length slots \<Longrightarrow>
   running_slot (slots[j := e]) k \<longleftrightarrow>
     (if k = j then \<exists>p. e = Some p \<and> proc_state p = PROCESS_STATE_RUNNING else running_slot slots k)"
  by (auto simp: running_slot_def)

lemma left_slots_no_running:
  assumes "rq_ok q"
  shows "\<not> running_slot (left_slots reason q) k" "length (left_slots reason q) = length (rq_slots q)"
  using assms by (auto simp: rq_ok_def left_slots_def running_slot_update)

lemma rq_ok_reschedule:
  assumes ok: "rq_ok q"
  shows "rq_ok (snd (sched_runqueue_reschedule reason q))"
    "length (rq_slots (snd (sched_runqueue_reschedule reason q))) = length (rq_slots q)"
proof -
  let ?q = "snd (sched_runqueue_reschedule reason q)"
  have c: "rq_current q < length (rq_slots q)" using ok by (simp add: rq_ok_def)
  have left: "\<not> running_slot (left_slots reason q) k" "length (left_slots reason q) = length (rq_slots q)" for k
    using left_slots_no_running [OF ok] by simp_all
  have "rq_ok ?q \<and> length (rq_slots ?q) = length (rq_slots q)"
  proof (cases "rq_slots q ! rq_current q")
    case None
    with ok show ?thesis by (simp add: sched_runqueue_reschedule_def)
  next
    case p: (Some p)
    show ?thesis
    proof (cases "sched_policy_select_next_in_slots (left_slots reason q) (rq_current q)")
      case None
      from reschedule_none [OF c p None] ok left show ?thesis
        by (auto simp: rq_ok_def running_slot_update)
    next
      case (Some j)
      moreover from this have "j < length (rq_slots q)"
        using select_next_Some [of "rq_current q" "left_slots reason q" j] c left(2) by (simp add: runnable_slot_def)
      ultimately show ?thesis using reschedule_next [OF c p Some] left
        by (auto simp: rq_ok_def running_slot_update)
    qed
  qed
  then show "rq_ok ?q" "length (rq_slots ?q) = length (rq_slots q)" by auto
qed

lemma rq_ok_wake:
  assumes "rq_ok q" and "\<And>p. due p \<Longrightarrow> proc_state p = PROCESS_STATE_SLEEPING"
  shows "rq_ok (q\<lparr>rq_slots := map (map_option (wake_due due now)) (rq_slots q)\<rparr>)"
proof -
  have "running_slot (map (map_option (wake_due due now)) (rq_slots q)) j \<longleftrightarrow> running_slot (rq_slots q) j" for j
    using wake_due_state(1) [OF assms(2)] by (auto simp: running_slot_def)
  with assms(1) show ?thesis by (simp add: rq_ok_def)
qed

lemma rq_ok_update_current:
  assumes "rq_ok q" and "j = rq_current q"
  shows "rq_ok (rq_update j f q)"
  using assms by (auto simp: rq_ok_def rq_update_def running_slot_update)

lemma rq_update_simps [simp]:
  "rq_current (rq_update j f q) = rq_current q" "length (rq_slots (rq_update j f q)) = length (rq_slots q)"
  by (simp_all add: rq_update_def)

lemma reschedule_current:
  assumes "rq_current q < length (rq_slots q)" and "rq_slots q ! rq_current q \<noteq> None"
  shows "fst (sched_runqueue_reschedule reason q) \<in> {None, Some (rq_current (snd (sched_runqueue_reschedule reason q)))} \<and>
    (fst (sched_runqueue_reschedule reason q) = None \<longrightarrow> rq_current (snd (sched_runqueue_reschedule reason q)) = rq_current q)"
proof -
  from assms(2) obtain p where p: "rq_slots q ! rq_current q = Some p" by blast
  show ?thesis
  proof (cases "sched_policy_select_next_in_slots (left_slots reason q) (rq_current q)")
    case None
    from reschedule_none [OF assms(1) p None] show ?thesis by simp
  next
    case (Some j)
    from reschedule_next [OF assms(1) p Some] show ?thesis by simp
  qed
qed

definition rq_wakeable :: "process \<Rightarrow> bool" where
  "rq_wakeable p \<longleftrightarrow> proc_state p = PROCESS_STATE_SLEEPING \<and> wake_tick p \<noteq> 0"

text \<open>The queue from which a step reschedules: with due sleepers woken, or with the wake-up time set.\<close>

definition rq_before :: "sched_runqueue_reason \<Rightarrow> u32 \<Rightarrow> u32 \<Rightarrow> sched_runqueue \<Rightarrow> sched_runqueue" where
  "rq_before reason now sleep_until q =
     (if reason = SCHED_RUNQUEUE_PREEMPT then q\<lparr>rq_slots := map (map_option (wake_due rq_wakeable now)) (rq_slots q)\<rparr>
      else if reason = SCHED_RUNQUEUE_SLEEP
      then rq_update (rq_current q) (\<lambda>p. p\<lparr>wake_tick := if sleep_until = 0 then 1 else sleep_until\<rparr>) q
      else q)"

lemma rq_before_simps [simp]:
  "rq_current (rq_before reason now till q) = rq_current q"
  "length (rq_slots (rq_before reason now till q)) = length (rq_slots q)"
  by (simp_all add: rq_before_def)

lemma rq_ok_before: "rq_ok q \<Longrightarrow> rq_ok (rq_before reason now till q)"
  by (auto simp: rq_before_def rq_wakeable_def intro!: rq_ok_wake rq_ok_update_current)

lemma step_eq:
  assumes "rq_current q < length (rq_slots q)" and "rq_slots q ! rq_current q \<noteq> None"
  shows "sched_runqueue_step reason now till (q, sp) =
    (let (nxt, q1) = sched_runqueue_reschedule reason (rq_before reason now till q);
         sp1 = snd (snd (sched_runqueue_step reason now till (q, sp)))
     in if reason = SCHED_RUNQUEUE_SLEEP \<and> (nxt = None \<or> nxt = Some (rq_current q))
        then (None, rq_update (rq_current q) (\<lambda>p. p\<lparr>wake_tick := 0, proc_state := PROCESS_STATE_RUNNING\<rparr>) q1, sp1)
        else (nxt, q1, sp1))"
proof -
  have w: "fst (sched_policy_wake_loop (\<lambda>p. proc_state p = PROCESS_STATE_SLEEPING \<and> wake_tick p \<noteq> 0) now slots w n) =
      map (map_option (wake_due rq_wakeable now)) slots" for slots w n
    using wake_loop_slots [of rq_wakeable now slots w n] by (simp add: rq_wakeable_def [abs_def])
  show ?thesis
    using assms w [of "rq_slots q" 0 0]
    by (cases reason) (auto simp: sched_runqueue_step_def sched_runqueue_sleep_step_def rq_before_def
        sched_policy_wake_sleepers_in_slots_def Let_def split: prod.split prod.split_asm)
qed

lemma rq_ok_step:
  assumes ok: "rq_ok q"
  shows "rq_ok (fst (snd (sched_runqueue_step reason now till (q, sp))))" (is "rq_ok ?q")
    "length (rq_slots (fst (snd (sched_runqueue_step reason now till (q, sp))))) = length (rq_slots q)"
proof -
  let ?b = "rq_before reason now till q"
  let ?r = "sched_runqueue_reschedule reason ?b"
  have c: "rq_current q < length (rq_slots q)" using ok by (simp add: rq_ok_def)
  note ok1 = rq_ok_reschedule [OF rq_ok_before [OF ok, of reason now till], of reason]
  have "rq_ok ?q \<and> length (rq_slots ?q) = length (rq_slots q)"
  proof (cases "rq_slots q ! rq_current q = None")
    case True
    then have none: "rq_slots ?b ! rq_current q = None" using c by (auto simp: rq_before_def rq_update_def)
    then have "sched_runqueue_reschedule reason ?b = (None, ?b)" by (simp add: sched_runqueue_reschedule_def)
    then show ?thesis
      using True c ok rq_ok_before [OF ok, of reason now till]
        wake_loop_slots [of rq_wakeable now "rq_slots q" 0 0]
      by (cases reason) (auto simp: sched_runqueue_step_def sched_runqueue_sleep_step_def rq_before_def
          sched_policy_wake_sleepers_in_slots_def rq_wakeable_def [abs_def] Let_def split: prod.splits)
  next
    case False
    have "rq_slots ?b ! rq_current ?b \<noteq> None" using False c by (auto simp: rq_before_def rq_update_def)
    from reschedule_current [OF _ this, of reason] c
    have cur: "fst ?r = None \<or> fst ?r = Some (rq_current q) \<Longrightarrow> rq_current (snd ?r) = rq_current q" by auto
    obtain nxt q1 where r: "?r = (nxt, q1)" by fastforce
    have "?q = q1 \<or> (rq_current q1 = rq_current q \<and>
        ?q = rq_update (rq_current q) (\<lambda>p. p\<lparr>wake_tick := 0, proc_state := PROCESS_STATE_RUNNING\<rparr>) q1)"
      using arg_cong [OF step_eq [OF c False, of reason now till sp], of "\<lambda>x. fst (snd x)"] cur r
      by (auto simp: Let_def split: if_splits)
    with ok1 r rq_ok_update_current [of q1] show ?thesis by auto
  qed
  then show "rq_ok ?q" "length (rq_slots ?q) = length (rq_slots q)" by auto
qed

section \<open>Progress\<close>

lemma ring_dist_self: "ring_dist n c c = n"
  by (simp add: ring_dist_def)

lemma before_keeps_ready:
  assumes "rq_slots q ! j = Some pj" and "proc_state pj = PROCESS_STATE_READY" and "j < length (rq_slots q)"
    and "j \<noteq> rq_current q"
  shows "rq_slots (rq_before reason now till q) ! j = Some pj"
    "left_slots reason (rq_before reason now till q) ! j = Some pj"
  using assms by (simp_all add: rq_before_def left_slots_def rq_update_def wake_due_def rq_wakeable_def)

lemma step_progress:
  assumes ok: "rq_ok q" and cur: "rq_slots q ! rq_current q \<noteq> None" and j: "j < length (rq_slots q)" "j \<noteq> rq_current q"
    and pj: "rq_slots q ! j = Some pj" "proc_state pj = PROCESS_STATE_READY"
    and q': "q' = fst (snd (sched_runqueue_step reason now till (q, sp)))"
  shows "running_slot (rq_slots q') (rq_current q')" "length (rq_slots q') = length (rq_slots q)"
    "rq_current q' = j \<or>
     (rq_slots q' ! j = Some pj \<and>
      ring_dist (length (rq_slots q)) (rq_current q') j < ring_dist (length (rq_slots q)) (rq_current q) j)"
proof -
  let ?b = "rq_before reason now till q" and ?n = "length (rq_slots q)" and ?c = "rq_current q"
  let ?left = "left_slots reason ?b"
  have c: "?c < ?n" using ok by (simp add: rq_ok_def)
  have left: "length ?left = ?n" by (simp add: left_slots_def)
  have b: "rq_slots ?b ! ?c \<noteq> None" using cur c by (auto simp: rq_before_def rq_update_def)
  then obtain p where p: "rq_slots ?b ! rq_current ?b = Some p" by auto
  have "runnable_slot ?left j"
    using before_keeps_ready(2) [OF pj j] j pj left by (simp add: runnable_slot_def sched_policy_process_runnable_def)
  then obtain k where k: "sched_policy_select_next_in_slots ?left ?c = Some k"
    using select_next_None [of ?c ?left] c left by fastforce
  then have run: "runnable_slot ?left k" and le: "ring_dist ?n ?c k \<le> ring_dist ?n ?c j"
    using select_next_Some [of ?c ?left k] c left \<open>runnable_slot ?left j\<close> by auto
  then have kn: "k < ?n" using left by (simp add: runnable_slot_def)
  have "ring_dist ?n ?c j \<noteq> ?n" using ring_dist_inj [of ?c ?n j ?c] c j by (auto simp: ring_dist_self)
  with ring_dist_bounds [OF c j(1)] le have "k \<noteq> ?c" by (auto simp: ring_dist_self)
  have re: "fst (sched_runqueue_reschedule reason ?b) = Some k" "rq_current (snd (sched_runqueue_reschedule reason ?b)) = k"
    "rq_slots (snd (sched_runqueue_reschedule reason ?b)) = ?left[k := map_option set_running (?left ! k)]"
    using reschedule_next [of ?b p reason k] c p k by simp_all
  have "q' = snd (sched_runqueue_reschedule reason ?b)"
    using arg_cong [OF step_eq [OF c cur, of reason now till sp], of "\<lambda>x. fst (snd x)"] re(1) \<open>k \<noteq> ?c\<close> q'
    by (auto simp: Let_def split: prod.splits if_splits)
  with re have q1: "rq_current q' = k" "rq_slots q' = ?left[k := map_option set_running (?left ! k)]" by auto
  obtain pk where "?left ! k = Some pk"
    using run by (auto simp: runnable_slot_def sched_policy_process_runnable_def split: option.splits)
  with q1 kn left show "running_slot (rq_slots q') (rq_current q')" by (simp add: running_slot_def set_running_def)
  show "length (rq_slots q') = ?n" using q1 left by simp
  show "rq_current q' = j \<or> (rq_slots q' ! j = Some pj \<and> ring_dist ?n (rq_current q') j < ring_dist ?n ?c j)"
  proof (cases "k = j")
    case False
    with le ring_dist_inj [OF c kn j(1)] have "ring_dist ?n ?c k < ring_dist ?n ?c j" by force
    with ring_dist_between [OF c kn j(1) False] q1 False before_keeps_ready(2) [OF pj j] show ?thesis by simp
  qed (use q1 in simp)
qed

text \<open>A sequence of steps, each with its reason, the time, and the wake-up time of a sleep.\<close>

primrec rq_run :: "(sched_runqueue_reason \<times> u32 \<times> u32) list \<Rightarrow> sched_runqueue \<times> sched_policy \<Rightarrow> sched_runqueue \<times> sched_policy" where
  "rq_run [] qs = qs"
| "rq_run (e # es) qs = rq_run es (snd (sched_runqueue_step (fst e) (fst (snd e)) (snd (snd e)) qs))"

lemma rq_run_reaches:
  assumes "rq_ok q" and "rq_slots q ! rq_current q \<noteq> None" and "j < length (rq_slots q)" and "j \<noteq> rq_current q"
    and "rq_slots q ! j = Some pj" and "proc_state pj = PROCESS_STATE_READY"
    and "ring_dist (length (rq_slots q)) (rq_current q) j \<le> length es"
  shows "\<exists>k \<le> ring_dist (length (rq_slots q)) (rq_current q) j.
           let q' = fst (rq_run (take k es) (q, sp)) in rq_current q' = j \<and> running_slot (rq_slots q') j"
  using assms
proof (induction es arbitrary: q sp)
  case Nil
  then show ?case using ring_dist_bounds [of "rq_current q" "length (rq_slots q)" j] by (auto simp: rq_ok_def)
next
  case (Cons e es)
  obtain reason now till where e: "e = (reason, now, till)" by (cases e) auto
  let ?n = "length (rq_slots q)"
  obtain x q1 sp1 where st: "sched_runqueue_step reason now till (q, sp) = (x, q1, sp1)" by (cases "sched_runqueue_step reason now till (q, sp)") auto
  then have q1: "q1 = fst (snd (sched_runqueue_step reason now till (q, sp)))" by simp
  note P = step_progress [OF Cons.prems(1-6) q1]
  have ok1: "rq_ok q1" using rq_ok_step(1) [OF Cons.prems(1), of reason now till sp] st by simp
  show ?case
  proof (cases "rq_current q1 = j")
    case True
    have "1 \<le> ring_dist ?n (rq_current q) j"
      using Cons.prems(1,3) ring_dist_bounds by (simp add: rq_ok_def)
    with True P(1) e st show ?thesis by (intro exI [of _ 1]) (simp add: Let_def)
  next
    case False
    with P have less: "rq_slots q1 ! j = Some pj" "ring_dist ?n (rq_current q1) j < ring_dist ?n (rq_current q) j" by auto
    have "\<exists>k \<le> ring_dist (length (rq_slots q1)) (rq_current q1) j.
        let q' = fst (rq_run (take k es) (q1, sp1)) in rq_current q' = j \<and> running_slot (rq_slots q') j"
      using ok1 P False less Cons.prems(3,6,7)
      by (intro Cons.IH) (auto simp: running_slot_def)
    then obtain k where k: "k \<le> ring_dist ?n (rq_current q1) j"
      "let q' = fst (rq_run (take k es) (q1, sp1)) in rq_current q' = j \<and> running_slot (rq_slots q') j"
      using P(2) by auto
    with less e st show ?thesis by (intro exI [of _ "Suc k"]) (auto simp: Let_def)
  qed
qed

end
