(* ===== verification/Sched_Time.thy ===== *)
theory Sched_Time
  imports Runqueue_Inv
begin

text \<open>
  Tick comparison and the cached earliest wake-up. Ticks are 32-bit and wrap; the comparison is
  right for ticks that lie within half the range after a common base, and there the shortcut
  of \<^verbatim>\<open>sched_policy_update_wake_times\<close> misses no sleeper.
\<close>

section \<open>Comparing ticks\<close>

definition in_window :: "u32 \<Rightarrow> u32 \<Rightarrow> bool" where
  "in_window b t \<longleftrightarrow> unat (t - b) < 2 ^ 31"

lemma u32_negative: "sint (x :: u32) < 0 \<longleftrightarrow> 2 ^ 31 \<le> unat x"
proof -
  have "sint x < 0 \<longleftrightarrow> bit x 31" using bit_last_iff [of x] by simp
  also have "bit x 31 \<longleftrightarrow> bit (unat x) 31" by (simp add: bit_unsigned_iff)
  also have "\<dots> \<longleftrightarrow> odd (unat x div 2 ^ 31)" by (simp add: bit_iff_odd)
  also have "\<dots> \<longleftrightarrow> 2 ^ 31 \<le> unat x"
  proof -
    have "unat x < 2 ^ 32" using unsigned_less [of x, where 'a = nat] by simp
    then have "unat x div 2 ^ 31 = (if 2 ^ 31 \<le> unat x then 1 else 0)" by (auto simp: div_nat_eqI)
    then show ?thesis by simp
  qed
  finally show ?thesis .
qed

lemma unat_sub_u32:
  "unat (x - y :: u32) = (if unat y \<le> unat x then unat x - unat y else unat x + 2 ^ 32 - unat y)"
  by (simp add: unat_sub_if_size word_size)

lemma tick_before_window:
  assumes "in_window b l" and "in_window b r"
  shows "sched_policy_tick_before l r \<longleftrightarrow> unat (l - b) < unat (r - b)"
proof -
  let ?x = "l - b" and ?y = "r - b"
  have "l - r = ?x - ?y" by simp
  then have "sched_policy_tick_before l r \<longleftrightarrow> 2 ^ 31 \<le> unat (?x - ?y)"
    unfolding sched_policy_tick_before_def u32_negative by metis
  then show ?thesis using assms unat_sub_u32 [of ?x ?y] unfolding in_window_def by (auto split: if_splits)
qed

section \<open>The cached earliest wake-up\<close>

definition sleeper :: "process \<Rightarrow> process option list \<Rightarrow> process \<Rightarrow> bool" where
  "sleeper root runtimes p \<longleftrightarrow>
     proc_state p = PROCESS_STATE_SLEEPING \<and> (p = root \<and> image_kind root \<noteq> PROCESS_IMAGE_NONE \<or> Some p \<in> set runtimes)"

definition not_after :: "u32 \<Rightarrow> u32 \<Rightarrow> u32 \<Rightarrow> bool" where
  "not_after b t u \<longleftrightarrow> t \<noteq> 0 \<and> in_window b t \<and> unat (t - b) \<le> unat (u - b)"

definition wake_inv :: "u32 \<Rightarrow> sched_policy \<Rightarrow> process \<Rightarrow> process option list \<Rightarrow> bool" where
  "wake_inv b sp root runtimes \<longleftrightarrow>
     (g_sched_next_wake_tick sp = 0 \<or> in_window b (g_sched_next_wake_tick sp)) \<and>
     (\<forall>p. sleeper root runtimes p \<longrightarrow>
        wake_tick p \<noteq> 0 \<and> in_window b (wake_tick p) \<and> not_after b (g_sched_next_wake_tick sp) (wake_tick p))"

lemma not_after_trans: "not_after b t u \<Longrightarrow> not_after b u v \<Longrightarrow> not_after b t v"
  by (auto simp: not_after_def)

abbreviation asleep :: "process \<Rightarrow> bool" where
  "asleep p \<equiv> proc_state p = PROCESS_STATE_SLEEPING"

lemma wake_loop_next:
  assumes "in_window b now" and "nw = 0 \<or> in_window b nw"
    and "\<And>p. Some p \<in> set slots \<Longrightarrow> asleep p \<Longrightarrow> wake_tick p \<noteq> 0 \<and> in_window b (wake_tick p)"
  shows "let nw' = snd (snd (sched_policy_wake_loop asleep now slots woke nw)) in
     (nw' = 0 \<or> in_window b nw') \<and> (nw \<noteq> 0 \<longrightarrow> not_after b nw' nw) \<and>
     (\<forall>p. Some p \<in> set slots \<and> asleep p \<and> sched_policy_tick_before now (wake_tick p) \<longrightarrow> not_after b nw' (wake_tick p))"
  using assms
proof (induction slots arbitrary: woke nw)
  case Nil
  then show ?case by (auto simp: not_after_def Let_def)
next
  case (Cons q slots)
  show ?case
  proof (cases "\<exists>p. q = Some p \<and> asleep p \<and> sched_policy_tick_before now (wake_tick p)")
    case False
    have "let nw' = snd (snd (sched_policy_wake_loop asleep now slots w nw)) in
     (nw' = 0 \<or> in_window b nw') \<and> (nw \<noteq> 0 \<longrightarrow> not_after b nw' nw) \<and>
     (\<forall>p. Some p \<in> set slots \<and> asleep p \<and> sched_policy_tick_before now (wake_tick p) \<longrightarrow> not_after b nw' (wake_tick p))" for w
      using Cons.prems by (intro Cons.IH) auto
    with False show ?thesis by (auto simp: Let_def split: option.split)
  next
    case True
    then obtain p where p: "q = Some p" "asleep p" "sched_policy_tick_before now (wake_tick p)" by blast
    with Cons.prems(3) have t: "wake_tick p \<noteq> 0" "in_window b (wake_tick p)" by auto
    define nw1 where "nw1 = (if nw = 0 \<or> sched_policy_tick_before (wake_tick p) nw then wake_tick p else nw)"
    have nw1: "nw1 = 0 \<or> in_window b nw1" "not_after b nw1 (wake_tick p)" "nw \<noteq> 0 \<longrightarrow> not_after b nw1 nw"
      using t Cons.prems(2) tick_before_window [OF t(2), of nw] by (auto simp: nw1_def not_after_def)
    have "let nw' = snd (snd (sched_policy_wake_loop asleep now slots woke nw1)) in
     (nw' = 0 \<or> in_window b nw') \<and> (nw1 \<noteq> 0 \<longrightarrow> not_after b nw' nw1) \<and>
     (\<forall>p. Some p \<in> set slots \<and> asleep p \<and> sched_policy_tick_before now (wake_tick p) \<longrightarrow> not_after b nw' (wake_tick p))"
      using Cons.prems nw1(1) by (intro Cons.IH) auto
    moreover have "snd (snd (sched_policy_wake_loop asleep now (q # slots) woke nw)) =
        snd (snd (sched_policy_wake_loop asleep now slots woke nw1))"
      using p by (simp add: nw1_def)
    moreover have "nw1 \<noteq> 0" using nw1(2) by (simp add: not_after_def)
    ultimately show ?thesis using nw1 p not_after_trans [of b _ nw1] by (simp add: Let_def) blast
  qed
qed

lemma no_sleeper_due:
  assumes inv: "wake_inv b sp root runtimes" and now: "in_window b now"
    and early: "g_sched_next_wake_tick sp = 0 \<or> sched_policy_tick_before now (g_sched_next_wake_tick sp)"
    and p: "sleeper root runtimes p"
  shows "sched_policy_tick_before now (wake_tick p)"
proof -
  from inv p have w: "wake_tick p \<noteq> 0" "in_window b (wake_tick p)" "not_after b (g_sched_next_wake_tick sp) (wake_tick p)"
    by (auto simp: wake_inv_def)
  with early have "sched_policy_tick_before now (g_sched_next_wake_tick sp)" by (auto simp: not_after_def)
  with w now show ?thesis
    by (auto simp: not_after_def tick_before_window [OF now])
qed

definition woken_root :: "u32 \<Rightarrow> process \<Rightarrow> process" where
  "woken_root now root = (if image_kind root \<noteq> PROCESS_IMAGE_NONE then wake_due asleep now root else root)"

abbreviation woken_runtimes :: "u32 \<Rightarrow> process option list \<Rightarrow> process option list" where
  "woken_runtimes now runtimes \<equiv> map (map_option (wake_due asleep now)) runtimes"

lemma wake_due_asleep:
  "asleep (wake_due asleep now p) \<longleftrightarrow> asleep p \<and> sched_policy_tick_before now (wake_tick p)"
  "asleep (wake_due asleep now p) \<Longrightarrow> wake_due asleep now p = p"
  by (auto simp: wake_due_def wake_process_def)

lemma sleeper_woken:
  assumes "sleeper (woken_root now root) (woken_runtimes now runtimes) p"
  shows "sleeper root runtimes p \<and> sched_policy_tick_before now (wake_tick p)"
proof -
  have "image_kind (woken_root now root) = image_kind root" by (simp add: woken_root_def wake_due_def wake_process_def)
  with assms consider "p = wake_due asleep now root" "image_kind root \<noteq> PROCESS_IMAGE_NONE" "asleep p"
    | r where "Some r \<in> set runtimes" "p = wake_due asleep now r" "asleep p"
    by (auto simp: sleeper_def woken_root_def map_option_case split: option.splits if_splits)
  then show ?thesis
  proof cases
    case 1
    with wake_due_asleep [of now root] show ?thesis by (auto simp: sleeper_def)
  next
    case (2 r)
    with wake_due_asleep [of now r] show ?thesis by (auto simp: sleeper_def)
  qed
qed

lemma wake_due_future: "(asleep p \<Longrightarrow> sched_policy_tick_before now (wake_tick p)) \<Longrightarrow> wake_due asleep now p = p"
  by (auto simp: wake_due_def)

lemma update_wake_times_exact:
  assumes inv: "wake_inv b sp root runtimes" and now: "in_window b now"
    and up: "sched_policy_update_wake_times now sp root runtimes = (woke, sp', root', runtimes')"
  shows "root' = woken_root now root" "runtimes' = woken_runtimes now runtimes" "wake_inv b sp' root' runtimes'"
proof -
  let ?next = "g_sched_next_wake_tick sp"
  have "root' = woken_root now root \<and> runtimes' = woken_runtimes now runtimes \<and> wake_inv b sp' root' runtimes'"
  proof (cases "?next = 0 \<or> sched_policy_tick_before now ?next")
    case True
    with up have eqs: "sp' = sp" "root' = root" "runtimes' = runtimes" by (simp_all add: sched_policy_update_wake_times_def)
    have future: "sleeper root runtimes p \<Longrightarrow> sched_policy_tick_before now (wake_tick p)" for p
      using no_sleeper_due [OF inv now True] .
    have "woken_root now root = root"
      using future [of root] by (auto simp: woken_root_def sleeper_def intro: wake_due_future)
    moreover have "map_option (wake_due asleep now) q = q" if "q \<in> set runtimes" for q
    proof (cases q rule: option.exhaust)
      case (Some p)
      with that future [of p] show ?thesis by (auto simp: sleeper_def intro: wake_due_future)
    qed simp
    ultimately show ?thesis using inv eqs by (simp add: map_idI)
  next
    case False
    let ?a = "image_kind root \<noteq> PROCESS_IMAGE_NONE \<and> asleep root"
    let ?e = "?a \<and> \<not> sched_policy_tick_before now (wake_tick root)"
    define nw where "nw = (if ?a \<and> \<not> ?e then wake_tick root else 0)"
    have sl: "wake_tick p \<noteq> 0 \<and> in_window b (wake_tick p)" if "sleeper root runtimes p" for p
      using inv that by (simp add: wake_inv_def)
    have nw: "nw = 0 \<or> in_window b nw" using sl [of root] by (auto simp: nw_def sleeper_def)
    define loop where "loop = sched_policy_wake_loop asleep now runtimes (if ?e then 1 else 0) nw"
    have L: "(snd (snd loop) = 0 \<or> in_window b (snd (snd loop))) \<and> (nw \<noteq> 0 \<longrightarrow> not_after b (snd (snd loop)) nw) \<and>
        (\<forall>p. Some p \<in> set runtimes \<and> asleep p \<and> sched_policy_tick_before now (wake_tick p) \<longrightarrow>
             not_after b (snd (snd loop)) (wake_tick p))"
      using wake_loop_next [OF now nw, of runtimes] sl unfolding loop_def sleeper_def Let_def by simp
    have root': "root' = woken_root now root" and rts: "runtimes' = woken_runtimes now runtimes"
      and sp': "g_sched_next_wake_tick sp' = snd (snd loop)"
      using up False wake_loop_slots [of asleep now runtimes "if ?e then 1 else 0" nw]
      by (auto simp: sched_policy_update_wake_times_def woken_root_def wake_due_def loop_def nw_def Let_def split: prod.splits if_splits)
    have "not_after b (snd (snd loop)) (wake_tick p)" if "sleeper root runtimes p" "sched_policy_tick_before now (wake_tick p)" for p
    proof (cases "Some p \<in> set runtimes")
      case True
      with L that show ?thesis by (simp add: sleeper_def)
    next
      case False
      with that sl [OF that(1)] have "nw = wake_tick p" "nw \<noteq> 0" by (auto simp: sleeper_def nw_def)
      with L show ?thesis by simp
    qed
    then have "wake_inv b sp' root' runtimes'"
      unfolding wake_inv_def root' rts sp' using L sl sleeper_woken [of now root runtimes] by blast
    with root' rts show ?thesis by simp
  qed
  then show "root' = woken_root now root" "runtimes' = woken_runtimes now runtimes" "wake_inv b sp' root' runtimes'" by auto
qed

lemma wake_inv_note_sleep:
  assumes "wake_inv b sp root runtimes" and "tick \<noteq> 0" and "in_window b tick"
  shows "wake_inv b (sched_policy_note_sleep tick sp) root runtimes"
    "not_after b (g_sched_next_wake_tick (sched_policy_note_sleep tick sp)) tick"
proof -
  let ?n = "g_sched_next_wake_tick sp" and ?n' = "g_sched_next_wake_tick (sched_policy_note_sleep tick sp)"
  have w: "?n = 0 \<or> in_window b ?n" using assms(1) by (simp add: wake_inv_def)
  then have n': "not_after b ?n' tick" "in_window b ?n'" "?n \<noteq> 0 \<longrightarrow> not_after b ?n' ?n"
    using assms(2,3) tick_before_window [OF assms(3), of ?n] by (auto simp: sched_policy_note_sleep_def not_after_def)
  then show "not_after b ?n' tick" by simp
  show "wake_inv b (sched_policy_note_sleep tick sp) root runtimes"
    using assms(1) n' not_after_trans [of b ?n' ?n] unfolding wake_inv_def by (metis not_after_def)
qed

end
