(* ===== verification/Sched_Props.thy ===== *)
theory Sched_Props
  imports Sched_Time Process_Props
begin

text \<open>
  Properties of the scheduler: the choice of the next process, the single running process, the
  absence of starvation, the exactness of the cached wake-up time, and the turns of the root
  session and the job runtimes.
\<close>

section \<open>Slots to evaluate on\<close>

definition demo_ready :: process where
  "demo_ready = demo_process\<lparr>proc_state := PROCESS_STATE_READY\<rparr>"

definition demo_policy :: sched_policy where
  "demo_policy = \<lparr>g_sched_mode = SCHED_MODE_INTERACTIVE, g_sched_next_slot = 0, g_sched_root_session_turn = True,
     g_sched_excluded_pid = 0, g_sched_next_wake_tick = 0\<rparr>"

definition demo_rq :: sched_runqueue where
  "demo_rq = \<lparr>rq_slots = [Some demo_process, None, Some demo_ready], rq_current = 0, rq_active = 2, rq_completed = 0,
     rq_switches = 0\<rparr>"

lemma demo_states [simp]: "proc_state demo_ready = PROCESS_STATE_READY" "proc_state demo_process = PROCESS_STATE_RUNNING"
  by (simp_all add: demo_ready_def demo_process_def)

lemma demo_runnable [simp]: "runnable_slot [Some demo_process, None, Some demo_ready] j \<longleftrightarrow> j = 0 \<or> j = 2"
  by (auto simp: runnable_slot_def sched_policy_process_runnable_def less_Suc_eq numeral_3_eq_3 nth_Cons split: nat.splits)

lemma demo_rq_ok: "rq_ok demo_rq"
  by (auto simp: rq_ok_def demo_rq_def running_slot_def less_Suc_eq numeral_3_eq_3 nth_Cons split: nat.splits)

section \<open>Properties\<close>

text \<open>
  C28. The next process is the runnable one at the least cyclic distance after the current
  slot (the current process itself comes last), and there is none exactly when no slot is
  runnable.
\<close>

theorem select_next_round_robin:
  assumes "c < length slots"
  shows "case sched_policy_select_next_in_slots slots c of
     Some j \<Rightarrow> runnable_slot slots j \<and>
       (\<forall>k. runnable_slot slots k \<longrightarrow> ring_dist (length slots) c j \<le> ring_dist (length slots) c k)
   | None \<Rightarrow> \<forall>k. \<not> runnable_slot slots k"
  using select_next_Some [OF assms] select_next_None [OF assms] by (simp split: option.split)

theorem select_next_round_robin_witness:
  "sched_policy_select_next_in_slots [Some demo_process, None, Some demo_ready] 0 = Some 2"
  using select_next_round_robin [of 0 "[Some demo_process, None, Some demo_ready]"]
  by (auto simp: ring_dist_def split: option.splits)

text \<open>
  Steps of the run queue, and of the rest of the kernel on its slots: a process that does not
  run is created, woken, stopped, killed or reaped.
\<close>

inductive rq_reachable :: "sched_runqueue \<times> sched_policy \<Rightarrow> bool" where
  rq_start: "\<forall>j. \<not> running_slot (rq_slots q) j \<Longrightarrow> sched_runqueue_start q slot = (True, q') \<Longrightarrow> rq_reachable (q', sp)"
| rq_step: "rq_reachable qs \<Longrightarrow> sched_runqueue_step reason now till qs = (r, qs') \<Longrightarrow> rq_reachable qs'"
| rq_other: "rq_reachable (q, sp) \<Longrightarrow> j < length (rq_slots q) \<Longrightarrow> \<not> running_slot (rq_slots q) j \<Longrightarrow>
     (\<forall>p. e = Some p \<longrightarrow> proc_state p \<noteq> PROCESS_STATE_RUNNING) \<Longrightarrow>
     rq_reachable (q\<lparr>rq_slots := (rq_slots q)[j := e]\<rparr>, sp)"
| rq_account: "rq_reachable (q, sp) \<Longrightarrow> sched_runqueue_activate q slot = (ok, q') \<Longrightarrow> rq_reachable (q', sp)"

lemma rq_reachable_ok: "rq_reachable qs \<Longrightarrow> rq_ok (fst qs)"
proof (induction rule: rq_reachable.induct)
  case (rq_start q slot q' sp)
  then show ?case
    by (auto simp: sched_runqueue_start_def rq_ok_def rq_update_def running_slot_update split: if_splits)
next
  case (rq_step qs reason now till r qs')
  then show ?case using rq_ok_step(1) [of "fst qs" reason now till "snd qs"] by simp
next
  case (rq_other q sp j e)
  then show ?case by (auto simp: rq_ok_def running_slot_update)
next
  case (rq_account q sp slot ok q')
  then show ?case by (auto simp: sched_runqueue_activate_def rq_ok_def split: if_splits)
qed

text \<open>
  C29. In every reachable state of the run queue at most one process is running, and it is the
  current one.
\<close>

theorem single_running_process:
  assumes "rq_reachable (q, sp)" and "running_slot (rq_slots q) j"
  shows "j = rq_current q \<and> sched_runqueue_current q = rq_slots q ! j"
  using rq_reachable_ok [OF assms(1)] assms(2) by (auto simp: rq_ok_def sched_runqueue_current_def)

lemma demo_rq_reachable: "rq_reachable (demo_rq, demo_policy)"
proof (rule rq_start)
  let ?q = "demo_rq\<lparr>rq_slots := [Some (demo_process\<lparr>proc_state := PROCESS_STATE_READY\<rparr>), None, Some demo_ready]\<rparr>"
  show "\<forall>j. \<not> running_slot (rq_slots ?q) j"
    by (auto simp: running_slot_def less_Suc_eq numeral_3_eq_3 nth_Cons split: nat.splits)
  show "sched_runqueue_start ?q 0 = (True, demo_rq)"
    by (simp add: sched_runqueue_start_def sched_runqueue_entry_valid_def sched_policy_process_runnable_def rq_update_def demo_rq_def)
qed

theorem single_running_process_witness:
  "running_slot (rq_slots demo_rq) 0 \<and> sched_runqueue_current demo_rq = Some demo_process"
proof -
  have "running_slot (rq_slots demo_rq) 0" by (simp add: running_slot_def demo_rq_def)
  with single_running_process [OF demo_rq_reachable this] show ?thesis by (simp add: demo_rq_def)
qed

text \<open>
  C30. No process starves: whatever the running processes do (be preempted, yield, block, sleep or
  exit), a ready process is running after at most as many steps as its cyclic distance from
  the current slot, hence within one round.
\<close>

theorem ready_process_runs:
  assumes "rq_reachable (q, sp)" and "rq_slots q ! rq_current q \<noteq> None" and "j < length (rq_slots q)"
    and "rq_slots q ! j = Some pj" and "proc_state pj = PROCESS_STATE_READY" and "j \<noteq> rq_current q"
    and "length (rq_slots q) \<le> length es"
  shows "\<exists>k \<le> ring_dist (length (rq_slots q)) (rq_current q) j. k \<le> length (rq_slots q) \<and>
           (let q' = fst (rq_run (take k es) (q, sp)) in rq_current q' = j \<and> running_slot (rq_slots q') j)"
proof -
  have ok: "rq_ok q" using rq_reachable_ok [OF assms(1)] by simp
  then have "ring_dist (length (rq_slots q)) (rq_current q) j \<le> length (rq_slots q)"
    using ring_dist_bounds assms(3) by (simp add: rq_ok_def)
  with rq_run_reaches [OF ok assms(2,3,6,4,5), of es sp] assms(7) show ?thesis by (meson le_trans)
qed

theorem ready_process_runs_witness:
  "\<exists>k \<le> 2. rq_current (fst (rq_run (take k (replicate 3 (SCHED_RUNQUEUE_YIELD, 0, 0))) (demo_rq, demo_policy))) = 2"
  using ready_process_runs [OF demo_rq_reachable, of 2 demo_ready "replicate 3 (SCHED_RUNQUEUE_YIELD, 0, 0)"]
  by (auto simp: demo_rq_def ring_dist_def Let_def)

text \<open>
  C31. The cached earliest wake-up is exact: as long as it is not later than any sleeper's tick,
  and the ticks lie within half the range of a common base, \<^verbatim>\<open>sched_policy_update_wake_times\<close>
  has the effect of examining every process: exactly the sleepers whose tick has been
  reached become ready. The cache is again not later than any remaining sleeper.
\<close>

theorem update_wake_times_equiv:
  assumes "wake_inv b sp root runtimes" and "in_window b now"
  shows "case sched_policy_update_wake_times now sp root runtimes of (woke, sp', root', runtimes') \<Rightarrow>
     root' = woken_root now root \<and> runtimes' = woken_runtimes now runtimes \<and> wake_inv b sp' root' runtimes'"
  using update_wake_times_exact [OF assms] by (auto split: prod.split)

theorem update_wake_times_equiv_witness:
  "let root = demo_process\<lparr>proc_state := PROCESS_STATE_SLEEPING, wake_tick := 5\<rparr>;
       sp = demo_policy\<lparr>g_sched_next_wake_tick := 5\<rparr>
   in proc_state (fst (snd (snd (sched_policy_update_wake_times 6 sp root [])))) = PROCESS_STATE_READY"
proof -
  let ?root = "demo_process\<lparr>proc_state := PROCESS_STATE_SLEEPING, wake_tick := 5\<rparr>"
  let ?sp = "demo_policy\<lparr>g_sched_next_wake_tick := 5\<rparr>"
  have "wake_inv 0 ?sp ?root []" by (auto simp: wake_inv_def sleeper_def not_after_def in_window_def)
  moreover have "in_window 0 6" by (simp add: in_window_def)
  moreover have "woken_root 6 ?root = wake_process ?root"
  proof -
    have "\<not> sched_policy_tick_before 6 5" by (simp add: sched_policy_tick_before_def)
    moreover have "image_kind demo_process \<noteq> PROCESS_IMAGE_NONE" by (simp add: demo_process_def)
    ultimately show ?thesis by (simp add: woken_root_def wake_due_def)
  qed
  ultimately show ?thesis
    using update_wake_times_equiv [of 0 ?sp ?root "[]" 6] by (auto simp: Let_def wake_process_def split: prod.splits)
qed

lemma select_job_Some:
  assumes "slot < USER_PROCESS_LIMIT" and "g_sched_next_slot sp < USER_PROCESS_LIMIT"
    and "sched_policy_eligible pids sp (runtimes ! slot)"
  obtains s sp1 where "sched_policy_select_job_runtime pids runtimes sp = (Some s, sp1)" "s < USER_PROCESS_LIMIT"
    "sched_policy_eligible pids sp (runtimes ! s)" "sp1 = sp\<lparr>g_sched_next_slot := (s + 1) mod USER_PROCESS_LIMIT\<rparr>"
proof -
  let ?P = "\<lambda>pass. sched_policy_eligible pids sp (runtimes ! ((g_sched_next_slot sp + pass) mod USER_PROCESS_LIMIT))"
  let ?pass = "(slot + USER_PROCESS_LIMIT - g_sched_next_slot sp) mod USER_PROCESS_LIMIT"
  have "(g_sched_next_slot sp + ?pass) mod USER_PROCESS_LIMIT = slot"
    using assms(1,2) by (simp add: mod_add_right_eq)
  then have "?P ?pass" "?pass < USER_PROCESS_LIMIT" using assms by (simp_all add: USER_PROCESS_LIMIT_def)
  then have "first_index ?P 0 USER_PROCESS_LIMIT \<noteq> None" by (auto simp: first_index_None_iff)
  then obtain k where k: "first_index ?P 0 USER_PROCESS_LIMIT = Some k" by blast
  then have "?P k" by (simp add: first_index_Some_iff)
  with k that show ?thesis by (simp add: sched_policy_select_job_runtime_def Let_def USER_PROCESS_LIMIT_def)
qed

lemma eligible_cong: "g_sched_excluded_pid sp' = g_sched_excluded_pid sp \<Longrightarrow>
    sched_policy_eligible pids sp' r = sched_policy_eligible pids sp r \<and> sched_policy_pid_allowed pids sp' = sched_policy_pid_allowed pids sp"
  by (simp add: sched_policy_eligible_def sched_policy_pid_allowed_def fun_eq_iff split: option.split)

text \<open>
  C32. In interactive mode neither the root session nor the jobs are left out: while both the
  root session and some job can run, any two consecutive choices are the root session and
  an eligible job, in one order or the other.
\<close>

theorem select_next_alternates:
  assumes "g_sched_mode sp = SCHED_MODE_INTERACTIVE" and "g_sched_next_slot sp < USER_PROCESS_LIMIT"
    and "proc_state root = PROCESS_STATE_READY" and "sched_policy_pid_allowed pids sp root"
    and "slot < USER_PROCESS_LIMIT" and "sched_policy_eligible pids sp (runtimes ! slot)"
  shows "let (c1, sp1) = sched_policy_select_next pids root runtimes sp;
             (c2, sp2) = sched_policy_select_next pids root runtimes sp1
         in \<exists>s < USER_PROCESS_LIMIT. sched_policy_eligible pids sp (runtimes ! s) \<and>
              (c1 = RootSession \<and> c2 = JobRuntime s \<or> c1 = JobRuntime s \<and> c2 = RootSession)"
proof (cases "g_sched_root_session_turn sp")
  case True
  let ?sp1 = "sp\<lparr>g_sched_root_session_turn := False\<rparr>"
  have e: "sched_policy_eligible pids ?sp1 r = sched_policy_eligible pids sp r" for r using eligible_cong [of ?sp1 sp] by simp
  have "g_sched_next_slot ?sp1 < USER_PROCESS_LIMIT" "sched_policy_eligible pids ?sp1 (runtimes ! slot)"
    using assms(2,6) e by simp_all
  from select_job_Some [OF assms(5) this]
  obtain s sp2 where "sched_policy_select_job_runtime pids runtimes ?sp1 = (Some s, sp2)" "s < USER_PROCESS_LIMIT"
    "sched_policy_eligible pids sp (runtimes ! s)"
    unfolding e by metis
  with True assms show ?thesis by (auto simp: sched_policy_select_next_def Let_def)
next
  case False
  obtain s sp1 where s: "sched_policy_select_job_runtime pids runtimes sp = (Some s, sp1)" "s < USER_PROCESS_LIMIT"
    "sched_policy_eligible pids sp (runtimes ! s)" "sp1 = sp\<lparr>g_sched_next_slot := (s + 1) mod USER_PROCESS_LIMIT\<rparr>"
    using select_job_Some [OF assms(5,2,6)] by blast
  let ?sp1 = "sp1\<lparr>g_sched_root_session_turn := True\<rparr>"
  have "sched_policy_pid_allowed pids ?sp1 root" using eligible_cong [of ?sp1 sp] assms(4) s(4) by simp
  with False assms s show ?thesis by (auto simp: sched_policy_select_next_def Let_def)
qed

theorem select_next_alternates_witness:
  "let (c1, sp1) = sched_policy_select_next [] demo_ready (replicate 32 (Some demo_ready)) demo_policy;
       (c2, sp2) = sched_policy_select_next [] demo_ready (replicate 32 (Some demo_ready)) sp1
   in \<exists>s < 32. (c1 = RootSession \<and> c2 = JobRuntime s \<or> c1 = JobRuntime s \<and> c2 = RootSession)"
proof -
  have ok: "sched_policy_pid_allowed [] demo_policy demo_ready"
    by (simp add: sched_policy_pid_allowed_def sched_policy_pid_active_on_kernel_stack_def demo_policy_def)
  then have el: "sched_policy_eligible [] demo_policy (replicate 32 (Some demo_ready) ! 0)"
    by (simp add: sched_policy_eligible_def)
  show ?thesis
    using select_next_alternates [OF _ _ _ ok _ el] by (auto simp: demo_policy_def USER_PROCESS_LIMIT_def Let_def split: prod.splits)
qed

end
