(* ===== verification/Phys_Mem.thy ===== *)
theory Phys_Mem
  imports Pmm_Memory
begin

text \<open>
  Physical memory as the kernel sees it through its direct map: a function from physical
  addresses to bytes. A page-table entry is a little-endian 64-bit word of a page; the facts
  here say which bytes a write reaches, so that the page-table theories can treat a page as
  an array of 512 entries.
\<close>

type_synonym phys_memory = "u64 \<Rightarrow> u8"

section \<open>Pages and entries\<close>

definition page_of :: "u64 \<Rightarrow> u64" where
  "page_of a = a AND NOT 0xfff"

definition load64 :: "phys_memory \<Rightarrow> u64 \<Rightarrow> u64" where
  "load64 m a = foldr (\<lambda>k v. push_bit (8 * k) (ucast (m (a + of_nat k))) OR v) [0..<8] 0"

definition store64 :: "phys_memory \<Rightarrow> u64 \<Rightarrow> u64 \<Rightarrow> phys_memory" where
  "store64 m a v = (\<lambda>x. if x - a < 8 then ucast (drop_bit (8 * unat (x - a)) v) else m x)"

definition pt_get :: "phys_memory \<Rightarrow> u64 \<Rightarrow> nat \<Rightarrow> u64" where
  "pt_get m t i = load64 m (t + 8 * of_nat i)"

definition pt_set :: "phys_memory \<Rightarrow> u64 \<Rightarrow> nat \<Rightarrow> u64 \<Rightarrow> phys_memory" where
  "pt_set m t i v = store64 m (t + 8 * of_nat i) v"

definition page_zero :: "phys_memory \<Rightarrow> u64 \<Rightarrow> phys_memory" where
  "page_zero m p = (\<lambda>x. if x - p < 4096 then 0 else m x)"

definition page_copy :: "phys_memory \<Rightarrow> u64 \<Rightarrow> u64 \<Rightarrow> phys_memory" where
  "page_copy m dst src = (\<lambda>x. if x - dst < 4096 then m (src + (x - dst)) else m x)"

section \<open>Addresses of a page\<close>


lemma unat_page_of: "unat (page_of a) = unat a - unat a mod 4096"
  using unat_and_not_low [of a] by (simp add: page_of_def)

lemma page_of_offset:
  assumes "page_aligned p" and "k < 4096"
  shows "page_of (p + of_nat k) = p" "unat (p + of_nat k) = unat p + k"
proof -
  from assms have p: "unat p mod 4096 = 0" by (simp add: page_aligned_mod)
  have "unat p < 2 ^ 64" using unsigned_less [of p] by simp
  moreover from p obtain q where "unat p = 4096 * q" by (auto simp: mod_eq_0_iff_dvd elim: dvdE)
  ultimately have lt: "unat p + k < 2 ^ 64" using assms(2) by simp
  have k: "unat (of_nat k :: u64) = k" using assms(2) by (simp add: unat_of_nat)
  show u: "unat (p + of_nat k) = unat p + k"
    using lt k by (simp add: unat_word_ariths)
  show "page_of (p + of_nat k) = p"
    using p assms(2) by (simp add: word_unat_eq_iff unat_page_of u mod_add_eq [symmetric, of "unat p"])
qed

lemma page_of_aligned [simp]: "page_aligned (page_of a)"
  by (simp add: page_aligned_mod unat_page_of minus_mod_eq_div_mult)

lemma page_of_id [simp]: "page_aligned p \<Longrightarrow> page_of p = p"
  using page_of_offset [of p 0] by simp

lemma in_page_iff:
  assumes "page_aligned p"
  shows "x - p < 4096 \<longleftrightarrow> page_of x = p"
proof
  assume "x - p < 4096"
  then have "unat (x - p) < 4096" by (simp add: word_less_nat_alt)
  with page_of_offset [OF assms, of "unat (x - p)"] show "page_of x = p" by simp
next
  assume "page_of x = p"
  then have "unat p = unat x - unat x mod 4096" using unat_page_of [of x] by simp
  moreover have "p \<le> x" using calculation by (simp add: word_le_nat_alt)
  ultimately show "x - p < 4096" by (simp add: word_less_nat_alt unat_sub)
qed

section \<open>Entries\<close>

lemma entry_addr:
  assumes "page_aligned t" and "i < 512" and "k < 8"
  shows "unat (t + 8 * of_nat i + of_nat k) = unat t + 8 * i + k"
    "page_of (t + 8 * of_nat i + of_nat k) = t"
proof -
  have "t + 8 * of_nat i + of_nat k = t + of_nat (8 * i + k)" by simp
  with page_of_offset [OF assms(1), of "8 * i + k"] assms
  show "unat (t + 8 * of_nat i + of_nat k) = unat t + 8 * i + k"
    "page_of (t + 8 * of_nat i + of_nat k) = t" by (simp_all add: add.assoc)
qed

lemma entry_addr_eq_iff:
  assumes "page_aligned t" "i < 512" "k < 8" and "page_aligned u" "j < 512" "l < 8"
  shows "t + 8 * of_nat i + of_nat k = u + 8 * of_nat j + of_nat l \<longleftrightarrow> t = u \<and> i = j \<and> k = l"
proof
  assume eq: "t + 8 * of_nat i + of_nat k = u + 8 * of_nat j + of_nat l"
  with entry_addr(2) [OF assms(1-3)] entry_addr(2) [OF assms(4-6)] have "t = u" by simp
  moreover from eq entry_addr(1) [OF assms(1-3)] entry_addr(1) [OF assms(4-6)]
  have "unat t + 8 * i + k = unat u + 8 * j + l" by simp
  ultimately have "8 * i + k = 8 * j + l" by simp
  with assms(3,6) \<open>t = u\<close> show "t = u \<and> i = j \<and> k = l" by presburger
qed simp

lemma bit_join_bytes:
  "bit (foldr (\<lambda>k v. push_bit (8 * k) (ucast (f k :: u8)) OR v) ks (0 :: u64)) n \<longleftrightarrow>
   n < 64 \<and> (\<exists>k \<in> set ks. 8 * k \<le> n \<and> bit (f k) (n - 8 * k))"
  by (induction ks) (auto simp: bit_or_iff bit_push_bit_iff bit_ucast_iff)

lemma bit_load64:
  "bit (load64 m a) n \<longleftrightarrow> n < 64 \<and> bit (m (a + of_nat (n div 8))) (n mod 8)"
proof -
  have low: "n - 8 * (n div 8) = n mod 8" by (simp add: minus_mult_div_eq_mod)
  have "k = n div 8" if "8 * k \<le> n" "bit (f k :: u8) (n - 8 * k)" for k f
    using that bit_imp_le_length [of "f k" "n - 8 * k"] by simp
  then have "(\<exists>k \<in> set [0..<8]. 8 * k \<le> n \<and> bit (f k :: u8) (n - 8 * k)) \<longleftrightarrow>
      n div 8 < 8 \<and> bit (f (n div 8)) (n - 8 * (n div 8))" for f
    by (simp only: set_upt atLeast0LessThan lessThan_iff Bex_def) (metis mult_div_mod_eq le_add1)
  then show ?thesis
    unfolding load64_def bit_join_bytes low by (simp add: div_less_iff_less_mult)
qed

lemma load64_cong:
  assumes "\<And>k. k < 8 \<Longrightarrow> m (a + of_nat k) = m' (a + of_nat k)"
  shows "load64 m a = load64 m' a"
  by (rule bit_eqI) (auto simp: bit_load64 assms div_less_iff_less_mult)

lemma load64_store64: "load64 (store64 m a v) a = v"
proof (rule bit_eqI)
  fix n
  have "unat (of_nat (n div 8) :: u64) = n div 8" if "n < 64"
    using that by (simp add: unat_of_nat)
  then show "bit (load64 (store64 m a v) a) n \<longleftrightarrow> bit v n"
    using bit_imp_le_length [of v n]
    by (auto simp: bit_load64 store64_def word_less_nat_alt bit_ucast_iff bit_drop_bit_eq div_less_iff_less_mult)
qed

lemma store64_outside:
  assumes "page_aligned t" and "i < 512" and "page_of x \<noteq> t"
  shows "store64 m (t + 8 * of_nat i) v x = m x"
proof -
  have "\<not> x - (t + 8 * of_nat i) < 8"
  proof
    assume "x - (t + 8 * of_nat i) < 8"
    then have "unat (x - (t + 8 * of_nat i)) < 8" by (simp add: word_less_nat_alt)
    from entry_addr(2) [OF assms(1,2) this] assms(3) show False by simp
  qed
  then show ?thesis by (simp add: store64_def)
qed

lemma pt_get_set:
  assumes "page_aligned t" "i < 512" and "page_aligned u" "j < 512"
  shows "pt_get (pt_set m t i v) u j = (if t = u \<and> i = j then v else pt_get m u j)"
proof (cases "t = u \<and> i = j")
  case True
  then show ?thesis by (simp add: pt_get_def pt_set_def load64_store64)
next
  case False
  have "\<not> u + 8 * of_nat j + of_nat k - (t + 8 * of_nat i) < 8" if "k < 8" for k
  proof
    assume "u + 8 * of_nat j + of_nat k - (t + 8 * of_nat i) < 8"
    then have l: "unat (u + 8 * of_nat j + of_nat k - (t + 8 * of_nat i)) < 8" by (simp add: word_less_nat_alt)
    from entry_addr_eq_iff [OF assms(3,4) that assms(1,2) l] False show False by simp
  qed
  then have "load64 (store64 m (t + 8 * of_nat i) v) (u + 8 * of_nat j) = load64 m (u + 8 * of_nat j)"
    by (intro load64_cong) (simp add: store64_def)
  with False show ?thesis by (auto simp: pt_get_def pt_set_def)
qed

lemma pt_get_zeroed: "page_aligned p \<Longrightarrow> i < 512 \<Longrightarrow> pt_get (page_zero m p) p i = 0"
proof -
  assume a: "page_aligned p" "i < 512"
  have "load64 (page_zero m p) (p + 8 * of_nat i) = load64 (\<lambda>_. 0) (p + 8 * of_nat i)"
    using entry_addr(2) [OF a] by (intro load64_cong) (simp add: page_zero_def in_page_iff [OF a(1)])
  also have "\<dots> = 0" by (rule bit_eqI) (simp add: bit_load64)
  finally show ?thesis by (simp add: pt_get_def)
qed

section \<open>What a write leaves alone\<close>

definition same_outside :: "u64 set \<Rightarrow> phys_memory \<Rightarrow> phys_memory \<Rightarrow> bool" where
  "same_outside P m m' \<longleftrightarrow> (\<forall>x. page_of x \<notin> P \<longrightarrow> m' x = m x)"

lemma same_outside_refl [simp]: "same_outside P m m"
  by (simp add: same_outside_def)

lemma same_outside_trans:
  "same_outside P m m' \<Longrightarrow> same_outside Q m' m'' \<Longrightarrow> same_outside (P \<union> Q) m m''"
  by (simp add: same_outside_def)

lemma same_outside_mono: "same_outside P m m' \<Longrightarrow> P \<subseteq> Q \<Longrightarrow> same_outside Q m m'"
  by (auto simp: same_outside_def)

lemma same_outside_set:
  "page_aligned t \<Longrightarrow> i < 512 \<Longrightarrow> same_outside {t} m (pt_set m t i v)"
  by (simp add: same_outside_def pt_set_def store64_outside)

lemma same_outside_zero: "page_aligned p \<Longrightarrow> same_outside {p} m (page_zero m p)"
  by (simp add: same_outside_def page_zero_def in_page_iff)

lemma same_outside_copy: "page_aligned p \<Longrightarrow> same_outside {p} m (page_copy m p q)"
  by (simp add: same_outside_def page_copy_def in_page_iff)

lemma pt_get_same:
  assumes "same_outside P m m'" and "page_aligned t" and "t \<notin> P" and "i < 512"
  shows "pt_get m' t i = pt_get m t i"
  unfolding pt_get_def
  by (rule load64_cong) (use assms entry_addr(2) [OF assms(2,4)] in \<open>simp add: same_outside_def\<close>)

end
