(* ===== verification/Paging.thy ===== *)
theory Paging
  imports Phys_Mem
begin

text \<open>
  The four-level page tables of \<^verbatim>\<open>arch/x86/x86_64/mm/paging.c\<close>. Tables and frames live in
  physical memory, which the kernel reaches through its direct map; a pointer to an entry is
  the physical page of its table with the index of the entry. The translation look-aside
  buffer has no state of its own here: the invalidations of the source are dropped.
\<close>

section \<open>Constants and state\<close>

definition PAGING_FLAG_PRESENT :: u64 where "PAGING_FLAG_PRESENT = 0x1"
definition PAGING_FLAG_RW :: u64 where "PAGING_FLAG_RW = 0x2"
definition PAGING_FLAG_USER :: u64 where "PAGING_FLAG_USER = 0x4"
definition PAGING_FLAG_PWT :: u64 where "PAGING_FLAG_PWT = 0x8"
definition PAGING_FLAG_PCD :: u64 where "PAGING_FLAG_PCD = 0x10"
definition PAGING_FLAG_PAGE_SIZE :: u64 where "PAGING_FLAG_PAGE_SIZE = 0x80"
definition PAGING_FLAG_PAT_4K :: u64 where "PAGING_FLAG_PAT_4K = 0x80"
definition PAGING_FLAG_COW :: u64 where "PAGING_FLAG_COW = 0x200"
definition PAGING_FLAG_NX :: u64 where "PAGING_FLAG_NX = 0x8000000000000000"
definition PAGING_ADDR_MASK :: u64 where "PAGING_ADDR_MASK = 0x000ffffffffff000"
definition PAGING_TABLE_ENTRIES :: nat where "PAGING_TABLE_ENTRIES = 512"
definition PAGING_KERNEL_RANGE_LIMIT :: nat where "PAGING_KERNEL_RANGE_LIMIT = 64"
definition PAGING_KERNEL_GUARD_LIMIT :: nat where "PAGING_KERNEL_GUARD_LIMIT = 64"

lemmas paging_flag_defs = PAGING_FLAG_PRESENT_def PAGING_FLAG_RW_def PAGING_FLAG_USER_def
  PAGING_FLAG_PWT_def PAGING_FLAG_PCD_def PAGING_FLAG_PAGE_SIZE_def PAGING_FLAG_PAT_4K_def
  PAGING_FLAG_COW_def PAGING_FLAG_NX_def

record paging_kernel_range =
  range_phys_start :: u64
  range_phys_end :: u64
  range_virt_start :: u64

record paging =
  pg_pmm :: pmm
  pg_mem :: phys_memory
  pg_cr3 :: u64
  g_paging_nx_enabled :: bool
  g_kernel_guard_pages :: "u64 list"
  g_kernel_ranges :: "paging_kernel_range list"

type_synonym pt_entry = "u64 \<times> nat"

definition entry_get :: "paging \<Rightarrow> pt_entry \<Rightarrow> u64" where
  "entry_get s e = pt_get (pg_mem s) (fst e) (snd e)"

definition entry_set :: "paging \<Rightarrow> pt_entry \<Rightarrow> u64 \<Rightarrow> paging" where
  "entry_set s e v = s\<lparr>pg_mem := pt_set (pg_mem s) (fst e) (snd e) v\<rparr>"

definition pg_free :: "paging \<Rightarrow> u64 \<Rightarrow> bool \<times> paging" where
  "pg_free s p = (case pmm_free_page (pg_pmm s) p of (ok, pm) \<Rightarrow> (ok, s\<lparr>pg_pmm := pm\<rparr>))"

section \<open>Kernel ranges and guard pages\<close>

definition paging_append_kernel_range :: "paging_kernel_range list \<Rightarrow> u64 \<Rightarrow> u64 \<Rightarrow> paging_kernel_range list" where
  "paging_append_kernel_range ranges virt_addr phys_addr =
     (if ranges \<noteq> [] \<and> range_phys_end (last ranges) = phys_addr \<and>
         range_virt_start (last ranges) + (range_phys_end (last ranges) - range_phys_start (last ranges)) = virt_addr
      then butlast ranges @ [(last ranges)\<lparr>range_phys_end := range_phys_end (last ranges) + 0x1000\<rparr>]
      else if length ranges \<ge> PAGING_KERNEL_RANGE_LIMIT then ranges
      else ranges @ [\<lparr>range_phys_start = phys_addr, range_phys_end = phys_addr + 0x1000, range_virt_start = virt_addr\<rparr>])"

fun paging_kernel_phys_for_virt :: "paging_kernel_range list \<Rightarrow> u64 \<Rightarrow> u64 option" where
  "paging_kernel_phys_for_virt [] virt = None"
| "paging_kernel_phys_for_virt (r # ranges) virt =
     (if virt \<ge> range_virt_start r \<and> virt - range_virt_start r < range_phys_end r - range_phys_start r
      then Some (range_phys_start r + (virt - range_virt_start r))
      else paging_kernel_phys_for_virt ranges virt)"

fun paging_phys_direct_map :: "paging_kernel_range list \<Rightarrow> u64 \<Rightarrow> u64" where
  "paging_phys_direct_map [] phys = phys"
| "paging_phys_direct_map (r # ranges) phys =
     (let page = phys AND PAGING_ADDR_MASK; page_off = phys AND NOT PAGING_ADDR_MASK in
      if page \<ge> range_phys_start r \<and> page < range_phys_end r
      then range_virt_start r + (page - range_phys_start r) + page_off
      else paging_phys_direct_map ranges phys)"

definition paging_is_kernel_guard_page :: "paging \<Rightarrow> u64 \<Rightarrow> bool" where
  "paging_is_kernel_guard_page s virt_addr \<longleftrightarrow> virt_addr \<in> set (g_kernel_guard_pages s)"

section \<open>Address checks\<close>

definition paging_is_canonical :: "u64 \<Rightarrow> bool" where
  "paging_is_canonical addr \<longleftrightarrow> (let upper = drop_bit 48 addr in upper = 0 \<or> upper = 0xffff)"

definition paging_is_page_aligned :: "u64 \<Rightarrow> bool" where
  "paging_is_page_aligned addr \<longleftrightarrow> addr AND 0xfff = 0"

definition paging_checked_add :: "u64 \<Rightarrow> u64 \<Rightarrow> u64 option" where
  "paging_checked_add a b = (if - 1 - a < b then None else Some (a + b))"

definition paging_align_up_checked :: "u64 \<Rightarrow> u64 \<Rightarrow> u64 option" where
  "paging_align_up_checked value align =
     (if align = 0 \<or> align AND (align - 1) \<noteq> 0 then None
      else case paging_checked_add value (align - 1) of
             None \<Rightarrow> None
           | Some adjusted \<Rightarrow> Some (adjusted AND NOT (align - 1)))"

definition paging_validate_page_address :: "u64 \<Rightarrow> bool" where
  "paging_validate_page_address virt_addr \<longleftrightarrow> paging_is_canonical virt_addr \<and> paging_is_page_aligned virt_addr"

definition paging_validate_page_range :: "u64 \<Rightarrow> u64 \<Rightarrow> bool" where
  "paging_validate_page_range start end_addr \<longleftrightarrow>
     start < end_addr \<and> paging_is_canonical start \<and> paging_is_canonical (end_addr - 1) \<and>
     paging_is_page_aligned start \<and> paging_is_page_aligned end_addr"

section \<open>Walking the tables\<close>

definition pml4_index :: "u64 \<Rightarrow> nat" where "pml4_index addr = unat (drop_bit 39 addr AND 0x1ff)"
definition pdpt_index :: "u64 \<Rightarrow> nat" where "pdpt_index addr = unat (drop_bit 30 addr AND 0x1ff)"
definition pd_index :: "u64 \<Rightarrow> nat" where "pd_index addr = unat (drop_bit 21 addr AND 0x1ff)"
definition pt_index :: "u64 \<Rightarrow> nat" where "pt_index addr = unat (drop_bit 12 addr AND 0x1ff)"

record paging_walk_info =
  wi_pml4_phys :: u64
  wi_pdpt_phys :: u64
  wi_pd_phys :: u64
  wi_pt_phys :: u64
  wi_pml4e :: u64
  wi_pdpte :: u64
  wi_pde :: u64
  wi_pte :: u64
  wi_phys_addr :: u64
  wi_flags :: u64

definition effective_flags :: "u64 list \<Rightarrow> u64" where
  "effective_flags entries =
     PAGING_FLAG_PRESENT OR foldl (\<lambda>rw e. rw AND (e AND PAGING_FLAG_RW)) PAGING_FLAG_RW entries
       OR foldl (\<lambda>us e. us AND (e AND PAGING_FLAG_USER)) PAGING_FLAG_USER entries
       OR foldl (\<lambda>nx e. nx OR (e AND PAGING_FLAG_NX)) 0 entries"

definition paging_walk_in_root :: "phys_memory \<Rightarrow> u64 \<Rightarrow> u64 \<Rightarrow> paging_walk_info option" where
  "paging_walk_in_root m root_cr3 virt_addr =
     (if root_cr3 = 0 then None
      else
        (let pml4_phys = root_cr3 AND PAGING_ADDR_MASK;
             pml4e = pt_get m pml4_phys (pml4_index virt_addr)
         in if pml4e AND PAGING_FLAG_PRESENT = 0 then None
         else
           (let pdpt_phys = pml4e AND PAGING_ADDR_MASK;
                pdpte = pt_get m pdpt_phys (pdpt_index virt_addr)
            in if pdpte AND PAGING_FLAG_PRESENT = 0 then None
            else if pdpte AND PAGING_FLAG_PAGE_SIZE \<noteq> 0 then
              Some \<lparr>wi_pml4_phys = pml4_phys, wi_pdpt_phys = pdpt_phys, wi_pd_phys = 0, wi_pt_phys = 0,
                    wi_pml4e = pml4e, wi_pdpte = pdpte, wi_pde = 0, wi_pte = 0,
                    wi_phys_addr = (pdpte AND 0x000fffffc0000000) OR (virt_addr AND 0x3fffffff),
                    wi_flags = effective_flags [pml4e, pdpte]\<rparr>
            else
              (let pd_phys = pdpte AND PAGING_ADDR_MASK;
                   pde = pt_get m pd_phys (pd_index virt_addr)
               in if pde AND PAGING_FLAG_PRESENT = 0 then None
               else if pde AND PAGING_FLAG_PAGE_SIZE \<noteq> 0 then
                 Some \<lparr>wi_pml4_phys = pml4_phys, wi_pdpt_phys = pdpt_phys, wi_pd_phys = pd_phys, wi_pt_phys = 0,
                       wi_pml4e = pml4e, wi_pdpte = pdpte, wi_pde = pde, wi_pte = 0,
                       wi_phys_addr = (pde AND 0x000fffffffe00000) OR (virt_addr AND 0x1fffff),
                       wi_flags = effective_flags [pml4e, pdpte, pde]\<rparr>
               else
                 (let pt_phys = pde AND PAGING_ADDR_MASK;
                      pte = pt_get m pt_phys (pt_index virt_addr)
                  in if pte AND PAGING_FLAG_PRESENT = 0 then None
                  else
                    Some \<lparr>wi_pml4_phys = pml4_phys, wi_pdpt_phys = pdpt_phys, wi_pd_phys = pd_phys, wi_pt_phys = pt_phys,
                          wi_pml4e = pml4e, wi_pdpte = pdpte, wi_pde = pde, wi_pte = pte,
                          wi_phys_addr = (pte AND PAGING_ADDR_MASK) OR (virt_addr AND 0xfff),
                          wi_flags = effective_flags [pml4e, pdpte, pde, pte]\<rparr>)))))"

definition paging_translate_in_root :: "phys_memory \<Rightarrow> u64 \<Rightarrow> u64 \<Rightarrow> u64 option" where
  "paging_translate_in_root m root virt_addr = map_option wi_phys_addr (paging_walk_in_root m root virt_addr)"

definition paging_translate_current :: "paging \<Rightarrow> u64 \<Rightarrow> u64 option" where
  "paging_translate_current s virt_addr = paging_translate_in_root (pg_mem s) (pg_cr3 s) virt_addr"

definition paging_get_current_cr3 :: "paging \<Rightarrow> u64" where
  "paging_get_current_cr3 s = pg_cr3 s AND PAGING_ADDR_MASK"

definition paging_get_mapping :: "paging \<Rightarrow> u64 \<Rightarrow> u64 option" where
  "paging_get_mapping s virt_addr =
     map_option wi_phys_addr (paging_walk_in_root (pg_mem s) (paging_get_current_cr3 s) virt_addr)"

definition paging_get_mapping_info_in_root :: "phys_memory \<Rightarrow> u64 \<Rightarrow> u64 \<Rightarrow> (u64 \<times> u64) option" where
  "paging_get_mapping_info_in_root m root virt_addr =
     map_option (\<lambda>info. (wi_phys_addr info, wi_flags info)) (paging_walk_in_root m root virt_addr)"

definition paging_get_mapping_info :: "paging \<Rightarrow> u64 \<Rightarrow> (u64 \<times> u64) option" where
  "paging_get_mapping_info s virt_addr =
     map_option (\<lambda>info. (wi_phys_addr info, wi_flags info))
       (paging_walk_in_root (pg_mem s) (paging_get_current_cr3 s) virt_addr)"

text \<open>
  Switching the root: refused, with a trace of the reason, when the code or the stack of the
  caller is not mapped in the new root. The trace is \<^verbatim>\<open>g_last_switch_trace.reject_flags\<close>.
\<close>

definition paging_set_current_cr3 :: "u64 \<Rightarrow> u64 \<Rightarrow> paging \<Rightarrow> u64 \<Rightarrow> u32 \<times> paging" where
  "paging_set_current_cr3 current_rip current_rsp s cr3 =
     (let next_cr3 = cr3 AND PAGING_ADDR_MASK; previous_cr3 = paging_get_current_cr3 s in
      if next_cr3 = 0 then (1, s)
      else if next_cr3 = previous_cr3 then (0, s)
      else
        (let r1 = (if paging_translate_in_root (pg_mem s) next_cr3 current_rip = None then 2 else 0);
             r2 = (if paging_translate_in_root (pg_mem s) next_cr3 current_rsp = None then 4 else 0)
         in if r1 OR r2 \<noteq> 0 then (r1 OR r2, s) else (0, s\<lparr>pg_cr3 := next_cr3\<rparr>)))"

section \<open>Reaching a page-table entry\<close>

definition paging_alloc_table :: "paging \<Rightarrow> u64 \<times> paging" where
  "paging_alloc_table s =
     (case pmm_alloc_page (pg_pmm s) of
        (phys_addr, pm) \<Rightarrow>
          if phys_addr = 0 then (0, s\<lparr>pg_pmm := pm\<rparr>)
          else (phys_addr, s\<lparr>pg_pmm := pm, pg_mem := page_zero (pg_mem s) phys_addr\<rparr>))"

definition paging_table_is_empty :: "phys_memory \<Rightarrow> u64 \<Rightarrow> bool" where
  "paging_table_is_empty m t = list_all (\<lambda>i. pt_get m t i AND PAGING_FLAG_PRESENT = 0) [0..<PAGING_TABLE_ENTRIES]"

text \<open>One step of \<^verbatim>\<open>paging_walk_rollback\<close>: unlink and free a new table.\<close>

definition rollback_table :: "pt_entry option \<Rightarrow> u64 \<Rightarrow> paging \<Rightarrow> paging" where
  "rollback_table entry new_phys s =
     (if new_phys = 0 then s
      else
        (let s1 = (case entry of
                     None \<Rightarrow> s
                   | Some e \<Rightarrow> if entry_get s e AND PAGING_ADDR_MASK = new_phys then entry_set s e 0 else s)
         in snd (pg_free s1 new_phys)))"

definition paging_walk_rollback ::
  "pt_entry option \<Rightarrow> pt_entry option \<Rightarrow> pt_entry option \<Rightarrow> u64 \<Rightarrow> u64 \<Rightarrow> u64 \<Rightarrow> paging \<Rightarrow> paging" where
  "paging_walk_rollback pml4_entry pdpt_entry pd_entry new_pdpt_phys new_pd_phys new_pt_phys s =
     rollback_table pml4_entry new_pdpt_phys
       (rollback_table pdpt_entry new_pd_phys (rollback_table pd_entry new_pt_phys s))"

datatype walk_step =
  WalkAbsent
| WalkFail paging
| WalkOk u64 paging

text \<open>
  The block that the walk has for each level: an absent entry gets a fresh table when the
  caller creates, a present one is opened to user mode.
\<close>

definition walk_ensure_table :: "bool \<Rightarrow> bool \<Rightarrow> u64 \<Rightarrow> pt_entry \<Rightarrow> paging \<Rightarrow> walk_step" where
  "walk_ensure_table create user_accessible entry_flags e s =
     (if entry_get s e AND PAGING_FLAG_PRESENT = 0 then
        (if \<not> create then WalkAbsent
         else case paging_alloc_table s of
                (new_phys, s1) \<Rightarrow>
                  if new_phys = 0 then WalkFail s1
                  else WalkOk new_phys (entry_set s1 e (new_phys OR entry_flags)))
      else WalkOk 0 (if create \<and> user_accessible then entry_set s e (entry_get s e OR PAGING_FLAG_USER) else s))"

definition split_flags :: "u64 \<Rightarrow> u64 \<Rightarrow> bool \<Rightarrow> u64" where
  "split_flags entry base_mask user_accessible =
     (let flags = (entry AND NOT base_mask) AND NOT PAGING_FLAG_PAGE_SIZE;
          flags = flags OR (PAGING_FLAG_PRESENT OR PAGING_FLAG_RW)
      in if user_accessible then flags OR PAGING_FLAG_USER else flags)"

definition fill_table :: "(nat \<Rightarrow> u64) \<Rightarrow> u64 \<Rightarrow> paging \<Rightarrow> paging" where
  "fill_table f t s = fold (\<lambda>i s. entry_set s (t, i) (f i)) [0..<PAGING_TABLE_ENTRIES] s"

text \<open>A 1 GiB page becomes a directory of 2 MiB pages, a 2 MiB page a table of 4 KiB pages.\<close>

definition walk_split_pdpt :: "bool \<Rightarrow> bool \<Rightarrow> pt_entry \<Rightarrow> paging \<Rightarrow> walk_step" where
  "walk_split_pdpt create user_accessible e s =
     (if entry_get s e AND PAGING_FLAG_PAGE_SIZE = 0 then WalkOk 0 s
      else if \<not> create then WalkAbsent
      else case paging_alloc_table s of
             (new_pd_phys, s1) \<Rightarrow>
               if new_pd_phys = 0 then WalkFail s1
               else
                 (let old = entry_get s1 e;
                      pdpt_base = old AND 0x000fffffc0000000;
                      flags = split_flags old 0x000fffffc0000000 user_accessible;
                      s2 = fill_table (\<lambda>i. (pdpt_base + of_nat i * 0x200000) OR flags OR PAGING_FLAG_PAGE_SIZE) new_pd_phys s1
                  in WalkOk new_pd_phys (entry_set s2 e (new_pd_phys OR flags))))"

definition walk_split_pd :: "bool \<Rightarrow> bool \<Rightarrow> pt_entry \<Rightarrow> paging \<Rightarrow> walk_step" where
  "walk_split_pd create user_accessible e s =
     (if entry_get s e AND PAGING_FLAG_PAGE_SIZE = 0 then WalkOk 0 s
      else if \<not> create then WalkAbsent
      else case paging_alloc_table s of
             (new_pt_phys, s1) \<Rightarrow>
               if new_pt_phys = 0 then WalkFail s1
               else
                 (let old = entry_get s1 e;
                      pd_base = old AND 0x000fffffffe00000;
                      flags = split_flags old 0x000fffffffe00000 user_accessible;
                      s2 = fill_table (\<lambda>i. (pd_base + of_nat i * 0x1000) OR flags) new_pt_phys s1
                  in WalkOk new_pt_phys (entry_set s2 e (new_pt_phys OR flags))))"

text \<open>
  The label \<^verbatim>\<open>fail\<close> of \<^verbatim>\<open>paging_walk_to_pte_in_root\<close>: a split entry gets its old value back,
  new tables are unlinked and freed. A split is the entry with its old value.
\<close>

definition undo_split :: "(pt_entry \<times> u64) option \<Rightarrow> u64 \<Rightarrow> paging \<Rightarrow> u64 \<times> paging" where
  "undo_split split new_phys s =
     (case split of
        None \<Rightarrow> (new_phys, s)
      | Some (e, old) \<Rightarrow>
          if entry_get s e AND PAGING_ADDR_MASK = new_phys
          then (0, snd (pg_free (entry_set s e old) new_phys))
          else (new_phys, s))"

definition paging_walk_fail ::
  "pt_entry option \<Rightarrow> pt_entry option \<Rightarrow> pt_entry option \<Rightarrow> u64 \<Rightarrow> u64 \<Rightarrow> u64 \<Rightarrow>
   (pt_entry \<times> u64) option \<Rightarrow> (pt_entry \<times> u64) option \<Rightarrow> paging \<Rightarrow> paging" where
  "paging_walk_fail pml4_entry pdpt_entry pd_entry new_pdpt_phys new_pd_phys new_pt_phys split_pdpt split_pd s =
     (let (new_pt_phys, s) = undo_split split_pd new_pt_phys s;
          (new_pd_phys, s) = undo_split split_pdpt new_pd_phys s
      in paging_walk_rollback pml4_entry pdpt_entry pd_entry new_pdpt_phys new_pd_phys new_pt_phys s)"

text \<open>The walk, in three parts: from the page directory on, from the PDPT on, from the root on.\<close>

definition walk_from_pd ::
  "bool \<Rightarrow> bool \<Rightarrow> u64 \<Rightarrow> u64 \<Rightarrow> pt_entry \<Rightarrow> pt_entry \<Rightarrow> u64 \<Rightarrow> u64 \<Rightarrow> (pt_entry \<times> u64) option \<Rightarrow> paging \<Rightarrow>
   pt_entry option \<times> paging" where
  "walk_from_pd create user_accessible entry_flags addr pml4_entry pdpt_entry new_pdpt new_pd split_pdpt s3 =
     (let pd_entry = (entry_get s3 pdpt_entry AND PAGING_ADDR_MASK, pd_index addr)
      in case walk_ensure_table create user_accessible entry_flags pd_entry s3 of
           WalkAbsent \<Rightarrow> (None, s3)
         | WalkFail s4 \<Rightarrow>
             (None, paging_walk_fail (Some pml4_entry) (Some pdpt_entry) (Some pd_entry) new_pdpt new_pd 0 split_pdpt None s4)
         | WalkOk new_pt s4 \<Rightarrow>
             (case walk_split_pd create user_accessible pd_entry s4 of
                WalkAbsent \<Rightarrow> (None, s4)
              | WalkFail s5 \<Rightarrow>
                  (None, paging_walk_fail (Some pml4_entry) (Some pdpt_entry) (Some pd_entry) new_pdpt new_pd new_pt split_pdpt None s5)
              | WalkOk split_pt_phys s5 \<Rightarrow>
                  (Some (entry_get s5 pd_entry AND PAGING_ADDR_MASK, pt_index addr), s5)))"

definition walk_from_pdpt ::
  "bool \<Rightarrow> bool \<Rightarrow> u64 \<Rightarrow> u64 \<Rightarrow> pt_entry \<Rightarrow> u64 \<Rightarrow> paging \<Rightarrow> pt_entry option \<times> paging" where
  "walk_from_pdpt create user_accessible entry_flags addr pml4_entry new_pdpt s1 =
     (let pdpt_entry = (entry_get s1 pml4_entry AND PAGING_ADDR_MASK, pdpt_index addr)
      in case walk_ensure_table create user_accessible entry_flags pdpt_entry s1 of
           WalkAbsent \<Rightarrow> (None, s1)
         | WalkFail s2 \<Rightarrow> (None, paging_walk_fail (Some pml4_entry) (Some pdpt_entry) None new_pdpt 0 0 None None s2)
         | WalkOk new_pd s2 \<Rightarrow>
             (case walk_split_pdpt create user_accessible pdpt_entry s2 of
                WalkAbsent \<Rightarrow> (None, s2)
              | WalkFail s3 \<Rightarrow> (None, paging_walk_fail (Some pml4_entry) (Some pdpt_entry) None new_pdpt new_pd 0 None None s3)
              | WalkOk split_pd_phys s3 \<Rightarrow>
                  walk_from_pd create user_accessible entry_flags addr pml4_entry pdpt_entry new_pdpt
                    (if split_pd_phys \<noteq> 0 then split_pd_phys else new_pd)
                    (if split_pd_phys \<noteq> 0 then Some (pdpt_entry, entry_get s2 pdpt_entry) else None) s3))"

definition paging_walk_to_pte_in_root :: "paging \<Rightarrow> u64 \<Rightarrow> u64 \<Rightarrow> bool \<Rightarrow> bool \<Rightarrow> pt_entry option \<times> paging" where
  "paging_walk_to_pte_in_root s root_cr3 addr create user_accessible =
     (if root_cr3 = 0 \<or> \<not> paging_validate_page_address addr then (None, s)
      else
        (let entry_flags = PAGING_FLAG_PRESENT OR PAGING_FLAG_RW OR (if user_accessible then PAGING_FLAG_USER else 0);
             pml4_entry = (root_cr3 AND PAGING_ADDR_MASK, pml4_index addr)
         in case walk_ensure_table create user_accessible entry_flags pml4_entry s of
              WalkAbsent \<Rightarrow> (None, s)
            | WalkFail s1 \<Rightarrow> (None, paging_walk_fail (Some pml4_entry) None None 0 0 0 None None s1)
            | WalkOk new_pdpt s1 \<Rightarrow> walk_from_pdpt create user_accessible entry_flags addr pml4_entry new_pdpt s1))"

definition paging_walk_to_pte :: "paging \<Rightarrow> u64 \<Rightarrow> bool \<Rightarrow> pt_entry option \<times> paging" where
  "paging_walk_to_pte s addr create =
     paging_walk_to_pte_in_root s (paging_get_current_cr3 s) addr create create"

section \<open>Mapping and unmapping\<close>

definition leaf_flags :: "paging \<Rightarrow> bool \<Rightarrow> bool \<Rightarrow> bool \<Rightarrow> u64" where
  "leaf_flags s user_accessible writable executable =
     PAGING_FLAG_PRESENT OR (if writable then PAGING_FLAG_RW else 0)
       OR (if user_accessible then PAGING_FLAG_USER else 0)
       OR (if g_paging_nx_enabled s \<and> \<not> executable then PAGING_FLAG_NX else 0)"

definition paging_map_page_in_root ::
  "paging \<Rightarrow> u64 \<Rightarrow> u64 \<Rightarrow> u64 \<Rightarrow> bool \<Rightarrow> bool \<Rightarrow> bool \<Rightarrow> bool \<times> paging" where
  "paging_map_page_in_root s root_cr3 virt_addr phys_addr user_accessible writable executable =
     (if root_cr3 = 0 \<or> paging_is_kernel_guard_page s virt_addr \<or> \<not> paging_validate_page_address virt_addr \<or>
         \<not> paging_is_page_aligned phys_addr
      then (False, s)
      else case paging_walk_to_pte_in_root s root_cr3 virt_addr True user_accessible of
             (None, s1) \<Rightarrow> (False, s1)
           | (Some pte, s1) \<Rightarrow>
               (True, entry_set s1 pte
                        ((phys_addr AND PAGING_ADDR_MASK) OR leaf_flags s1 user_accessible writable executable)))"

definition paging_map_page_with_exec :: "paging \<Rightarrow> u64 \<Rightarrow> u64 \<Rightarrow> bool \<Rightarrow> bool \<Rightarrow> bool \<Rightarrow> bool \<times> paging" where
  "paging_map_page_with_exec s virt_addr phys_addr user_accessible writable executable =
     (if paging_is_kernel_guard_page s virt_addr \<or> \<not> paging_validate_page_address virt_addr \<or>
         \<not> paging_is_page_aligned phys_addr
      then (False, s)
      else case paging_walk_to_pte s virt_addr True of
             (None, s1) \<Rightarrow> (False, s1)
           | (Some pte, s1) \<Rightarrow>
               if entry_get s1 pte AND PAGING_FLAG_PRESENT \<noteq> 0 then (False, s1)
               else (True, entry_set s1 pte
                        ((phys_addr AND PAGING_ADDR_MASK) OR leaf_flags s1 user_accessible writable executable)))"

definition paging_map_page :: "paging \<Rightarrow> u64 \<Rightarrow> u64 \<Rightarrow> bool \<Rightarrow> bool \<Rightarrow> bool \<times> paging" where
  "paging_map_page s virt_addr phys_addr user_accessible writable =
     paging_map_page_with_exec s virt_addr phys_addr user_accessible writable False"

text \<open>The end of \<^verbatim>\<open>paging_unmap_page\<close>: tables that became empty are unlinked and freed, bottom up.\<close>

definition reclaim_tables :: "pt_entry \<Rightarrow> pt_entry \<Rightarrow> pt_entry \<Rightarrow> u64 \<Rightarrow> u64 \<Rightarrow> u64 \<Rightarrow> paging \<Rightarrow> paging" where
  "reclaim_tables pml4e pdpte pde pdpt_phys pd_phys pt_phys s1 =
     (if \<not> paging_table_is_empty (pg_mem s1) pt_phys then s1
      else case pg_free (entry_set s1 pde 0) pt_phys of
        (False, s2) \<Rightarrow> s2
      | (True, s2) \<Rightarrow>
          if \<not> paging_table_is_empty (pg_mem s2) pd_phys then s2
          else case pg_free (entry_set s2 pdpte 0) pd_phys of
            (False, s3) \<Rightarrow> s3
          | (True, s3) \<Rightarrow>
              if \<not> paging_table_is_empty (pg_mem s3) pdpt_phys then s3
              else snd (pg_free (entry_set s3 pml4e 0) pdpt_phys))"

definition paging_unmap_page :: "paging \<Rightarrow> u64 \<Rightarrow> u64 option \<times> paging" where
  "paging_unmap_page s virt_addr =
     (if \<not> paging_validate_page_address virt_addr then (None, s)
      else
        (let cr3 = paging_get_current_cr3 s in
         if cr3 = 0 then (None, s)
         else
           (let pml4e = (cr3 AND PAGING_ADDR_MASK, pml4_index virt_addr) in
            if entry_get s pml4e AND PAGING_FLAG_PRESENT = 0 then (None, s)
            else
              (let pdpt_phys = entry_get s pml4e AND PAGING_ADDR_MASK; pdpte = (pdpt_phys, pdpt_index virt_addr) in
               if entry_get s pdpte AND PAGING_FLAG_PRESENT = 0 then (None, s)
               else if entry_get s pdpte AND PAGING_FLAG_PAGE_SIZE \<noteq> 0 then (None, s)
               else
                 (let pd_phys = entry_get s pdpte AND PAGING_ADDR_MASK; pde = (pd_phys, pd_index virt_addr) in
                  if entry_get s pde AND PAGING_FLAG_PRESENT = 0 then (None, s)
                  else if entry_get s pde AND PAGING_FLAG_PAGE_SIZE \<noteq> 0 then (None, s)
                  else
                    (let pt_phys = entry_get s pde AND PAGING_ADDR_MASK; pte = (pt_phys, pt_index virt_addr) in
                     if entry_get s pte AND PAGING_FLAG_PRESENT = 0 then (None, s)
                     else
                       (Some (entry_get s pte AND PAGING_ADDR_MASK),
                        reclaim_tables pml4e pdpte pde pdpt_phys pd_phys pt_phys (entry_set s pte 0))))))))"

section \<open>Copy on write\<close>

definition paging_resolve_cow_fault :: "paging \<Rightarrow> u64 \<Rightarrow> u64 \<Rightarrow> u64 \<Rightarrow> bool \<times> paging" where
  "paging_resolve_cow_fault s root_cr3 fault_addr error_code =
     (if error_code AND 0x7 \<noteq> 0x7 then (False, s)
      else case paging_walk_to_pte_in_root s root_cr3 (fault_addr AND PAGING_ADDR_MASK) False True of
        (None, s0) \<Rightarrow> (False, s0)
      | (Some pte, s0) \<Rightarrow>
          (let entry = entry_get s0 pte in
           if entry AND (PAGING_FLAG_PRESENT OR PAGING_FLAG_USER OR PAGING_FLAG_COW) \<noteq>
              PAGING_FLAG_PRESENT OR PAGING_FLAG_USER OR PAGING_FLAG_COW
           then (False, s0)
           else
             (let old_phys = entry AND PAGING_ADDR_MASK; refs = pmm_ref_count (pg_pmm s0) old_phys in
              if refs = 0 then (False, s0)
              else if refs = 1 then (True, entry_set s0 pte ((entry OR PAGING_FLAG_RW) AND NOT PAGING_FLAG_COW))
              else case pmm_alloc_page (pg_pmm s0) of
                (new_phys, pm) \<Rightarrow>
                  if new_phys = 0 then (False, s0\<lparr>pg_pmm := pm\<rparr>)
                  else
                    (let s1 = s0\<lparr>pg_pmm := pm, pg_mem := page_copy (pg_mem s0) new_phys old_phys\<rparr>;
                         s2 = entry_set s1 pte ((entry AND NOT (PAGING_ADDR_MASK OR PAGING_FLAG_COW)) OR new_phys OR PAGING_FLAG_RW)
                     in case pmm_release_page (pg_pmm s2) old_phys of
                          (True, pm2) \<Rightarrow> (True, s2\<lparr>pg_pmm := pm2\<rparr>)
                        | (False, pm2) \<Rightarrow>
                            (False, (entry_set s2 pte entry)\<lparr>pg_pmm := snd (pmm_release_page pm2 new_phys)\<rparr>)))))"

end
