(* ===== verification/Paging_Clone.thy ===== *)
theory Paging_Clone
  imports Paging
begin

text \<open>
  The parts of \<^verbatim>\<open>arch/x86/x86_64/mm/paging.c\<close> that visit many entries: the rights of a range
  of pages, copying a table tree in its three forms, marking pages copy-on-write, destroying
  and validating a tree, guard pages, and the roots built from them.
\<close>

section \<open>Rights of a page range\<close>

text \<open>
  The pages that the loops \<^verbatim>\<open>for (page = start & ~0xfff; page < end; page += 0x1000)\<close> visit, for an
  end at most \<open>2 ^ 64 - 0x1000\<close>: past that the addition in the source would wrap.
\<close>

definition step_pages :: "u64 \<Rightarrow> u64 \<Rightarrow> u64 list" where
  "step_pages page end_addr =
     map (\<lambda>k. page + of_nat k * 0x1000)
       (if page < end_addr then [0..<(unat (end_addr - page) + 0xfff) div 0x1000] else [])"

definition range_pages :: "u64 \<Rightarrow> u64 \<Rightarrow> u64 list" where
  "range_pages start end_addr = step_pages (start AND NOT 0xfff) end_addr"

definition paging_set_page_user_flag :: "bool \<Rightarrow> u64 \<Rightarrow> paging \<Rightarrow> paging" where
  "paging_set_page_user_flag user_accessible page s =
     (let pml4e = (pg_cr3 s AND PAGING_ADDR_MASK, pml4_index page) in
      if entry_get s pml4e AND PAGING_FLAG_PRESENT = 0 then s
      else
        (let pdpte = (entry_get s pml4e AND PAGING_ADDR_MASK, pdpt_index page) in
         if entry_get s pdpte AND PAGING_FLAG_PRESENT = 0 \<or> entry_get s pdpte AND PAGING_FLAG_PAGE_SIZE \<noteq> 0 then s
         else
           (let pde = (entry_get s pdpte AND PAGING_ADDR_MASK, pd_index page) in
            if entry_get s pde AND PAGING_FLAG_PRESENT = 0 \<or> entry_get s pde AND PAGING_FLAG_PAGE_SIZE \<noteq> 0 then s
            else
              (let pte = (entry_get s pde AND PAGING_ADDR_MASK, pt_index page) in
               if entry_get s pte AND PAGING_FLAG_PRESENT = 0 then s
               else if user_accessible then
                 (let s = entry_set s pml4e (entry_get s pml4e OR PAGING_FLAG_USER);
                      s = entry_set s pdpte (entry_get s pdpte OR PAGING_FLAG_USER);
                      s = entry_set s pde (entry_get s pde OR PAGING_FLAG_USER)
                  in entry_set s pte (entry_get s pte OR PAGING_FLAG_USER))
               else entry_set s pte (entry_get s pte AND NOT PAGING_FLAG_USER)))))"

definition paging_set_range_user_flag :: "u64 \<Rightarrow> u64 \<Rightarrow> bool \<Rightarrow> paging \<Rightarrow> paging" where
  "paging_set_range_user_flag start end_addr user_accessible s =
     fold (paging_set_page_user_flag user_accessible) (range_pages start end_addr) s"

text \<open>
  The write and the execute loops change one bit of the entry that maps the page, a huge page
  included: \<open>update\<close> is that change.
\<close>

definition paging_update_leaf :: "(u64 \<Rightarrow> u64) \<Rightarrow> u64 \<Rightarrow> paging \<Rightarrow> paging" where
  "paging_update_leaf update page s =
     (let pml4e = (pg_cr3 s AND PAGING_ADDR_MASK, pml4_index page) in
      if entry_get s pml4e AND PAGING_FLAG_PRESENT = 0 then s
      else
        (let pdpte = (entry_get s pml4e AND PAGING_ADDR_MASK, pdpt_index page) in
         if entry_get s pdpte AND PAGING_FLAG_PRESENT = 0 then s
         else if entry_get s pdpte AND PAGING_FLAG_PAGE_SIZE \<noteq> 0 then entry_set s pdpte (update (entry_get s pdpte))
         else
           (let pde = (entry_get s pdpte AND PAGING_ADDR_MASK, pd_index page) in
            if entry_get s pde AND PAGING_FLAG_PRESENT = 0 then s
            else if entry_get s pde AND PAGING_FLAG_PAGE_SIZE \<noteq> 0 then entry_set s pde (update (entry_get s pde))
            else
              (let pte = (entry_get s pde AND PAGING_ADDR_MASK, pt_index page) in
               if entry_get s pte AND PAGING_FLAG_PRESENT = 0 then s
               else entry_set s pte (update (entry_get s pte))))))"

definition paging_set_range_execute_flag :: "u64 \<Rightarrow> u64 \<Rightarrow> bool \<Rightarrow> paging \<Rightarrow> paging" where
  "paging_set_range_execute_flag start end_addr executable s =
     (if \<not> g_paging_nx_enabled s then s
      else fold (paging_update_leaf
                   (\<lambda>e. if executable then e AND NOT PAGING_FLAG_NX else e OR PAGING_FLAG_NX))
             (range_pages start end_addr) s)"

definition paging_set_range_write_flag :: "u64 \<Rightarrow> u64 \<Rightarrow> bool \<Rightarrow> paging \<Rightarrow> paging" where
  "paging_set_range_write_flag start end_addr writable s =
     fold (paging_update_leaf
             (\<lambda>e. if writable then e OR PAGING_FLAG_RW else e AND NOT PAGING_FLAG_RW))
       (range_pages start end_addr) s"

definition paging_make_page_user_accessible :: "u64 \<Rightarrow> paging \<Rightarrow> paging" where
  "paging_make_page_user_accessible addr s =
     (if \<not> paging_validate_page_address addr then s
      else case paging_checked_add addr 0x1000 of
             None \<Rightarrow> s
           | Some end_addr \<Rightarrow>
               if \<not> paging_is_canonical (end_addr - 1) then s
               else paging_set_range_user_flag addr end_addr True s)"

definition paging_make_range_user_accessible :: "u64 \<Rightarrow> u64 \<Rightarrow> paging \<Rightarrow> paging" where
  "paging_make_range_user_accessible start end_addr s =
     (if \<not> paging_validate_page_range start end_addr then s
      else paging_set_range_user_flag start end_addr True s)"

definition paging_make_range_supervisor_only :: "u64 \<Rightarrow> u64 \<Rightarrow> paging \<Rightarrow> paging" where
  "paging_make_range_supervisor_only start end_addr s =
     (if \<not> paging_validate_page_range start end_addr then s
      else paging_set_range_user_flag start end_addr False s)"

section \<open>Destroying a tree\<close>

definition destroy_leaf :: "bool \<Rightarrow> u64 \<Rightarrow> paging \<Rightarrow> paging" where
  "destroy_leaf path_user entry s =
     (if entry AND PAGING_FLAG_PRESENT = 0 then s
      else if \<not> (path_user \<and> entry AND PAGING_FLAG_USER \<noteq> 0) then s
      else
        (let phys = entry AND PAGING_ADDR_MASK in
         if pmm_ref_count (pg_pmm s) phys \<noteq> 0 then s\<lparr>pg_pmm := snd (pmm_release_page (pg_pmm s) phys)\<rparr> else s))"

primrec paging_destroy_table_deep_internal :: "nat \<Rightarrow> u64 \<Rightarrow> bool \<Rightarrow> paging \<Rightarrow> paging" where
  "paging_destroy_table_deep_internal 0 table_phys path_user s = s"
| "paging_destroy_table_deep_internal (Suc level) table_phys path_user s =
     (if table_phys = 0 then s
      else
        (let table = table_phys AND PAGING_ADDR_MASK;
             s1 = fold (\<lambda>i s.
                    (let entry = entry_get s (table, i) in
                     if level = 0 then destroy_leaf path_user entry s
                     else if entry AND PAGING_FLAG_PRESENT = 0 then s
                     else if entry AND PAGING_FLAG_PAGE_SIZE \<noteq> 0 then s
                     else paging_destroy_table_deep_internal level (entry AND PAGING_ADDR_MASK)
                            (path_user \<and> entry AND PAGING_FLAG_USER \<noteq> 0) s))
                  [0..<PAGING_TABLE_ENTRIES] s
         in snd (pg_free s1 table)))"

definition paging_destroy_table_deep :: "u64 \<Rightarrow> nat \<Rightarrow> paging \<Rightarrow> paging" where
  "paging_destroy_table_deep table_phys level s = paging_destroy_table_deep_internal level table_phys True s"

definition paging_destroy_root_deep :: "u64 \<Rightarrow> paging \<Rightarrow> paging" where
  "paging_destroy_root_deep root_cr3 s =
     (let root_phys = root_cr3 AND PAGING_ADDR_MASK in
      if root_phys = 0 \<or> root_phys = paging_get_current_cr3 s then s
      else paging_destroy_table_deep root_phys 4 s)"

section \<open>Copying a tree\<close>

text \<open>The loops below stop at the first failure: the flag is the local that says so.\<close>

primrec paging_clone_table_deep :: "nat \<Rightarrow> u64 \<Rightarrow> paging \<Rightarrow> u64 \<times> paging" where
  "paging_clone_table_deep 0 table_phys s = (0, s)"
| "paging_clone_table_deep (Suc level) table_phys s =
     (if table_phys = 0 then (0, s)
      else case paging_alloc_table s of
        (dst_phys, s) \<Rightarrow>
          if dst_phys = 0 then (0, s)
          else
            (let (ok, s) = fold (\<lambda>i (ok, s).
                    if \<not> ok then (ok, s)
                    else
                      (let entry = entry_get s (table_phys AND PAGING_ADDR_MASK, i) in
                       if entry AND PAGING_FLAG_PRESENT = 0 \<or> level = 0 \<or> entry AND PAGING_FLAG_PAGE_SIZE \<noteq> 0
                       then (True, entry_set s (dst_phys, i) entry)
                       else case paging_clone_table_deep level (entry AND PAGING_ADDR_MASK) s of
                              (child, s) \<Rightarrow>
                                if child = 0 then (False, s)
                                else (True, entry_set s (dst_phys, i) ((entry AND NOT PAGING_ADDR_MASK) OR child))))
                  [0..<PAGING_TABLE_ENTRIES] (True, s)
             in if ok then (dst_phys, s) else (0, paging_destroy_table_deep dst_phys (Suc level) s)))"

primrec paging_clone_table_supervisor :: "nat \<Rightarrow> u64 \<Rightarrow> bool \<Rightarrow> paging \<Rightarrow> bool \<times> bool \<times> u64 \<times> paging" where
  "paging_clone_table_supervisor 0 table_phys path_user s = (False, False, 0, s)"
| "paging_clone_table_supervisor (Suc level) table_phys path_user s =
     (if table_phys = 0 then (False, False, 0, s)
      else case paging_alloc_table s of
        (dst_phys, s) \<Rightarrow>
          if dst_phys = 0 then (False, False, 0, s)
          else
            (let (ok, any, s) = fold (\<lambda>i (ok, any, s).
                    if \<not> ok then (ok, any, s)
                    else
                      (let entry = entry_get s (table_phys AND PAGING_ADDR_MASK, i);
                           entry_user = (path_user \<and> entry AND PAGING_FLAG_USER \<noteq> 0);
                           masked = (if \<not> path_user then entry AND NOT PAGING_FLAG_USER else entry)
                       in if entry AND PAGING_FLAG_PRESENT = 0 then (ok, any, s)
                          else if level = 0 \<or> entry AND PAGING_FLAG_PAGE_SIZE \<noteq> 0 then
                            (if entry_user then (ok, any, s) else (ok, True, entry_set s (dst_phys, i) masked))
                          else case paging_clone_table_supervisor level (entry AND PAGING_ADDR_MASK) entry_user s of
                                 (child_ok, child_nonempty, child_phys, s) \<Rightarrow>
                                   if \<not> child_ok then (False, any, s)
                                   else if \<not> child_nonempty then (ok, any, s)
                                   else (ok, True, entry_set s (dst_phys, i) ((masked AND NOT PAGING_ADDR_MASK) OR child_phys))))
                  [0..<PAGING_TABLE_ENTRIES] (True, False, s)
             in if \<not> ok then (False, False, 0, paging_destroy_table_deep dst_phys (Suc level) s)
                else if \<not> any then (True, False, 0, snd (pg_free s dst_phys))
                else (True, True, dst_phys, s)))"

primrec paging_clone_table_cow :: "nat \<Rightarrow> u64 \<Rightarrow> bool \<Rightarrow> paging \<Rightarrow> bool \<times> u64 \<times> paging" where
  "paging_clone_table_cow 0 table_phys path_user s = (True, 0, s)"
| "paging_clone_table_cow (Suc level) table_phys path_user s =
     (if table_phys = 0 then (True, 0, s)
      else case paging_alloc_table s of
        (dst_phys, s) \<Rightarrow>
          if dst_phys = 0 then (False, 0, s)
          else
            (let (ok, s) = fold (\<lambda>i (ok, s).
                    if \<not> ok then (ok, s)
                    else
                      (let entry = entry_get s (table_phys AND PAGING_ADDR_MASK, i);
                           effective_user = (path_user \<and> entry AND PAGING_FLAG_USER \<noteq> 0);
                           phys = entry AND PAGING_ADDR_MASK
                       in if entry AND PAGING_FLAG_PRESENT = 0 then (ok, s)
                          else if level = 0 \<or> entry AND PAGING_FLAG_PAGE_SIZE \<noteq> 0 then
                            (if effective_user \<and> entry AND PAGING_FLAG_PAGE_SIZE \<noteq> 0 then (False, s)
                             else if level = 0 \<and> effective_user \<and> pmm_ref_count (pg_pmm s) phys \<noteq> 0 then
                               (case pmm_retain_page (pg_pmm s) phys of
                                  (False, pm) \<Rightarrow> (False, s\<lparr>pg_pmm := pm\<rparr>)
                                | (True, pm) \<Rightarrow> (True, entry_set (s\<lparr>pg_pmm := pm\<rparr>) (dst_phys, i) entry))
                             else (True, entry_set s (dst_phys, i) entry))
                          else case paging_clone_table_cow level phys effective_user s of
                                 (child_ok, child, s) \<Rightarrow>
                                   if \<not> child_ok \<or> child = 0 then (False, s)
                                   else (True, entry_set s (dst_phys, i) ((entry AND NOT PAGING_ADDR_MASK) OR child))))
                  [0..<PAGING_TABLE_ENTRIES] (True, s)
             in if \<not> ok then (False, 0, paging_destroy_table_deep dst_phys (Suc level) s) else (True, dst_phys, s)))"

definition mark_cow_leaf :: "pt_entry \<Rightarrow> pt_entry \<Rightarrow> bool \<Rightarrow> paging \<Rightarrow> paging" where
  "mark_cow_leaf src dst effective_user s =
     (let src_entry = entry_get s src; dst_entry = entry_get s dst in
      if \<not> effective_user then s
      else if pmm_ref_count (pg_pmm s) (src_entry AND PAGING_ADDR_MASK) = 0 then s
      else if src_entry AND PAGING_FLAG_RW = 0 then s
      else entry_set (entry_set s src ((src_entry AND NOT PAGING_FLAG_RW) OR PAGING_FLAG_COW))
             dst ((dst_entry AND NOT PAGING_FLAG_RW) OR PAGING_FLAG_COW))"

primrec paging_mark_clone_cow_pair :: "nat \<Rightarrow> u64 \<Rightarrow> u64 \<Rightarrow> bool \<Rightarrow> paging \<Rightarrow> paging" where
  "paging_mark_clone_cow_pair 0 source_phys clone_phys path_user s = s"
| "paging_mark_clone_cow_pair (Suc level) source_phys clone_phys path_user s =
     (if source_phys = 0 \<or> clone_phys = 0 then s
      else
        fold (\<lambda>i s.
          (let src = (source_phys AND PAGING_ADDR_MASK, i); dst = (clone_phys AND PAGING_ADDR_MASK, i);
               src_entry = entry_get s src; dst_entry = entry_get s dst;
               effective_user = (path_user \<and> src_entry AND PAGING_FLAG_USER \<noteq> 0)
           in if src_entry AND PAGING_FLAG_PRESENT = 0 \<or> dst_entry AND PAGING_FLAG_PRESENT = 0 then s
              else if level = 0 then mark_cow_leaf src dst effective_user s
              else if src_entry AND PAGING_FLAG_PAGE_SIZE \<noteq> 0 \<or> dst_entry AND PAGING_FLAG_PAGE_SIZE \<noteq> 0 then s
              else paging_mark_clone_cow_pair level (src_entry AND PAGING_ADDR_MASK) (dst_entry AND PAGING_ADDR_MASK)
                     effective_user s))
          [0..<PAGING_TABLE_ENTRIES] s)"

section \<open>Roots\<close>

definition paging_clone_root_deep :: "u64 \<Rightarrow> paging \<Rightarrow> u64 \<times> paging" where
  "paging_clone_root_deep source_cr3 s = paging_clone_table_deep 4 (source_cr3 AND PAGING_ADDR_MASK) s"

definition paging_clone_root_cow :: "u64 \<Rightarrow> paging \<Rightarrow> u64 \<times> paging" where
  "paging_clone_root_cow source_cr3 s =
     (let source_phys = source_cr3 AND PAGING_ADDR_MASK in
      if source_phys = 0 then (0, s)
      else case paging_clone_table_cow 4 source_phys True s of
             (ok, clone, s) \<Rightarrow>
               if \<not> ok \<or> clone = 0 then (0, s)
               else (clone, paging_mark_clone_cow_pair 4 source_phys clone True s))"

definition paging_create_user_root :: "paging \<Rightarrow> u64 \<times> paging" where
  "paging_create_user_root s =
     (case paging_clone_table_supervisor 4 (paging_get_current_cr3 s AND PAGING_ADDR_MASK) True s of
        (ok, nonempty, dst_pml4_phys, s) \<Rightarrow>
          if \<not> ok \<or> \<not> nonempty \<or> dst_pml4_phys = 0 then (0, s) else (dst_pml4_phys, s))"

section \<open>Validating a tree\<close>

definition validate_huge :: "nat \<Rightarrow> bool \<Rightarrow> u64 \<Rightarrow> bool" where
  "validate_huge level entry_user entry \<longleftrightarrow>
     level \<noteq> 4 \<and> \<not> (level = 3 \<and> entry AND 0x3ffff000 \<noteq> 0) \<and> \<not> (level = 2 \<and> entry AND 0x1ff000 \<noteq> 0) \<and>
     \<not> (entry_user \<and> entry AND PAGING_FLAG_COW \<noteq> 0)"

primrec paging_validate_table :: "nat \<Rightarrow> u64 \<Rightarrow> bool \<Rightarrow> u64 list \<Rightarrow> paging \<Rightarrow> bool" where
  "paging_validate_table 0 table_phys path_user ancestors s = False"
| "paging_validate_table (Suc level) table_phys path_user ancestors s =
     (if table_phys = 0 \<or> table_phys AND 0xfff \<noteq> 0 \<or> Suc level > 4 \<or> length ancestors \<ge> 4 \<or>
         pmm_ref_count (pg_pmm s) (table_phys AND PAGING_ADDR_MASK) = 0
      then False
      else if table_phys AND PAGING_ADDR_MASK \<in> set ancestors then False
      else
        list_all (\<lambda>i.
          (let entry = entry_get s (table_phys AND PAGING_ADDR_MASK, i);
               entry_user = (path_user \<and> entry AND PAGING_FLAG_USER \<noteq> 0);
               phys = entry AND PAGING_ADDR_MASK
           in if entry AND PAGING_FLAG_PRESENT = 0 then True
              else if entry AND PAGING_FLAG_COW \<noteq> 0 \<and> entry AND PAGING_FLAG_RW \<noteq> 0 then False
              else if entry AND PAGING_FLAG_PAGE_SIZE \<noteq> 0 \<and> Suc level > 1 then validate_huge (Suc level) entry_user entry
              else if phys = 0 \<or> phys AND 0xfff \<noteq> 0 then False
              else if entry AND PAGING_FLAG_USER \<noteq> 0 \<and> \<not> path_user then False
              else if level = 0 then True
              else paging_validate_table level phys entry_user (ancestors @ [table_phys AND PAGING_ADDR_MASK]) s))
          [0..<PAGING_TABLE_ENTRIES])"

definition paging_validate_root :: "u64 \<Rightarrow> paging \<Rightarrow> bool" where
  "paging_validate_root root_cr3 s =
     (let root_phys = root_cr3 AND PAGING_ADDR_MASK in
      if root_phys = 0 \<or> root_cr3 AND NOT PAGING_ADDR_MASK \<noteq> 0 then False
      else paging_validate_table 4 root_phys True [] s)"

section \<open>Guard pages\<close>

text \<open>\<open>bss_start\<close> and \<open>bss_end\<close> are the linker symbols \<^verbatim>\<open>__kernel_bss_start\<close> and \<^verbatim>\<open>__kernel_bss_end\<close>.\<close>

definition paging_guard_kernel_page :: "u64 \<Rightarrow> u64 \<Rightarrow> u64 \<Rightarrow> paging \<Rightarrow> bool \<times> paging" where
  "paging_guard_kernel_page bss_start bss_end virt_addr s =
     (let root = paging_get_current_cr3 s;
          expected_phys = paging_kernel_phys_for_virt (g_kernel_ranges s) virt_addr;
          phys = paging_translate_in_root (pg_mem s) root virt_addr
      in if root = 0 \<or> length (g_kernel_guard_pages s) \<ge> PAGING_KERNEL_GUARD_LIMIT \<or>
            paging_is_kernel_guard_page s virt_addr \<or> \<not> paging_validate_page_address virt_addr \<or>
            virt_addr < bss_start \<or> virt_addr \<ge> bss_end \<or> expected_phys = None \<or> phys = None \<or> phys \<noteq> expected_phys
         then (False, s)
         else case paging_walk_to_pte_in_root s root virt_addr True False of
                (None, s1) \<Rightarrow> (False, s1)
              | (Some pte, s1) \<Rightarrow>
                  if entry_get s1 pte AND (PAGING_FLAG_PRESENT OR PAGING_FLAG_USER) \<noteq> PAGING_FLAG_PRESENT \<or>
                     Some (entry_get s1 pte AND PAGING_ADDR_MASK) \<noteq> phys
                  then (False, s1)
                  else (True, (entry_set s1 pte 0)\<lparr>g_kernel_guard_pages := g_kernel_guard_pages s1 @ [virt_addr]\<rparr>))"

end
