(* ===== verification/Paging_Boot.thy ===== *)
theory Paging_Boot
  imports Paging_Clone
begin

text \<open>
  The start-up half of \<^verbatim>\<open>arch/x86/x86_64/mm/paging.c\<close>: the kernel ranges, \<^verbatim>\<open>paging_init\<close>, the
  kernel root with its 4 GiB direct map, write combining, and the read-only queries. The
  linker symbols are a record; what the processor reports (\<^verbatim>\<open>cpuid\<close>, the EFER and PAT
  registers) is an argument.
\<close>

record kernel_layout =
  kernel_start :: u64
  kernel_end :: u64
  kernel_text_start :: u64
  kernel_text_end :: u64
  kernel_data_start :: u64
  kernel_data_end :: u64
  kernel_bss_start :: u64
  kernel_bss_end :: u64
  userelf_start :: u64
  userelf_stack_top :: u64

section \<open>Initialisation\<close>

definition PAGING_CPUID_EXT_FEATURES :: u32 where "PAGING_CPUID_EXT_FEATURES = 0x80000001"
definition PAGING_CPUID_NX_BIT :: u32 where "PAGING_CPUID_NX_BIT = 0x100000"
definition PAGING_EFER_NXE :: u64 where "PAGING_EFER_NXE = 0x800"

text \<open>\<open>write_efer\<close> gives the value that is read back from the register after a write.\<close>

definition paging_enable_nx :: "u32 \<Rightarrow> u32 \<Rightarrow> u64 \<Rightarrow> (u64 \<Rightarrow> u64) \<Rightarrow> paging \<Rightarrow> paging" where
  "paging_enable_nx max_leaf ext_edx efer write_efer s =
     (if max_leaf < PAGING_CPUID_EXT_FEATURES \<or> ext_edx AND PAGING_CPUID_NX_BIT = 0
      then s\<lparr>g_paging_nx_enabled := False\<rparr>
      else s\<lparr>g_paging_nx_enabled := write_efer (efer OR PAGING_EFER_NXE) AND PAGING_EFER_NXE \<noteq> 0\<rparr>)"

definition paging_build_kernel_ranges :: "kernel_layout \<Rightarrow> paging \<Rightarrow> paging" where
  "paging_build_kernel_ranges ld s =
     s\<lparr>g_kernel_ranges :=
         fold (\<lambda>virt ranges.
                 case paging_translate_current s virt of
                   None \<Rightarrow> ranges
                 | Some phys \<Rightarrow> paging_append_kernel_range ranges virt (phys AND PAGING_ADDR_MASK))
           (range_pages (kernel_start ld) ((kernel_end ld + 0xfff) AND NOT 0xfff)) []\<rparr>"

definition paging_init :: "u32 \<Rightarrow> u32 \<Rightarrow> u64 \<Rightarrow> (u64 \<Rightarrow> u64) \<Rightarrow> kernel_layout \<Rightarrow> paging \<Rightarrow> paging" where
  "paging_init max_leaf ext_edx efer write_efer ld s =
     (let s = paging_enable_nx max_leaf ext_edx efer write_efer s;
          s = paging_build_kernel_ranges ld s;
          s = paging_set_range_write_flag (kernel_text_start ld) (kernel_text_end ld) False s;
          s = paging_set_range_write_flag (kernel_data_start ld) (kernel_data_end ld) True s;
          s = paging_set_range_write_flag (kernel_bss_start ld) (kernel_bss_end ld) True s;
          s = paging_set_range_write_flag (userelf_start ld) (userelf_stack_top ld) True s
      in if g_paging_nx_enabled s then
           (let s = paging_set_range_execute_flag (kernel_text_start ld) (kernel_text_end ld) True s;
                s = paging_set_range_execute_flag (kernel_data_start ld) (kernel_data_end ld) False s;
                s = paging_set_range_execute_flag (kernel_bss_start ld) (kernel_bss_end ld) False s
            in paging_set_range_execute_flag (userelf_start ld) (userelf_stack_top ld) False s)
         else s)"

section \<open>The kernel root\<close>

text \<open>The four directories of 2 MiB pages that map the first 4 GiB.\<close>

primrec kernel_root_tables :: "nat list \<Rightarrow> u64 \<Rightarrow> paging \<Rightarrow> bool \<times> paging" where
  "kernel_root_tables [] pdpt_phys s = (True, s)"
| "kernel_root_tables (table # tables) pdpt_phys s =
     (case paging_alloc_table s of
        (pd_phys, s) \<Rightarrow>
          if pd_phys = 0 then (False, s)
          else
            (let s = entry_set s (pdpt_phys, table) (pd_phys OR PAGING_FLAG_PRESENT OR PAGING_FLAG_RW);
                 s = fill_table (\<lambda>i. (of_nat table * of_nat PAGING_TABLE_ENTRIES + of_nat i) * 0x200000
                                    OR PAGING_FLAG_PRESENT OR PAGING_FLAG_RW OR PAGING_FLAG_PAGE_SIZE) pd_phys s
             in kernel_root_tables tables pdpt_phys s))"

primrec kernel_root_image :: "u64 list \<Rightarrow> u64 \<Rightarrow> paging \<Rightarrow> bool \<times> paging" where
  "kernel_root_image [] root_phys s = (True, s)"
| "kernel_root_image (virt # virts) root_phys s =
     (if paging_is_kernel_guard_page s virt then kernel_root_image virts root_phys s
      else case paging_kernel_phys_for_virt (g_kernel_ranges s) virt of
             None \<Rightarrow> kernel_root_image virts root_phys s
           | Some phys \<Rightarrow>
               (case paging_map_page_in_root s root_phys virt phys False True True of
                  (False, s) \<Rightarrow> (False, s)
                | (True, s) \<Rightarrow> kernel_root_image virts root_phys s))"

definition paging_create_kernel_root :: "kernel_layout \<Rightarrow> paging \<Rightarrow> u64 \<times> paging" where
  "paging_create_kernel_root ld s =
     (case paging_alloc_table s of
        (root_phys, s) \<Rightarrow>
          if root_phys = 0 then (0, s)
          else case paging_alloc_table s of
            (pdpt_phys, s) \<Rightarrow>
              if pdpt_phys = 0 then (0, snd (pg_free s root_phys))
              else
                (let s = entry_set s (root_phys, 0) (pdpt_phys OR PAGING_FLAG_PRESENT OR PAGING_FLAG_RW) in
                 case kernel_root_tables [0..<4] pdpt_phys s of
                   (False, s) \<Rightarrow> (0, paging_destroy_table_deep root_phys 4 s)
                 | (True, s) \<Rightarrow>
                     (case kernel_root_image (step_pages (kernel_start ld) (kernel_end ld)) root_phys s of
                        (False, s) \<Rightarrow> (0, paging_destroy_table_deep root_phys 4 s)
                      | (True, s) \<Rightarrow> (root_phys, s))))"

definition paging_clone_current_root_deep :: "paging \<Rightarrow> u64 \<times> paging" where
  "paging_clone_current_root_deep s = paging_clone_root_deep (paging_get_current_cr3 s) s"

section \<open>Write combining\<close>

definition write_combining_page :: "u64 \<Rightarrow> bool \<times> paging \<Rightarrow> bool \<times> paging" where
  "write_combining_page page = (\<lambda>(mapped, s).
     case paging_walk_to_pte s page False of
       (None, s) \<Rightarrow> (False, s)
     | (Some pte, s) \<Rightarrow>
         if entry_get s pte AND PAGING_FLAG_PRESENT = 0 then (False, s)
         else (mapped, entry_set s pte
                 ((entry_get s pte AND NOT (PAGING_FLAG_PWT OR PAGING_FLAG_PCD OR PAGING_FLAG_PAT_4K)) OR PAGING_FLAG_PAT_4K)))"

text \<open>\<open>pat_ok\<close> is the result of \<^verbatim>\<open>paging_enable_pat_write_combining\<close>, which programs the PAT register.\<close>

definition paging_set_write_combining :: "bool \<Rightarrow> u64 \<Rightarrow> u64 \<Rightarrow> paging \<Rightarrow> bool \<times> paging" where
  "paging_set_write_combining pat_ok virt_addr sz s =
     (if sz = 0 \<or> \<not> paging_is_canonical virt_addr then (False, s)
      else case paging_checked_add virt_addr sz of
        None \<Rightarrow> (False, s)
      | Some raw_end \<Rightarrow>
          if raw_end = 0 \<or> \<not> paging_is_canonical (raw_end - 1) \<or> \<not> pat_ok then (False, s)
          else
            (let start = virt_addr AND NOT 0xfff in
             case paging_align_up_checked raw_end 0x1000 of
               None \<Rightarrow> (False, s)
             | Some end_addr \<Rightarrow>
                 if end_addr \<le> start \<or> \<not> paging_validate_page_range start end_addr then (False, s)
                 else fold write_combining_page (step_pages start end_addr) (True, s)))"

section \<open>Queries\<close>

definition paging_get_walk_entries :: "paging \<Rightarrow> u64 \<Rightarrow> (u64 \<times> u64 \<times> u64 \<times> u64) option" where
  "paging_get_walk_entries s virt_addr =
     map_option (\<lambda>info. (wi_pml4e info, wi_pdpte info, wi_pde info, wi_pte info))
       (paging_walk_in_root (pg_mem s) (paging_get_current_cr3 s) virt_addr)"

definition paging_get_walk_entries_in_root :: "paging \<Rightarrow> u64 \<Rightarrow> u64 \<Rightarrow> (u64 \<times> u64 \<times> u64 \<times> u64) option" where
  "paging_get_walk_entries_in_root s root_cr3 virt_addr =
     map_option (\<lambda>info. (wi_pml4e info, wi_pdpte info, wi_pde info, wi_pte info))
       (paging_walk_in_root (pg_mem s) root_cr3 virt_addr)"

end
