(* ===== verification/Paging_Tree.thy ===== *)
theory Paging_Tree
  imports Paging_Clone
begin

text \<open>
  The page tables below a root as a tree: the set of its table pages, its well-formedness
  (no table is shared between two entries, huge pages have no reserved bits), and the
  translation it defines. The lemmas say how a change inside one subtree, on the path of an
  address, shows at the root.
\<close>

section \<open>Flags and indices\<close>

lemma and_bit_eq_0_iff: "(e :: u64) AND 2 ^ n = 0 \<longleftrightarrow> \<not> bit e n"
  by (rule and_exp_eq_0_iff_not_bit)

lemma flag_iff:
  "e AND PAGING_FLAG_PRESENT = 0 \<longleftrightarrow> \<not> bit e 0"
  "e AND PAGING_FLAG_RW = 0 \<longleftrightarrow> \<not> bit e 1"
  "e AND PAGING_FLAG_USER = 0 \<longleftrightarrow> \<not> bit e 2"
  "e AND PAGING_FLAG_PAGE_SIZE = 0 \<longleftrightarrow> \<not> bit e 7"
  "e AND PAGING_FLAG_COW = 0 \<longleftrightarrow> \<not> bit e 9"
  "e AND PAGING_FLAG_NX = 0 \<longleftrightarrow> \<not> bit e 63"
  using and_bit_eq_0_iff [of e 0] and_bit_eq_0_iff [of e 1] and_bit_eq_0_iff [of e 2]
    and_bit_eq_0_iff [of e 7] and_bit_eq_0_iff [of e 9] and_bit_eq_0_iff [of e 63]
  by (simp_all add: paging_flag_defs)

lemma PAGING_ADDR_MASK_eq: "PAGING_ADDR_MASK = push_bit 12 (mask 40)"
  by (simp add: PAGING_ADDR_MASK_def mask_eq_exp_minus_1 push_bit_eq_mult)

lemma bit_addr_mask: "bit PAGING_ADDR_MASK n \<longleftrightarrow> 12 \<le> n \<and> n < 52"
  by (auto simp: PAGING_ADDR_MASK_eq bit_push_bit_iff bit_mask_iff)

text \<open>\<open>lvl_index l\<close> is the index of an address at level \<open>l\<close>, from 4 (PML4) down to 1 (page table).\<close>

definition lvl_index :: "nat \<Rightarrow> u64 \<Rightarrow> nat" where
  "lvl_index l addr = unat (drop_bit (12 + 9 * (l - 1)) addr AND 0x1ff)"

lemma lvl_index_eqs:
  "pml4_index = lvl_index 4" "pdpt_index = lvl_index 3" "pd_index = lvl_index 2" "pt_index = lvl_index 1"
  by (simp_all add: fun_eq_iff lvl_index_def pml4_index_def pdpt_index_def pd_index_def pt_index_def)

lemma lvl_index_less [simp]: "lvl_index l addr < 512"
proof -
  have "drop_bit (12 + 9 * (l - 1)) addr AND 0x1ff \<le> 0x1ff" by (rule word_and_le1)
  then show ?thesis by (simp add: lvl_index_def word_le_nat_alt)
qed

definition masked :: "u64 \<Rightarrow> bool" where
  "masked t \<longleftrightarrow> t AND PAGING_ADDR_MASK = t"

lemma masked_and [simp]: "masked (e AND PAGING_ADDR_MASK)"
  by (simp add: masked_def and.assoc)

lemma masked_aligned [simp]: "masked t \<Longrightarrow> page_aligned t"
proof -
  assume "masked t"
  then have "t AND 0xfff = t AND (PAGING_ADDR_MASK AND 0xfff)" by (metis masked_def and.assoc)
  then show ?thesis by (simp add: page_aligned_def PMM_PAGE_SIZE_def PAGING_ADDR_MASK_def)
qed

lemma aligned_addr_mask [simp]: "page_aligned (e AND PAGING_ADDR_MASK)"
  by (rule masked_aligned) simp

section \<open>The tree below a table\<close>

definition huge_base :: "nat \<Rightarrow> u64" where
  "huge_base l = (if l = 1 then PAGING_ADDR_MASK else if l = 2 then 0x000fffffffe00000 else 0x000fffffc0000000)"

definition huge_off :: "nat \<Rightarrow> u64" where
  "huge_off l = (if l = 1 then 0xfff else if l = 2 then 0x1fffff else 0x3fffffff)"

definition leaf_phys :: "nat \<Rightarrow> u64 \<Rightarrow> u64 \<Rightarrow> u64" where
  "leaf_phys l e va = (e AND huge_base l) OR (va AND huge_off l)"

text \<open>Reserved bits of a huge entry: address bits below its size.\<close>

definition huge_ok :: "nat \<Rightarrow> u64 \<Rightarrow> bool" where
  "huge_ok l e \<longleftrightarrow> e AND PAGING_ADDR_MASK = e AND huge_base l"

definition is_leaf :: "nat \<Rightarrow> u64 \<Rightarrow> bool" where
  "is_leaf l e \<longleftrightarrow> l = 1 \<or> l < 4 \<and> bit e 7"

primrec pt_tabs :: "nat \<Rightarrow> phys_memory \<Rightarrow> u64 \<Rightarrow> u64 set" where
  "pt_tabs 0 m t = {}"
| "pt_tabs (Suc l) m t = insert t (\<Union>i<512. if bit (pt_get m t i) 0 \<and> \<not> is_leaf (Suc l) (pt_get m t i)
       then pt_tabs l m (pt_get m t i AND PAGING_ADDR_MASK) else {})"

primrec pt_trans :: "nat \<Rightarrow> phys_memory \<Rightarrow> u64 \<Rightarrow> u64 \<Rightarrow> u64 option" where
  "pt_trans 0 m t va = None"
| "pt_trans (Suc l) m t va =
     (let e = pt_get m t (lvl_index (Suc l) va) in
      if \<not> bit e 0 then None
      else if is_leaf (Suc l) e then Some (leaf_phys (Suc l) e va)
      else pt_trans l m (e AND PAGING_ADDR_MASK) va)"

definition child_tabs :: "nat \<Rightarrow> phys_memory \<Rightarrow> u64 \<Rightarrow> u64 set" where
  "child_tabs l m e = (if bit e 0 \<and> \<not> is_leaf (Suc l) e then pt_tabs l m (e AND PAGING_ADDR_MASK) else {})"

definition child_trans :: "nat \<Rightarrow> phys_memory \<Rightarrow> u64 \<Rightarrow> u64 \<Rightarrow> u64 option" where
  "child_trans l m e va =
     (if \<not> bit e 0 then None
      else if is_leaf (Suc l) e then Some (leaf_phys (Suc l) e va)
      else pt_trans l m (e AND PAGING_ADDR_MASK) va)"

text \<open>Well-formed: no table page is reached twice, and no PML4 entry is huge.\<close>

primrec pt_wf :: "nat \<Rightarrow> phys_memory \<Rightarrow> u64 \<Rightarrow> bool" where
  "pt_wf 0 m t = True"
| "pt_wf (Suc l) m t =
     (masked t \<and>
      (\<forall>i<512. bit (pt_get m t i) 0 \<longrightarrow>
         (if is_leaf (Suc l) (pt_get m t i) then l = 0 \<or> huge_ok (Suc l) (pt_get m t i)
          else \<not> bit (pt_get m t i) 7 \<and> pt_wf l m (pt_get m t i AND PAGING_ADDR_MASK))) \<and>
      (\<forall>i<512. t \<notin> child_tabs l m (pt_get m t i)) \<and>
      (\<forall>i<512. \<forall>j<512. i \<noteq> j \<longrightarrow> child_tabs l m (pt_get m t i) \<inter> child_tabs l m (pt_get m t j) = {}))"

definition child_wf :: "nat \<Rightarrow> phys_memory \<Rightarrow> u64 \<Rightarrow> bool" where
  "child_wf l m e \<longleftrightarrow> (bit e 0 \<longrightarrow>
     (if is_leaf (Suc l) e then l = 0 \<or> huge_ok (Suc l) e
      else \<not> bit e 7 \<and> pt_wf l m (e AND PAGING_ADDR_MASK)))"

lemma pt_tabs_Suc: "pt_tabs (Suc l) m t = insert t (\<Union>i<512. child_tabs l m (pt_get m t i))"
  by (simp add: child_tabs_def)

lemma pt_trans_Suc: "pt_trans (Suc l) m t va = child_trans l m (pt_get m t (lvl_index (Suc l) va)) va"
  by (simp add: child_trans_def Let_def)

lemma pt_wf_Suc:
  "pt_wf (Suc l) m t \<longleftrightarrow> masked t \<and> (\<forall>i<512. child_wf l m (pt_get m t i)) \<and>
     (\<forall>i<512. t \<notin> child_tabs l m (pt_get m t i)) \<and>
     (\<forall>i<512. \<forall>j<512. i \<noteq> j \<longrightarrow> child_tabs l m (pt_get m t i) \<inter> child_tabs l m (pt_get m t j) = {})"
  by (simp add: child_wf_def)

lemmas pt_simps = pt_tabs_Suc pt_trans_Suc pt_wf_Suc

declare pt_tabs.simps(2) [simp del] pt_trans.simps(2) [simp del] pt_wf.simps(2) [simp del]

section \<open>Changes elsewhere\<close>

lemma child_agree:
  assumes "P \<inter> child_tabs l m e = {}"
    and "P \<inter> pt_tabs l m (e AND PAGING_ADDR_MASK) = {} \<Longrightarrow> masked (e AND PAGING_ADDR_MASK) \<Longrightarrow>
      pt_tabs l m' (e AND PAGING_ADDR_MASK) = pt_tabs l m (e AND PAGING_ADDR_MASK) \<and>
      pt_trans l m' (e AND PAGING_ADDR_MASK) = pt_trans l m (e AND PAGING_ADDR_MASK) \<and>
      (pt_wf l m' (e AND PAGING_ADDR_MASK) \<longleftrightarrow> pt_wf l m (e AND PAGING_ADDR_MASK))"
  shows "child_tabs l m' e = child_tabs l m e" "child_trans l m' e = child_trans l m e"
    "child_wf l m' e \<longleftrightarrow> child_wf l m e"
proof -
  show "child_tabs l m' e = child_tabs l m e"
    by (cases "bit e 0 \<and> \<not> is_leaf (Suc l) e") (use assms in \<open>auto simp: child_tabs_def\<close>)
  show "child_trans l m' e = child_trans l m e"
    by (cases "bit e 0 \<and> \<not> is_leaf (Suc l) e") (use assms in \<open>auto simp: child_tabs_def child_trans_def fun_eq_iff\<close>)
  show "child_wf l m' e \<longleftrightarrow> child_wf l m e"
    by (cases "bit e 0 \<and> \<not> is_leaf (Suc l) e") (use assms in \<open>auto simp: child_tabs_def child_wf_def\<close>)
qed

lemma tree_same:
  assumes "same_outside P m m'" and "P \<inter> pt_tabs l m t = {}" and "masked t"
  shows "pt_tabs l m' t = pt_tabs l m t \<and> pt_trans l m' t = pt_trans l m t \<and> (pt_wf l m' t \<longleftrightarrow> pt_wf l m t)"
  using assms(2,3)
proof (induction l arbitrary: t)
  case 0
  then show ?case by (simp add: fun_eq_iff)
next
  case (Suc l)
  then have t: "t \<notin> P" by (auto simp: pt_simps)
  have get: "pt_get m' t i = pt_get m t i" if "i < 512" for i
    using that t Suc.prems(2) by (intro pt_get_same [OF assms(1)]) auto
  have child: "child_tabs l m' (pt_get m t i) = child_tabs l m (pt_get m t i)"
    "child_trans l m' (pt_get m t i) = child_trans l m (pt_get m t i)"
    "child_wf l m' (pt_get m t i) \<longleftrightarrow> child_wf l m (pt_get m t i)" if "i < 512" for i
  proof -
    from that Suc.prems(1) have "P \<inter> child_tabs l m (pt_get m t i) = {}" by (auto simp: pt_simps)
    note * = child_agree [OF this Suc.IH]
    show "child_tabs l m' (pt_get m t i) = child_tabs l m (pt_get m t i)"
      "child_trans l m' (pt_get m t i) = child_trans l m (pt_get m t i)"
      "child_wf l m' (pt_get m t i) \<longleftrightarrow> child_wf l m (pt_get m t i)"
      by (rule *; simp)+
  qed
  show ?case
    using Suc.prems(2) by (simp add: pt_simps fun_eq_iff get child)
qed

lemma child_same:
  assumes "same_outside P m m'" and "P \<inter> child_tabs l m e = {}"
  shows "child_tabs l m' e = child_tabs l m e" "child_trans l m' e = child_trans l m e"
    "child_wf l m' e \<longleftrightarrow> child_wf l m e"
  by (rule child_agree [OF assms(2)]; rule tree_same [OF assms(1)]; assumption)+

section \<open>Changing a subtree\<close>

definition tree_edit :: "nat \<Rightarrow> phys_memory \<Rightarrow> phys_memory \<Rightarrow> u64 \<Rightarrow> u64 set \<Rightarrow> bool" where
  "tree_edit l m m' t F \<longleftrightarrow>
     same_outside (pt_tabs l m t \<union> F) m m' \<and> pt_wf l m' t \<and> pt_tabs l m' t \<subseteq> pt_tabs l m t \<union> F"

lemma UN_update:
  assumes "i < (n :: nat)" and "\<And>j. j < n \<Longrightarrow> j \<noteq> i \<Longrightarrow> g j = f j"
    and "\<And>j. j < n \<Longrightarrow> j \<noteq> i \<Longrightarrow> f j \<inter> f i = {}"
  shows "(\<Union>j<n. g j) = (\<Union>j<n. f j) - f i \<union> g i"
proof (intro set_eqI iffI)
  fix x assume "x \<in> (\<Union>j<n. g j)"
  then obtain j where j: "j < n" "x \<in> g j" by blast
  show "x \<in> (\<Union>j<n. f j) - f i \<union> g i"
  proof (cases "j = i")
    case False
    with j assms(2,3) [of j] show ?thesis by blast
  qed (use j in simp)
next
  fix x assume x: "x \<in> (\<Union>j<n. f j) - f i \<union> g i"
  show "x \<in> (\<Union>j<n. g j)"
  proof (cases "x \<in> g i")
    case False
    with x obtain j where "j < n" "x \<in> f j" "j \<noteq> i" by auto
    with assms(2) [of j] show ?thesis by blast
  qed (use assms(1) in blast)
qed

lemma entry_edit:
  assumes wf: "pt_wf (Suc l) m u" and i: "i < 512"
    and out: "same_outside (insert u (child_tabs l m (pt_get m u i) \<union> F)) m m'"
    and fresh: "F \<inter> pt_tabs (Suc l) m u = {}"
    and get: "\<And>j. j < 512 \<Longrightarrow> pt_get m' u j = (if j = i then e else pt_get m u j)"
    and e: "child_wf l m' e" "child_tabs l m' e \<subseteq> child_tabs l m (pt_get m u i) \<union> F"
  shows "tree_edit (Suc l) m m' u F"
    "pt_tabs (Suc l) m' u = pt_tabs (Suc l) m u - child_tabs l m (pt_get m u i) \<union> child_tabs l m' e"
    "pt_trans (Suc l) m' u va =
       (if lvl_index (Suc l) va = i then child_trans l m' e va else pt_trans (Suc l) m u va)"
proof -
  note w = wf [unfolded pt_wf_Suc]
  let ?C = "child_tabs l m (pt_get m u i)"
  have F: "F \<inter> child_tabs l m (pt_get m u j) = {}" "u \<notin> F" if "j < 512" for j
    using that fresh by (auto simp: pt_simps)
  have disj: "child_tabs l m (pt_get m u j) \<inter> ?C = {}" if "j < 512" "j \<noteq> i" for j
    using that w i by blast
  have "insert u (?C \<union> F) \<inter> child_tabs l m (pt_get m u j) = {}" if "j < 512" "j \<noteq> i" for j
    using disj [OF that] F(1) [OF that(1)] w that(1) by blast
  note same = child_same [OF out this]
  have tabs: "child_tabs l m' (pt_get m' u j) = child_tabs l m (pt_get m u j)" if "j < 512" "j \<noteq> i" for j
    using that get [of j] same(1) [of j] by simp
  have ei: "pt_get m' u i = e" using get [OF i] by simp
  from UN_update [of i 512 "\<lambda>j. child_tabs l m' (pt_get m' u j)" "\<lambda>j. child_tabs l m (pt_get m u j)", OF i tabs disj]
  have UN: "(\<Union>j<512. child_tabs l m' (pt_get m' u j)) = (\<Union>j<512. child_tabs l m (pt_get m u j)) - ?C \<union> child_tabs l m' e"
    by (simp add: ei)
  have u: "u \<notin> ?C" using w i by blast
  show eq: "pt_tabs (Suc l) m' u = pt_tabs (Suc l) m u - ?C \<union> child_tabs l m' e"
    unfolding pt_tabs_Suc UN using u by blast
  show "pt_trans (Suc l) m' u va =
       (if lvl_index (Suc l) va = i then child_trans l m' e va else pt_trans (Suc l) m u va)"
    using same(2) [of "lvl_index (Suc l) va"] by (simp add: pt_simps get)
  have e_new: "child_tabs l m' e \<inter> child_tabs l m (pt_get m u j) = {}" if "j < 512" "j \<noteq> i" for j
    using that w i F(1) [of j] e(2) by blast
  have "pt_wf (Suc l) m' u"
    unfolding pt_wf_Suc
  proof (intro conjI allI impI)
    show "masked u" using w by simp
    show "child_wf l m' (pt_get m' u j)" if "j < 512" for j
      using that get [of j] e(1) same(3) [of j] w by (cases "j = i") auto
    show "u \<notin> child_tabs l m' (pt_get m' u j)" if "j < 512" for j
    proof (cases "j = i")
      case True
      with ei e(2) u F(2) [OF i] show ?thesis by auto
    next
      case False
      with that tabs w show ?thesis by auto
    qed
    show "child_tabs l m' (pt_get m' u j) \<inter> child_tabs l m' (pt_get m' u k) = {}"
      if "j < 512" "k < 512" "j \<noteq> k" for j k
    proof (cases "j = i")
      case True
      with that ei tabs [of k] e_new [of k] show ?thesis by auto
    next
      case False
      then show ?thesis
        using that ei tabs [of k] tabs [of j] e_new [of j] w by (cases "k = i") auto
    qed
  qed
  moreover have "same_outside (pt_tabs (Suc l) m u \<union> F) m m'"
    by (rule same_outside_mono [OF out]) (use i in \<open>auto simp: pt_simps\<close>)
  moreover have "pt_tabs (Suc l) m' u \<subseteq> pt_tabs (Suc l) m u \<union> F"
    using eq e(2) i unfolding pt_tabs_Suc by blast
  ultimately show "tree_edit (Suc l) m m' u F" by (simp add: tree_edit_def)
qed

section \<open>Tables on the path of an address\<close>

primrec on_path :: "nat \<Rightarrow> phys_memory \<Rightarrow> u64 \<Rightarrow> u64 \<Rightarrow> nat \<Rightarrow> u64 \<Rightarrow> bool" where
  "on_path 0 m t va k u = False"
| "on_path (Suc l) m t va k u =
     (if k = Suc l then u = t
      else
        (let e = pt_get m t (lvl_index (Suc l) va) in
         bit e 0 \<and> \<not> is_leaf (Suc l) e \<and> on_path l m (e AND PAGING_ADDR_MASK) va k u))"

definition same_prefix :: "nat \<Rightarrow> nat \<Rightarrow> u64 \<Rightarrow> u64 \<Rightarrow> bool" where
  "same_prefix l k va va' \<longleftrightarrow> (\<forall>j. k < j \<and> j \<le> l \<longrightarrow> lvl_index j va = lvl_index j va')"

lemma same_prefix_refl [simp]: "same_prefix l l va va'"
  by (simp add: same_prefix_def)

lemma same_prefix_Suc:
  "k \<le> l \<Longrightarrow> same_prefix (Suc l) k va va' \<longleftrightarrow> lvl_index (Suc l) va = lvl_index (Suc l) va' \<and> same_prefix l k va va'"
  by (auto simp: same_prefix_def le_Suc_eq)

lemma on_path_level: "on_path l m t va k u \<Longrightarrow> k \<le> l"
  by (induction l arbitrary: t) (auto simp: Let_def split: if_splits intro: le_SucI)

lemma on_path_step:
  fixes l m t va
  defines "e \<equiv> pt_get m t (lvl_index (Suc l) va)"
  assumes "on_path (Suc l) m t va k u" and "k \<noteq> Suc l" and wf: "pt_wf (Suc l) m t"
  shows "bit e 0" "\<not> is_leaf (Suc l) e" "\<not> bit e 7" "on_path l m (e AND PAGING_ADDR_MASK) va k u"
    "pt_wf l m (e AND PAGING_ADDR_MASK)" "child_tabs l m e = pt_tabs l m (e AND PAGING_ADDR_MASK)"
    "pt_tabs l m (e AND PAGING_ADDR_MASK) \<subseteq> pt_tabs (Suc l) m t"
proof -
  show e: "bit e 0" "\<not> is_leaf (Suc l) e" "on_path l m (e AND PAGING_ADDR_MASK) va k u"
    using assms(2,3) by (simp_all add: Let_def e_def)
  have "child_wf l m e" using wf unfolding pt_wf_Suc e_def by simp
  with e show "\<not> bit e 7" "pt_wf l m (e AND PAGING_ADDR_MASK)" by (simp_all add: child_wf_def)
  show c: "child_tabs l m e = pt_tabs l m (e AND PAGING_ADDR_MASK)" using e by (simp add: child_tabs_def)
  have "child_tabs l m e \<subseteq> pt_tabs (Suc l) m t" unfolding pt_tabs_Suc e_def using lvl_index_less by blast
  with c show "pt_tabs l m (e AND PAGING_ADDR_MASK) \<subseteq> pt_tabs (Suc l) m t" by simp
qed

lemma on_path_wf:
  "on_path l m t va k u \<Longrightarrow> pt_wf l m t \<Longrightarrow> pt_wf k m u \<and> pt_tabs k m u \<subseteq> pt_tabs l m t"
proof (induction l arbitrary: t)
  case (Suc l)
  show ?case
  proof (cases "k = Suc l")
    case False
    note step = on_path_step [OF Suc.prems(1) this Suc.prems(2)]
    with Suc.IH [OF step(4,5)] show ?thesis by blast
  qed (use Suc.prems in simp)
qed simp

lemma path_edit:
  assumes "on_path l m t va k u" and "pt_wf l m t" and "tree_edit k m m' u F" and "F \<inter> pt_tabs l m t = {}"
  shows "tree_edit l m m' t F \<and> on_path l m' t va k u \<and>
    pt_tabs l m' t = pt_tabs l m t - pt_tabs k m u \<union> pt_tabs k m' u \<and>
    (\<forall>va'. pt_trans l m' t va' = (if same_prefix l k va va' then pt_trans k m' u va' else pt_trans l m t va'))"
  using assms(1,2,4)
proof (induction l arbitrary: t)
  case (Suc l)
  let ?i = "lvl_index (Suc l) va"
  let ?e = "pt_get m t ?i"
  let ?c = "?e AND PAGING_ADDR_MASK"
  show ?case
  proof (cases "k = Suc l")
    case True
    with Suc.prems assms(3) have "u = t" "tree_edit (Suc l) m m' t F" by simp_all
    moreover from this(2) have "pt_tabs (Suc l) m' t = pt_tabs (Suc l) m t - pt_tabs (Suc l) m t \<union> pt_tabs (Suc l) m' t"
      by simp
    ultimately show ?thesis using True by simp
  next
    case False
    note step = on_path_step [OF Suc.prems(1) False Suc.prems(2)]
    note e = step(1,2,4) and C = step(6) and wc = step(5,3) and sub = step(7)
    note w = Suc.prems(2) [unfolded pt_wf_Suc]
    have "F \<inter> pt_tabs l m ?c = {}" using Suc.prems(3) sub by blast
    note IH = Suc.IH [OF e(3) wc(1) this]
    then have "tree_edit l m m' ?c F" by blast
    then have ed: "same_outside (pt_tabs l m ?c \<union> F) m m'" "pt_wf l m' ?c" "pt_tabs l m' ?c \<subseteq> pt_tabs l m ?c \<union> F"
      unfolding tree_edit_def by blast+
    have "t \<notin> child_tabs l m ?e" using w lvl_index_less by blast
    then have tF: "t \<notin> pt_tabs l m ?c \<union> F" using C Suc.prems(3) by (simp add: pt_tabs_Suc)
    then have get: "pt_get m' t j = (if j = ?i then ?e else pt_get m t j)" if "j < 512" for j
      using that w pt_get_same [OF ed(1)] by simp
    have C': "child_tabs l m' ?e = pt_tabs l m' ?c" using e by (simp add: child_tabs_def)
    have "same_outside (insert t (child_tabs l m ?e \<union> F)) m m'"
      by (rule same_outside_mono [OF ed(1)]) (auto simp: C)
    note edit = entry_edit [OF Suc.prems(2) lvl_index_less this Suc.prems(3) get]
    have cw: "child_wf l m' ?e" "child_tabs l m' ?e \<subseteq> child_tabs l m ?e \<union> F"
      using e wc(2) ed by (simp_all add: child_wf_def C C')
    note edit = edit [OF _ cw]
    have "on_path (Suc l) m' t va k u" using False e IH get by (simp add: Let_def)
    moreover have "pt_tabs (Suc l) m' t = pt_tabs (Suc l) m t - pt_tabs k m u \<union> pt_tabs k m' u"
    proof -
      have "pt_tabs k m u \<subseteq> pt_tabs l m ?c" using on_path_wf [OF e(3) wc(1)] ..
      with edit(2) IH sub show ?thesis unfolding C C' by blast
    qed
    moreover have "pt_trans (Suc l) m' t va' =
        (if same_prefix (Suc l) k va va' then pt_trans k m' u va' else pt_trans (Suc l) m t va')" for va'
      using edit(3) [of va'] IH e on_path_level [OF e(3)]
      by (auto simp: same_prefix_Suc child_trans_def pt_trans_Suc)
    ultimately show ?thesis using edit(1) by simp
  qed
qed simp

end
