(* ===== verification/Paging_Steps.thy ===== *)
theory Paging_Steps
  imports Paging_Tree
begin

text \<open>
  The steps of \<^verbatim>\<open>paging.c\<close> on the tree of the current root: opening an entry to user mode,
  linking a new table, splitting a huge page, unlinking a table. Each keeps the invariant
  \<open>pg_inv\<close>, the translation of every address, and the pages that are either free or tables
  of this root: no page is lost and none is owned twice.
\<close>

section \<open>The walk of the source\<close>

lemma pt_trans_4:
  "pt_trans 4 m t va =
     (let e4 = pt_get m t (lvl_index 4 va); e3 = pt_get m (e4 AND PAGING_ADDR_MASK) (lvl_index 3 va);
          e2 = pt_get m (e3 AND PAGING_ADDR_MASK) (lvl_index 2 va); e1 = pt_get m (e2 AND PAGING_ADDR_MASK) (lvl_index 1 va)
      in if \<not> bit e4 0 then None else if \<not> bit e3 0 then None
         else if bit e3 7 then Some (leaf_phys 3 e3 va) else if \<not> bit e2 0 then None
         else if bit e2 7 then Some (leaf_phys 2 e2 va) else if \<not> bit e1 0 then None
         else Some (leaf_phys 1 e1 va))"
  by (simp add: numeral_eq_Suc pt_trans.simps(2) Let_def is_leaf_def)

lemma translate_eq_trans:
  "root \<noteq> 0 \<Longrightarrow> paging_translate_in_root m root va = pt_trans 4 m (root AND PAGING_ADDR_MASK) va"
  unfolding pt_trans_4 paging_translate_in_root_def paging_walk_in_root_def Let_def lvl_index_eqs flag_iff
  by (simp add: leaf_phys_def huge_base_def huge_off_def)

section \<open>Setting one entry on a path\<close>

lemma same_prefix_step:
  assumes "Suc k \<le> l"
  shows "same_prefix l k va va' \<longleftrightarrow> same_prefix l (Suc k) va va' \<and> lvl_index (Suc k) va' = lvl_index (Suc k) va"
  using assms by (auto simp: same_prefix_def Suc_le_eq) (metis Suc_leI le_neq_implies_less)

lemma on_path_extend:
  assumes "on_path l m t va (Suc k) u" and "k \<noteq> 0"
    and "bit (pt_get m u (lvl_index (Suc k) va)) 0" and "\<not> is_leaf (Suc k) (pt_get m u (lvl_index (Suc k) va))"
  shows "on_path l m t va k (pt_get m u (lvl_index (Suc k) va) AND PAGING_ADDR_MASK)"
  using assms(1)
proof (induction l arbitrary: t)
  case (Suc l)
  show ?case
  proof (cases "k = l")
    case True
    with Suc.prems assms show ?thesis by (cases l) (simp_all add: Let_def)
  next
    case False
    with on_path_level [OF Suc.prems] have "k < l" by simp
    with Suc show ?thesis by (simp add: Let_def)
  qed
qed simp

lemma on_path_trans:
  "on_path l m t va k u \<Longrightarrow> same_prefix l k va va' \<Longrightarrow> pt_trans l m t va' = pt_trans k m u va'"
proof (induction l arbitrary: t)
  case (Suc l)
  show ?case
  proof (cases "k = Suc l")
    case False
    with on_path_level [OF Suc.prems(1)] have "k \<le> l" by simp
    with False Suc show ?thesis by (simp add: same_prefix_Suc pt_trans.simps(2) Let_def)
  qed (use Suc.prems in simp)
qed simp

lemma set_entry_edit:
  fixes m m1 u k va e
  defines "i \<equiv> lvl_index (Suc k) va"
  defines "m' \<equiv> pt_set m1 u i e"
  assumes path: "on_path l m t va (Suc k) u" and wf: "pt_wf l m t"
    and out: "same_outside F m m1" and fresh: "F \<inter> pt_tabs l m t = {}"
    and e: "child_wf k m' e" "child_tabs k m' e \<subseteq> child_tabs k m (pt_get m u i) \<union> F"
  shows "pt_wf l m' t" "on_path l m' t va (Suc k) u" "same_outside (insert u F) m m'"
    "pt_tabs l m' t = pt_tabs l m t - child_tabs k m (pt_get m u i) \<union> child_tabs k m' e"
    "pt_trans l m' t va' = (if same_prefix l k va va' then child_trans k m' e va' else pt_trans l m t va')"
proof -
  from on_path_wf [OF path wf] have u: "pt_wf (Suc k) m u" "pt_tabs (Suc k) m u \<subseteq> pt_tabs l m t" by simp_all
  then have mu: "masked u" "u \<notin> F" using fresh by (auto simp: pt_simps)
  have i: "i < 512" by (simp add: i_def)
  have get: "pt_get m' u j = (if j = i then e else pt_get m u j)" if "j < 512" for j
    using that mu i pt_get_same [OF out] by (auto simp: m'_def pt_get_set)
  show o: "same_outside (insert u F) m m'"
    using same_outside_trans [OF out same_outside_set [of u i m1 e]] mu i by (simp add: m'_def)
  have F: "F \<inter> pt_tabs (Suc k) m u = {}" using fresh u(2) by blast
  have "same_outside (insert u (child_tabs k m (pt_get m u i) \<union> F)) m m'"
    by (rule same_outside_mono [OF o]) auto
  note ed = entry_edit [OF u(1) i this F get e]
  note pe = path_edit [OF path wf ed(1) fresh]
  from pe show "pt_wf l m' t" "on_path l m' t va (Suc k) u" by (simp_all add: tree_edit_def)
  have "child_tabs k m (pt_get m u i) \<subseteq> pt_tabs (Suc k) m u" using i by (auto simp: pt_tabs_Suc)
  with pe ed(2) u(2) show "pt_tabs l m' t = pt_tabs l m t - child_tabs k m (pt_get m u i) \<union> child_tabs k m' e"
    by blast
  show "pt_trans l m' t va' = (if same_prefix l k va va' then child_trans k m' e va' else pt_trans l m t va')"
    using pe ed(3) [of va'] on_path_trans [OF path, of va'] same_prefix_step [OF on_path_level [OF path], of va va']
    by (auto simp: i_def)
qed

section \<open>Invariant and conservation\<close>

definition pg_inv :: "paging \<Rightarrow> u64 \<Rightarrow> bool" where
  "pg_inv s root \<longleftrightarrow>
     pmm_inv (pg_pmm s) \<and> pt_wf 4 (pg_mem s) root \<and>
     (\<forall>t \<in> pt_tabs 4 (pg_mem s) root. page_lookup (pg_pmm s) t = Some (PMM_PAGE_ALLOCATED, 1))"

text \<open>The pages that are free or hold tables of the root.\<close>

definition pg_pages :: "paging \<Rightarrow> u64 \<Rightarrow> u64 set" where
  "pg_pages s root = set (free_page_stack (pg_pmm s)) \<union> pt_tabs 4 (pg_mem s) root"

definition paging_config :: "paging \<Rightarrow> u64 \<times> bool \<times> u64 list \<times> paging_kernel_range list" where
  "paging_config s = (pg_cr3 s, g_paging_nx_enabled s, g_kernel_guard_pages s, g_kernel_ranges s)"

definition pg_frame :: "u64 \<Rightarrow> paging \<Rightarrow> paging \<Rightarrow> bool" where
  "pg_frame root s s' \<longleftrightarrow>
     paging_config s' = paging_config s \<and> pg_inv s' root \<and> pg_pages s' root = pg_pages s root \<and>
     same_outside (pg_pages s root) (pg_mem s) (pg_mem s') \<and>
     (\<forall>p. p \<notin> pg_pages s root \<longrightarrow> page_lookup (pg_pmm s') p = page_lookup (pg_pmm s) p)"

definition pg_keep :: "u64 \<Rightarrow> paging \<Rightarrow> paging \<Rightarrow> bool" where
  "pg_keep root s s' \<longleftrightarrow> pg_frame root s s' \<and> (\<forall>va. pt_trans 4 (pg_mem s') root va = pt_trans 4 (pg_mem s) root va)"

lemma pg_frame_refl: "pg_inv s root \<Longrightarrow> pg_frame root s s"
  by (simp add: pg_frame_def)

lemma pg_keep_refl: "pg_inv s root \<Longrightarrow> pg_keep root s s"
  by (simp add: pg_keep_def pg_frame_refl)

lemma pg_frame_trans: "pg_frame root s s' \<Longrightarrow> pg_frame root s' s'' \<Longrightarrow> pg_frame root s s''"
  unfolding pg_frame_def by (auto dest: same_outside_trans)

lemma pg_keep_trans: "pg_keep root s s' \<Longrightarrow> pg_keep root s' s'' \<Longrightarrow> pg_keep root s s''"
  by (auto simp: pg_keep_def intro: pg_frame_trans)

lemma pg_keep_inv: "pg_keep root s s' \<Longrightarrow> pg_inv s' root"
  by (simp add: pg_keep_def pg_frame_def)

lemma masked_iff_bits: "masked t \<longleftrightarrow> (\<forall>n. bit t n \<longrightarrow> 12 \<le> n \<and> n < 52)"
proof
  assume m: "masked t"
  show "\<forall>n. bit t n \<longrightarrow> 12 \<le> n \<and> n < 52"
  proof (intro allI impI)
    fix n assume "bit t n"
    with m have "bit (t AND PAGING_ADDR_MASK) n" by (simp add: masked_def)
    then show "12 \<le> n \<and> n < 52" by (simp add: bit_and_iff bit_addr_mask)
  qed
next
  assume "\<forall>n. bit t n \<longrightarrow> 12 \<le> n \<and> n < 52"
  then show "masked t" unfolding masked_def by (intro bit_eqI) (auto simp: bit_and_iff bit_addr_mask)
qed

lemma pool_page_masked:
  assumes "page_in_pool p"
  shows "masked p"
proof -
  from assms have "unat p < 2 ^ 32" "page_aligned p"
    by (simp_all add: page_in_pool_def PMM_DIRECT_MAP_LIMIT_def word_less_nat_alt)
  then have "unat (take_bit 32 p) = unat p" by (simp add: unsigned_take_bit_eq take_bit_nat_eq_self)
  then have high: "take_bit 32 p = p" by (simp only: word_unat_eq_iff)
  have "take_bit 12 p = 0"
    using \<open>page_aligned p\<close> by (simp add: page_aligned_def PMM_PAGE_SIZE_def take_bit_eq_mask mask_eq_exp_minus_1)
  then have "\<not> bit p n" if "n < 12" for n
    using that bit_take_bit_iff [of 12 p n] by simp
  moreover have "n < 32" if "bit p n" for n using that bit_take_bit_iff [of 32 p n] by (simp add: high)
  ultimately have "12 \<le> n \<and> n < 52" if "bit p n" for n using that by (fastforce simp: not_less)
  then show ?thesis by (simp add: masked_iff_bits)
qed

lemma inv_tab_facts:
  assumes "pg_inv s root" and "t \<in> pt_tabs 4 (pg_mem s) root"
  shows "t \<notin> set (free_page_stack (pg_pmm s))" "page_in_pool t" "masked t" "t \<noteq> 0"
    "page_lookup (pg_pmm s) t = Some (PMM_PAGE_ALLOCATED, 1)"
proof -
  from assms have inv: "pmm_inv (pg_pmm s)" and t: "page_lookup (pg_pmm s) t = Some (PMM_PAGE_ALLOCATED, 1)"
    by (simp_all add: pg_inv_def)
  show "page_in_pool t" by (rule pmm_invD(4) [OF inv t])
  then show "masked t" "t \<noteq> 0" by (rule pool_page_masked, rule pool_page_nonzero)
  show "page_lookup (pg_pmm s) t = Some (PMM_PAGE_ALLOCATED, 1)" by (fact t)
  from t pmm_invD(3) [OF inv, of t] show "t \<notin> set (free_page_stack (pg_pmm s))" by auto
qed

lemma path_tab:
  assumes "on_path l m root va (Suc k) u" and "pt_wf l m root"
  shows "u \<in> pt_tabs l m root" "masked u"
  using on_path_wf [OF assms] by (auto simp: pt_simps)

section \<open>Allocating and freeing tables\<close>

lemma alloc_table:
  assumes inv: "pg_inv s root" and al: "paging_alloc_table s = (n, s1)"
  shows "n = 0 \<and> s1 = s \<and> free_page_stack (pg_pmm s) = [] \<or>
    n \<in> set (free_page_stack (pg_pmm s)) \<and> n \<notin> pt_tabs 4 (pg_mem s) root \<and> page_in_pool n \<and> masked n \<and> n \<noteq> 0 \<and>
    pmm_took (pg_pmm s) [n] PMM_PAGE_ALLOCATED (pg_pmm s1) \<and> pg_mem s1 = page_zero (pg_mem s) n \<and>
    paging_config s1 = paging_config s"
proof -
  obtain p pm where a: "pmm_alloc_page (pg_pmm s) = (p, pm)" by fastforce
  from inv have pi: "pmm_inv (pg_pmm s)" by (simp add: pg_inv_def)
  from pmm_alloc_page_took [OF this a] show ?thesis
  proof
    assume "p = 0 \<and> pm = pg_pmm s \<and> free_page_stack (pg_pmm s) = []"
    with al a show ?thesis by (simp add: paging_alloc_table_def)
  next
    assume *: "p \<in> set (free_page_stack (pg_pmm s)) \<and> pmm_took (pg_pmm s) [p] PMM_PAGE_ALLOCATED pm"
    then have "page_lookup (pg_pmm s) p = Some (PMM_PAGE_FREE, 0)" using pmm_invD(3) [OF pi] by simp
    then have pool: "page_in_pool p" by (rule pmm_invD(4) [OF pi])
    with * have "p \<notin> pt_tabs 4 (pg_mem s) root" using inv_tab_facts(1) [OF inv] by blast
    with * pool al a pool_page_nonzero [OF pool] pool_page_masked [OF pool] show ?thesis
      by (auto simp: paging_alloc_table_def paging_config_def)
  qed
qed

section \<open>Setting flags and leaves\<close>

definition same_entry :: "u64 \<Rightarrow> u64 \<Rightarrow> bool" where
  "same_entry e e' \<longleftrightarrow>
     (bit e' 0 \<longleftrightarrow> bit e 0) \<and> (bit e' 7 \<longleftrightarrow> bit e 7) \<and> e' AND PAGING_ADDR_MASK = e AND PAGING_ADDR_MASK"

lemma huge_base_mask: "PAGING_ADDR_MASK AND huge_base l = huge_base l"
  by (simp add: huge_base_def PAGING_ADDR_MASK_def)

lemma leaf_phys_masked: "leaf_phys l e va = ((e AND PAGING_ADDR_MASK) AND huge_base l) OR (va AND huge_off l)"
  by (simp add: leaf_phys_def and.assoc huge_base_mask)

lemma huge_ok_masked: "huge_ok l e \<longleftrightarrow> e AND PAGING_ADDR_MASK = (e AND PAGING_ADDR_MASK) AND huge_base l"
  by (simp add: huge_ok_def and.assoc huge_base_mask)

lemma child_same_entry:
  assumes "same_entry e e'"
  shows "child_tabs k m e' = child_tabs k m e" "child_trans k m e' = child_trans k m e" "child_wf k m e' \<longleftrightarrow> child_wf k m e"
  using assms
  by (auto simp: same_entry_def child_tabs_def child_trans_def child_wf_def is_leaf_def fun_eq_iff
      leaf_phys_masked huge_ok_masked [of _ e] huge_ok_masked [of _ e'])

lemma same_entry_user: "same_entry e (e OR PAGING_FLAG_USER)"
proof -
  have "(e OR PAGING_FLAG_USER) AND PAGING_ADDR_MASK = (e AND PAGING_ADDR_MASK) OR (PAGING_FLAG_USER AND PAGING_ADDR_MASK)"
    by (simp add: bit.conj_disj_distrib2)
  moreover have "PAGING_FLAG_USER AND PAGING_ADDR_MASK = 0" by (simp add: PAGING_FLAG_USER_def PAGING_ADDR_MASK_def)
  ultimately show ?thesis by (simp add: same_entry_def bit_or_iff PAGING_FLAG_USER_def)
qed

lemma entry_get_set:
  assumes "masked u" and "i < 512" and "masked t" and "j < 512"
  shows "entry_get (entry_set s (u, i) e) (t, j) = (if u = t \<and> i = j then e else entry_get s (t, j))"
  using assms by (simp add: entry_get_def entry_set_def pt_get_set)

lemma entry_set_fields [simp]:
  "pg_pmm (entry_set s e v) = pg_pmm s" "paging_config (entry_set s e v) = paging_config s"
  "pg_mem (entry_set s (u, i) v) = pt_set (pg_mem s) u i v"
  by (simp_all add: entry_set_def paging_config_def)

lemma set_flags_keep:
  assumes inv: "pg_inv s root" and path: "on_path 4 (pg_mem s) root va (Suc k) u"
    and same: "same_entry (entry_get s (u, lvl_index (Suc k) va)) e"
  shows "pg_keep root s (entry_set s (u, lvl_index (Suc k) va) e)"
    "on_path 4 (pg_mem (entry_set s (u, lvl_index (Suc k) va) e)) root va (Suc k) u"
proof -
  let ?m = "pg_mem s" and ?i = "lvl_index (Suc k) va"
  let ?m' = "pt_set ?m u ?i e" and ?old = "pt_get ?m u ?i"
  from inv have wf: "pt_wf 4 ?m root" by (simp add: pg_inv_def)
  note u = path_tab [OF path wf]
  from on_path_wf [OF path wf] have wu: "pt_wf (Suc k) ?m u" by simp
  have "same_outside {u} ?m ?m'" using u by (intro same_outside_set) simp_all
  moreover have "{u} \<inter> child_tabs k ?m ?old = {}" using wu by (simp add: pt_wf_Suc)
  ultimately have c: "child_tabs k ?m' ?old = child_tabs k ?m ?old" "child_trans k ?m' ?old = child_trans k ?m ?old"
    "child_wf k ?m' ?old \<longleftrightarrow> child_wf k ?m ?old" by (rule child_same)+
  note s = child_same_entry [OF same, unfolded entry_get_def fst_conv snd_conv, of k]
  have cw: "child_wf k ?m' e" "child_tabs k ?m' e \<subseteq> child_tabs k ?m ?old \<union> {}"
    using s [of ?m'] c wu by (simp_all add: pt_wf_Suc)
  note ed = set_entry_edit [OF path wf same_outside_refl [of "{}"] _ cw]
  have tabs: "pt_tabs 4 ?m' root = pt_tabs 4 ?m root"
  proof -
    have "child_tabs k ?m ?old \<subseteq> pt_tabs (Suc k) ?m u" by (auto simp: pt_tabs_Suc)
    with on_path_wf [OF path wf] ed(4) s(1) [of ?m'] c(1) show ?thesis by auto
  qed
  have trans: "pt_trans 4 ?m' root va' = pt_trans 4 ?m root va'" for va'
  proof -
    have "pt_trans 4 ?m root va' = child_trans k ?m ?old va'" if "same_prefix 4 k va va'"
      using that on_path_trans [OF path, of va'] same_prefix_step [OF on_path_level [OF path], of va va']
      by (simp add: pt_trans_Suc)
    with ed(5) [of va'] s(2) [of ?m'] c(2) show ?thesis by simp
  qed
  show "pg_keep root s (entry_set s (u, ?i) e)"
    using inv ed(1,3) u tabs trans
    by (auto simp: pg_keep_def pg_frame_def pg_inv_def pg_pages_def elim: same_outside_mono)
  show "on_path 4 (pg_mem (entry_set s (u, ?i) e)) root va (Suc k) u" using ed(2) by simp
qed

lemma set_leaf_frame:
  assumes inv: "pg_inv s root" and path: "on_path 4 (pg_mem s) root va (Suc 0) u"
  shows "pg_frame root s (entry_set s (u, lvl_index 1 va) e)"
    "pt_trans 4 (pg_mem (entry_set s (u, lvl_index 1 va) e)) root va' =
      (if same_prefix 4 0 va va' then if bit e 0 then Some (leaf_phys 1 e va') else None
       else pt_trans 4 (pg_mem s) root va')"
    "on_path 4 (pg_mem (entry_set s (u, lvl_index 1 va) e)) root va (Suc 0) u"
proof -
  let ?m = "pg_mem s" and ?i = "lvl_index (Suc 0) va"
  let ?m' = "pt_set ?m u ?i e" and ?old = "pt_get ?m u ?i"
  from inv have wf: "pt_wf 4 ?m root" by (simp add: pg_inv_def)
  note u = path_tab [OF path wf]
  have c0: "child_tabs 0 x y = {}" "child_wf 0 x y" "child_trans 0 x y va' = (if bit y 0 then Some (leaf_phys 1 y va') else None)" for x y va'
    by (simp_all add: child_tabs_def child_wf_def child_trans_def is_leaf_def)
  have cw: "child_wf 0 ?m' e" "child_tabs 0 ?m' e \<subseteq> child_tabs 0 ?m ?old \<union> {}" by (simp_all add: c0)
  note ed = set_entry_edit [OF path wf same_outside_refl [of "{}"] _ cw]
  show "pg_frame root s (entry_set s (u, lvl_index 1 va) e)"
    using inv ed(1,3,4) u
    by (auto simp: pg_frame_def pg_inv_def pg_pages_def c0 elim: same_outside_mono)
  show "pt_trans 4 (pg_mem (entry_set s (u, lvl_index 1 va) e)) root va' =
      (if same_prefix 4 0 va va' then if bit e 0 then Some (leaf_phys 1 e va') else None
       else pt_trans 4 (pg_mem s) root va')"
    using ed(5) [of va'] by (simp add: c0)
  show "on_path 4 (pg_mem (entry_set s (u, lvl_index 1 va) e)) root va (Suc 0) u" using ed(2) by simp
qed

section \<open>Linking and unlinking tables\<close>

lemma child_of_table:
  assumes "k \<noteq> 0" and "bit e 0" and "\<not> bit e 7" and "e AND PAGING_ADDR_MASK = n"
  shows "child_tabs k m e = pt_tabs k m n" "child_trans k m e = pt_trans k m n" "child_wf k m e \<longleftrightarrow> pt_wf k m n"
  using assms by (auto simp: child_tabs_def child_trans_def child_wf_def is_leaf_def fun_eq_iff)

lemma child_of_leaf:
  assumes "\<not> bit e 0 \<or> is_leaf (Suc k) e"
  shows "child_tabs k m e = {}" "child_wf k m e \<longleftrightarrow> (bit e 0 \<longrightarrow> k = 0 \<or> huge_ok (Suc k) e)"
    "child_trans k m e va = (if bit e 0 then Some (leaf_phys (Suc k) e va) else None)"
  using assms by (auto simp: child_tabs_def child_trans_def child_wf_def)

lemma link_keep:
  assumes inv: "pg_inv s root" and path: "on_path 4 (pg_mem s) root va (Suc k) u" and k: "k \<noteq> 0"
    and al: "paging_alloc_table s = (n, s1)" "n \<noteq> 0"
    and s2: "pg_pmm s2 = pg_pmm s1" "paging_config s2 = paging_config s" "same_outside {n} (pg_mem s) (pg_mem s2)"
    and sub: "pt_wf k (pg_mem s2) n" "pt_tabs k (pg_mem s2) n = {n}"
    and old: "child_tabs k (pg_mem s) (entry_get s (u, lvl_index (Suc k) va)) = {}"
    and trans: "\<And>va'. pt_trans k (pg_mem s2) n va' = child_trans k (pg_mem s) (entry_get s (u, lvl_index (Suc k) va)) va'"
    and e: "bit e 0" "\<not> bit e 7" "e AND PAGING_ADDR_MASK = n"
  shows "pg_keep root s (entry_set s2 (u, lvl_index (Suc k) va) e)"
    "on_path 4 (pg_mem (entry_set s2 (u, lvl_index (Suc k) va) e)) root va (Suc k) u"
proof -
  let ?m = "pg_mem s" and ?m1 = "pg_mem s2" and ?i = "lvl_index (Suc k) va"
  let ?m' = "pt_set ?m1 u ?i e" and ?old = "pt_get ?m u ?i"
  note old = old [unfolded entry_get_def fst_conv snd_conv]
  note trans = trans [unfolded entry_get_def fst_conv snd_conv]
  from inv have wf: "pt_wf 4 ?m root" and pi: "pmm_inv (pg_pmm s)" by (simp_all add: pg_inv_def)
  note u = path_tab [OF path wf]
  from alloc_table [OF inv al(1)] al(2) have n: "n \<in> set (free_page_stack (pg_pmm s))" "n \<notin> pt_tabs 4 ?m root"
    "masked n" and took: "pmm_took (pg_pmm s) [n] PMM_PAGE_ALLOCATED (pg_pmm s1)" by simp_all
  from u n(2) have un: "{u} \<inter> pt_tabs k ?m1 n = {}" by (auto simp: sub(2))
  have "same_outside {u} ?m1 ?m'" using u by (intro same_outside_set) simp_all
  from tree_same [OF this un n(3)] have new: "pt_tabs k ?m' n = {n}" "pt_wf k ?m' n" "pt_trans k ?m' n = pt_trans k ?m1 n"
    using sub by simp_all
  note c = child_of_table [OF k e, of ?m']
  have cw: "child_wf k ?m' e" "child_tabs k ?m' e \<subseteq> child_tabs k ?m ?old \<union> {n}" by (simp_all add: c new)
  have "{n} \<inter> pt_tabs 4 ?m root = {}" using n(2) by simp
  note ed = set_entry_edit [OF path wf s2(3) this cw]
  have tabs: "pt_tabs 4 ?m' root = insert n (pt_tabs 4 ?m root)" using ed(4) by (simp add: c new old)
  have trans: "pt_trans 4 ?m' root va' = pt_trans 4 ?m root va'" for va'
  proof -
    have "pt_trans 4 ?m root va' = child_trans k ?m ?old va'" if "same_prefix 4 k va va'"
      using that on_path_trans [OF path, of va'] same_prefix_step [OF on_path_level [OF path], of va va']
      by (simp add: pt_trans_Suc)
    with ed(5) [of va'] trans [of va'] show ?thesis by (simp add: c new)
  qed
  have lk: "page_lookup (pg_pmm s1) q = (if q = n then Some (PMM_PAGE_ALLOCATED, 1) else page_lookup (pg_pmm s) q)"
    and free: "set (free_page_stack (pg_pmm s1)) = set (free_page_stack (pg_pmm s)) - {n}" for q
    using took by (auto simp: pmm_took_def)
  have "pg_inv (entry_set s2 (u, ?i) e) root"
    using inv pmm_took_inv [OF pi took] ed(1) by (simp add: pg_inv_def s2 tabs lk)
  moreover have "pg_pages (entry_set s2 (u, ?i) e) root = pg_pages s root"
    using n(1) by (auto simp: pg_pages_def s2 tabs free)
  moreover have "same_outside (pg_pages s root) ?m ?m'"
    using n(1) u(1) by (intro same_outside_mono [OF ed(3)]) (auto simp: pg_pages_def)
  ultimately show "pg_keep root s (entry_set s2 (u, ?i) e)"
    using n(1) trans by (auto simp: pg_keep_def pg_frame_def s2 lk pg_pages_def)
  show "on_path 4 (pg_mem (entry_set s2 (u, ?i) e)) root va (Suc k) u" using ed(2) by simp
qed

lemma unlink_keep:
  assumes inv: "pg_inv s root" and path: "on_path 4 (pg_mem s) root va (Suc k) u"
    and old: "child_tabs k (pg_mem s) (entry_get s (u, lvl_index (Suc k) va)) = {c}"
    and e: "\<not> bit e 0 \<or> is_leaf (Suc k) e" "bit e 0 \<longrightarrow> k = 0 \<or> huge_ok (Suc k) e"
    and trans: "\<And>va'. same_prefix 4 k va va' \<Longrightarrow> pt_trans 4 (pg_mem s) root va' =
        (if bit e 0 then Some (leaf_phys (Suc k) e va') else None)"
    and free: "pg_free (entry_set s (u, lvl_index (Suc k) va) e) c = (ok, s2)"
  shows "ok" "pg_keep root s s2" "on_path 4 (pg_mem s2) root va (Suc k) u"
    "pg_mem s2 = pt_set (pg_mem s) u (lvl_index (Suc k) va) e"
    "free_page_stack (pg_pmm s2) = free_page_stack (pg_pmm s) @ [c]"
proof -
  let ?m = "pg_mem s" and ?i = "lvl_index (Suc k) va"
  let ?m' = "pt_set ?m u ?i e" and ?old = "pt_get ?m u ?i"
  note old = old [unfolded entry_get_def fst_conv snd_conv]
  from inv have wf: "pt_wf 4 ?m root" and pi: "pmm_inv (pg_pmm s)" by (simp_all add: pg_inv_def)
  note u = path_tab [OF path wf]
  have "child_tabs k ?m ?old \<subseteq> pt_tabs (Suc k) ?m u" by (auto simp: pt_tabs_Suc)
  with on_path_wf [OF path wf] old have c: "c \<in> pt_tabs 4 ?m root" by auto
  note ct = inv_tab_facts [OF inv c]
  note cl = child_of_leaf [OF e(1)]
  have cw: "child_wf k ?m' e" "child_tabs k ?m' e \<subseteq> child_tabs k ?m ?old \<union> {}" using e(2) by (simp_all add: cl)
  note ed = set_entry_edit [OF path wf same_outside_refl [of "{}"] _ cw]
  have tabs: "pt_tabs 4 ?m' root = pt_tabs 4 ?m root - {c}" using ed(4) by (simp add: cl old)
  have trans: "pt_trans 4 ?m' root va' = pt_trans 4 ?m root va'" for va'
    using ed(5) [of va'] trans [of va'] by (simp add: cl)
  define pm where "pm = (page_set (pg_pmm s) c PMM_PAGE_FREE 0)\<lparr>free_page_stack := free_page_stack (pg_pmm s) @ [c]\<rparr>"
  have rel: "pmm_free_page (pg_pmm s) c = (True, pm)"
    using ct(5) by (simp add: pmm_free_page_def pmm_release_page_spec [OF pi] pm_def)
  then have s2: "ok" "pg_pmm s2 = pm" "pg_mem s2 = ?m'" "paging_config s2 = paging_config s"
    using free by (auto simp: pg_free_def paging_config_def entry_set_def)
  show "ok" "pg_mem s2 = ?m'" by (fact s2)+
  show "free_page_stack (pg_pmm s2) = free_page_stack (pg_pmm s) @ [c]" by (simp add: s2(2) pm_def)
  from pmm_free_page_inv [OF pi rel] have pi2: "pmm_inv pm" .
  have lk: "page_lookup pm q = (if q = c then Some (PMM_PAGE_FREE, 0) else page_lookup (pg_pmm s) q)" for q
    using ct(5) by (simp add: pm_def pidx.lookup_update)
  have stk: "set (free_page_stack pm) = insert c (set (free_page_stack (pg_pmm s)))" by (simp add: pm_def)
  have "pg_inv s2 root" using inv pi2 ed(1) by (simp add: pg_inv_def s2 tabs lk)
  moreover have "pg_pages s2 root = pg_pages s root" using c by (auto simp: pg_pages_def s2 tabs stk)
  moreover have "same_outside (pg_pages s root) ?m ?m'"
    using u(1) by (intro same_outside_mono [OF ed(3)]) (auto simp: pg_pages_def)
  ultimately show "pg_keep root s s2"
    using c trans s2 by (auto simp: pg_keep_def pg_frame_def lk pg_pages_def)
  show "on_path 4 (pg_mem s2) root va (Suc k) u" using ed(2) s2 by simp
qed

end
