(* ===== verification/Paging_Walk.thy ===== *)
theory Paging_Walk
  imports Paging_Steps
begin

text \<open>
  The creating walk \<^verbatim>\<open>paging_walk_to_pte_in_root\<close>: what each of its blocks does to the tree, that
  splitting a huge page keeps the translation, and that the label \<^verbatim>\<open>fail\<close> undoes the blocks
  before it.
\<close>

section \<open>Bits of huge entries\<close>

definition lvl_shift :: "nat \<Rightarrow> nat" where
  "lvl_shift l = 12 + 9 * (l - 1)"

lemma level_cases: "l \<in> {1, 2, 3} \<Longrightarrow> (l = 1 \<Longrightarrow> P) \<Longrightarrow> (l = 2 \<Longrightarrow> P) \<Longrightarrow> (l = 3 \<Longrightarrow> P) \<Longrightarrow> P"
  by auto

lemma huge_base_eq: "l \<in> {1, 2, 3} \<Longrightarrow> huge_base l = push_bit (lvl_shift l) (mask (52 - lvl_shift l))"
  by (auto simp: huge_base_def lvl_shift_def PAGING_ADDR_MASK_def mask_eq_exp_minus_1 push_bit_eq_mult)

lemma huge_off_eq: "l \<in> {1, 2, 3} \<Longrightarrow> huge_off l = mask (lvl_shift l)"
  by (auto simp: huge_off_def lvl_shift_def mask_eq_exp_minus_1)

lemma bit_huge_base: "l \<in> {1, 2, 3} \<Longrightarrow> bit (huge_base l) n \<longleftrightarrow> lvl_shift l \<le> n \<and> n < 52"
  by (auto simp: huge_base_eq bit_push_bit_iff bit_mask_iff lvl_shift_def)

lemma bit_huge_off: "l \<in> {1, 2, 3} \<Longrightarrow> bit (huge_off l) n \<longleftrightarrow> n < lvl_shift l"
  by (auto simp: huge_off_eq bit_mask_iff lvl_shift_def)

lemma bit_leaf_phys:
  "l \<in> {1, 2, 3} \<Longrightarrow> bit (leaf_phys l e va) n \<longleftrightarrow> (if n < lvl_shift l then bit va n else n < 52 \<and> bit e n)"
  by (auto simp: leaf_phys_def bit_or_iff bit_and_iff bit_huge_base bit_huge_off)

lemma huge_ok_bits:
  assumes "l \<in> {1, 2, 3}"
  shows "huge_ok l e \<longleftrightarrow> (\<forall>n. 12 \<le> n \<and> n < lvl_shift l \<longrightarrow> \<not> bit e n)"
proof
  assume a: "huge_ok l e"
  show "\<forall>n. 12 \<le> n \<and> n < lvl_shift l \<longrightarrow> \<not> bit e n"
  proof (intro allI impI)
    fix n assume n: "12 \<le> n \<and> n < lvl_shift l"
    with assms have "n < 52" by (auto simp: lvl_shift_def)
    from a have "bit (e AND PAGING_ADDR_MASK) n \<longleftrightarrow> bit (e AND huge_base l) n" by (simp add: huge_ok_def)
    with n \<open>n < 52\<close> show "\<not> bit e n" by (simp add: bit_and_iff bit_addr_mask bit_huge_base [OF assms])
  qed
next
  assume "\<forall>n. 12 \<le> n \<and> n < lvl_shift l \<longrightarrow> \<not> bit e n"
  moreover have "12 \<le> lvl_shift l" by (simp add: lvl_shift_def)
  ultimately show "huge_ok l e" unfolding huge_ok_def
    by (intro bit_eqI) (auto simp: bit_and_iff bit_addr_mask bit_huge_base [OF assms] not_le dest: order_trans)
qed

text \<open>The entries of a split: the base of the huge page, the index, the flags.\<close>

definition split_entry :: "nat \<Rightarrow> u64 \<Rightarrow> u64 \<Rightarrow> nat \<Rightarrow> u64" where
  "split_entry l old flags j = ((old AND huge_base (Suc l)) + of_nat j * 2 ^ lvl_shift l) OR flags"

lemma bit_of_nat_index:
  "bit (of_nat (lvl_index l va) :: u64) n \<longleftrightarrow> n < 9 \<and> bit va (lvl_shift l + n)"
proof -
  have "(of_nat (lvl_index l va) :: u64) = take_bit 9 (drop_bit (lvl_shift l) va)"
    by (simp add: lvl_index_def lvl_shift_def take_bit_eq_mask mask_eq_exp_minus_1)
  then show ?thesis by (simp add: bit_take_bit_iff bit_drop_bit_eq)
qed

lemma split_add_eq_or:
  assumes l: "l \<in> {1, 2}" and "j < 512"
  shows "(old AND huge_base (Suc l)) + of_nat j * 2 ^ lvl_shift l = (old AND huge_base (Suc l)) OR push_bit (lvl_shift l) (of_nat j)"
proof -
  from l have l': "Suc l \<in> {1, 2, 3}" by auto
  have sh: "lvl_shift (Suc l) = lvl_shift l + 9" using l by (auto simp: lvl_shift_def)
  have "take_bit 9 (of_nat j :: u64) = of_nat j"
    using assms(2) by (simp add: take_bit_of_nat take_bit_nat_eq_self)
  then have j: "\<not> bit (of_nat j :: u64) n" if "9 \<le> n" for n
    using that bit_take_bit_iff [of 9 "of_nat j :: u64" n] by simp
  have "(old AND huge_base (Suc l)) AND push_bit (lvl_shift l) (of_nat j) = 0"
  proof (rule bit_eqI)
    fix n
    show "bit ((old AND huge_base (Suc l)) AND push_bit (lvl_shift l) (of_nat j)) n \<longleftrightarrow> bit (0 :: u64) n"
      using j [of "n - lvl_shift l"] by (auto simp: bit_and_iff bit_huge_base [OF l'] bit_push_bit_iff sh)
  qed
  then have "(old AND huge_base (Suc l)) + push_bit (lvl_shift l) (of_nat j) =
      (old AND huge_base (Suc l)) OR push_bit (lvl_shift l) (of_nat j)"
    by (rule disjunctive_add_eq_or)
  then show ?thesis by (simp add: push_bit_eq_mult)
qed

lemma bit_split_entry:
  assumes l: "l \<in> {1, 2}" and flags: "\<And>n. 12 \<le> n \<Longrightarrow> n < 52 \<Longrightarrow> \<not> bit flags n" and n: "12 \<le> n" "n < 52" and j: "j < 512"
  shows "bit (split_entry l old flags j) n \<longleftrightarrow>
     (if lvl_shift (Suc l) \<le> n then bit old n else lvl_shift l \<le> n \<and> bit (of_nat j :: u64) (n - lvl_shift l))"
proof -
  from l have l': "Suc l \<in> {1, 2, 3}" by auto
  have sh: "lvl_shift (Suc l) = lvl_shift l + 9" using l by (auto simp: lvl_shift_def)
  have "take_bit 9 (of_nat j :: u64) = of_nat j"
    using j by (simp add: take_bit_of_nat take_bit_nat_eq_self)
  then have "\<not> bit (of_nat j :: u64) n" if "9 \<le> n" for n
    using that bit_take_bit_iff [of 9 "of_nat j :: u64" n] by simp
  from this [of "n - lvl_shift l"] show ?thesis
    unfolding split_entry_def split_add_eq_or [OF l j]
    using flags [OF n] n by (auto simp: bit_or_iff bit_and_iff bit_huge_base [OF l'] bit_push_bit_iff sh)
qed

lemma split_entry_low:
  assumes l: "l \<in> {1, 2}" and "j < 512" and "n < 12"
  shows "bit (split_entry l old flags j) n \<longleftrightarrow> bit flags n"
proof -
  from l have l': "Suc l \<in> {1, 2, 3}" by auto
  from l assms(3) show ?thesis
    unfolding split_entry_def split_add_eq_or [OF l assms(2)]
    by (auto simp: bit_or_iff bit_and_iff bit_huge_base [OF l'] bit_push_bit_iff lvl_shift_def)
qed

lemma split_table:
  assumes l: "l \<in> {1, 2}" and n: "masked n"
    and flags: "\<And>n. 12 \<le> n \<Longrightarrow> n < 52 \<Longrightarrow> \<not> bit flags n" "bit flags 0" "l = 2 \<Longrightarrow> bit flags 7"
    and get: "\<And>j. j < 512 \<Longrightarrow> pt_get m n j = split_entry l old flags j"
  shows "pt_wf l m n" "pt_tabs l m n = {n}" "pt_trans l m n va = Some (leaf_phys (Suc l) old va)"
proof -
  obtain k where k: "l = Suc k" "k < 2" using l by (cases l) auto
  have l1: "l \<in> {1, 2, 3}" "Suc l \<in> {1, 2, 3}" using l by auto
  have sh: "lvl_shift (Suc l) = lvl_shift l + 9" "12 \<le> lvl_shift l" using l by (auto simp: lvl_shift_def)
  have leaf: "bit (pt_get m n j) 0" "is_leaf l (pt_get m n j)" if "j < 512" for j
    using that l flags(2,3) by (auto simp: get split_entry_low is_leaf_def)
  have hu: "huge_ok l (pt_get m n j)" if "j < 512" for j
    unfolding huge_ok_bits [OF l1(1)]
  proof (intro allI impI)
    fix b assume b: "12 \<le> b \<and> b < lvl_shift l"
    then have "b < 52" using l by (auto simp: lvl_shift_def)
    with b show "\<not> bit (pt_get m n j) b"
      using bit_split_entry [OF l flags(1), of b j old] that by (simp add: get sh)
  qed
  have c: "child_tabs k m (pt_get m n j) = {}" "child_wf k m (pt_get m n j)"
    "child_trans k m (pt_get m n j) va = Some (leaf_phys l (pt_get m n j) va)" if "j < 512" for j va
    using leaf [OF that] hu [OF that] by (simp_all add: child_of_leaf k(1))
  show "pt_wf l m n" "pt_tabs l m n = {n}" using n c by (simp_all add: k(1) pt_wf_Suc pt_tabs_Suc)
  have "leaf_phys l (pt_get m n (lvl_index l va)) va = leaf_phys (Suc l) old va"
  proof (rule bit_eqI)
    fix b
    show "bit (leaf_phys l (pt_get m n (lvl_index l va)) va) b \<longleftrightarrow> bit (leaf_phys (Suc l) old va) b"
    proof (cases "b < 52")
      case True
      with bit_split_entry [OF l flags(1) _ True lvl_index_less [of l va], of old] show ?thesis
        using sh by (auto simp: bit_leaf_phys [OF l1(1)] bit_leaf_phys [OF l1(2)] get bit_of_nat_index not_less)
    next
      case False
      with l show ?thesis by (auto simp: bit_leaf_phys [OF l1(1)] bit_leaf_phys [OF l1(2)] lvl_shift_def)
    qed
  qed
  then show "pt_trans l m n va = Some (leaf_phys (Suc l) old va)"
    using c(3) [OF lvl_index_less, of l va va] by (simp add: k(1) pt_trans_Suc)
qed

lemma bit_paging_flags:
  "bit PAGING_FLAG_PRESENT n \<longleftrightarrow> n = 0" "bit PAGING_FLAG_RW n \<longleftrightarrow> n = 1" "bit PAGING_FLAG_USER n \<longleftrightarrow> n = 2"
  "bit PAGING_FLAG_PAGE_SIZE n \<longleftrightarrow> n = 7" "bit PAGING_FLAG_COW n \<longleftrightarrow> n = 9" "bit PAGING_FLAG_NX n \<longleftrightarrow> n = 63"
proof -
  have b: "bit (2 ^ k :: u64) n \<longleftrightarrow> n = k" if "k < 64" for k
    using that by (auto simp: bit_exp_iff)
  show "bit PAGING_FLAG_PRESENT n \<longleftrightarrow> n = 0" "bit PAGING_FLAG_RW n \<longleftrightarrow> n = 1" "bit PAGING_FLAG_USER n \<longleftrightarrow> n = 2"
    "bit PAGING_FLAG_PAGE_SIZE n \<longleftrightarrow> n = 7" "bit PAGING_FLAG_COW n \<longleftrightarrow> n = 9" "bit PAGING_FLAG_NX n \<longleftrightarrow> n = 63"
    using b [of 0] b [of 1] b [of 2] b [of 7] b [of 9] b [of 63] by (simp_all add: paging_flag_defs)
qed

lemma bit_split_flags:
  fixes l old us
  assumes l: "l \<in> {1, 2}" and ok: "huge_ok (Suc l) old"
  defines "flags \<equiv> split_flags old (huge_base (Suc l)) us"
  shows "\<And>n. 12 \<le> n \<Longrightarrow> n < 52 \<Longrightarrow> \<not> bit flags n" "bit flags 0" "\<not> bit flags 7"
proof -
  from l have l': "Suc l \<in> {1, 2, 3}" by auto
  have f: "bit flags n \<longleftrightarrow> bit old n \<and> \<not> (lvl_shift (Suc l) \<le> n \<and> n < 52) \<and> n \<noteq> 7 \<or> n = 0 \<or> n = 1 \<or> us \<and> n = 2" for n
    by (auto simp: flags_def split_flags_def Let_def bit_or_iff bit_and_iff bit_not_iff bit_huge_base [OF l']
        bit_paging_flags dest: bit_imp_le_length)
  show "\<not> bit flags n" if "12 \<le> n" "n < 52" for n
    using that ok [unfolded huge_ok_bits [OF l']] by (auto simp: f)
  show "bit flags 0" "\<not> bit flags 7" by (simp_all add: f)
qed

section \<open>Filling a table\<close>

lemma fill_loop:
  assumes "masked t" and "n \<le> 512"
  shows "pg_pmm (fold (\<lambda>i s. entry_set s (t, i) (f i)) [0..<n] s) = pg_pmm s \<and>
    paging_config (fold (\<lambda>i s. entry_set s (t, i) (f i)) [0..<n] s) = paging_config s \<and>
    same_outside {t} (pg_mem s) (pg_mem (fold (\<lambda>i s. entry_set s (t, i) (f i)) [0..<n] s)) \<and>
    (\<forall>j<512. pt_get (pg_mem (fold (\<lambda>i s. entry_set s (t, i) (f i)) [0..<n] s)) t j =
       (if j < n then f j else pt_get (pg_mem s) t j))"
  using assms(2)
proof (induction n)
  case 0
  then show ?case by simp
next
  case (Suc n)
  let ?s = "fold (\<lambda>i s. entry_set s (t, i) (f i)) [0..<n] s"
  from Suc have IH: "pg_pmm ?s = pg_pmm s" "paging_config ?s = paging_config s" "same_outside {t} (pg_mem s) (pg_mem ?s)"
    "\<And>j. j < 512 \<Longrightarrow> pt_get (pg_mem ?s) t j = (if j < n then f j else pt_get (pg_mem s) t j)" and n: "n < 512"
    by simp_all
  have "same_outside {t} (pg_mem s) (pt_set (pg_mem ?s) t n (f n))"
    using same_outside_trans [OF IH(3) same_outside_set [of t n]] assms(1) n by simp
  then show ?case using IH n assms(1) by (simp add: pt_get_set less_Suc_eq)
qed

lemma fill_table:
  assumes "masked t"
  shows "pg_pmm (fill_table f t s) = pg_pmm s" "paging_config (fill_table f t s) = paging_config s"
    "same_outside {t} (pg_mem s) (pg_mem (fill_table f t s))"
    "j < 512 \<Longrightarrow> pt_get (pg_mem (fill_table f t s)) t j = f j"
  using fill_loop [OF assms, of 512 f s] by (simp_all add: fill_table_def PAGING_TABLE_ENTRIES_def)

section \<open>The blocks of the walk\<close>

lemma tabs_single:
  assumes "\<And>j. j < 512 \<Longrightarrow> \<not> bit (pt_get m n j) 0 \<or> is_leaf (Suc k) (pt_get m n j)"
  shows "pt_tabs (Suc k) m n = {n}"
  using assms by (simp add: pt_tabs_Suc child_of_leaf)

lemma empty_table:
  assumes "\<And>j. j < 512 \<Longrightarrow> \<not> bit (pt_get m n j) 0" and "masked n"
  shows "pt_tabs (Suc k) m n = {n}" "pt_wf (Suc k) m n" "pt_trans (Suc k) m n va = None"
  using assms by (simp_all add: tabs_single pt_wf_Suc pt_trans_Suc child_of_leaf)

definition table_flags :: "u64 \<Rightarrow> bool" where
  "table_flags f \<longleftrightarrow> bit f 0 \<and> \<not> bit f 7 \<and> f AND PAGING_ADDR_MASK = 0"

lemma table_entry:
  assumes "masked n" and "table_flags f"
  shows "bit (n OR f) 0" "\<not> bit (n OR f) 7" "(n OR f) AND PAGING_ADDR_MASK = n"
proof -
  have "\<not> bit n 7" using assms(1) by (auto simp: masked_iff_bits)
  then show "bit (n OR f) 0" "\<not> bit (n OR f) 7" using assms(2) by (simp_all add: bit_or_iff table_flags_def)
  show "(n OR f) AND PAGING_ADDR_MASK = n"
    using assms by (simp add: masked_def table_flags_def bit.conj_disj_distrib2)
qed

lemma ensure_step:
  assumes inv: "pg_inv s root" and path: "on_path 4 (pg_mem s) root va (Suc k) u" and k: "k \<noteq> 0" and f: "table_flags f"
    and w: "walk_ensure_table True us f (u, lvl_index (Suc k) va) s = r"
  defines "old \<equiv> entry_get s (u, lvl_index (Suc k) va)"
  shows "case r of WalkAbsent \<Rightarrow> False | WalkFail s' \<Rightarrow> s' = s \<and> \<not> bit old 0 \<and> free_page_stack (pg_pmm s) = []
     | WalkOk n s' \<Rightarrow> pg_keep root s s' \<and> on_path 4 (pg_mem s') root va (Suc k) u \<and>
         bit (entry_get s' (u, lvl_index (Suc k) va)) 0 \<and> same_outside {u, n} (pg_mem s) (pg_mem s') \<and>
         (\<forall>j<512. j \<noteq> lvl_index (Suc k) va \<longrightarrow> pt_get (pg_mem s') u j = pt_get (pg_mem s) u j) \<and>
         (n = 0 \<longrightarrow> bit old 0 \<and> same_entry old (entry_get s' (u, lvl_index (Suc k) va)) \<and> pg_pmm s' = pg_pmm s) \<and>
         (n \<noteq> 0 \<longrightarrow> set (free_page_stack (pg_pmm s)) \<subseteq> insert n (set (free_page_stack (pg_pmm s')))) \<and>
         (n \<noteq> 0 \<longrightarrow> \<not> bit old 0 \<and> n \<notin> pt_tabs 4 (pg_mem s) root \<and> masked n \<and>
            \<not> bit (entry_get s' (u, lvl_index (Suc k) va)) 7 \<and>
            entry_get s' (u, lvl_index (Suc k) va) AND PAGING_ADDR_MASK = n \<and> (\<forall>j<512. pt_get (pg_mem s') n j = 0))"
proof -
  let ?i = "lvl_index (Suc k) va" and ?m = "pg_mem s"
  from inv have wf: "pt_wf 4 ?m root" by (simp add: pg_inv_def)
  note u = path_tab [OF path wf]
  show ?thesis
  proof (cases "bit old 0")
    case True
    let ?s = "if us then entry_set s (u, ?i) (old OR PAGING_FLAG_USER) else s"
    have r: "r = WalkOk 0 ?s" unfolding w [symmetric] using True by (simp add: walk_ensure_table_def flag_iff old_def)
    have new: "entry_get ?s (u, ?i) = (if us then old OR PAGING_FLAG_USER else old)"
      using u by (simp add: entry_get_set old_def)
    have same: "same_entry old (entry_get ?s (u, ?i))"
      by (simp add: new same_entry_user) (simp add: same_entry_def)
    note keep = set_flags_keep [OF inv path same_entry_user]
    have "same_outside {u, 0} ?m (pg_mem ?s)"
      using u by (auto intro: same_outside_mono [OF same_outside_set])
    moreover have "bit (entry_get ?s (u, ?i)) 0" using same True by (simp add: same_entry_def)
    moreover have "pt_get (pg_mem ?s) u j = pt_get ?m u j" if "j < 512" "j \<noteq> ?i" for j
      using that u by (simp add: pt_get_set)
    ultimately show ?thesis
      using keep same True inv path by (simp add: r old_def pg_keep_refl)
  next
    case False
    obtain n s1 where al: "paging_alloc_table s = (n, s1)" by fastforce
    note a = alloc_table [OF inv al]
    show ?thesis
    proof (cases "n = 0")
      case True
      with a False al show ?thesis unfolding w [symmetric] by (auto simp: walk_ensure_table_def flag_iff old_def)
    next
      case n0: False
      with a have n: "n \<notin> pt_tabs 4 ?m root" "masked n" "pg_mem s1 = page_zero ?m n" "paging_config s1 = paging_config s"
        and fr: "set (free_page_stack (pg_pmm s)) \<subseteq> insert n (set (free_page_stack (pg_pmm s1)))"
        by (auto simp: pmm_took_def)
      let ?s = "entry_set s1 (u, ?i) (n OR f)"
      have r: "r = WalkOk n ?s" unfolding w [symmetric] using False al n0 by (simp add: walk_ensure_table_def flag_iff old_def)
      from u(1) n(1) have un: "u \<noteq> n" by auto
      have z: "pt_get (pg_mem s1) n j = 0" if "j < 512" for j using that n by (simp add: pt_get_zeroed)
      obtain k' where k': "k = Suc k'" using k by (cases k) auto
      have zt: "pt_tabs k (pg_mem s1) n = {n}" "pt_wf k (pg_mem s1) n" "pt_trans k (pg_mem s1) n va' = None" for va'
        unfolding k' by (rule empty_table; use z n(2) in simp)+
      note e = table_entry [OF n(2) f]
      have o1: "same_outside {n} ?m (pg_mem s1)" using n by (simp add: same_outside_zero)
      have oc: "child_tabs k ?m old = {}" "child_trans k ?m old va' = None" for va'
        using False by (simp_all add: child_of_leaf)
      note keep = link_keep [OF inv path k al n0 refl n(4) o1 zt(2,1) _ _ e, folded old_def, OF oc(1)]
      have "pg_keep root s ?s" "on_path 4 (pg_mem ?s) root va (Suc k) u" using keep zt(3) oc(2) by simp_all
      moreover have "entry_get ?s (u, ?i) = n OR f" using u by (simp add: entry_get_set)
      moreover have "same_outside {u, n} ?m (pg_mem ?s)"
        using same_outside_trans [OF o1 same_outside_set [of u ?i "pg_mem s1" "n OR f"]] u by (simp add: insert_commute)
      moreover have "pt_get (pg_mem ?s) n j = 0" if "j < 512" for j
        using that z un u n by (simp add: pt_get_set)
      moreover have "pt_get (pg_mem ?s) u j = pt_get ?m u j" if "j < 512" "j \<noteq> ?i" for j
        using that u un pt_get_same [OF o1, of u j] by (simp add: pt_get_set)
      ultimately show ?thesis using n0 n e fr False by (simp add: r)
    qed
  qed
qed

lemma split_step:
  fixes s root l va u old n s1 us
  assumes inv: "pg_inv s root" and l: "l \<in> {1, 2}" and path: "on_path 4 (pg_mem s) root va (Suc l) u"
    and old: "entry_get s (u, lvl_index (Suc l) va) = old" "bit old 0" "bit old 7"
    and al: "paging_alloc_table s = (n, s1)" "n \<noteq> 0"
  defines "flags \<equiv> split_flags old (huge_base (Suc l)) us"
    and "ps \<equiv> if l = 2 then PAGING_FLAG_PAGE_SIZE else 0"
  defines "s' \<equiv> entry_set (fill_table (split_entry l old (flags OR ps)) n s1) (u, lvl_index (Suc l) va) (n OR flags)"
  shows "pg_keep root s s'" "on_path 4 (pg_mem s') root va (Suc l) u" "huge_ok (Suc l) old"
    "n \<notin> pt_tabs 4 (pg_mem s) root" "masked n" "entry_get s1 (u, lvl_index (Suc l) va) = old"
    "entry_get s' (u, lvl_index (Suc l) va) = n OR flags" "table_flags flags"
    "same_outside {u, n} (pg_mem s) (pg_mem s')"
    "\<And>j. j < 512 \<Longrightarrow> bit (pt_get (pg_mem s') n j) 0 \<and> is_leaf l (pt_get (pg_mem s') n j)"
    "set (free_page_stack (pg_pmm s)) \<subseteq> insert n (set (free_page_stack (pg_pmm s')))"
proof -
  let ?i = "lvl_index (Suc l) va" and ?m = "pg_mem s" and ?g = "split_entry l old (flags OR ps)"
  from inv have wf: "pt_wf 4 ?m root" by (simp add: pg_inv_def)
  note u = path_tab [OF path wf]
  from alloc_table [OF inv al(1)] al(2) show n: "n \<notin> pt_tabs 4 ?m root" "masked n" by simp_all
  from alloc_table [OF inv al(1)] al(2) have m1: "pg_mem s1 = page_zero ?m n" "paging_config s1 = paging_config s"
    by simp_all
  from u(1) n(1) have un: "u \<noteq> n" by auto
  have o1: "same_outside {n} ?m (pg_mem s1)" using n m1 by (simp add: same_outside_zero)
  show "entry_get s1 (u, ?i) = old" using old(1) pt_get_same [OF o1, of u ?i] u un by (simp add: entry_get_def)
  have leaf: "is_leaf (Suc l) old" using l old(3) by (auto simp: is_leaf_def)
  from on_path_wf [OF path wf] have "child_wf l ?m old"
    using old(1) by (auto simp: pt_wf_Suc entry_get_def)
  with leaf old(2) l show ok: "huge_ok (Suc l) old" by (auto simp: child_wf_def)
  note bf = bit_split_flags [OF l ok, where us = us, folded flags_def]
  have "flags AND PAGING_ADDR_MASK = 0"
    by (rule bit_eqI) (use bf(1) in \<open>auto simp: bit_and_iff bit_addr_mask\<close>)
  with bf(2,3) show tf: "table_flags flags" by (simp add: table_flags_def)
  note e = table_entry [OF n(2) tf]
  note ft = fill_table [OF n(2), where f = ?g and s = s1]
  let ?s2 = "fill_table ?g n s1"
  have o2: "same_outside {n} ?m (pg_mem ?s2)" using same_outside_trans [OF o1 ft(3)] by simp
  have fl: "\<not> bit (flags OR ps) b" if "12 \<le> b" "b < 52" for b
    using that bf(1) [of b] by (auto simp: bit_or_iff ps_def bit_paging_flags)
  have fl': "bit (flags OR ps) 0" "l = 2 \<Longrightarrow> bit (flags OR ps) 7"
    using bf(2) by (simp_all add: bit_or_iff ps_def bit_paging_flags)
  have st: "pt_wf l (pg_mem ?s2) n" "pt_tabs l (pg_mem ?s2) n = {n}"
    "pt_trans l (pg_mem ?s2) n va' = Some (leaf_phys (Suc l) old va')" for va'
    by (rule split_table [OF l n(2) fl fl']; use ft(4) in simp)+
  have oc: "child_tabs l ?m old = {}" "child_trans l ?m old va' = Some (leaf_phys (Suc l) old va')" for va'
    using leaf old(2) by (simp_all add: child_of_leaf)
  have cfg: "paging_config ?s2 = paging_config s" using ft(2) m1 by simp
  show "set (free_page_stack (pg_pmm s)) \<subseteq> insert n (set (free_page_stack (pg_pmm s')))"
    using alloc_table [OF inv al(1)] al(2) ft(1) by (auto simp: s'_def pmm_took_def)
  have l0: "l \<noteq> 0" using l by auto
  note keep = link_keep [OF inv path l0 al ft(1) cfg o2 st(1,2) _ _ e]
  show "pg_keep root s s'" "on_path 4 (pg_mem s') root va (Suc l) u"
    unfolding s'_def by (rule keep; simp add: old(1) oc st(3))+
  show "entry_get s' (u, ?i) = n OR flags" using u by (simp add: s'_def entry_get_set)
  show "same_outside {u, n} ?m (pg_mem s')"
    using same_outside_trans [OF o2 same_outside_set [of u ?i "pg_mem ?s2" "n OR flags"]] u
    by (simp add: s'_def insert_commute)
  show "bit (pt_get (pg_mem s') n j) 0 \<and> is_leaf l (pt_get (pg_mem s') n j)" if "j < 512" for j
  proof -
    have "pt_get (pg_mem s') n j = ?g j" using that u un n ft(4) by (simp add: s'_def pt_get_set)
    then show ?thesis using that l fl' by (auto simp: split_entry_low is_leaf_def)
  qed
qed

text \<open>Both splitting blocks are this step, at level 3 and at level 2.\<close>

lemma walk_split_pdpt_eq:
  "walk_split_pdpt True us e s =
     (if \<not> bit (entry_get s e) 7 then WalkOk 0 s
      else case paging_alloc_table s of
        (n, s1) \<Rightarrow> if n = 0 then WalkFail s1
          else let old = entry_get s1 e; flags = split_flags old (huge_base 3) us
               in WalkOk n (entry_set (fill_table (split_entry 2 old (flags OR PAGING_FLAG_PAGE_SIZE)) n s1) e (n OR flags)))"
  by (simp add: walk_split_pdpt_def flag_iff Let_def huge_base_def split_entry_def [abs_def] lvl_shift_def or.assoc
      split: prod.split)

lemma walk_split_pd_eq:
  "walk_split_pd True us e s =
     (if \<not> bit (entry_get s e) 7 then WalkOk 0 s
      else case paging_alloc_table s of
        (n, s1) \<Rightarrow> if n = 0 then WalkFail s1
          else let old = entry_get s1 e; flags = split_flags old (huge_base 2) us
               in WalkOk n (entry_set (fill_table (split_entry 1 old flags) n s1) e (n OR flags)))"
  by (simp add: walk_split_pd_def flag_iff Let_def huge_base_def split_entry_def [abs_def] lvl_shift_def or.assoc
      split: prod.split)

section \<open>Undoing blocks\<close>

lemma rollback_table_0 [simp]: "rollback_table e 0 s = s"
  by (simp add: rollback_table_def)

lemma undo_split_None [simp]: "undo_split None n s = (n, s)"
  by (simp add: undo_split_def)

lemma unlink_empty:
  assumes inv: "pg_inv s root" and path: "on_path 4 (pg_mem s) root va (Suc k) u" and k: "k \<noteq> 0"
    and e: "bit (entry_get s (u, lvl_index (Suc k) va)) 0" "\<not> bit (entry_get s (u, lvl_index (Suc k) va)) 7"
      "entry_get s (u, lvl_index (Suc k) va) AND PAGING_ADDR_MASK = n"
    and empty: "\<And>j. j < 512 \<Longrightarrow> \<not> bit (pt_get (pg_mem s) n j) 0"
    and free: "pg_free (entry_set s (u, lvl_index (Suc k) va) 0) n = (ok, s')"
  shows "ok" "pg_keep root s s'" "on_path 4 (pg_mem s') root va (Suc k) u"
    "pg_mem s' = pt_set (pg_mem s) u (lvl_index (Suc k) va) 0"
    "free_page_stack (pg_pmm s') = free_page_stack (pg_pmm s) @ [n]"
proof -
  let ?i = "lvl_index (Suc k) va" and ?m = "pg_mem s"
  have n: "masked n" using e(3) masked_and by metis
  obtain k' where k': "k = Suc k'" using k by (cases k) auto
  have zt: "pt_tabs k ?m n = {n}" "pt_trans k ?m n va' = None" for va'
    unfolding k' by (rule empty_table; use empty n in simp)+
  have ct: "child_tabs k ?m (entry_get s (u, ?i)) = {n}" using child_of_table [OF k e(1-3)] zt(1) by simp
  have "\<not> is_leaf (Suc k) (pt_get ?m u ?i)" using k e(2) by (simp add: is_leaf_def entry_get_def)
  with e(1,3) have "on_path 4 ?m root va k n"
    using on_path_extend [OF path k] by (simp add: entry_get_def)
  from on_path_trans [OF this] zt(2) have tr: "pt_trans 4 ?m root va' = None" if "same_prefix 4 k va va'" for va'
    using that by simp
  note un = unlink_keep [OF inv path ct _ _ _ free]
  show "ok" "pg_keep root s s'" "on_path 4 (pg_mem s') root va (Suc k) u" "pg_mem s' = pt_set ?m u ?i 0"
    "free_page_stack (pg_pmm s') = free_page_stack (pg_pmm s) @ [n]"
    by (rule un; simp add: tr)+
qed

lemma rollback_unlink:
  assumes inv: "pg_inv s root" and path: "on_path 4 (pg_mem s) root va (Suc k) u" and k: "k \<noteq> 0"
    and e: "bit (entry_get s (u, lvl_index (Suc k) va)) 0" "\<not> bit (entry_get s (u, lvl_index (Suc k) va)) 7"
      "entry_get s (u, lvl_index (Suc k) va) AND PAGING_ADDR_MASK = n" "n \<noteq> 0"
    and zero: "\<And>j. j < 512 \<Longrightarrow> pt_get (pg_mem s) n j = 0"
  defines "s' \<equiv> rollback_table (Some (u, lvl_index (Suc k) va)) n s"
  shows "pg_keep root s s'" "on_path 4 (pg_mem s') root va (Suc k) u"
    "pg_mem s' = pt_set (pg_mem s) u (lvl_index (Suc k) va) 0"
proof -
  let ?i = "lvl_index (Suc k) va"
  obtain ok s2 where f: "pg_free (entry_set s (u, ?i) 0) n = (ok, s2)" by fastforce
  have s': "s' = s2" using e f by (simp add: s'_def rollback_table_def)
  show "pg_keep root s s'" "on_path 4 (pg_mem s') root va (Suc k) u" "pg_mem s' = pt_set (pg_mem s) u ?i 0"
    unfolding s' by (rule unlink_empty(2-4) [OF inv path k e(1-3) _ f]; simp add: zero)+
qed

lemma path_next:
  assumes path: "on_path 4 m root va (Suc k) u" and k: "k \<noteq> 0"
    and "bit (pt_get m u (lvl_index (Suc k) va)) 0" "\<not> bit (pt_get m u (lvl_index (Suc k) va)) 7"
  shows "on_path 4 m root va k (pt_get m u (lvl_index (Suc k) va) AND PAGING_ADDR_MASK)"
  using assms by (intro on_path_extend) (simp_all add: is_leaf_def)

lemma path_distinct:
  assumes path: "on_path (Suc l) m t va (Suc k) u" and wf: "pt_wf (Suc l) m t" and "k < l"
  shows "u \<noteq> t"
proof -
  from assms(3) have "Suc k \<noteq> Suc l" by simp
  note st = on_path_step [OF path this wf]
  from on_path_wf [OF st(4,5)] have "u \<in> child_tabs l m (pt_get m t (lvl_index (Suc l) va))"
    unfolding st(6) by (auto simp: pt_tabs_Suc)
  moreover have "t \<notin> child_tabs l m (pt_get m t (lvl_index (Suc l) va))"
    using wf lvl_index_less unfolding pt_wf_Suc by blast
  ultimately show ?thesis by auto
qed

lemmas path_distinct_root = path_distinct [of 3, simplified]

lemma rollback_two:
  assumes inv: "pg_inv s root" and root: "entry_get s (root, lvl_index 4 va) AND PAGING_ADDR_MASK = t3"
      "bit (entry_get s (root, lvl_index 4 va)) 0" "\<not> bit (entry_get s (root, lvl_index 4 va)) 7"
    and e: "bit (entry_get s (t3, lvl_index 3 va)) 0" "\<not> bit (entry_get s (t3, lvl_index 3 va)) 7"
      "entry_get s (t3, lvl_index 3 va) AND PAGING_ADDR_MASK = n2" "n2 \<noteq> 0"
    and zero: "\<And>j. j < 512 \<Longrightarrow> pt_get (pg_mem s) n2 j = 0"
    and n1: "n1 \<noteq> 0 \<Longrightarrow> n1 = t3 \<and> (\<forall>j<512. j \<noteq> lvl_index 3 va \<longrightarrow> pt_get (pg_mem s) t3 j = 0)"
  shows "pg_keep root s (rollback_table (Some (root, lvl_index 4 va)) n1 (rollback_table (Some (t3, lvl_index 3 va)) n2 s))"
proof -
  from inv have wf: "pt_wf 4 (pg_mem s) root" by (simp add: pg_inv_def)
  have p4: "on_path 4 m root va (Suc 3) root" for m by (simp add: numeral_eq_Suc)
  have p3: "on_path 4 (pg_mem s) root va (Suc 2) t3"
    using path_next [OF p4, of "pg_mem s"] root by (simp add: entry_get_def)
  let ?s1 = "rollback_table (Some (t3, lvl_index 3 va)) n2 s"
  have l3: "lvl_index (Suc 2) va = lvl_index 3 va" "lvl_index (Suc 3) va = lvl_index 4 va" by simp_all
  note r1 = rollback_unlink [OF inv p3 _ _ _ _ _ zero, unfolded l3, OF _ e]
  show ?thesis
  proof (cases "n1 = 0")
    case True
    with r1(1) show ?thesis by simp
  next
    case False
    have inv1: "pg_inv ?s1 root" using pg_keep_inv [OF r1(1)] by simp
    have ne: "t3 \<noteq> root" using path_distinct_root [of _ root va 2] p3 wf by simp
    note m = path_tab [OF p3 wf] path_tab [OF p4 wf]
    have get: "entry_get ?s1 (root, lvl_index 4 va) = entry_get s (root, lvl_index 4 va)"
      using ne m r1(3) by (simp add: entry_get_def pt_get_set)
    have "pt_get (pg_mem ?s1) n1 j = 0" if "j < 512" for j
      using that n1 [OF False] m r1(3) by (simp add: pt_get_set)
    note r2 = rollback_unlink [OF inv1 p4 _ _ _ _ False this, unfolded l3 get]
    show ?thesis
      by (rule pg_keep_trans [OF _ r2(1)]) (use r1(1) root n1 [OF False] in simp_all)
  qed
qed

lemma undo_split_keep:
  assumes inv: "pg_inv s root" and path: "on_path 4 (pg_mem s) root va (Suc 2) t3"
    and e: "bit (entry_get s (t3, lvl_index 3 va)) 0" "\<not> bit (entry_get s (t3, lvl_index 3 va)) 7"
      "entry_get s (t3, lvl_index 3 va) AND PAGING_ADDR_MASK = n" "n \<noteq> 0"
    and tabs: "pt_tabs 2 (pg_mem s) n = {n}" and old: "bit old 0" "bit old 7" "huge_ok 3 old"
    and trans: "\<And>va'. same_prefix 4 2 va va' \<Longrightarrow> pt_trans 4 (pg_mem s) root va' = Some (leaf_phys 3 old va')"
    and un: "undo_split (Some ((t3, lvl_index 3 va), old)) n s = (n', s')"
  shows "n' = 0 \<and> pg_keep root s s'"
proof -
  have l3: "lvl_index (Suc 2) va = lvl_index 3 va" by simp
  have ct: "child_tabs 2 (pg_mem s) (entry_get s (t3, lvl_index (Suc 2) va)) = {n}"
    using child_of_table [of 2, OF _ e(1-3)] tabs by simp
  obtain ok s2 where f: "pg_free (entry_set s (t3, lvl_index (Suc 2) va) old) n = (ok, s2)" by fastforce
  have "n' = 0" "s' = s2" using un e f by (simp_all add: undo_split_def)
  moreover have "pg_keep root s s2"
    by (rule unlink_keep(2) [OF inv path ct _ _ _ f]) (use old trans in \<open>simp_all add: is_leaf_def\<close>)
  ultimately show ?thesis by simp
qed

lemma walk_flags: "table_flags (PAGING_FLAG_PRESENT OR PAGING_FLAG_RW OR (if us then PAGING_FLAG_USER else 0))"
  by (simp add: table_flags_def paging_flag_defs PAGING_ADDR_MASK_def)

section \<open>The whole walk\<close>

text \<open>
  What is known when the walk reaches the page directory: which tables are new, and that a
  new or split table holds nothing else yet.
\<close>

definition walk_ctx :: "paging \<Rightarrow> u64 \<Rightarrow> u64 \<Rightarrow> u64 \<Rightarrow> u64 \<Rightarrow> u64 \<Rightarrow> (pt_entry \<times> u64) option \<Rightarrow> bool" where
  "walk_ctx s root va t3 n1 n2 sp \<longleftrightarrow>
     (let m = pg_mem s; e4 = entry_get s (root, lvl_index 4 va); e3 = entry_get s (t3, lvl_index 3 va) in
      pg_inv s root \<and> on_path 4 m root va (Suc 2) t3 \<and>
      bit e4 0 \<and> \<not> bit e4 7 \<and> e4 AND PAGING_ADDR_MASK = t3 \<and> bit e3 0 \<and> \<not> bit e3 7 \<and>
      (n1 \<noteq> 0 \<longrightarrow> n1 = t3 \<and> n2 \<noteq> 0 \<and> sp = None \<and> (\<forall>j<512. j \<noteq> lvl_index 3 va \<longrightarrow> pt_get m t3 j = 0)) \<and>
      (n2 \<noteq> 0 \<longrightarrow> n2 = e3 AND PAGING_ADDR_MASK \<and> (sp = None \<longrightarrow> (\<forall>j<512. pt_get m n2 j = 0))) \<and>
      (\<forall>e old. sp = Some (e, old) \<longrightarrow> n2 \<noteq> 0 \<and> e = (t3, lvl_index 3 va) \<and> bit old 0 \<and> bit old 7 \<and> huge_ok 3 old \<and>
         (\<forall>j<512. bit (pt_get m n2 j) 0 \<and> is_leaf 2 (pt_get m n2 j)) \<and>
         (\<forall>va'. same_prefix 4 2 va va' \<longrightarrow> pt_trans 4 m root va' = Some (leaf_phys 3 old va'))))"

lemma walk_fail_pd:
  assumes ctx: "walk_ctx s root va t3 n1 n2 sp"
    and absent: "\<not> bit (entry_get s (entry_get s (t3, lvl_index 3 va) AND PAGING_ADDR_MASK, lvl_index 2 va)) 0"
  shows "pg_keep root s (paging_walk_fail (Some (root, lvl_index 4 va)) (Some (t3, lvl_index 3 va)) pd n1 n2 0 sp None s)"
proof -
  note c = ctx [unfolded walk_ctx_def Let_def]
  from c absent have sp: "sp = None" by (cases sp) (auto simp: entry_get_def)
  show ?thesis
  proof (cases "n2 = 0")
    case True
    with c sp show ?thesis by (simp add: paging_walk_fail_def paging_walk_rollback_def pg_keep_refl)
  next
    case False
    have "pg_keep root s (rollback_table (Some (root, lvl_index 4 va)) n1 (rollback_table (Some (t3, lvl_index 3 va)) n2 s))"
      by (rule rollback_two) (use c sp False in auto)
    with sp show ?thesis by (simp add: paging_walk_fail_def paging_walk_rollback_def)
  qed
qed

lemma walk_fail_split:
  assumes ctx: "walk_ctx s root va t3 n1 n2 sp" and keep: "pg_keep root s s4"
    and path: "on_path 4 (pg_mem s4) root va (Suc 2) t3"
    and e3: "entry_get s4 (t3, lvl_index 3 va) = entry_get s (t3, lvl_index 3 va)"
    and sp: "sp = None \<Longrightarrow> n2 = 0"
    and leaf: "\<And>j. j < 512 \<Longrightarrow> sp \<noteq> None \<Longrightarrow> is_leaf 2 (pt_get (pg_mem s4) n2 j)"
  shows "pg_keep root s (paging_walk_fail (Some (root, lvl_index 4 va)) (Some (t3, lvl_index 3 va)) pd n1 n2 0 sp None s4)"
proof (cases sp)
  case None
  with ctx sp have "n1 = 0" "n2 = 0" by (auto simp: walk_ctx_def Let_def)
  with keep None show ?thesis by (simp add: paging_walk_fail_def paging_walk_rollback_def)
next
  case (Some eo)
  then obtain e old where so: "sp = Some (e, old)" by (cases eo) auto
  note c = ctx [unfolded walk_ctx_def Let_def]
  have n1: "n1 = 0" using c so by auto
  obtain n' s' where un: "undo_split (Some ((t3, lvl_index 3 va), old)) n2 s4 = (n', s')" by fastforce
  have tabs: "pt_tabs 2 (pg_mem s4) n2 = {n2}"
    using tabs_single [of "pg_mem s4" n2 1] leaf so by (simp add: numeral_2_eq_2)
  have tr: "pt_trans 4 (pg_mem s4) root va' = Some (leaf_phys 3 old va')" if "same_prefix 4 2 va va'" for va'
    using that c so keep by (simp add: pg_keep_def)
  have "n' = 0 \<and> pg_keep root s4 s'"
    by (rule undo_split_keep [OF pg_keep_inv [OF keep] path _ _ _ _ tabs _ _ _ _ un])
      (use c so e3 tr in \<open>simp_all\<close>)
  moreover have "e = (t3, lvl_index 3 va)" using c so by simp
  ultimately show ?thesis
    using so un n1 pg_keep_trans [OF keep] by (simp add: paging_walk_fail_def paging_walk_rollback_def)
qed

lemma walk_ctx_path:
  assumes ctx: "walk_ctx s root va t3 n1 n2 sp"
  defines "t2 \<equiv> entry_get s (t3, lvl_index 3 va) AND PAGING_ADDR_MASK"
  shows "on_path 4 (pg_mem s) root va 2 t2" "root \<noteq> t2" "t3 \<noteq> t2" "masked t3" "masked root" "root \<noteq> 0" "t3 \<noteq> 0"
proof -
  note c = ctx [unfolded walk_ctx_def Let_def]
  from c have inv: "pg_inv s root" and p3: "on_path 4 (pg_mem s) root va (Suc 2) t3" by simp_all
  then have wf: "pt_wf 4 (pg_mem s) root" by (simp add: pg_inv_def)
  show p2: "on_path 4 (pg_mem s) root va 2 t2"
    using path_next [where k = 2, simplified, of "pg_mem s" root va t3] p3 c by (simp add: entry_get_def t2_def)
  have p4: "on_path 4 (pg_mem s) root va (Suc 3) root" by (simp add: numeral_eq_Suc)
  from path_tab [OF p3 wf] path_tab [OF p4 wf] inv_tab_facts(4) [OF inv]
  show "masked t3" "masked root" "root \<noteq> 0" "t3 \<noteq> 0" by simp_all
  show "root \<noteq> t2" using path_distinct_root [of "pg_mem s" root va 1 t2, unfolded Suc_1] p2 wf by simp
  have "on_path (Suc 2) (pg_mem s) t3 va (Suc 1) t2"
    using c by (auto simp: Let_def entry_get_def t2_def is_leaf_def numeral_2_eq_2 numeral_3_eq_3)
  moreover have "pt_wf (Suc 2) (pg_mem s) t3" using on_path_wf [OF p3 wf] by simp
  ultimately show "t3 \<noteq> t2" using path_distinct [of 2 "pg_mem s" t3 va 1 t2] by simp
qed

lemma walk_split_fails:
  assumes ctx: "walk_ctx s root va t3 n1 n2 sp"
  defines "t2 \<equiv> entry_get s (t3, lvl_index 3 va) AND PAGING_ADDR_MASK"
  assumes keep: "pg_keep root s s4" and out: "same_outside {t2, 0} (pg_mem s) (pg_mem s4)"
    and other: "\<forall>j<512. j \<noteq> lvl_index 2 va \<longrightarrow> pt_get (pg_mem s4) t2 j = pt_get (pg_mem s) t2 j"
    and e2: "bit (entry_get s (t2, lvl_index 2 va)) 0"
      "same_entry (entry_get s (t2, lvl_index 2 va)) (entry_get s4 (t2, lvl_index 2 va))"
  shows "pg_keep root s (paging_walk_fail (Some (root, lvl_index 4 va)) (Some (t3, lvl_index 3 va)) pd n1 n2 0 sp None s4)"
proof (rule walk_fail_split [OF ctx keep])
  note c = ctx [unfolded walk_ctx_def Let_def] and p = walk_ctx_path [OF ctx, folded t2_def]
  have get: "entry_get s4 (root, lvl_index 4 va) = entry_get s (root, lvl_index 4 va)"
    "entry_get s4 (t3, lvl_index 3 va) = entry_get s (t3, lvl_index 3 va)"
    using p by (simp_all add: entry_get_def pt_get_same [OF out])
  then show "entry_get s4 (t3, lvl_index 3 va) = entry_get s (t3, lvl_index 3 va)" by simp
  have "on_path 4 (pg_mem s4) root va (Suc 3) root" by (simp add: numeral_eq_Suc)
  from path_next [OF this] get c show "on_path 4 (pg_mem s4) root va (Suc 2) t3" by (simp add: entry_get_def)
  show "n2 = 0" if "sp = None"
    using that c e2(1) by (auto simp: entry_get_def t2_def)
  show "is_leaf 2 (pt_get (pg_mem s4) n2 j)" if "j < 512" "sp \<noteq> None" for j
  proof -
    from that(2) c have n2: "n2 = t2" and leaf: "is_leaf 2 (pt_get (pg_mem s) n2 i)" if "i < 512" for i
      using that by (auto simp: t2_def)
    show ?thesis
    proof (cases "j = lvl_index 2 va")
      case True
      with leaf [OF lvl_index_less, of 2 va] n2 [OF that(1)] e2(2) show ?thesis
        by (simp add: is_leaf_def same_entry_def entry_get_def)
    next
      case False
      with other that(1) leaf [OF that(1)] n2 [OF that(1)] show ?thesis by simp
    qed
  qed
qed

lemma walk_from_pd_keep:
  assumes ctx: "walk_ctx s root va t3 n1 n2 sp" and f: "table_flags f"
    and w: "walk_from_pd True us f va (root, lvl_index 4 va) (t3, lvl_index 3 va) n1 n2 sp s = (r, s')"
  shows "pg_keep root s s' \<and> (\<forall>e. r = Some e \<longrightarrow> (\<exists>t. e = (t, lvl_index 1 va) \<and> on_path 4 (pg_mem s') root va (Suc 0) t)) \<and>
    (r = None \<longrightarrow> free_page_stack (pg_pmm s) = [])"
proof -
  define t2 where "t2 = entry_get s (t3, lvl_index 3 va) AND PAGING_ADDR_MASK"
  define e where "e = (t2, lvl_index 2 va)"
  note p = walk_ctx_path [OF ctx, folded t2_def]
  from ctx have inv: "pg_inv s root" by (simp add: walk_ctx_def Let_def)
  note w = w [unfolded walk_from_pd_def Let_def lvl_index_eqs, folded t2_def, folded e_def]
  note st = ensure_step [where k = 1, unfolded Suc_1, OF inv p(1) _ f refl, where us = us, folded e_def]
  show ?thesis
  proof (cases "walk_ensure_table True us f e s")
    case (WalkFail s4)
    with st w show ?thesis
      using walk_fail_pd [OF ctx, of "Some e", folded t2_def, folded e_def] by simp
  next
    case (WalkOk n3 s4)
    with st have keep: "pg_keep root s s4" and p2: "on_path 4 (pg_mem s4) root va 2 t2"
      and e2: "bit (entry_get s4 e) 0" and out: "same_outside {t2, n3} (pg_mem s) (pg_mem s4)"
      and other: "\<forall>j<512. j \<noteq> lvl_index 2 va \<longrightarrow> pt_get (pg_mem s4) t2 j = pt_get (pg_mem s) t2 j"
      and n0: "n3 = 0 \<longrightarrow> bit (entry_get s e) 0 \<and> same_entry (entry_get s e) (entry_get s4 e) \<and> pg_pmm s4 = pg_pmm s"
      and n3: "n3 \<noteq> 0 \<longrightarrow> \<not> bit (entry_get s4 e) 7" by simp_all
    show ?thesis
    proof (cases "bit (entry_get s4 e) 7")
      case False
      then have "r = Some (entry_get s4 e AND PAGING_ADDR_MASK, lvl_index 1 va)" "s' = s4"
        using w WalkOk by (auto simp: walk_split_pd_eq)
      with keep path_next [where k = 1, unfolded Suc_1, OF p2] e2 False show ?thesis by (simp add: e_def entry_get_def)
    next
      case True
      with n3 n0 have old: "n3 = 0" "bit (entry_get s e) 0" "same_entry (entry_get s e) (entry_get s4 e)"
        "pg_pmm s4 = pg_pmm s" by auto
      obtain n s5 where al: "paging_alloc_table s4 = (n, s5)" by fastforce
      show ?thesis
      proof (cases "n = 0")
        case n: True
        with alloc_table [OF pg_keep_inv [OF keep] al] have "s5 = s4" "free_page_stack (pg_pmm s) = []" using old(4) by simp_all
        with w WalkOk True n al old(1) have "r = None" "free_page_stack (pg_pmm s) = []"
          "s' = paging_walk_fail (Some (root, lvl_index 4 va)) (Some (t3, lvl_index 3 va)) (Some e) n1 n2 0 sp None s4"
          by (auto simp: walk_split_pd_eq)
        with walk_split_fails [OF ctx keep, folded t2_def, folded e_def, of "Some e"] out other old show ?thesis by simp
      next
        case n: False
        have l: "1 \<in> {1, 2 :: nat}" by simp
        note sp = split_step(1,2,7,8) [where l = 1 and us = us, unfolded Suc_1, OF pg_keep_inv [OF keep] l p2 refl _ _ al n, folded e_def, OF e2 True]
        note sq = split_step(5,6) [where l = 1, unfolded Suc_1, OF pg_keep_inv [OF keep] l p2 refl _ _ al n, folded e_def, OF e2 True]
        let ?s = "entry_set (fill_table (split_entry 1 (entry_get s4 e) (split_flags (entry_get s4 e) (huge_base 2) us)) n s5) e
            (n OR split_flags (entry_get s4 e) (huge_base 2) us)"
        have s5: "entry_get s5 e = entry_get s4 e" by (fact sq)
        with w WalkOk True n al have rs: "s' = ?s" "r = Some (entry_get ?s e AND PAGING_ADDR_MASK, lvl_index 1 va)"
          by (auto simp: walk_split_pd_eq Let_def)
        have "pg_keep root s4 ?s" "on_path 4 (pg_mem ?s) root va 2 t2" "masked n"
          "entry_get ?s e = n OR split_flags (entry_get s4 e) (huge_base 2) us"
          "table_flags (split_flags (entry_get s4 e) (huge_base 2) us)" using sp sq by simp_all
        with rs keep path_next [of "pg_mem ?s" root va 1 t2, unfolded Suc_1] table_entry show ?thesis
          by (auto simp: e_def entry_get_def intro: pg_keep_trans)
      qed
    qed
  qed (use st in simp)
qed

end
