(* ===== verification/Paging_Map.thy ===== *)
theory Paging_Map
  imports Paging_Walk
begin

text \<open>
  The complete walk \<^verbatim>\<open>paging_walk_to_pte_in_root\<close> and the operations on top of it: mapping and
  unmapping a page, and their effect on the translation of every address.
\<close>

section \<open>From the PDPT on\<close>

definition walk_ctx3 :: "paging \<Rightarrow> u64 \<Rightarrow> u64 \<Rightarrow> u64 \<Rightarrow> u64 \<Rightarrow> bool" where
  "walk_ctx3 s root va t3 n1 \<longleftrightarrow>
     (let e4 = entry_get s (root, lvl_index 4 va) in
      pg_inv s root \<and> bit e4 0 \<and> \<not> bit e4 7 \<and> e4 AND PAGING_ADDR_MASK = t3 \<and>
      (n1 \<noteq> 0 \<longrightarrow> n1 = t3 \<and> (\<forall>j<512. pt_get (pg_mem s) t3 j = 0)))"

lemma suc_levels: "Suc 2 = (3 :: nat)" "Suc 3 = (4 :: nat)"
  by simp_all

lemma path_root: "on_path 4 m root va 4 root"
  by (simp add: numeral_eq_Suc)

lemma walk_ctx3_path:
  assumes "walk_ctx3 s root va t3 n1"
  shows "on_path 4 (pg_mem s) root va 3 t3" "root \<noteq> t3" "masked t3" "masked root" "root \<noteq> 0"
    "root \<in> pt_tabs 4 (pg_mem s) root"
proof -
  note c = assms [unfolded walk_ctx3_def Let_def]
  then have inv: "pg_inv s root" by simp
  then have wf: "pt_wf 4 (pg_mem s) root" by (simp add: pg_inv_def)
  show p3: "on_path 4 (pg_mem s) root va 3 t3"
    using path_next [where k = 3, simplified, OF path_root, of "pg_mem s" root va] c by (simp add: entry_get_def)
  show "root \<noteq> t3" using path_distinct_root [of "pg_mem s" root va 2 t3] p3 wf by simp
  show "masked t3" using path_tab [of 4 "pg_mem s" root va 2 t3] p3 wf by simp
  show "masked root" "root \<in> pt_tabs 4 (pg_mem s) root"
    using path_tab [of 4 "pg_mem s" root va 3 root] path_root [of "pg_mem s" root va] wf by simp_all
  then show "root \<noteq> 0" using inv_tab_facts(4) [OF inv] by simp
qed

lemma walk_fail_pdpt:
  assumes ctx: "walk_ctx3 s root va t3 n1"
  shows "pg_keep root s (paging_walk_fail (Some (root, lvl_index 4 va)) pe None n1 0 0 None None s)"
proof (cases "n1 = 0")
  case True
  with ctx show ?thesis
    by (simp add: paging_walk_fail_def paging_walk_rollback_def walk_ctx3_def Let_def pg_keep_refl)
next
  case False
  have "pg_keep root s (rollback_table (Some (root, lvl_index (Suc 3) va)) n1 s)"
    by (rule rollback_unlink(1)) (use ctx False path_root in \<open>auto simp: walk_ctx3_def Let_def\<close>)
  then show ?thesis by (simp add: paging_walk_fail_def paging_walk_rollback_def)
qed

lemma walk_ctx_plain:
  assumes ctx: "walk_ctx3 s root va t3 n1" and keep: "pg_keep root s s2"
    and path: "on_path 4 (pg_mem s2) root va 3 t3" and out: "same_outside {t3, n2} (pg_mem s) (pg_mem s2)"
    and other: "\<forall>j<512. j \<noteq> lvl_index 3 va \<longrightarrow> pt_get (pg_mem s2) t3 j = pt_get (pg_mem s) t3 j"
    and e3: "bit (entry_get s2 (t3, lvl_index 3 va)) 0" "\<not> bit (entry_get s2 (t3, lvl_index 3 va)) 7"
    and n0: "n2 = 0 \<longrightarrow> bit (entry_get s (t3, lvl_index 3 va)) 0"
    and n2: "n2 \<noteq> 0 \<longrightarrow> n2 \<notin> pt_tabs 4 (pg_mem s) root \<and> entry_get s2 (t3, lvl_index 3 va) AND PAGING_ADDR_MASK = n2 \<and>
       (\<forall>j<512. pt_get (pg_mem s2) n2 j = 0)"
  shows "walk_ctx s2 root va t3 n1 n2 None"
proof -
  note c = ctx [unfolded walk_ctx3_def Let_def] and p = walk_ctx3_path [OF ctx]
  have "root \<noteq> n2" using p n2 by (cases "n2 = 0") auto
  with p have e4: "entry_get s2 (root, lvl_index 4 va) = entry_get s (root, lvl_index 4 va)"
    by (simp add: entry_get_def pt_get_same [OF out])
  have "n2 \<noteq> 0" if "n1 \<noteq> 0" using that c n0 by (auto simp: entry_get_def)
  moreover have "pt_get (pg_mem s2) t3 j = 0" if "n1 \<noteq> 0" "j < 512" "j \<noteq> lvl_index 3 va" for j
    using that c other by simp
  ultimately show ?thesis
    using c e4 e3 n2 path pg_keep_inv [OF keep] by (simp add: walk_ctx_def Let_def)
qed

lemma walk_ctx_split:
  fixes s root va t3 s2 e n s3 us
  assumes ctx: "walk_ctx3 s root va t3 0" and keep: "pg_keep root s s2"
    and path: "on_path 4 (pg_mem s2) root va 3 t3" and out: "same_outside {t3, 0} (pg_mem s) (pg_mem s2)"
    and e3: "entry_get s2 (t3, lvl_index 3 va) = e" "bit e 0" "bit e 7"
    and al: "paging_alloc_table s2 = (n, s3)" "n \<noteq> 0"
  defines "flags \<equiv> split_flags e (huge_base 3) us"
  defines "s' \<equiv> entry_set (fill_table (split_entry 2 e (flags OR PAGING_FLAG_PAGE_SIZE)) n s3) (t3, lvl_index 3 va) (n OR flags)"
  shows "pg_keep root s2 s'" "walk_ctx s' root va t3 0 n (Some ((t3, lvl_index 3 va), e))"
    "entry_get s3 (t3, lvl_index 3 va) = e"
    "set (free_page_stack (pg_pmm s2)) \<subseteq> insert n (set (free_page_stack (pg_pmm s')))"
proof -
  note c = ctx [unfolded walk_ctx3_def Let_def] and p = walk_ctx3_path [OF ctx]
  have l: "2 \<in> {1, 2 :: nat}" by simp
  note inv2 = pg_keep_inv [OF keep]
  note sp = split_step(1,2,7,8,9,10,11) [where l = 2 and us = us, unfolded suc_levels simp_thms(6) if_True,
      OF inv2 l path e3 al, folded flags_def, folded s'_def]
  note sq = split_step(3,4,5,6) [where l = 2, unfolded suc_levels, OF inv2 l path e3 al]
  show "pg_keep root s2 s'" "set (free_page_stack (pg_pmm s2)) \<subseteq> insert n (set (free_page_stack (pg_pmm s')))" by (fact sp)+
  show "entry_get s3 (t3, lvl_index 3 va) = e" by (fact sq)
  have r2: "entry_get s2 (root, lvl_index 4 va) = entry_get s (root, lvl_index 4 va)"
    using p by (simp add: entry_get_def pt_get_same [OF out])
  have "root \<in> pt_tabs 4 (pg_mem s2) root"
    using path_tab(1) [of 4 "pg_mem s2" root va 3 root] path_root inv2 by (simp add: pg_inv_def)
  then have "root \<noteq> n" using sq(2) by auto
  with p have r3: "entry_get s' (root, lvl_index 4 va) = entry_get s (root, lvl_index 4 va)"
    by (simp add: entry_get_def pt_get_same [OF sp(5)] r2 [unfolded entry_get_def fst_conv snd_conv])
  have tr: "pt_trans 4 (pg_mem s') root va' = Some (leaf_phys 3 e va')" if "same_prefix 4 2 va va'" for va'
  proof -
    from that have "same_prefix 4 3 va va'" "lvl_index 3 va' = lvl_index 3 va"
      using same_prefix_step [of 2 4 va va'] by simp_all
    with on_path_trans [OF path] e3 have "pt_trans 4 (pg_mem s2) root va' = Some (leaf_phys 3 e va')"
      using pt_trans_Suc [of 2 "pg_mem s2" t3 va'] by (simp add: child_trans_def is_leaf_def entry_get_def)
    with sp(1) show ?thesis by (simp add: pg_keep_def)
  qed
  show "walk_ctx s' root va t3 0 n (Some ((t3, lvl_index 3 va), e))"
    using c r3 sp sq tr e3 al(2) table_entry [OF sq(3) sp(4)] pg_keep_inv [OF sp(1)]
    by (simp add: walk_ctx_def Let_def)
qed

definition walk_result :: "u64 \<Rightarrow> u64 \<Rightarrow> paging \<Rightarrow> pt_entry option \<Rightarrow> paging \<Rightarrow> bool" where
  "walk_result root va s r s' \<longleftrightarrow>
     pg_keep root s s' \<and>
     (\<forall>e. r = Some e \<longrightarrow> (\<exists>t. e = (t, lvl_index 1 va) \<and> on_path 4 (pg_mem s') root va (Suc 0) t))"

lemma walk_result_trans: "pg_keep root s s' \<Longrightarrow> walk_result root va s' r s'' \<Longrightarrow> walk_result root va s r s''"
  by (auto simp: walk_result_def intro: pg_keep_trans)

text \<open>The pages a failed walk has found free.\<close>

abbreviation free_set :: "paging \<Rightarrow> u64 set" where
  "free_set s \<equiv> set (free_page_stack (pg_pmm s))"

lemma walk_from_pdpt_keep:
  assumes ctx: "walk_ctx3 s root va t3 n1" and f: "table_flags f"
    and w: "walk_from_pdpt True us f va (root, lvl_index 4 va) n1 s = (r, s')"
  shows "walk_result root va s r s' \<and> (r = None \<longrightarrow> (\<exists>x. free_set s \<subseteq> {x}))"
proof -
  note c = ctx [unfolded walk_ctx3_def Let_def] and p = walk_ctx3_path [OF ctx]
  define e where "e = (t3, lvl_index 3 va)"
  have inv: "pg_inv s root" and t3: "entry_get s (root, lvl_index 4 va) AND PAGING_ADDR_MASK = t3" using c by simp_all
  note w = w [unfolded walk_from_pdpt_def Let_def lvl_index_eqs t3, folded e_def]
  note st = ensure_step [where k = 2 and us = us, unfolded suc_levels, OF inv p(1) _ f refl, folded e_def]
  show ?thesis
  proof (cases "walk_ensure_table True us f e s")
    case (WalkFail s2)
    with st w walk_fail_pdpt [OF ctx, of "Some e"] show ?thesis by (auto simp: walk_result_def)
  next
    case (WalkOk n2 s2)
    with st have keep: "pg_keep root s s2" and p3: "on_path 4 (pg_mem s2) root va 3 t3"
      and e3: "bit (entry_get s2 e) 0" and out: "same_outside {t3, n2} (pg_mem s) (pg_mem s2)"
      and other: "\<forall>j<512. j \<noteq> lvl_index 3 va \<longrightarrow> pt_get (pg_mem s2) t3 j = pt_get (pg_mem s) t3 j"
      and n0: "n2 = 0 \<longrightarrow> bit (entry_get s e) 0 \<and> same_entry (entry_get s e) (entry_get s2 e) \<and> pg_pmm s2 = pg_pmm s"
      and fr: "n2 \<noteq> 0 \<longrightarrow> free_set s \<subseteq> insert n2 (free_set s2)"
      and n2: "n2 \<noteq> 0 \<longrightarrow> \<not> bit (entry_get s e) 0 \<and> n2 \<notin> pt_tabs 4 (pg_mem s) root \<and> masked n2 \<and>
        \<not> bit (entry_get s2 e) 7 \<and> entry_get s2 e AND PAGING_ADDR_MASK = n2 \<and> (\<forall>j<512. pt_get (pg_mem s2) n2 j = 0)"
      by simp_all
    show ?thesis
    proof (cases "bit (entry_get s2 e) 7")
      case False
      then have w: "walk_from_pd True us f va (root, lvl_index 4 va) e n1 n2 None s2 = (r, s')"
        using w WalkOk by (simp add: walk_split_pdpt_eq)
      have "walk_ctx s2 root va t3 n1 n2 None"
        by (rule walk_ctx_plain [OF ctx keep p3 out other]) (use e3 False n0 n2 in \<open>auto simp: e_def\<close>)
      from walk_from_pd_keep [OF this f w [unfolded e_def]] show ?thesis
        using pg_keep_trans [OF keep] n0 fr by (cases "n2 = 0") (auto simp: walk_result_def intro!: exI [of _ n2])
    next
      case True
      with n2 have z2: "n2 = 0" by auto
      with n0 c have z1: "n1 = 0" by (auto simp: e_def entry_get_def)
      obtain n s3 where al: "paging_alloc_table s2 = (n, s3)" by fastforce
      show ?thesis
      proof (cases "n = 0")
        case n: True
        with alloc_table [OF pg_keep_inv [OF keep] al] have "s3 = s2" "free_set s2 = {}" by simp_all
        with w WalkOk True n al z1 z2 keep n0 show ?thesis
          by (auto simp: walk_split_pdpt_eq paging_walk_fail_def paging_walk_rollback_def walk_result_def)
      next
        case n: False
        note sp = walk_ctx_split [OF ctx [unfolded z1] keep p3 out [unfolded z2] refl, folded e_def, OF e3 True al n]
        have w: "walk_from_pd True us f va (root, lvl_index 4 va) e 0 n (Some (e, entry_get s2 e))
          (entry_set (fill_table (split_entry 2 (entry_get s2 e)
             (split_flags (entry_get s2 e) (huge_base 3) us OR PAGING_FLAG_PAGE_SIZE)) n s3) e
             (n OR split_flags (entry_get s2 e) (huge_base 3) us)) = (r, s')"
          using w WalkOk True n al z1 sp(3) by (simp add: walk_split_pdpt_eq Let_def)
        from walk_from_pd_keep [OF sp(2) f, folded e_def, OF w] show ?thesis
          using sp(4) [of us] n0 z2
          by (auto simp: walk_result_def intro: pg_keep_trans [OF keep pg_keep_trans [OF sp(1)]] intro!: exI [of _ n])
      qed
    qed
  qed (use st in simp)
qed

lemma walk_create:
  assumes inv: "pg_inv s root" and "paging_walk_to_pte_in_root s root va True us = (r, s')"
  shows "walk_result root va s r s' \<and>
    (r = None \<longrightarrow> \<not> paging_validate_page_address va \<or> (\<exists>x y. free_set s \<subseteq> {x, y}))"
proof (cases "paging_validate_page_address va")
  case False
  with assms show ?thesis by (auto simp: paging_walk_to_pte_in_root_def walk_result_def pg_keep_refl)
next
  case valid: True
  from inv have wf: "pt_wf 4 (pg_mem s) root" by (simp add: pg_inv_def)
  from path_tab [of 4 "pg_mem s" root va 3 root] path_root wf
  have rt: "root \<in> pt_tabs 4 (pg_mem s) root" "masked root" by simp_all
  note r0 = inv_tab_facts(4) [OF inv rt(1)]
  define e where "e = (root, lvl_index 4 va)"
  define f where "f = PAGING_FLAG_PRESENT OR PAGING_FLAG_RW OR (if us then PAGING_FLAG_USER else 0)"
  have f: "table_flags f" unfolding f_def by (rule walk_flags)
  have w: "(case walk_ensure_table True us f e s of WalkAbsent \<Rightarrow> (None, s)
      | WalkFail s1 \<Rightarrow> (None, paging_walk_fail (Some e) None None 0 0 0 None None s1)
      | WalkOk new_pdpt s1 \<Rightarrow> walk_from_pdpt True us f va e new_pdpt s1) = (r, s')"
    using assms(2) valid r0
    unfolding paging_walk_to_pte_in_root_def Let_def lvl_index_eqs rt(2) [unfolded masked_def] f_def [symmetric] e_def [symmetric]
    by simp
  note st = ensure_step [where k = 3 and us = us, unfolded suc_levels, OF inv path_root [of "pg_mem s" root va] _ f refl, folded e_def]
  show ?thesis
  proof (cases "walk_ensure_table True us f e s")
    case (WalkFail s1)
    with st w inv show ?thesis
      by (auto simp: paging_walk_fail_def paging_walk_rollback_def walk_result_def pg_keep_refl)
  next
    case (WalkOk n1 s1)
    with st have keep: "pg_keep root s s1" and e4: "bit (entry_get s1 e) 0"
      and n1: "n1 \<noteq> 0 \<longrightarrow> entry_get s1 e AND PAGING_ADDR_MASK = n1 \<and> (\<forall>j<512. pt_get (pg_mem s1) n1 j = 0)"
      and n0: "n1 = 0 \<longrightarrow> pg_pmm s1 = pg_pmm s" and fr: "n1 \<noteq> 0 \<longrightarrow> free_set s \<subseteq> insert n1 (free_set s1)" by simp_all
    have "pt_wf (Suc 3) (pg_mem s1) root" using pg_keep_inv [OF keep] by (simp add: pg_inv_def)
    then have "child_wf 3 (pg_mem s1) (entry_get s1 e)" unfolding pt_wf_Suc e_def entry_get_def by simp
    with e4 have "\<not> bit (entry_get s1 e) 7" by (simp add: child_wf_def is_leaf_def)
    then have "walk_ctx3 s1 root va (entry_get s1 e AND PAGING_ADDR_MASK) n1"
      using e4 n1 pg_keep_inv [OF keep] by (auto simp: walk_ctx3_def Let_def e_def)
    from walk_from_pdpt_keep [OF this f, folded e_def] w WalkOk walk_result_trans [OF keep]
    have r: "walk_result root va s r s'" "r = None \<longrightarrow> (\<exists>x. free_set s1 \<subseteq> {x})" by simp_all
    have "free_set s \<subseteq> insert n1 (free_set s1)" using n0 fr by (cases "n1 = 0") auto
    moreover have "free_set s \<subseteq> {n1, x}" if "free_set s1 \<subseteq> {x}" for x using that calculation by blast
    ultimately show ?thesis using r by blast
  qed (use st in simp)
qed

section \<open>Pages of the 48-bit address space\<close>

definition page_number :: "u64 \<Rightarrow> u64" where
  "page_number va = drop_bit 12 (take_bit 48 va)"

lemma lvl_index_eq_iff:
  "lvl_index l va = lvl_index l va' \<longleftrightarrow> (\<forall>n<9. bit va (lvl_shift l + n) \<longleftrightarrow> bit va' (lvl_shift l + n))"
proof
  assume "lvl_index l va = lvl_index l va'"
  then have "(of_nat (lvl_index l va) :: u64) = of_nat (lvl_index l va')" by simp
  then have "bit (of_nat (lvl_index l va) :: u64) n \<longleftrightarrow> bit (of_nat (lvl_index l va') :: u64) n" for n by simp
  then show "\<forall>n<9. bit va (lvl_shift l + n) \<longleftrightarrow> bit va' (lvl_shift l + n)" by (auto simp: bit_of_nat_index)
next
  assume "\<forall>n<9. bit va (lvl_shift l + n) \<longleftrightarrow> bit va' (lvl_shift l + n)"
  then have "(of_nat (lvl_index l va) :: u64) = of_nat (lvl_index l va')"
    by (intro bit_eqI) (auto simp: bit_of_nat_index)
  moreover have "unat (of_nat (lvl_index l x) :: u64) = lvl_index l x" for x
    using less_trans [OF lvl_index_less [of l x], of "2 ^ 64"] by (simp add: unat_of_nat)
  ultimately show "lvl_index l va = lvl_index l va'" by metis
qed

lemma page_number_eq_iff: "page_number va = page_number va' \<longleftrightarrow> (\<forall>n. 12 \<le> n \<and> n < 48 \<longrightarrow> (bit va n \<longleftrightarrow> bit va' n))"
proof
  assume "page_number va = page_number va'"
  then have eq: "bit (page_number va) k \<longleftrightarrow> bit (page_number va') k" for k by simp
  have k: "bit va (12 + k) \<longleftrightarrow> bit va' (12 + k)" if "k < 36" for k
    using that eq [of k] by (simp add: page_number_def bit_drop_bit_eq bit_take_bit_iff)
  show "\<forall>n. 12 \<le> n \<and> n < 48 \<longrightarrow> (bit va n \<longleftrightarrow> bit va' n)"
  proof (intro allI impI)
    fix n :: nat assume n: "12 \<le> n \<and> n < 48"
    then have "n - 12 < 36" by auto
    from k [OF this] n show "bit va n \<longleftrightarrow> bit va' n" by simp
  qed
next
  assume "\<forall>n. 12 \<le> n \<and> n < 48 \<longrightarrow> (bit va n \<longleftrightarrow> bit va' n)"
  then show "page_number va = page_number va'"
    by (intro bit_eqI) (auto simp: page_number_def bit_drop_bit_eq bit_take_bit_iff)
qed

lemma same_prefix_page: "same_prefix 4 0 va va' \<longleftrightarrow> page_number va' = page_number va"
proof -
  have "same_prefix 4 0 va va' \<longleftrightarrow> (\<forall>l \<in> {1, 2, 3, 4}. lvl_index l va = lvl_index l va')"
    by (auto simp: same_prefix_def le_Suc_eq numeral_eq_Suc)
  also have "\<dots> \<longleftrightarrow> (\<forall>l \<in> {1, 2, 3, 4}. \<forall>n<9. bit va (lvl_shift l + n) \<longleftrightarrow> bit va' (lvl_shift l + n))"
    by (simp only: lvl_index_eq_iff)
  also have "\<dots> \<longleftrightarrow> (\<forall>n. 12 \<le> n \<and> n < 48 \<longrightarrow> (bit va n \<longleftrightarrow> bit va' n))" (is "?L \<longleftrightarrow> ?R")
  proof
    assume L: ?L
    show ?R
    proof (intro allI impI)
      fix n :: nat assume n: "12 \<le> n \<and> n < 48"
      define l where "l = Suc ((n - 12) div 9)"
      have "l \<in> {1, 2, 3, 4}" "lvl_shift l + (n - 12) mod 9 = n" using n by (auto simp: l_def lvl_shift_def)
      with L show "bit va n \<longleftrightarrow> bit va' n" by (metis mod_less_divisor zero_less_numeral)
    qed
  next
    assume ?R
    then show ?L by (auto simp: lvl_shift_def)
  qed
  finally show ?thesis by (auto simp: page_number_eq_iff)
qed

section \<open>Unmapping\<close>

text \<open>The four tables of a mapped page, all different.\<close>

definition leaf_path :: "paging \<Rightarrow> u64 \<Rightarrow> u64 \<Rightarrow> u64 \<Rightarrow> u64 \<Rightarrow> u64 \<Rightarrow> bool" where
  "leaf_path s root va t3 t2 t1 \<longleftrightarrow>
     (let e4 = entry_get s (root, lvl_index 4 va); e3 = entry_get s (t3, lvl_index 3 va); e2 = entry_get s (t2, lvl_index 2 va) in
      bit e4 0 \<and> \<not> bit e4 7 \<and> e4 AND PAGING_ADDR_MASK = t3 \<and> bit e3 0 \<and> \<not> bit e3 7 \<and> e3 AND PAGING_ADDR_MASK = t2 \<and>
      bit e2 0 \<and> \<not> bit e2 7 \<and> e2 AND PAGING_ADDR_MASK = t1)"

lemma leaf_path_on_path:
  assumes "leaf_path s root va t3 t2 t1"
  shows "on_path 4 (pg_mem s) root va 3 t3" "on_path 4 (pg_mem s) root va 2 t2" "on_path 4 (pg_mem s) root va 1 t1"
proof -
  note c = assms [unfolded leaf_path_def Let_def]
  show p3: "on_path 4 (pg_mem s) root va 3 t3"
    using path_next [where k = 3, simplified, OF path_root, of "pg_mem s" root va] c by (simp add: entry_get_def)
  show p2: "on_path 4 (pg_mem s) root va 2 t2"
    using path_next [where k = 2, unfolded suc_levels, OF p3] c by (simp add: entry_get_def)
  show "on_path 4 (pg_mem s) root va 1 t1"
    using path_next [where k = 1, unfolded Suc_1, OF p2] c by (simp add: entry_get_def)
qed

lemma leaf_path_distinct:
  assumes lp: "leaf_path s root va t3 t2 t1" and inv: "pg_inv s root"
  shows "distinct [root, t3, t2, t1]" "masked root" "masked t3" "masked t2" "masked t1"
proof -
  note c = lp [unfolded leaf_path_def Let_def] and p = leaf_path_on_path [OF lp]
  from inv have wf: "pt_wf 4 (pg_mem s) root" by (simp add: pg_inv_def)
  have "on_path 3 (pg_mem s) t3 va 2 t2" "on_path 3 (pg_mem s) t3 va 1 t1" "on_path 2 (pg_mem s) t2 va 1 t1"
    using c by (auto simp: Let_def entry_get_def is_leaf_def numeral_eq_Suc)
  moreover have "pt_wf 3 (pg_mem s) t3" "pt_wf 2 (pg_mem s) t2" using on_path_wf [OF p(1) wf] on_path_wf [OF p(2) wf] by simp_all
  ultimately have "t2 \<noteq> t3" "t1 \<noteq> t3" "t1 \<noteq> t2"
    using path_distinct [of 2 "pg_mem s" t3 va 1 t2, unfolded suc_levels Suc_1]
      path_distinct [of 2 "pg_mem s" t3 va 0 t1, unfolded suc_levels]
      path_distinct [of 1 "pg_mem s" t2 va 0 t1, unfolded Suc_1] by simp_all
  moreover have "t3 \<noteq> root" "t2 \<noteq> root" "t1 \<noteq> root"
    using path_distinct_root [of "pg_mem s" root va 2 t3] path_distinct_root [of "pg_mem s" root va 1 t2, unfolded Suc_1]
      path_distinct_root [of "pg_mem s" root va 0 t1] p wf by simp_all
  ultimately show "distinct [root, t3, t2, t1]" by auto
  show "masked root" "masked t3" "masked t2" "masked t1"
    using c path_tab(2) [of 4 "pg_mem s" root va 3 root] path_root wf masked_and by (simp, metis, metis, metis)
qed

lemma leaf_path_write:
  assumes lp: "leaf_path s root va t3 t2 t1" and inv: "pg_inv s root" and "t \<in> {t2, t1}" and "i < 512"
    and "pg_mem s' = pt_set (pg_mem s) t i v" and "t = t2 \<longrightarrow> i = lvl_index 2 va"
  shows "entry_get s' (root, lvl_index 4 va) = entry_get s (root, lvl_index 4 va)"
    "entry_get s' (t3, lvl_index 3 va) = entry_get s (t3, lvl_index 3 va)"
    "t = t1 \<Longrightarrow> leaf_path s' root va t3 t2 t1"
  using leaf_path_distinct [OF lp inv] assms by (auto simp: entry_get_def pt_get_set leaf_path_def Let_def)

lemma table_is_empty_iff: "paging_table_is_empty m t \<longleftrightarrow> (\<forall>j<512. \<not> bit (pt_get m t j) 0)"
  by (auto simp: paging_table_is_empty_def list_all_iff PAGING_TABLE_ENTRIES_def flag_iff)

text \<open>
  The tables of a page, bottom up, as long as the entry for the page is the only present one:
  these become empty when the page is unmapped.
\<close>

definition only_entry :: "phys_memory \<Rightarrow> u64 \<Rightarrow> nat \<Rightarrow> bool" where
  "only_entry m t i \<longleftrightarrow> (\<forall>j < 512. j \<noteq> i \<longrightarrow> \<not> bit (pt_get m t j) 0)"

definition emptied_tables :: "phys_memory \<Rightarrow> u64 \<Rightarrow> u64 \<Rightarrow> u64 \<Rightarrow> u64 \<Rightarrow> u64 list" where
  "emptied_tables m va pt pd pdpt =
     map fst (takeWhile (\<lambda>(t, i). only_entry m t i) [(pt, pt_index va), (pd, pd_index va), (pdpt, pdpt_index va)])"

lemma empty_after_clear:
  assumes "masked t" and "i < 512"
  shows "paging_table_is_empty (pt_set m t i 0) t \<longleftrightarrow> only_entry m t i"
  using assms by (auto simp: table_is_empty_iff only_entry_def pt_get_set)

lemma only_entry_set: "masked t \<Longrightarrow> masked t' \<Longrightarrow> i < 512 \<Longrightarrow> t \<noteq> t' \<or> i = j \<Longrightarrow> only_entry (pt_set m t' i v) t j \<longleftrightarrow> only_entry m t j"
  by (auto simp: only_entry_def pt_get_set)

lemma reclaim_result:
  fixes s root va t3 t2 t1
  defines "r \<equiv> reclaim_tables (root, lvl_index 4 va) (t3, lvl_index 3 va) (t2, lvl_index 2 va) t3 t2 t1 s"
  assumes inv: "pg_inv s root" and lp: "leaf_path s root va t3 t2 t1" and clear: "\<not> bit (entry_get s (t1, lvl_index 1 va)) 0"
  shows "pg_keep root s r \<and> free_page_stack (pg_pmm r) = free_page_stack (pg_pmm s) @ emptied_tables (pg_mem s) va t1 t2 t3"
proof (cases "paging_table_is_empty (pg_mem s) t1")
  case False
  then have "\<not> only_entry (pg_mem s) t1 (lvl_index 1 va)"
    using clear by (auto simp: table_is_empty_iff only_entry_def entry_get_def)
  with inv False show ?thesis by (simp add: r_def reclaim_tables_def pg_keep_refl emptied_tables_def lvl_index_eqs)
next
  case e1: True
  then have o1: "only_entry (pg_mem s) t1 (lvl_index 1 va)" by (simp add: table_is_empty_iff only_entry_def)
  note c = lp [unfolded leaf_path_def Let_def] and d = leaf_path_distinct [OF lp inv]
  obtain ok2 s2 where f2: "pg_free (entry_set s (t2, lvl_index 2 va) 0) t1 = (ok2, s2)" by fastforce
  have u2: "ok2" "pg_keep root s s2" "on_path 4 (pg_mem s2) root va 2 t2" "pg_mem s2 = pt_set (pg_mem s) t2 (lvl_index 2 va) 0"
    "free_page_stack (pg_pmm s2) = free_page_stack (pg_pmm s) @ [t1]"
    by (rule unlink_empty [where k = 1, unfolded Suc_1, OF inv leaf_path_on_path(2) [OF lp] _ _ _ _ _ f2];
        use c e1 in \<open>simp add: table_is_empty_iff\<close>)+
  note w2 = leaf_path_write [OF lp inv _ _ u2(4)]
  have o2: "paging_table_is_empty (pg_mem s2) t2 \<longleftrightarrow> only_entry (pg_mem s) t2 (lvl_index 2 va)"
    unfolding u2(4) by (rule empty_after_clear) (simp_all add: d)
  show ?thesis
  proof (cases "paging_table_is_empty (pg_mem s2) t2")
    case False
    with e1 f2 u2 o1 o2 show ?thesis by (simp add: r_def reclaim_tables_def emptied_tables_def lvl_index_eqs)
  next
    case e2: True
    obtain ok3 s3 where f3: "pg_free (entry_set s2 (t3, lvl_index 3 va) 0) t2 = (ok3, s3)" by fastforce
    have r2: "entry_get s2 (root, lvl_index 4 va) = entry_get s (root, lvl_index 4 va)"
      "entry_get s2 (t3, lvl_index 3 va) = entry_get s (t3, lvl_index 3 va)" using w2 by simp_all
    have p3: "on_path 4 (pg_mem s2) root va 3 t3"
      using path_next [where k = 3, simplified, OF path_root, of "pg_mem s2" root va] c r2 by (simp add: entry_get_def)
    have u3: "ok3" "pg_keep root s2 s3" "pg_mem s3 = pt_set (pg_mem s2) t3 (lvl_index 3 va) 0"
      "free_page_stack (pg_pmm s3) = free_page_stack (pg_pmm s2) @ [t2]"
      by (rule unlink_empty(1,2,4,5) [where k = 2, unfolded suc_levels, OF pg_keep_inv [OF u2(2)] p3 _ _ _ _ _ f3];
          use c r2 e2 in \<open>simp add: table_is_empty_iff\<close>)+
    note k3 = pg_keep_trans [OF u2(2) u3(2)]
    have o3: "paging_table_is_empty (pg_mem s3) t3 \<longleftrightarrow> only_entry (pg_mem s) t3 (lvl_index 3 va)"
      unfolding u3(3) u2(4) using d by (simp add: empty_after_clear only_entry_set)
    show ?thesis
    proof (cases "paging_table_is_empty (pg_mem s3) t3")
      case False
      with e1 f2 u2 e2 f3 u3 k3 o1 o2 o3 show ?thesis by (simp add: r_def reclaim_tables_def emptied_tables_def lvl_index_eqs)
    next
      case e3: True
      obtain ok4 s4 where f4: "pg_free (entry_set s3 (root, lvl_index 4 va) 0) t3 = (ok4, s4)" by fastforce
      have r3: "entry_get s3 (root, lvl_index 4 va) = entry_get s (root, lvl_index 4 va)"
        using d r2 u3(3) by (auto simp: entry_get_def pt_get_set)
      have "pg_keep root s3 s4" "free_page_stack (pg_pmm s4) = free_page_stack (pg_pmm s3) @ [t3]"
        by (rule unlink_empty(2,5) [where k = 3, unfolded suc_levels, OF pg_keep_inv [OF u3(2)] path_root _ _ _ _ _ f4];
            use c r3 e3 in \<open>simp add: table_is_empty_iff\<close>)+
      with e1 f2 u2 e2 f3 u3 e3 f4 pg_keep_trans [OF k3] o1 o2 o3 show ?thesis
        by (simp add: r_def reclaim_tables_def emptied_tables_def lvl_index_eqs)
    qed
  qed
qed

text \<open>Pages of the root are either free or tables, so the tables that remain are those not freed.\<close>

lemma frame_tables:
  assumes "pg_inv s root" and "pg_frame root s s'" and "free_page_stack (pg_pmm s') = free_page_stack (pg_pmm s) @ ts"
  shows "pt_tabs 4 (pg_mem s') root = pt_tabs 4 (pg_mem s) root - set ts"
proof -
  have "pg_inv s' root" "pg_pages s' root = pg_pages s root" using assms(2) by (simp_all add: pg_frame_def)
  then show ?thesis
    using inv_tab_facts(1) [OF assms(1)] inv_tab_facts(1) [of s' root] assms(3) by (auto simp: pg_pages_def)
qed

lemma unmap_page_result:
  assumes inv: "pg_inv s root" and root: "root = paging_get_current_cr3 s" and u: "paging_unmap_page s va = (r, s')"
  shows "case r of None \<Rightarrow> s' = s
     | Some phys \<Rightarrow> pg_frame root s s' \<and> pt_trans 4 (pg_mem s) root va = Some (phys OR (va AND 0xfff)) \<and>
         (\<exists>t3 t2 t1. leaf_path s root va t3 t2 t1 \<and> bit (entry_get s (t1, lvl_index 1 va)) 0 \<and>
            free_page_stack (pg_pmm s') = free_page_stack (pg_pmm s) @ emptied_tables (pg_mem s) va t1 t2 t3) \<and>
         (\<forall>va'. pt_trans 4 (pg_mem s') root va' =
            (if page_number va' = page_number va then None else pt_trans 4 (pg_mem s) root va'))"
proof (cases r)
  case None
  with u show ?thesis by (auto simp: paging_unmap_page_def Let_def split: if_splits)
next
  case (Some phys)
  have rm: "root AND PAGING_ADDR_MASK = root" by (simp add: root paging_get_current_cr3_def and.assoc)
  define t3 where "t3 = entry_get s (root, lvl_index 4 va) AND PAGING_ADDR_MASK"
  define t2 where "t2 = entry_get s (t3, lvl_index 3 va) AND PAGING_ADDR_MASK"
  define t1 where "t1 = entry_get s (t2, lvl_index 2 va) AND PAGING_ADDR_MASK"
  define s1 where "s1 = entry_set s (t1, lvl_index 1 va) 0"
  note u = u [unfolded paging_unmap_page_def Let_def root [symmetric] rm lvl_index_eqs flag_iff
      t3_def [symmetric] t2_def [symmetric] t1_def [symmetric] s1_def [symmetric] Some]
  from u have c: "bit (entry_get s (root, lvl_index 4 va)) 0" "bit (entry_get s (t3, lvl_index 3 va)) 0"
    "\<not> bit (entry_get s (t3, lvl_index 3 va)) 7" "bit (entry_get s (t2, lvl_index 2 va)) 0"
    "\<not> bit (entry_get s (t2, lvl_index 2 va)) 7" "bit (entry_get s (t1, lvl_index 1 va)) 0"
    and phys: "phys = entry_get s (t1, lvl_index 1 va) AND PAGING_ADDR_MASK"
    and s': "s' = reclaim_tables (root, lvl_index 4 va) (t3, lvl_index 3 va) (t2, lvl_index 2 va) t3 t2 t1 s1"
    by (simp_all split: if_splits)
  have "pt_wf (Suc 3) (pg_mem s) root" using inv by (simp add: pg_inv_def)
  then have "child_wf 3 (pg_mem s) (entry_get s (root, lvl_index 4 va))" unfolding pt_wf_Suc entry_get_def by simp
  with c(1) have "\<not> bit (entry_get s (root, lvl_index 4 va)) 7" by (simp add: child_wf_def is_leaf_def)
  with c have lp: "leaf_path s root va t3 t2 t1" by (simp add: leaf_path_def Let_def t3_def t2_def t1_def)
  from leaf_path_on_path(3) [OF lp] have p1: "on_path 4 (pg_mem s) root va (Suc 0) t1" by simp
  note sl = set_leaf_frame [OF inv p1, of 0, folded s1_def]
  have lp1: "leaf_path s1 root va t3 t2 t1"
    using leaf_path_write(3) [OF lp inv, of t1 "lvl_index 1 va" s1 0] leaf_path_distinct [OF lp inv] by (auto simp: s1_def)
  have inv1: "pg_inv s1 root" using sl(1) by (simp add: pg_frame_def)
  note d = leaf_path_distinct [OF lp inv]
  have clear: "\<not> bit (entry_get s1 (t1, lvl_index 1 va)) 0" using d by (simp add: s1_def entry_get_def entry_set_def pt_get_set)
  from reclaim_result [OF inv1 lp1 clear] s' have k: "pg_keep root s1 s'"
    and freed: "free_page_stack (pg_pmm s') = free_page_stack (pg_pmm s1) @ emptied_tables (pg_mem s1) va t1 t2 t3" by simp_all
  have "emptied_tables (pg_mem s1) va t1 t2 t3 = emptied_tables (pg_mem s) va t1 t2 t3" "pg_pmm s1 = pg_pmm s"
    using d by (simp_all add: s1_def entry_set_def emptied_tables_def lvl_index_eqs only_entry_set)
  with freed lp c(6) have "\<exists>t3 t2 t1. leaf_path s root va t3 t2 t1 \<and> bit (entry_get s (t1, lvl_index 1 va)) 0 \<and>
      free_page_stack (pg_pmm s') = free_page_stack (pg_pmm s) @ emptied_tables (pg_mem s) va t1 t2 t3" by auto
  moreover have "pg_frame root s s'" using k sl(1) by (auto simp: pg_keep_def intro: pg_frame_trans)
  moreover have "pt_trans 4 (pg_mem s') root va' = (if page_number va' = page_number va then None else pt_trans 4 (pg_mem s) root va')" for va'
    using k sl(2) [of va'] by (simp add: pg_keep_def same_prefix_page)
  moreover have "pt_trans 4 (pg_mem s) root va = Some (phys OR (va AND 0xfff))"
    using on_path_trans [OF p1, of va] c(6)
    by (simp add: same_prefix_def pt_trans_Suc child_trans_def is_leaf_def entry_get_def leaf_phys_def huge_base_def huge_off_def phys)
  ultimately show ?thesis by (simp add: Some)
qed

section \<open>Mapping\<close>

lemma on_path_leaf_path:
  assumes "on_path 4 (pg_mem s) root va (Suc 0) t" and "pg_inv s root"
  shows "\<exists>t3 t2. leaf_path s root va t3 t2 t"
proof -
  have wf: "pt_wf (Suc 3) (pg_mem s) root" using assms(2) by (simp add: pg_inv_def)
  have "on_path (Suc 3) (pg_mem s) root va (Suc 0) t" using assms(1) by simp
  note s4 = on_path_step [OF this _ wf]
  let ?t3 = "pt_get (pg_mem s) root (lvl_index (Suc 3) va) AND PAGING_ADDR_MASK"
  have "on_path (Suc 2) (pg_mem s) ?t3 va (Suc 0) t" "pt_wf (Suc 2) (pg_mem s) ?t3" using s4 by simp_all
  note s3 = on_path_step [OF this(1) _ this(2)]
  let ?t2 = "pt_get (pg_mem s) ?t3 (lvl_index (Suc 2) va) AND PAGING_ADDR_MASK"
  have "on_path (Suc 1) (pg_mem s) ?t2 va (Suc 0) t" "pt_wf (Suc 1) (pg_mem s) ?t2" using s3 by (simp_all add: numeral_2_eq_2)
  note s2 = on_path_step [OF this(1) _ this(2)]
  have "leaf_path s root va ?t3 ?t2 t"
    using s4 s3 s2 by (simp add: leaf_path_def Let_def entry_get_def numeral_2_eq_2 [symmetric])
  then show ?thesis by blast
qed

lemma leaf_path_walk:
  assumes lp: "leaf_path s root va t3 t2 t1" and inv: "pg_inv s root" and e: "bit (entry_get s (t1, lvl_index 1 va)) 0"
  shows "paging_walk_in_root (pg_mem s) root va =
     Some \<lparr>wi_pml4_phys = root, wi_pdpt_phys = t3, wi_pd_phys = t2, wi_pt_phys = t1,
       wi_pml4e = entry_get s (root, lvl_index 4 va), wi_pdpte = entry_get s (t3, lvl_index 3 va),
       wi_pde = entry_get s (t2, lvl_index 2 va), wi_pte = entry_get s (t1, lvl_index 1 va),
       wi_phys_addr = (entry_get s (t1, lvl_index 1 va) AND PAGING_ADDR_MASK) OR (va AND 0xfff),
       wi_flags = effective_flags [entry_get s (root, lvl_index 4 va), entry_get s (t3, lvl_index 3 va),
          entry_get s (t2, lvl_index 2 va), entry_get s (t1, lvl_index 1 va)]\<rparr>"
proof -
  have wf: "pt_wf 4 (pg_mem s) root" using inv by (simp add: pg_inv_def)
  from path_tab [of 4 "pg_mem s" root va 3 root] path_root wf
  have rt: "root \<in> pt_tabs 4 (pg_mem s) root" "masked root" by simp_all
  note r0 = inv_tab_facts(4) [OF inv rt(1)]
  show ?thesis
    using lp e r0 rt(2) unfolding paging_walk_in_root_def Let_def lvl_index_eqs flag_iff leaf_path_def entry_get_def masked_def
    by simp
qed

lemma leaf_flags_bits: "bit (leaf_flags s us w x) 0" "leaf_flags s us w x AND PAGING_ADDR_MASK = 0"
  by (simp_all add: leaf_flags_def paging_flag_defs PAGING_ADDR_MASK_def)

lemma leaf_entry:
  assumes "e = (phys AND PAGING_ADDR_MASK) OR leaf_flags s us w x"
  shows "bit e 0" "e AND PAGING_ADDR_MASK = phys AND PAGING_ADDR_MASK"
    "leaf_phys 1 e va = (phys AND PAGING_ADDR_MASK) OR (va AND 0xfff)"
proof -
  show "bit e 0" using leaf_flags_bits(1) by (simp add: assms bit_or_iff)
  show m: "e AND PAGING_ADDR_MASK = phys AND PAGING_ADDR_MASK"
    by (simp add: assms bit.conj_disj_distrib2 leaf_flags_bits and.assoc)
  show "leaf_phys 1 e va = (phys AND PAGING_ADDR_MASK) OR (va AND 0xfff)"
    by (simp add: leaf_phys_def huge_base_def huge_off_def m)
qed

lemma map_page_result:
  assumes inv: "pg_inv s root" and root: "root = paging_get_current_cr3 s"
    and w: "paging_map_page_with_exec s va phys us wr x = (ok, s')"
  shows "pg_frame root s s' \<and>
    (if ok then pt_trans 4 (pg_mem s) root va = None \<and>
        (\<exists>info. paging_walk_in_root (pg_mem s') root va = Some info \<and>
           wi_pte info = (phys AND PAGING_ADDR_MASK) OR leaf_flags s us wr x) \<and>
        (\<forall>va'. pt_trans 4 (pg_mem s') root va' =
          (if page_number va' = page_number va then Some ((phys AND PAGING_ADDR_MASK) OR (va' AND 0xfff))
           else pt_trans 4 (pg_mem s) root va'))
     else (\<forall>va'. pt_trans 4 (pg_mem s') root va' = pt_trans 4 (pg_mem s) root va') \<and>
       (paging_is_kernel_guard_page s va \<or> \<not> paging_validate_page_address va \<or> \<not> paging_is_page_aligned phys \<or>
        pt_trans 4 (pg_mem s) root va \<noteq> None \<or> free_page_count (pg_pmm s) \<le> 2))"
proof (cases "paging_is_kernel_guard_page s va \<or> \<not> paging_validate_page_address va \<or> \<not> paging_is_page_aligned phys")
  case True
  with w inv show ?thesis by (auto simp: paging_map_page_with_exec_def pg_frame_refl)
next
  case False
  obtain r s1 where wk: "paging_walk_to_pte_in_root s root va True True = (r, s1)" by fastforce
  note wr = conjunct1 [OF walk_create [OF inv wk], unfolded walk_result_def]
  then have k: "pg_frame root s s1" "\<And>va'. pt_trans 4 (pg_mem s1) root va' = pt_trans 4 (pg_mem s) root va'"
    "pg_inv s1 root" by (simp_all add: pg_keep_def pg_frame_def)
  show ?thesis
  proof (cases r)
    case None
    with conjunct2 [OF walk_create [OF inv wk]] False obtain y z where "free_set s \<subseteq> {y, z}" by blast
    then have "card (free_set s) \<le> card {y, z}" by (intro card_mono) simp_all
    also have "\<dots> \<le> 2" by (simp add: card_insert_if)
    finally have "free_page_count (pg_pmm s) \<le> 2"
      using pmm_invD(2) [of "pg_pmm s"] inv by (simp add: free_page_count_def distinct_card pg_inv_def)
    with None False w wk k show ?thesis by (auto simp: paging_map_page_with_exec_def paging_walk_to_pte_def root)
  next
    case (Some e)
    with wr obtain t where e: "e = (t, lvl_index 1 va)" and p: "on_path 4 (pg_mem s1) root va (Suc 0) t" by blast
    show ?thesis
    proof (cases "bit (entry_get s1 e) 0")
      case True
      then have "pt_trans 4 (pg_mem s1) root va \<noteq> None"
        using on_path_trans [OF p, of va] e
        by (simp add: same_prefix_def pt_trans_Suc child_trans_def entry_get_def is_leaf_def)
      with True False w wk k Some show ?thesis
        by (auto simp: paging_map_page_with_exec_def paging_walk_to_pte_def root flag_iff)
    next
      case absent: False
      define v where "v = (phys AND PAGING_ADDR_MASK) OR leaf_flags s1 us wr x"
      have nx: "leaf_flags s1 us wr x = leaf_flags s us wr x"
        using k(1) by (simp add: pg_frame_def paging_config_def leaf_flags_def)
      have s': "ok" "s' = entry_set s1 (t, lvl_index 1 va) v"
        using False w wk Some absent e by (auto simp: paging_map_page_with_exec_def paging_walk_to_pte_def root flag_iff v_def)
      note sl = set_leaf_frame [OF k(3) p, of v, folded s'(2)] and le = leaf_entry [OF v_def]
      have "pt_trans 4 (pg_mem s1) root va = None"
        using on_path_trans [OF p, of va] absent e
        by (simp add: same_prefix_def pt_trans_Suc child_trans_def entry_get_def)
      moreover have fr: "pg_frame root s s'" using k(1) sl(1) by (rule pg_frame_trans)
      moreover have "pt_trans 4 (pg_mem s') root va' =
          (if page_number va' = page_number va then Some ((phys AND PAGING_ADDR_MASK) OR (va' AND 0xfff))
           else pt_trans 4 (pg_mem s) root va')" for va'
        using sl(2) [of va'] k(2) le by (simp add: same_prefix_page)
      moreover have "\<exists>info. paging_walk_in_root (pg_mem s') root va = Some info \<and> wi_pte info = v"
      proof -
        from fr have inv': "pg_inv s' root" by (simp add: pg_frame_def)
        from on_path_leaf_path [OF sl(3) inv'] obtain t3 t2 where lp: "leaf_path s' root va t3 t2 t" by blast
        from leaf_path_distinct [OF lp inv'] have "entry_get s' (t, lvl_index 1 va) = v" by (simp add: s'(2) entry_get_set)
        with leaf_path_walk [OF lp inv'] le(1) show ?thesis by simp
      qed
      ultimately show ?thesis using s'(1) k(2) nx by (simp add: v_def)
    qed
  qed
qed

end
