(* ===== verification/Paging_Rights.thy ===== *)
theory Paging_Rights
  imports Paging_Map
begin

text \<open>
  The entries that a walk reads, from the root down. The rights of a page are a function of
  this list, so the lemmas here say which changes of the tables leave the rights of an
  address alone.
\<close>

primrec pt_walk :: "nat \<Rightarrow> phys_memory \<Rightarrow> u64 \<Rightarrow> u64 \<Rightarrow> u64 list" where
  "pt_walk 0 m t va = []"
| "pt_walk (Suc l) m t va =
     (let e = pt_get m t (lvl_index (Suc l) va) in
      e # (if bit e 0 \<and> \<not> is_leaf (Suc l) e then pt_walk l m (e AND PAGING_ADDR_MASK) va else []))"

lemma pt_walk_flags:
  assumes "root \<noteq> 0"
  shows "map_option wi_flags (paging_walk_in_root m root va) =
     (let es = pt_walk 4 m (root AND PAGING_ADDR_MASK) va in if bit (last es) 0 then Some (effective_flags es) else None)"
  using assms
  by (simp add: paging_walk_in_root_def Let_def lvl_index_eqs flag_iff is_leaf_def eval_nat_numeral)

section \<open>Changes outside the tables\<close>

lemma pt_walk_same:
  assumes "same_outside P m m'" and "P \<inter> pt_tabs l m t = {}" and "masked t"
  shows "pt_walk l m' t va = pt_walk l m t va"
  using assms(2,3)
proof (induction l arbitrary: t)
  case (Suc l)
  let ?e = "pt_get m t (lvl_index (Suc l) va)"
  have t: "t \<notin> P" using Suc.prems(1) by (auto simp: pt_simps)
  have get: "pt_get m' t (lvl_index (Suc l) va) = ?e"
    using t Suc.prems(2) by (intro pt_get_same [OF assms(1)]) auto
  have "pt_walk l m' (?e AND PAGING_ADDR_MASK) va = pt_walk l m (?e AND PAGING_ADDR_MASK) va" if "bit ?e 0" "\<not> is_leaf (Suc l) ?e"
  proof (rule Suc.IH)
    have "child_tabs l m ?e \<subseteq> pt_tabs (Suc l) m t" unfolding pt_tabs_Suc using lvl_index_less by blast
    with that Suc.prems(1) show "P \<inter> pt_tabs l m (?e AND PAGING_ADDR_MASK) = {}" by (auto simp: child_tabs_def)
  qed simp
  then show ?case by (simp add: Let_def get)
qed simp

section \<open>Changing one entry\<close>

text \<open>An entry that is not on the path of an address does not matter to its walk.\<close>

lemma pt_walk_edit:
  assumes "on_path l m t va (Suc k) u" and "pt_wf l m t" and "same_outside {u} m m'"
    and "\<And>j. j < 512 \<Longrightarrow> j \<noteq> lvl_index (Suc k) va \<Longrightarrow> pt_get m' u j = pt_get m u j"
    and "\<not> same_prefix l k va va'"
  shows "pt_walk l m' t va' = pt_walk l m t va'"
  using assms(1,2,5)
proof (induction l arbitrary: t)
  case (Suc l)
  let ?i = "lvl_index (Suc l) va" and ?j = "lvl_index (Suc l) va'"
  let ?e = "pt_get m t ?j"
  note w = Suc.prems(2) [unfolded pt_wf_Suc]
  have child: "pt_walk l m' (?e AND PAGING_ADDR_MASK) va' = pt_walk l m (?e AND PAGING_ADDR_MASK) va'"
    if "bit ?e 0" "\<not> is_leaf (Suc l) ?e" "u \<notin> child_tabs l m ?e"
    by (rule pt_walk_same [OF assms(3)]) (use that in \<open>auto simp: child_tabs_def\<close>)
  show ?case
  proof (cases "k = l")
    case True
    with Suc.prems have u: "u = t" and "?j \<noteq> ?i" by (auto simp: same_prefix_Suc)
    with assms(4) [of ?j] True have "pt_get m' t ?j = ?e" by simp
    moreover have "u \<notin> child_tabs l m ?e" using w u by simp
    ultimately show ?thesis using child by (auto simp: Let_def)
  next
    case False
    note step = on_path_step [OF Suc.prems(1) _ Suc.prems(2)]
    have step: "on_path l m (pt_get m t ?i AND PAGING_ADDR_MASK) va (Suc k) u"
      "pt_wf l m (pt_get m t ?i AND PAGING_ADDR_MASK)"
      "child_tabs l m (pt_get m t ?i) = pt_tabs l m (pt_get m t ?i AND PAGING_ADDR_MASK)"
      by (rule step; use False in simp)+
    have "u \<in> pt_tabs l m (pt_get m t ?i AND PAGING_ADDR_MASK)" by (rule path_tab(1) [OF step(1,2)])
    then have uc: "u \<in> child_tabs l m (pt_get m t ?i)" by (simp add: step(3))
    then have ut: "u \<noteq> t" using w lvl_index_less by blast
    have get: "pt_get m' t ?j = ?e"
      by (rule pt_get_same [OF assms(3)]) (use ut w in auto)
    have kl: "k \<le> l" using on_path_level [OF Suc.prems(1)] by simp
    show ?thesis
    proof (cases "?j = ?i")
      case True
      with Suc.prems(3) kl have "\<not> same_prefix l k va va'" by (simp add: same_prefix_Suc)
      from Suc.IH [OF step(1,2) this] True get show ?thesis by (simp add: Let_def)
    next
      case False
      then have "u \<notin> child_tabs l m ?e" using w uc lvl_index_less by blast
      with child get show ?thesis by (auto simp: Let_def)
    qed
  qed
qed simp

lemma leaf_write_walk:
  assumes lp: "leaf_path s root va t3 t2 t1" and inv: "pg_inv s root" and "page_number va' \<noteq> page_number va"
  shows "pt_walk 4 (pg_mem (entry_set s (t1, lvl_index 1 va) e)) root va' = pt_walk 4 (pg_mem s) root va'"
proof (rule pt_walk_edit)
  show "on_path 4 (pg_mem s) root va (Suc 0) t1" using leaf_path_on_path(3) [OF lp] by simp
  show "pt_wf 4 (pg_mem s) root" using inv by (simp add: pg_inv_def)
  note d = leaf_path_distinct [OF lp inv]
  then show "same_outside {t1} (pg_mem s) (pg_mem (entry_set s (t1, lvl_index 1 va) e))"
    by (simp add: same_outside_set)
  show "pt_get (pg_mem (entry_set s (t1, lvl_index 1 va) e)) t1 j = pt_get (pg_mem s) t1 j"
    if "j < 512" "j \<noteq> lvl_index (Suc 0) va" for j
    using that d by (simp add: pt_get_set)
  show "\<not> same_prefix 4 0 va va'" using assms(3) by (simp add: same_prefix_page)
qed

end
