(* ===== verification/Paging_Cow.thy ===== *)
theory Paging_Cow
  imports Paging_Rights
begin

text \<open>
  Copy on write: \<^verbatim>\<open>paging_resolve_cow_fault\<close> gives the faulting address a frame of its own with
  the same contents, and drops one reference of the shared frame.
\<close>

section \<open>The walk without creation\<close>

lemma ensure_lookup:
  "walk_ensure_table False us f e s = (if bit (entry_get s e) 0 then WalkOk 0 s else WalkAbsent)"
  by (simp add: walk_ensure_table_def flag_iff)

lemma split_lookup:
  "walk_split_pdpt False us e s = (if bit (entry_get s e) 7 then WalkAbsent else WalkOk 0 s)"
  "walk_split_pd False us e s = (if bit (entry_get s e) 7 then WalkAbsent else WalkOk 0 s)"
  by (simp_all add: walk_split_pdpt_def walk_split_pd_def flag_iff)

lemma root_facts:
  assumes "pg_inv s root"
  shows "root \<noteq> 0" "masked root" "root AND PAGING_ADDR_MASK = root" "root \<in> pt_tabs 4 (pg_mem s) root"
    "bit (entry_get s (root, lvl_index 4 va)) 0 \<Longrightarrow> \<not> bit (entry_get s (root, lvl_index 4 va)) 7"
proof -
  have wf: "pt_wf 4 (pg_mem s) root" using assms by (simp add: pg_inv_def)
  from path_tab [of 4 "pg_mem s" root 0 3 root] path_root wf
  show rt: "root \<in> pt_tabs 4 (pg_mem s) root" "masked root" by simp_all
  then show "root AND PAGING_ADDR_MASK = root" by (simp add: masked_def)
  show "root \<noteq> 0" by (rule inv_tab_facts(4) [OF assms rt(1)])
  have "pt_wf (Suc 3) (pg_mem s) root" using wf by simp
  then have "child_wf 3 (pg_mem s) (entry_get s (root, lvl_index 4 va))" unfolding pt_wf_Suc entry_get_def by simp
  then show "\<not> bit (entry_get s (root, lvl_index 4 va)) 7" if "bit (entry_get s (root, lvl_index 4 va)) 0"
    using that by (simp add: child_wf_def is_leaf_def)
qed

lemma walk_lookup:
  assumes inv: "pg_inv s root" and w: "paging_walk_to_pte_in_root s root va False us = (r, s')"
  shows "s' = s" "r = Some e \<Longrightarrow> \<exists>t3 t2 t1. leaf_path s root va t3 t2 t1 \<and> e = (t1, lvl_index 1 va)"
proof -
  note rf = root_facts [OF inv]
  define t3 where "t3 = entry_get s (root, lvl_index 4 va) AND PAGING_ADDR_MASK"
  define t2 where "t2 = entry_get s (t3, lvl_index 3 va) AND PAGING_ADDR_MASK"
  define t1 where "t1 = entry_get s (t2, lvl_index 2 va) AND PAGING_ADDR_MASK"
  note w = w [unfolded paging_walk_to_pte_in_root_def walk_from_pdpt_def walk_from_pd_def Let_def rf(3) lvl_index_eqs
      ensure_lookup split_lookup t3_def [symmetric]]
  from w show "s' = s" by (auto split: if_splits)
  show "\<exists>t3 t2 t1. leaf_path s root va t3 t2 t1 \<and> e = (t1, lvl_index 1 va)" if "r = Some e"
  proof -
    have "leaf_path s root va t3 t2 t1" "e = (t1, lvl_index 1 va)"
      using w that rf(5) [of va]
      by (auto simp: leaf_path_def Let_def t3_def [symmetric] t2_def [symmetric] t1_def [symmetric] split: if_splits)
    then show ?thesis by blast
  qed
qed

section \<open>Resolving a fault\<close>

lemma masked_page:
  "lvl_index l (va AND PAGING_ADDR_MASK) = lvl_index l va" if "l \<in> {1, 2, 3, 4}"
proof -
  have "bit (va AND PAGING_ADDR_MASK) (lvl_shift l + n) \<longleftrightarrow> bit va (lvl_shift l + n)" if "n < 9" for n
    using that \<open>l \<in> {1, 2, 3, 4}\<close> by (auto simp: bit_and_iff bit_addr_mask lvl_shift_def)
  then show ?thesis by (simp add: lvl_index_eq_iff)
qed

lemma leaf_path_masked: "leaf_path s root (va AND PAGING_ADDR_MASK) t3 t2 t1 \<longleftrightarrow> leaf_path s root va t3 t2 t1"
  by (simp add: leaf_path_def masked_page)

lemma leaf_path_trans:
  assumes lp: "leaf_path s root va t3 t2 t1" and inv: "pg_inv s root" and "page_number va' = page_number va"
  shows "pt_trans 4 (pg_mem s) root va' =
    (if bit (entry_get s (t1, lvl_index 1 va)) 0 then Some ((entry_get s (t1, lvl_index 1 va) AND PAGING_ADDR_MASK) OR (va' AND 0xfff))
     else None)"
proof -
  from leaf_path_on_path(3) [OF lp] have p1: "on_path 4 (pg_mem s) root va 1 t1" .
  from assms(3) have "same_prefix 4 0 va va'" by (simp add: same_prefix_page)
  then have "same_prefix 4 1 va va'" "lvl_index 1 va' = lvl_index 1 va"
    using same_prefix_step [of 0 4 va va'] by simp_all
  with on_path_trans [OF p1] show ?thesis
    using pt_trans_Suc [of 0 "pg_mem s" t1 va']
    by (simp add: child_trans_def is_leaf_def entry_get_def leaf_phys_def huge_base_def huge_off_def)
qed

text \<open>Writing the entry of a mapped page.\<close>

lemma leaf_write:
  assumes lp: "leaf_path s root va t3 t2 t1" and inv: "pg_inv s root" and e: "bit e 0"
  defines "s' \<equiv> entry_set s (t1, lvl_index 1 va) e"
  shows "pg_frame root s s'" "leaf_path s' root va t3 t2 t1" "entry_get s' (t1, lvl_index 1 va) = e"
    "pt_trans 4 (pg_mem s') root va' =
      (if page_number va' = page_number va then Some ((e AND PAGING_ADDR_MASK) OR (va' AND 0xfff)) else pt_trans 4 (pg_mem s) root va')"
proof -
  from leaf_path_on_path(3) [OF lp] have p1: "on_path 4 (pg_mem s) root va (Suc 0) t1" by simp
  note sl = set_leaf_frame [OF inv p1, of e, folded s'_def] and d = leaf_path_distinct [OF lp inv]
  show "pg_frame root s s'" by (fact sl)
  show "leaf_path s' root va t3 t2 t1"
    using leaf_path_write(3) [OF lp inv, of t1 "lvl_index 1 va" s' e] d by (auto simp: s'_def)
  show "entry_get s' (t1, lvl_index 1 va) = e" using d by (simp add: s'_def entry_get_set)
  show "pt_trans 4 (pg_mem s') root va' =
      (if page_number va' = page_number va then Some ((e AND PAGING_ADDR_MASK) OR (va' AND 0xfff)) else pt_trans 4 (pg_mem s) root va')"
    using sl(2) [of va'] e by (simp add: same_prefix_page leaf_phys_def huge_base_def huge_off_def)
qed

text \<open>A frame taken from the allocator for data, and a frame given back: the tables stay as they are.\<close>

lemma take_frame:
  assumes inv: "pg_inv s root" and al: "pmm_alloc_page (pg_pmm s) = (n, pm)" "n \<noteq> 0"
    and out: "same_outside {n} (pg_mem s) m1"
  defines "s1 \<equiv> s\<lparr>pg_pmm := pm, pg_mem := m1\<rparr>"
  shows "pg_inv s1 root" "pt_tabs 4 m1 root = pt_tabs 4 (pg_mem s) root" "pt_trans 4 m1 root = pt_trans 4 (pg_mem s) root"
    "n \<in> free_set s" "n \<notin> pt_tabs 4 (pg_mem s) root" "masked n"
    "page_lookup pm = (page_lookup (pg_pmm s))(n \<mapsto> (PMM_PAGE_ALLOCATED, 1))"
    "pt_walk 4 m1 root va = pt_walk 4 (pg_mem s) root va"
    "\<And>t i. t \<in> pt_tabs 4 (pg_mem s) root \<Longrightarrow> i < 512 \<Longrightarrow> entry_get s1 (t, i) = entry_get s (t, i)"
proof -
  from inv have pi: "pmm_inv (pg_pmm s)" and wf: "pt_wf 4 (pg_mem s) root" by (simp_all add: pg_inv_def)
  from pmm_alloc_page_took [OF pi al(1)] al(2)
  have n: "n \<in> free_set s" and took: "pmm_took (pg_pmm s) [n] PMM_PAGE_ALLOCATED pm" by auto
  then show "n \<in> free_set s" by simp
  show nt: "n \<notin> pt_tabs 4 (pg_mem s) root" using inv_tab_facts(1) [OF inv] n by blast
  from pmm_invD(4) [OF pi pmm_invD(3) [OF pi n]] show "masked n" by (rule pool_page_masked)
  from took show lk: "page_lookup pm = (page_lookup (pg_pmm s))(n \<mapsto> (PMM_PAGE_ALLOCATED, 1))"
    by (auto simp: pmm_took_def)
  have ts: "pt_tabs 4 m1 root = pt_tabs 4 (pg_mem s) root \<and> pt_trans 4 m1 root = pt_trans 4 (pg_mem s) root \<and>
      (pt_wf 4 m1 root \<longleftrightarrow> pt_wf 4 (pg_mem s) root)"
    by (rule tree_same [OF out]) (use nt root_facts(2) [OF inv] in auto)
  then show "pt_tabs 4 m1 root = pt_tabs 4 (pg_mem s) root" "pt_trans 4 m1 root = pt_trans 4 (pg_mem s) root" by simp_all
  show "pg_inv s1 root"
    using inv ts pmm_took_inv [OF pi took] nt by (auto simp: pg_inv_def s1_def lk)
  show "pt_walk 4 m1 root va = pt_walk 4 (pg_mem s) root va"
    by (rule pt_walk_same [OF out]) (use nt root_facts(2) [OF inv] in auto)
  show "entry_get s1 (t, i) = entry_get s (t, i)" if "t \<in> pt_tabs 4 (pg_mem s) root" "i < 512" for t i
    using pt_get_same [OF out, of t i] that nt inv_tab_facts(3) [OF inv that(1)]
    by (auto simp: s1_def entry_get_def)
qed

lemma drop_frame:
  assumes inv: "pg_inv s root" and "p \<notin> pt_tabs 4 (pg_mem s) root"
    and rel: "pmm_release_page (pg_pmm s) p = (ok, pm)"
  shows "pg_inv (s\<lparr>pg_pmm := pm\<rparr>) root"
    "ok \<Longrightarrow> \<exists>r. page_lookup (pg_pmm s) p = Some (PMM_PAGE_ALLOCATED, r) \<and>
       page_lookup pm = (page_lookup (pg_pmm s))(p \<mapsto> (if r = 1 then (PMM_PAGE_FREE, 0) else (PMM_PAGE_ALLOCATED, r - 1)))"
    "\<not> ok \<Longrightarrow> pm = pg_pmm s \<and> (\<forall>r. page_lookup (pg_pmm s) p \<noteq> Some (PMM_PAGE_ALLOCATED, r))"
proof -
  from inv have pi: "pmm_inv (pg_pmm s)" by (simp add: pg_inv_def)
  note sp = rel [unfolded pmm_release_page_spec [OF pi]] and ix = pmm_invD(1) [OF pi]
  have upd: "page_lookup (page_set (pg_pmm s) p st r) = (page_lookup (pg_pmm s))(p \<mapsto> (st, r))"
    if "page_lookup (pg_pmm s) p = Some (PMM_PAGE_ALLOCATED, r0)" "st \<noteq> PMM_PAGE_UNUSED" for st r r0
    by (rule page_lookup_page_set) (use that ix in auto)
  show r: "\<exists>r. page_lookup (pg_pmm s) p = Some (PMM_PAGE_ALLOCATED, r) \<and>
       page_lookup pm = (page_lookup (pg_pmm s))(p \<mapsto> (if r = 1 then (PMM_PAGE_FREE, 0) else (PMM_PAGE_ALLOCATED, r - 1)))" if ok
  proof -
    from sp that obtain r where r: "page_lookup (pg_pmm s) p = Some (PMM_PAGE_ALLOCATED, r)"
      by (auto split: option.splits pmm_page_state.splits)
    show ?thesis by (rule exI [of _ r]) (use sp r in \<open>auto simp: upd split: if_splits\<close>)
  qed
  show nr: "pm = pg_pmm s \<and> (\<forall>r. page_lookup (pg_pmm s) p \<noteq> Some (PMM_PAGE_ALLOCATED, r))" if "\<not> ok"
    using sp that by (auto split: option.splits pmm_page_state.splits if_splits)
  show "pg_inv (s\<lparr>pg_pmm := pm\<rparr>) root"
  proof (cases ok)
    case True
    then show ?thesis using inv r pmm_release_page_inv [OF pi rel] assms(2) by (auto simp: pg_inv_def)
  next
    case False
    with nr inv show ?thesis by (simp add: pg_inv_def)
  qed
qed

text \<open>The entry that a resolved fault leaves, and the reasons for refusing.\<close>

definition cow_entry :: "u64 \<Rightarrow> u64 \<Rightarrow> u64" where
  "cow_entry pte new = (pte AND NOT (PAGING_ADDR_MASK OR PAGING_FLAG_COW)) OR new OR PAGING_FLAG_RW"

lemma cow_entry_bits:
  assumes "masked new" and "bit pte 0"
  shows "bit (cow_entry pte new) 0" "cow_entry pte new AND PAGING_ADDR_MASK = new" "bit (cow_entry pte new) 1"
    "\<not> bit (cow_entry pte new) 9" "bit (cow_entry pte new) 2 \<longleftrightarrow> bit pte 2"
proof -
  have b: "bit (cow_entry pte new) n \<longleftrightarrow> n < 64 \<and> (bit pte n \<and> n \<noteq> 9 \<and> \<not> (12 \<le> n \<and> n < 52) \<or> bit new n \<or> n = 1)" for n
    by (auto simp: cow_entry_def bit_simps bit_addr_mask bit_paging_flags dest: bit_imp_le_length)
  have mb: "bit new n \<Longrightarrow> 12 \<le> n \<and> n < 52" for n using assms(1) by (simp add: masked_iff_bits)
  show "bit (cow_entry pte new) 0" "bit (cow_entry pte new) 1"
    "\<not> bit (cow_entry pte new) 9" "bit (cow_entry pte new) 2 \<longleftrightarrow> bit pte 2"
    using assms(2) mb [of 9] mb [of 2] by (auto simp: b)
  show "cow_entry pte new AND PAGING_ADDR_MASK = new"
    by (rule bit_word_eqI) (use mb in \<open>auto simp: bit_simps bit_addr_mask b\<close>)
qed

lemma cow_entry_same: "(pte OR PAGING_FLAG_RW) AND NOT PAGING_FLAG_COW = cow_entry pte (pte AND PAGING_ADDR_MASK)"
  by (rule bit_word_eqI) (auto simp: cow_entry_def bit_simps bit_addr_mask bit_paging_flags)

definition is_cow :: "u64 \<Rightarrow> bool" where
  "is_cow pte \<longleftrightarrow> bit pte 0 \<and> bit pte 2 \<and> bit pte 9"

lemma is_cow_iff:
  "pte AND (PAGING_FLAG_PRESENT OR PAGING_FLAG_USER OR PAGING_FLAG_COW) =
     PAGING_FLAG_PRESENT OR PAGING_FLAG_USER OR PAGING_FLAG_COW \<longleftrightarrow> is_cow pte"
  (is "?l = ?r \<longleftrightarrow> _")
proof
  assume eq: "?l = ?r"
  then have "bit ?l n \<longleftrightarrow> bit ?r n" for n by simp
  from this [of 0] this [of 2] this [of 9] show "is_cow pte" by (simp add: is_cow_def bit_simps bit_paging_flags)
next
  assume "is_cow pte"
  then show "?l = ?r" by (intro bit_word_eqI) (auto simp: is_cow_def bit_simps bit_paging_flags)
qed

text \<open>The frame that backs the faulting page afterwards.\<close>

definition cow_resolved :: "u64 \<Rightarrow> u64 \<Rightarrow> paging \<Rightarrow> u64 \<Rightarrow> u64 \<Rightarrow> u64 \<Rightarrow> paging \<Rightarrow> bool" where
  "cow_resolved root va s pte old new s' \<longleftrightarrow>
     pt_tabs 4 (pg_mem s') root = pt_tabs 4 (pg_mem s) root \<and> paging_config s' = paging_config s \<and>
     (\<exists>info. paging_walk_in_root (pg_mem s') root va = Some info \<and> wi_pte info = cow_entry pte new) \<and>
     (\<forall>va'. page_number va' \<noteq> page_number va \<longrightarrow> pt_walk 4 (pg_mem s') root va' = pt_walk 4 (pg_mem s) root va') \<and>
     (\<forall>va'. pt_trans 4 (pg_mem s') root va' =
        (if page_number va' = page_number va then Some (new OR (va' AND 0xfff)) else pt_trans 4 (pg_mem s) root va')) \<and>
     (\<forall>x. page_of x \<notin> pt_tabs 4 (pg_mem s) root \<longrightarrow>
        pg_mem s' x = (if page_of x = new then pg_mem s (old + (x - new)) else pg_mem s x))"

lemma cow_write:
  assumes lp: "leaf_path s root va t3 t2 t1" and inv: "pg_inv s root" and new: "masked new"
    and pte: "bit pte 0" "pte = entry_get s (t1, lvl_index 1 va)"
    and mem: "\<And>x. page_of x \<notin> pt_tabs 4 (pg_mem s) root \<Longrightarrow>
      pg_mem s x = (if page_of x = new then mo (old + (x - new)) else mo x)"
    and tree: "pt_trans 4 mo root = pt_trans 4 (pg_mem s) root" "pt_tabs 4 mo root = pt_tabs 4 (pg_mem s) root"
      "\<And>va'. pt_walk 4 mo root va' = pt_walk 4 (pg_mem s) root va'"
    and so: "pg_mem so = mo" "paging_config so = paging_config s"
  defines "s' \<equiv> entry_set s (t1, lvl_index 1 va) (cow_entry pte new)"
  shows "cow_resolved root va so pte old new s'" "pg_inv s' root" "pt_tabs 4 (pg_mem s') root = pt_tabs 4 (pg_mem s) root"
proof -
  note ce = cow_entry_bits [OF new pte(1)] and lw = leaf_write [OF lp inv cow_entry_bits(1) [OF new pte(1)], folded s'_def]
  note d = leaf_path_distinct [OF lp inv]
  from leaf_path_on_path(3) [OF lp] have p1: "on_path 4 (pg_mem s) root va (Suc 0) t1" by simp
  from inv have wf: "pt_wf 4 (pg_mem s) root" by (simp add: pg_inv_def)
  note t1 = path_tab(1) [OF p1 wf]
  from lw(1) show inv': "pg_inv s' root" by (simp add: pg_frame_def)
  have "pt_tabs 4 (pg_mem s') root \<inter> free_set s' = {}" "pt_tabs 4 (pg_mem s) root \<inter> free_set s = {}"
    using inv_tab_facts(1) [OF inv'] inv_tab_facts(1) [OF inv] by blast+
  with lw(1) show tabs: "pt_tabs 4 (pg_mem s') root = pt_tabs 4 (pg_mem s) root"
    by (auto simp: pg_frame_def pg_pages_def s'_def)
  have walk: "\<exists>info. paging_walk_in_root (pg_mem s') root va = Some info \<and> wi_pte info = cow_entry pte new"
    using leaf_path_walk [OF lw(2) inv'] lw(3) ce(1) by simp
  have same: "pg_mem s' x = pg_mem s x" if "page_of x \<notin> pt_tabs 4 (pg_mem s) root" for x
    using same_outside_set [of t1 "lvl_index 1 va" "pg_mem s" "cow_entry pte new"] d t1 that
    by (auto simp: same_outside_def s'_def)
  have other: "pt_walk 4 (pg_mem s') root va' = pt_walk 4 (pg_mem s) root va'" if "page_number va' \<noteq> page_number va" for va'
    unfolding s'_def by (rule leaf_write_walk [OF lp inv that])
  have conf: "paging_config s' = paging_config s" by (simp add: s'_def)
  show "cow_resolved root va so pte old new s'"
    unfolding cow_resolved_def so tree using walk lw(4) ce(2) same mem tabs other conf by simp
qed

lemma walk_lookup_None:
  assumes inv: "pg_inv s root" and w: "paging_walk_to_pte_in_root s root va False us = (None, s')"
    and valid: "paging_validate_page_address va" and i: "paging_walk_in_root (pg_mem s) root va = Some info"
  shows "wi_pte info = 0"
proof -
  note rf = root_facts [OF inv]
  note w = w [unfolded paging_walk_to_pte_in_root_def walk_from_pdpt_def walk_from_pd_def Let_def rf(3) lvl_index_eqs
      ensure_lookup split_lookup entry_get_def fst_conv snd_conv]
  note i = i [unfolded paging_walk_in_root_def Let_def rf(3) lvl_index_eqs flag_iff]
  from i w valid rf(1) show ?thesis by (auto simp: flag_iff split: if_splits)
qed

lemma walk_masked:
  "map_option wi_pte (paging_walk_in_root m root (va AND PAGING_ADDR_MASK)) = map_option wi_pte (paging_walk_in_root m root va)"
  by (simp add: paging_walk_in_root_def Let_def lvl_index_eqs masked_page)

text \<open>A refused fault: nothing but the contents of a free page can differ.\<close>

definition cow_refused :: "u64 \<Rightarrow> paging \<Rightarrow> paging \<Rightarrow> bool" where
  "cow_refused root s s' \<longleftrightarrow>
     paging_config s' = paging_config s \<and> pg_inv s' root \<and> pt_trans 4 (pg_mem s') root = pt_trans 4 (pg_mem s) root \<and>
     page_lookup (pg_pmm s') = page_lookup (pg_pmm s) \<and>
     (\<forall>x. page_of x \<notin> free_set s \<union> pt_tabs 4 (pg_mem s) root \<longrightarrow> pg_mem s' x = pg_mem s x)"

lemma cow_refused_refl: "pg_inv s root \<Longrightarrow> cow_refused root s s"
  by (simp add: cow_refused_def)

lemma page_copy_at:
  assumes "page_aligned n"
  shows "page_copy m n old x = (if page_of x = n then m (old + (x - n)) else m x)"
  using assms by (simp add: page_copy_def in_page_iff)

text \<open>The frame is shared: the copy, and what happens when the shared frame can not be dropped.\<close>

lemma cow_copy:
  fixes s root va pte n old
  assumes inv: "pg_inv s root" and lp: "leaf_path s root va t3 t2 t1" and pte: "pte = entry_get s (t1, lvl_index 1 va)" "bit pte 0"
    and old: "old = pte AND PAGING_ADDR_MASK" "pmm_ref_count (pg_pmm s) old = refs" "refs \<noteq> 0" "refs \<noteq> 1"
    and al: "pmm_alloc_page (pg_pmm s) = (n, pm)" "n \<noteq> 0"
  defines "s2 \<equiv> entry_set (s\<lparr>pg_pmm := pm, pg_mem := page_copy (pg_mem s) n old\<rparr>) (t1, lvl_index 1 va) (cow_entry pte n)"
  shows "pg_inv s2 root" "pt_tabs 4 (pg_mem s2) root = pt_tabs 4 (pg_mem s) root" "leaf_path s2 root va t3 t2 t1"
    "cow_resolved root va s pte old n s2" "n \<in> free_set s" "page_lookup (pg_pmm s) n = Some (PMM_PAGE_FREE, 0)"
    "page_lookup (pg_pmm s2) = (page_lookup (pg_pmm s))(n \<mapsto> (PMM_PAGE_ALLOCATED, 1))"
    "n \<noteq> old" "n \<notin> pt_tabs 4 (pg_mem s) root" "old \<notin> pt_tabs 4 (pg_mem s) root" "t1 \<in> pt_tabs 4 (pg_mem s) root"
    "page_lookup (pg_pmm s) old = Some (st, r) \<Longrightarrow> r = refs"
proof -
  let ?m1 = "page_copy (pg_mem s) n old"
  define s1 where "s1 = s\<lparr>pg_pmm := pm, pg_mem := ?m1\<rparr>"
  from inv have pi: "pmm_inv (pg_pmm s)" and wf: "pt_wf 4 (pg_mem s) root" by (simp_all add: pg_inv_def)
  from pmm_alloc_page_took [OF pi al(1)] al(2) show nf: "n \<in> free_set s" by auto
  then show n0: "page_lookup (pg_pmm s) n = Some (PMM_PAGE_FREE, 0)" by (rule pmm_invD(3) [OF pi])
  have na: "page_aligned n" using pmm_invD(4) [OF pi n0] by (simp add: page_in_pool_def)
  note tf = take_frame [OF inv al same_outside_copy [OF na, of "pg_mem s" old], folded s1_def]
  have olk: "r = refs" if "page_lookup (pg_pmm s) old = Some (st, r)" for st r
    using that old(1,2) pmm_ref_count_eq [OF pmm_invD(1) [OF pi], of old] by simp
  then show "page_lookup (pg_pmm s) old = Some (st, r) \<Longrightarrow> r = refs" .
  show "n \<noteq> old" using olk n0 old(3) by auto
  show "n \<notin> pt_tabs 4 (pg_mem s) root" by (fact tf(5))
  show "old \<notin> pt_tabs 4 (pg_mem s) root" using inv_tab_facts(5) [OF inv, of old] olk old(4) by auto
  note op = leaf_path_on_path [OF lp]
  from path_tab(1) [of 4 "pg_mem s" root va 2 t3] path_tab(1) [of 4 "pg_mem s" root va 1 t2]
    path_tab(1) [of 4 "pg_mem s" root va 0 t1] op wf
  have t: "t3 \<in> pt_tabs 4 (pg_mem s) root" "t2 \<in> pt_tabs 4 (pg_mem s) root" "t1 \<in> pt_tabs 4 (pg_mem s) root"
    by (simp_all add: eval_nat_numeral)
  then show "t1 \<in> pt_tabs 4 (pg_mem s) root" by simp
  from lp have lp1: "leaf_path s1 root va t3 t2 t1" using tf(9) t root_facts(4) [OF inv] by (simp add: leaf_path_def)
  have e1: "pte = entry_get s1 (t1, lvl_index 1 va)" using tf(9) t pte(1) by simp
  have m1: "pg_mem s1 = ?m1" by (simp add: s1_def)
  have s2: "s2 = entry_set s1 (t1, lvl_index 1 va) (cow_entry pte n)" by (simp add: s2_def s1_def)
  have mem: "pg_mem s1 x = (if page_of x = n then pg_mem s (old + (x - n)) else pg_mem s x)" for x
    by (simp add: m1 page_copy_at na)
  have conf: "paging_config s = paging_config s1" by (simp add: s1_def paging_config_def)
  note cw = cow_write [OF lp1 tf(1) tf(6) pte(2) e1 mem _ _ _ refl conf, folded s2, unfolded m1 tf(2,3,8), OF refl refl refl]
  show "cow_resolved root va s pte old n s2" "pg_inv s2 root" "pt_tabs 4 (pg_mem s2) root = pt_tabs 4 (pg_mem s) root"
    by (fact cw)+
  show "page_lookup (pg_pmm s2) = (page_lookup (pg_pmm s))(n \<mapsto> (PMM_PAGE_ALLOCATED, 1))" by (simp add: s2_def tf(7))
  show "leaf_path s2 root va t3 t2 t1"
    unfolding s2 by (rule leaf_write(2) [OF lp1 tf(1) cow_entry_bits(1) [OF tf(6) pte(2)]])
qed

lemma cow_copy_ok:
  fixes s root va pte n old
  assumes inv: "pg_inv s root" and lp: "leaf_path s root va t3 t2 t1" and pte: "pte = entry_get s (t1, lvl_index 1 va)" "bit pte 0"
    and old: "old = pte AND PAGING_ADDR_MASK" "pmm_ref_count (pg_pmm s) old = refs" "refs \<noteq> 0" "refs \<noteq> 1"
    and al: "pmm_alloc_page (pg_pmm s) = (n, pm)" "n \<noteq> 0"
  defines "s2 \<equiv> entry_set (s\<lparr>pg_pmm := pm, pg_mem := page_copy (pg_mem s) n old\<rparr>) (t1, lvl_index 1 va) (cow_entry pte n)"
  assumes rel: "pmm_release_page (pg_pmm s2) old = (True, pm2)"
  shows "pg_inv (s2\<lparr>pg_pmm := pm2\<rparr>) root"
    "page_lookup pm2 = (page_lookup (pg_pmm s))(n \<mapsto> (PMM_PAGE_ALLOCATED, 1), old \<mapsto> (PMM_PAGE_ALLOCATED, refs - 1))"
proof -
  note c = cow_copy [OF inv lp pte old al, folded s2_def]
  have "old \<notin> pt_tabs 4 (pg_mem s2) root" using c(10) by (simp only: c(2) simp_thms)
  note df = drop_frame [OF c(1) this rel]
  show "pg_inv (s2\<lparr>pg_pmm := pm2\<rparr>) root" by (fact df(1))
  from df(2) obtain r where r: "page_lookup (pg_pmm s2) old = Some (PMM_PAGE_ALLOCATED, r)"
    "page_lookup pm2 = (page_lookup (pg_pmm s2))(old \<mapsto> (if r = 1 then (PMM_PAGE_FREE, 0) else (PMM_PAGE_ALLOCATED, r - 1)))"
    by blast
  from r(1) c(8) have "r = refs" by (simp add: c(7) c(12))
  with r(2) old(4) show "page_lookup pm2 =
      (page_lookup (pg_pmm s))(n \<mapsto> (PMM_PAGE_ALLOCATED, 1), old \<mapsto> (PMM_PAGE_ALLOCATED, refs - 1))"
    by (simp add: c(7))
qed

lemma cow_copy_undo:
  fixes s root va pte n old
  assumes inv: "pg_inv s root" and lp: "leaf_path s root va t3 t2 t1" and pte: "pte = entry_get s (t1, lvl_index 1 va)" "bit pte 0"
    and old: "old = pte AND PAGING_ADDR_MASK" "pmm_ref_count (pg_pmm s) old = refs" "refs \<noteq> 0" "refs \<noteq> 1"
    and al: "pmm_alloc_page (pg_pmm s) = (n, pm)" "n \<noteq> 0"
  defines "s2 \<equiv> entry_set (s\<lparr>pg_pmm := pm, pg_mem := page_copy (pg_mem s) n old\<rparr>) (t1, lvl_index 1 va) (cow_entry pte n)"
  assumes rel: "pmm_release_page (pg_pmm s2) old = (False, pm2)"
  shows "cow_refused root s ((entry_set s2 (t1, lvl_index 1 va) pte)\<lparr>pg_pmm := snd (pmm_release_page pm2 n)\<rparr>)"
    "page_lookup (pg_pmm s) old \<noteq> Some (PMM_PAGE_ALLOCATED, r)"
proof -
  let ?s3 = "entry_set s2 (t1, lvl_index 1 va) pte"
  note c = cow_copy [OF inv lp pte old al, folded s2_def]
  have "old \<notin> pt_tabs 4 (pg_mem s2) root" using c(10) by (simp only: c(2) simp_thms)
  note df = drop_frame [OF c(1) this rel, simplified]
  then show "page_lookup (pg_pmm s) old \<noteq> Some (PMM_PAGE_ALLOCATED, r)" using c(8) by (simp add: c(7))
  note lw = leaf_write [OF c(3,1) pte(2)]
  from lw(1) have inv3: "pg_inv ?s3 root" by (simp add: pg_frame_def)
  have p3: "pg_pmm ?s3 = pg_pmm s2" by simp
  have "pt_tabs 4 (pg_mem ?s3) root \<inter> free_set ?s3 = {}" "pt_tabs 4 (pg_mem s2) root \<inter> free_set s2 = {}"
    using inv_tab_facts(1) [OF inv3] inv_tab_facts(1) [OF c(1)] by blast+
  with lw(1) have "pt_tabs 4 (pg_mem ?s3) root = pt_tabs 4 (pg_mem s) root"
    unfolding pg_frame_def pg_pages_def c(2) p3 by blast
  with c(9) have nt: "n \<notin> pt_tabs 4 (pg_mem ?s3) root" by simp
  obtain ok3 pm3 where r3: "pmm_release_page (pg_pmm s2) n = (ok3, pm3)" by (cases "pmm_release_page (pg_pmm s2) n") auto
  note df3 = drop_frame [OF inv3 nt r3 [folded p3], unfolded p3]
  have "ok3" using df3(3) c(7) by auto
  from df3(2) [OF this] c(6) have "page_lookup pm3 = page_lookup (pg_pmm s)" by (auto simp: c(7))
  moreover have "pt_trans 4 (pg_mem ?s3) root va' = pt_trans 4 (pg_mem s) root va'" for va'
    using lw(4) [of va'] c(4) leaf_path_trans [OF lp inv, of va'] pte old(1) by (simp add: cow_resolved_def)
  moreover have "pg_mem ?s3 x = pg_mem s x" if "page_of x \<notin> free_set s \<union> pt_tabs 4 (pg_mem s) root" for x
  proof -
    have "pg_mem ?s3 x = pg_mem s2 x"
      using same_outside_set [of t1 "lvl_index 1 va" "pg_mem s2" pte] leaf_path_distinct [OF lp inv] c(11) that
      by (auto simp: same_outside_def)
    with c(4,5) that show ?thesis by (auto simp: cow_resolved_def)
  qed
  ultimately show "cow_refused root s (?s3\<lparr>pg_pmm := snd (pmm_release_page pm2 n)\<rparr>)"
    using df3(1) df r3 by (auto simp: cow_refused_def fun_eq_iff s2_def paging_config_def entry_set_def)
qed

text \<open>The result of a fault, in every branch.\<close>

definition cow_private :: "paging \<Rightarrow> u64 \<Rightarrow> u64 \<Rightarrow> paging \<Rightarrow> bool" where
  "cow_private s old new s' \<longleftrightarrow>
     (let refs = pmm_ref_count (pg_pmm s) old in
      if refs = 1 then new = old \<and> pg_pmm s' = pg_pmm s
      else refs \<noteq> 0 \<and> new \<in> free_set s \<and> new \<noteq> old \<and>
        page_lookup (pg_pmm s') =
          (page_lookup (pg_pmm s))(new \<mapsto> (PMM_PAGE_ALLOCATED, 1), old \<mapsto> (PMM_PAGE_ALLOCATED, refs - 1)))"

lemma leaf_path_pte:
  assumes lp: "leaf_path s root va t3 t2 t1" and inv: "pg_inv s root"
    and i: "paging_walk_in_root (pg_mem s) root va = Some info"
  shows "wi_pte info = entry_get s (t1, lvl_index 1 va)"
  using i lp root_facts(1,3) [OF inv]
  by (auto simp: paging_walk_in_root_def Let_def lvl_index_eqs leaf_path_def entry_get_def flag_iff split: if_splits)

text \<open>The part of \<^verbatim>\<open>paging_resolve_cow_fault\<close> after its checks.\<close>

lemma cow_entry_result:
  assumes inv: "pg_inv s root" and lp: "leaf_path s root va t3 t2 t1"
    and pte: "pte = entry_get s (t1, lvl_index 1 va)" "is_cow pte" and old: "old = pte AND PAGING_ADDR_MASK"
    and w: "(if pmm_ref_count (pg_pmm s) old = 0 then (False, s)
      else if pmm_ref_count (pg_pmm s) old = 1 then (True, entry_set s (t1, lvl_index 1 va) (cow_entry pte old))
      else case pmm_alloc_page (pg_pmm s) of (new_phys, pm) \<Rightarrow>
        if new_phys = 0 then (False, s\<lparr>pg_pmm := pm\<rparr>)
        else (let s1 = s\<lparr>pg_pmm := pm, pg_mem := page_copy (pg_mem s) new_phys old\<rparr>;
                  s2 = entry_set s1 (t1, lvl_index 1 va) (cow_entry pte new_phys)
              in case pmm_release_page (pg_pmm s2) old of
                   (True, pm2) \<Rightarrow> (True, s2\<lparr>pg_pmm := pm2\<rparr>)
                 | (False, pm2) \<Rightarrow> (False, (entry_set s2 (t1, lvl_index 1 va) pte)\<lparr>pg_pmm := snd (pmm_release_page pm2 new_phys)\<rparr>)))
      = (ok, s')"
  shows "if ok then \<exists>new. pg_inv s' root \<and> cow_resolved root va s pte old new s' \<and> cow_private s old new s'
    else cow_refused root s s' \<and>
      (free_page_stack (pg_pmm s) = [] \<and> pmm_ref_count (pg_pmm s) old \<noteq> 1 \<or>
       (\<forall>r. page_lookup (pg_pmm s) old \<noteq> Some (PMM_PAGE_ALLOCATED, r)))"
proof -
  note rr = cow_refused_refl [OF inv]
  from inv have pi: "pmm_inv (pg_pmm s)" by (simp add: pg_inv_def)
  from pte(2) have b0: "bit pte 0" by (simp add: is_cow_def)
  have rc: "pmm_ref_count (pg_pmm s) old = r" if "page_lookup (pg_pmm s) old = Some (st, r)" for st r
    using that old pmm_ref_count_eq [OF pmm_invD(1) [OF pi], of old] by simp
  have cr: "cow_resolved root va s pte old n (s2\<lparr>pg_pmm := q\<rparr>) = cow_resolved root va s pte old n s2" for n s2 q
    by (simp add: cow_resolved_def paging_config_def)
  consider "pmm_ref_count (pg_pmm s) old = 0" | "pmm_ref_count (pg_pmm s) old = 1"
    | "pmm_ref_count (pg_pmm s) old \<noteq> 0" "pmm_ref_count (pg_pmm s) old \<noteq> 1" by blast
  then show ?thesis
  proof cases
    case 1
    with w rr show ?thesis using rc pmm_invD(5) [OF pi, of old] by auto
  next
    case 2
    have mo: "masked old" "\<And>x. pg_mem s x = (if page_of x = old then pg_mem s (old + (x - old)) else pg_mem s x)"
      using old by simp_all
    note cw = cow_write [OF lp inv mo(1) b0 pte(1) mo(2) refl refl refl refl refl]
    from w 2 have "ok" "s' = entry_set s (t1, lvl_index 1 va) (cow_entry pte old)" by auto
    with cw 2 show ?thesis by (auto simp: cow_private_def)
  next
    case 3
    obtain n pm where al: "pmm_alloc_page (pg_pmm s) = (n, pm)" by (cases "pmm_alloc_page (pg_pmm s)") auto
    show ?thesis
    proof (cases "n = 0")
      case True
      with pmm_alloc_page_took [OF pi al] stack_page_nonzero [OF pi] have "free_page_stack (pg_pmm s) = []" "pm = pg_pmm s" by auto
      with w 3 al True rr show ?thesis by auto
    next
      case False
      note hyps = inv lp pte(1) b0 old refl 3 al False
      define s2 where "s2 = entry_set (s\<lparr>pg_pmm := pm, pg_mem := page_copy (pg_mem s) n old\<rparr>) (t1, lvl_index 1 va) (cow_entry pte n)"
      note w = w [simplified 3 if_False al prod.case Let_def False, folded s2_def]
      note c = cow_copy [OF hyps, folded s2_def]
      obtain okr pm2 where rel: "pmm_release_page (pg_pmm s2) old = (okr, pm2)" by (cases "pmm_release_page (pg_pmm s2) old") auto
      show ?thesis
      proof (cases okr)
        case True
        with rel have rel1: "pmm_release_page (pg_pmm s2) old = (True, pm2)" by simp
        note k = cow_copy_ok [OF hyps, folded s2_def, OF rel1]
        from w rel True have "ok" "s' = s2\<lparr>pg_pmm := pm2\<rparr>" by simp_all
        with k c(4,5,8) 3 show ?thesis by (auto simp: cr cow_private_def)
      next
        case False
        with rel have rel0: "pmm_release_page (pg_pmm s2) old = (False, pm2)" by simp
        note k = cow_copy_undo [OF hyps, folded s2_def, OF rel0]
        from w rel False have "\<not> ok"
          "s' = (entry_set s2 (t1, lvl_index 1 va) pte)\<lparr>pg_pmm := snd (pmm_release_page pm2 n)\<rparr>" by simp_all
        with k show ?thesis by simp
      qed
    qed
  qed
qed

lemma cow_fault_result:
  assumes inv: "pg_inv s root" and w: "paging_resolve_cow_fault s root va err = (ok, s')"
  shows "if ok then err AND 7 = 7 \<and>
      (\<exists>info new. paging_walk_in_root (pg_mem s) root va = Some info \<and> is_cow (wi_pte info) \<and> pg_inv s' root \<and>
         cow_resolved root va s (wi_pte info) (wi_pte info AND PAGING_ADDR_MASK) new s' \<and>
         cow_private s (wi_pte info AND PAGING_ADDR_MASK) new s')
    else cow_refused root s s' \<and>
      (err AND 7 \<noteq> 7 \<or> \<not> paging_validate_page_address (va AND PAGING_ADDR_MASK) \<or>
       (\<forall>info. paging_walk_in_root (pg_mem s) root va = Some info \<longrightarrow> is_cow (wi_pte info) \<longrightarrow>
          free_page_stack (pg_pmm s) = [] \<and> pmm_ref_count (pg_pmm s) (wi_pte info AND PAGING_ADDR_MASK) \<noteq> 1 \<or>
          (\<forall>r. page_lookup (pg_pmm s) (wi_pte info AND PAGING_ADDR_MASK) \<noteq> Some (PMM_PAGE_ALLOCATED, r))))"
proof (cases "err AND 7 = 7")
  case False
  with w cow_refused_refl [OF inv] show ?thesis by (auto simp: paging_resolve_cow_fault_def)
next
  case err: True
  obtain r sw where walk: "paging_walk_to_pte_in_root s root (va AND PAGING_ADDR_MASK) False True = (r, sw)"
    by (cases "paging_walk_to_pte_in_root s root (va AND PAGING_ADDR_MASK) False True") auto
  note wl = walk_lookup [OF inv walk]
  note w = w [unfolded paging_resolve_cow_fault_def walk wl(1) err simp_thms if_False prod.case]
  show ?thesis
  proof (cases r)
    case None
    have "\<not> is_cow (wi_pte info)" if "paging_validate_page_address (va AND PAGING_ADDR_MASK)"
      "paging_walk_in_root (pg_mem s) root va = Some info" for info
      using walk_lookup_None [OF inv walk [unfolded None] that(1)] walk_masked [of "pg_mem s" root va] that(2)
      by (auto simp: is_cow_def)
    with w None cow_refused_refl [OF inv] show ?thesis by auto
  next
    case (Some e)
    from wl(2) [OF Some] obtain t3 t2 t1 where lp: "leaf_path s root va t3 t2 t1" and e: "e = (t1, lvl_index 1 va)"
      by (auto simp: leaf_path_masked masked_page)
    define pte where "pte = entry_get s (t1, lvl_index 1 va)"
    note w = w [unfolded Some e option.case prod.case Let_def is_cow_iff, folded pte_def]
    show ?thesis
    proof (cases "is_cow pte")
      case False
      with w cow_refused_refl [OF inv] leaf_path_pte [OF lp inv, folded pte_def] show ?thesis by auto
    next
      case True
      then have "bit (entry_get s (t1, lvl_index 1 va)) 0" by (simp add: is_cow_def pte_def)
      from leaf_path_walk [OF lp inv this] obtain info where
        i: "paging_walk_in_root (pg_mem s) root va = Some info" "wi_pte info = pte" by (simp add: pte_def)
      have new: "(pte AND NOT (PAGING_ADDR_MASK OR PAGING_FLAG_COW)) OR n OR PAGING_FLAG_RW = cow_entry pte n" for n
        by (simp add: cow_entry_def)
      note w' = w [unfolded cow_entry_same new eqTrueI [OF True] not_True_eq_False if_False]
      from cow_entry_result [OF inv lp pte_def True refl, unfolded Let_def, OF w'] err i True show ?thesis by auto
    qed
  qed
qed

end
