(* ===== verification/Vmm.thy ===== *)
theory Vmm
  imports Paging_Boot Paging_Cow
begin

text \<open>
  The virtual memory interface of \<^verbatim>\<open>kernel/mem/vmm.c\<close> over the page tables: mapping, queries,
  the permission checks on user ranges, and the copies between kernel buffers and user
  memory, which go page by page through the direct map. The \<^verbatim>\<open>hal_paging\<close> calls are those of
  \<^verbatim>\<open>hal/x86/paging.c\<close>, which forward to \<^verbatim>\<open>paging.c\<close>.
\<close>

section \<open>Constants and ranges\<close>

definition VMM_USER_MIN :: u64 where "VMM_USER_MIN = 0x1000"
definition VMM_USER_MAX :: u64 where "VMM_USER_MAX = 0x0000800000000000"
definition VMM_PAGE_SIZE :: u64 where "VMM_PAGE_SIZE = 4096"
definition VMM_USER_STRING_MAX :: u32 where "VMM_USER_STRING_MAX = 255"
definition VMM_FLAG_PRESENT :: u64 where "VMM_FLAG_PRESENT = 0x1"
definition VMM_FLAG_RW :: u64 where "VMM_FLAG_RW = 0x2"
definition VMM_FLAG_USER :: u64 where "VMM_FLAG_USER = 0x4"
definition VMM_PERM_WRITE :: u32 where "VMM_PERM_WRITE = 0x1"
definition VMM_PERM_USER :: u32 where "VMM_PERM_USER = 0x2"
definition VMM_PERM_EXEC :: u32 where "VMM_PERM_EXEC = 0x4"

definition vmm_is_canonical :: "u64 \<Rightarrow> bool" where
  "vmm_is_canonical addr \<longleftrightarrow> (let upper = drop_bit 48 addr in upper = 0 \<or> upper = 0xffff)"

definition vmm_align_down :: "u64 \<Rightarrow> u64 \<Rightarrow> u64" where
  "vmm_align_down value align = value AND NOT (align - 1)"

definition vmm_align_up :: "u64 \<Rightarrow> u64 \<Rightarrow> u64" where
  "vmm_align_up value align = (value + align - 1) AND NOT (align - 1)"

definition vmm_user_range_valid :: "u64 \<Rightarrow> u32 \<Rightarrow> (u64 \<times> u64) option" where
  "vmm_user_range_valid user_addr sz =
     (if user_addr < VMM_USER_MIN \<or> user_addr \<ge> VMM_USER_MAX \<or> \<not> vmm_is_canonical user_addr then None
      else if sz = 0 then Some (user_addr, user_addr)
      else if ucast sz > - 1 - user_addr then None
      else
        (let end_addr = user_addr + ucast sz in
         if end_addr > VMM_USER_MAX then None
         else Some (vmm_align_down user_addr VMM_PAGE_SIZE, vmm_align_down (end_addr - 1) VMM_PAGE_SIZE + VMM_PAGE_SIZE)))"

definition vmm_page_chunk_size :: "u64 \<Rightarrow> u64 \<Rightarrow> u32 \<times> u64" where
  "vmm_page_chunk_size virt remaining =
     (let page_off = virt AND (VMM_PAGE_SIZE - 1);
          chunk = VMM_PAGE_SIZE - page_off;
          chunk = (if chunk > remaining then remaining else chunk)
      in (ucast chunk, page_off))"

section \<open>Roots and mappings\<close>

definition vmm_current_root :: "paging \<Rightarrow> u64" where
  "vmm_current_root s = paging_get_current_cr3 s"

definition vmm_create_user_root :: "paging \<Rightarrow> u64 \<times> paging" where
  "vmm_create_user_root s = paging_create_user_root s"

definition vmm_clone_root_cow :: "u64 \<Rightarrow> paging \<Rightarrow> u64 \<times> paging" where
  "vmm_clone_root_cow source_root s = paging_clone_root_cow source_root s"

definition vmm_resolve_cow_fault :: "paging \<Rightarrow> u64 \<Rightarrow> u64 \<Rightarrow> u64 \<Rightarrow> bool \<times> paging" where
  "vmm_resolve_cow_fault s root fault_addr error_code = paging_resolve_cow_fault s root fault_addr error_code"

definition vmm_destroy_user_root :: "u64 \<Rightarrow> paging \<Rightarrow> paging" where
  "vmm_destroy_user_root root s = paging_destroy_root_deep root s"

definition vmm_switch_root :: "u64 \<Rightarrow> u64 \<Rightarrow> paging \<Rightarrow> u64 \<Rightarrow> paging" where
  "vmm_switch_root rip rsp s root = snd (paging_set_current_cr3 rip rsp s root)"

definition vmm_root_is_current :: "paging \<Rightarrow> u64 \<Rightarrow> bool" where
  "vmm_root_is_current s root \<longleftrightarrow> root \<noteq> 0 \<and> vmm_current_root s = root"

definition vmm_switch_root_or_fail :: "u64 \<Rightarrow> u64 \<Rightarrow> paging \<Rightarrow> u64 \<Rightarrow> bool \<times> paging" where
  "vmm_switch_root_or_fail rip rsp s root =
     (if root = 0 then (False, s)
      else (let s1 = vmm_switch_root rip rsp s root in (vmm_current_root s1 = root, s1)))"

definition vmm_allow_user_page :: "u64 \<Rightarrow> paging \<Rightarrow> paging" where
  "vmm_allow_user_page addr s = paging_make_page_user_accessible addr s"

definition vmm_allow_user_range :: "u64 \<Rightarrow> u64 \<Rightarrow> paging \<Rightarrow> paging" where
  "vmm_allow_user_range start end_addr s = paging_make_range_user_accessible start end_addr s"

definition vmm_set_supervisor_range :: "u64 \<Rightarrow> u64 \<Rightarrow> paging \<Rightarrow> paging" where
  "vmm_set_supervisor_range start end_addr s = paging_make_range_supervisor_only start end_addr s"

definition vmm_map :: "paging \<Rightarrow> u64 \<Rightarrow> u64 \<Rightarrow> u32 \<Rightarrow> bool \<times> paging" where
  "vmm_map s virt_addr phys_addr perms =
     (if virt_addr AND (VMM_PAGE_SIZE - 1) \<noteq> 0 \<or> phys_addr AND (VMM_PAGE_SIZE - 1) \<noteq> 0 then (False, s)
      else paging_map_page_with_exec s virt_addr phys_addr
             (perms AND VMM_PERM_USER \<noteq> 0) (perms AND VMM_PERM_WRITE \<noteq> 0) (perms AND VMM_PERM_EXEC \<noteq> 0))"

definition vmm_unmap :: "paging \<Rightarrow> u64 \<Rightarrow> u64 option \<times> paging" where
  "vmm_unmap s virt_addr = paging_unmap_page s virt_addr"

definition vmm_query :: "paging \<Rightarrow> u64 \<Rightarrow> u64 option" where
  "vmm_query s virt_addr = paging_get_mapping s virt_addr"

definition vmm_query_info :: "paging \<Rightarrow> u64 \<Rightarrow> (u64 \<times> u64) option" where
  "vmm_query_info s virt_addr = paging_get_mapping_info s virt_addr"

definition vmm_unmap_range_if_present :: "paging \<Rightarrow> u64 \<Rightarrow> u64 \<Rightarrow> paging" where
  "vmm_unmap_range_if_present s start end_addr =
     fold (\<lambda>page s. snd (vmm_unmap s page))
       (step_pages (vmm_align_down start VMM_PAGE_SIZE) (vmm_align_up end_addr VMM_PAGE_SIZE)) s"

section \<open>Permissions of a user range\<close>

text \<open>A write permission may be granted by resolving a copy-on-write fault first.\<close>

primrec user_pages_have_perms :: "u64 list \<Rightarrow> u64 \<Rightarrow> paging \<Rightarrow> bool \<times> paging" where
  "user_pages_have_perms [] required_flags s = (True, s)"
| "user_pages_have_perms (page # pages) required_flags s =
     (case vmm_query_info s page of
        None \<Rightarrow> (False, s)
      | Some (phys, flags) \<Rightarrow>
          (let (ok, s1) =
             (if required_flags AND VMM_FLAG_RW \<noteq> 0 \<and>
                 flags AND (VMM_FLAG_PRESENT OR VMM_FLAG_USER) = VMM_FLAG_PRESENT OR VMM_FLAG_USER \<and>
                 flags AND VMM_FLAG_RW = 0
              then vmm_resolve_cow_fault s (vmm_current_root s) page (VMM_FLAG_PRESENT OR VMM_FLAG_RW OR VMM_FLAG_USER)
              else (False, s))
           in case (if ok then map_option snd (vmm_query_info s1 page) else Some flags) of
                None \<Rightarrow> (False, s1)
              | Some flags \<Rightarrow>
                  if flags AND required_flags \<noteq> required_flags then (False, s1)
                  else user_pages_have_perms pages required_flags s1))"

definition vmm_user_range_has_perms :: "paging \<Rightarrow> u64 \<Rightarrow> u32 \<Rightarrow> u64 \<Rightarrow> bool \<times> paging" where
  "vmm_user_range_has_perms s user_addr sz required_flags =
     (case vmm_user_range_valid user_addr sz of
        None \<Rightarrow> (False, s)
      | Some (start, end_addr) \<Rightarrow> user_pages_have_perms (step_pages start end_addr) required_flags s)"

definition vmm_user_readable :: "paging \<Rightarrow> u64 \<Rightarrow> u32 \<Rightarrow> bool \<times> paging" where
  "vmm_user_readable s user_addr sz = vmm_user_range_has_perms s user_addr sz (VMM_FLAG_PRESENT OR VMM_FLAG_USER)"

definition vmm_user_writable :: "paging \<Rightarrow> u64 \<Rightarrow> u32 \<Rightarrow> bool \<times> paging" where
  "vmm_user_writable s user_addr sz =
     vmm_user_range_has_perms s user_addr sz (VMM_FLAG_PRESENT OR VMM_FLAG_RW OR VMM_FLAG_USER)"

definition vmm_user_page_mapped :: "paging \<Rightarrow> u64 \<Rightarrow> bool" where
  "vmm_user_page_mapped s user_addr \<longleftrightarrow>
     user_addr AND (VMM_PAGE_SIZE - 1) = 0 \<and>
     (case vmm_query_info s user_addr of
        None \<Rightarrow> False
      | Some (phys, flags) \<Rightarrow> flags AND VMM_FLAG_PRESENT \<noteq> 0 \<and> flags AND VMM_FLAG_USER \<noteq> 0)"

definition vmm_ensure_user_page_writable :: "paging \<Rightarrow> u64 \<Rightarrow> u64 option \<times> paging" where
  "vmm_ensure_user_page_writable s user_addr =
     (let all = VMM_FLAG_PRESENT OR VMM_FLAG_RW OR VMM_FLAG_USER in
      case vmm_query_info s user_addr of
        None \<Rightarrow> (None, s)
      | Some (phys, flags) \<Rightarrow>
          if flags AND all = all then (Some phys, s)
          else if flags AND (VMM_FLAG_PRESENT OR VMM_FLAG_USER) = VMM_FLAG_PRESENT OR VMM_FLAG_USER \<and>
                  flags AND VMM_FLAG_RW = 0
          then (case vmm_resolve_cow_fault s (vmm_current_root s) user_addr all of
                  (False, s1) \<Rightarrow> (None, s1)
                | (True, s1) \<Rightarrow>
                    (case vmm_query_info s1 user_addr of
                       None \<Rightarrow> (None, s1)
                     | Some (phys, flags) \<Rightarrow> (if flags AND all = all then Some phys else None, s1)))
          else (None, s))"

section \<open>Copies\<close>

definition mem_read :: "phys_memory \<Rightarrow> u64 \<Rightarrow> nat \<Rightarrow> u8 list" where
  "mem_read m a n = map (\<lambda>i. m (a + of_nat i)) [0..<n]"

definition mem_write :: "phys_memory \<Rightarrow> u64 \<Rightarrow> u8 list \<Rightarrow> phys_memory" where
  "mem_write m a bytes = (\<lambda>x. if unat (x - a) < length bytes then bytes ! unat (x - a) else m x)"

lemma unat_page_off: "unat (virt AND (VMM_PAGE_SIZE - 1)) = unat virt mod 4096"
  using unat_and_low [of virt] by (simp add: VMM_PAGE_SIZE_def)

lemma chunk_size:
  assumes "vmm_page_chunk_size virt remaining = (chunk, page_off)"
  shows "unat chunk = min (4096 - unat virt mod 4096) (unat remaining)" "page_off = virt AND 0xfff"
proof -
  let ?c = "VMM_PAGE_SIZE - (virt AND (VMM_PAGE_SIZE - 1))"
  have off: "unat (virt AND (VMM_PAGE_SIZE - 1)) = unat virt mod 4096" by (rule unat_page_off)
  have le: "virt AND (VMM_PAGE_SIZE - 1) \<le> VMM_PAGE_SIZE"
    unfolding word_le_nat_alt off by (simp add: VMM_PAGE_SIZE_def)
  have c: "unat ?c = 4096 - unat virt mod 4096"
    using unat_sub [OF le] off by (simp add: VMM_PAGE_SIZE_def)
  let ?d = "if ?c > remaining then remaining else ?c"
  have d: "unat ?d = min (4096 - unat virt mod 4096) (unat remaining)"
    using c by (auto simp: word_less_nat_alt not_less min_def)
  have "unat ?d < 2 ^ 32" unfolding d by simp
  then have "unat (ucast ?d :: u32) = unat ?d" by (simp add: unsigned_ucast_eq take_bit_nat_eq_self)
  with assms d show "unat chunk = min (4096 - unat virt mod 4096) (unat remaining)" "page_off = virt AND 0xfff"
    by (auto simp: vmm_page_chunk_size_def Let_def VMM_PAGE_SIZE_def)
qed

text \<open>What makes the loops below stop: a chunk is not empty and not larger than the rest.\<close>

lemma chunk_step32:
  fixes sz offset :: u32
  assumes "vmm_page_chunk_size virt (ucast (sz - offset)) = (chunk, page_off)" and "offset < sz"
  shows "unat (sz - (offset + chunk)) < unat (sz - offset)" "unat offset + unat chunk \<le> unat sz"
    "unat (offset + chunk) = unat offset + unat chunk" "0 < unat chunk"
proof -
  have r: "unat (ucast (sz - offset) :: u64) = unat sz - unat offset"
    using assms(2) unat_sub [of offset sz] unsigned_less [of "sz - offset", where ?'a = nat]
    by (simp add: unsigned_ucast_eq take_bit_nat_eq_self order_less_imp_le)
  have o: "unat offset < unat sz" "unat sz < 2 ^ 32" using assms(2) unsigned_less [of sz, where ?'a = nat] by (simp_all add: word_less_nat_alt)
  have "4096 - unat virt mod 4096 > 0" by simp
  with chunk_size(1) [OF assms(1)] r o show pos: "0 < unat chunk" by simp
  from chunk_size(1) [OF assms(1)] r o show le: "unat offset + unat chunk \<le> unat sz" by simp
  then show sum: "unat (offset + chunk) = unat offset + unat chunk"
    using o by (intro unat_add_lem [THEN iffD1]) simp
  have "offset + chunk \<le> sz" using le sum by (simp add: word_le_nat_alt)
  then show "unat (sz - (offset + chunk)) < unat (sz - offset)"
    using unat_sub [of "offset + chunk" sz] unat_sub [of offset sz] sum o pos assms(2) by simp
qed

function copy_from_loop :: "paging \<Rightarrow> u64 \<Rightarrow> u32 \<Rightarrow> u32 \<Rightarrow> bool \<times> u8 list" where
  "copy_from_loop s user_addr sz offset =
     (if \<not> offset < sz then (True, [])
      else
        (let virt = user_addr + ucast offset;
             (chunk, page_off) = vmm_page_chunk_size virt (ucast (sz - offset))
         in case vmm_query_info s virt of
              None \<Rightarrow> (False, [])
            | Some (phys, flags) \<Rightarrow>
                if flags AND (VMM_FLAG_PRESENT OR VMM_FLAG_USER) \<noteq> VMM_FLAG_PRESENT OR VMM_FLAG_USER then (False, [])
                else
                  (let phys_page = phys AND NOT (VMM_PAGE_SIZE - 1);
                       bytes = mem_read (pg_mem s) (phys_page + page_off) (unat chunk);
                       (ok, rest) = copy_from_loop s user_addr sz (offset + chunk)
                   in (ok, bytes @ rest))))"
  by pat_completeness auto
termination
  by (relation "measure (\<lambda>(s, user_addr, sz, offset). unat (sz - offset))") (auto dest: chunk_step32(1) [OF sym])

text \<open>The result is the return value and the bytes that were stored to the buffer.\<close>

definition vmm_copy_from_user :: "paging \<Rightarrow> u64 \<Rightarrow> u32 \<Rightarrow> bool \<times> u8 list" where
  "vmm_copy_from_user s user_addr sz =
     (if vmm_user_range_valid user_addr sz = None then (False, []) else copy_from_loop s user_addr sz 0)"

function copy_to_loop :: "u64 \<Rightarrow> u8 list \<Rightarrow> u32 \<Rightarrow> u32 \<Rightarrow> paging \<Rightarrow> bool \<times> paging" where
  "copy_to_loop user_addr src sz offset s =
     (if \<not> offset < sz then (True, s)
      else
        (let virt = user_addr + ucast offset;
             (chunk, page_off) = vmm_page_chunk_size virt (ucast (sz - offset))
         in case vmm_ensure_user_page_writable s virt of
              (None, s1) \<Rightarrow> (False, s1)
            | (Some phys, s1) \<Rightarrow>
                (let phys_page = phys AND NOT (VMM_PAGE_SIZE - 1);
                     bytes = take (unat chunk) (drop (unat offset) src);
                     s2 = s1\<lparr>pg_mem := mem_write (pg_mem s1) (phys_page + page_off) bytes\<rparr>
                 in copy_to_loop user_addr src sz (offset + chunk) s2)))"
  by pat_completeness auto
termination
  by (relation "measure (\<lambda>(user_addr, src, sz, offset, s). unat (sz - offset))") (auto dest: chunk_step32(1) [OF sym])

text \<open>The source buffer holds at least \<open>sz\<close> bytes.\<close>

definition vmm_copy_to_user :: "paging \<Rightarrow> u64 \<Rightarrow> u8 list \<Rightarrow> u32 \<Rightarrow> bool \<times> paging" where
  "vmm_copy_to_user s user_addr src sz =
     (if vmm_user_range_valid user_addr sz = None then (False, s) else copy_to_loop user_addr src sz 0 s)"

text \<open>
  Strings: at most \<open>max_len - 1\<close> bytes are taken, up to and with the terminator. The inner loop
  over a chunk stops at a zero byte; \<open>upto_zero\<close> is what it stores.
\<close>

definition upto_zero :: "u8 list \<Rightarrow> u8 list" where
  "upto_zero bytes = takeWhile (\<lambda>ch. ch \<noteq> 0) bytes @ (if 0 \<in> set bytes then [0] else [])"

function copy_cstr_loop :: "paging \<Rightarrow> u64 \<Rightarrow> u32 \<Rightarrow> u32 \<Rightarrow> bool \<times> u8 list" where
  "copy_cstr_loop s user_addr limit copied =
     (if \<not> copied < limit then (True, [0])
      else
        (let virt = user_addr + ucast copied;
             (chunk, page_off) = vmm_page_chunk_size virt (ucast (limit - copied))
         in if virt < user_addr then (False, [])
            else case vmm_query_info s virt of
              None \<Rightarrow> (False, [])
            | Some (phys, flags) \<Rightarrow>
                if flags AND (VMM_FLAG_PRESENT OR VMM_FLAG_USER) \<noteq> VMM_FLAG_PRESENT OR VMM_FLAG_USER then (False, [])
                else
                  (let bytes = mem_read (pg_mem s) ((phys AND NOT (VMM_PAGE_SIZE - 1)) + page_off) (unat chunk)
                   in if 0 \<in> set bytes then (True, upto_zero bytes)
                      else (let (ok, rest) = copy_cstr_loop s user_addr limit (copied + chunk) in (ok, bytes @ rest)))))"
  by pat_completeness auto
termination
  by (relation "measure (\<lambda>(s, user_addr, limit, copied). unat (limit - copied))") (auto dest: chunk_step32(1) [OF sym])

text \<open>The loop guard \<^verbatim>\<open>copied + 1 < max_len\<close> is \<open>copied < max_len - 1\<close>, since \<^verbatim>\<open>max_len\<close> is at most 256.\<close>

definition vmm_copy_user_cstr :: "paging \<Rightarrow> u64 \<Rightarrow> u32 \<Rightarrow> bool \<times> u8 list" where
  "vmm_copy_user_cstr s user_addr max_len =
     (if max_len = 0 \<or> max_len > VMM_USER_STRING_MAX + 1 then (False, [])
      else copy_cstr_loop s user_addr (max_len - 1) 0)"

text \<open>Ranges that the kernel fills itself: a mapping is enough.\<close>

lemma chunk_step64:
  fixes sz offset :: u64
  assumes "vmm_page_chunk_size virt (sz - offset) = (chunk, page_off)" and "offset < sz"
  shows "unat (sz - (offset + ucast chunk)) < unat (sz - offset)"
proof -
  have r: "unat (sz - offset) = unat sz - unat offset"
    using assms(2) unat_sub [of offset sz] by (simp add: order_less_imp_le)
  have o: "unat offset < unat sz" "unat sz < 2 ^ 64"
    using assms(2) unsigned_less [of sz, where ?'a = nat] by (simp_all add: word_less_nat_alt)
  have u: "unat (ucast chunk :: u64) = unat chunk"
    using unsigned_less [of chunk, where ?'a = nat] by (simp add: unsigned_ucast_eq take_bit_nat_eq_self)
  have pos: "0 < unat chunk" and le: "unat offset + unat chunk \<le> unat sz"
    using chunk_size(1) [OF assms(1)] r o by simp_all
  have sum: "unat (offset + ucast chunk) = unat offset + unat chunk"
    using o le u by (subst unat_add_lem [THEN iffD1]) simp_all
  have "offset + ucast chunk \<le> sz" using le sum by (simp add: word_le_nat_alt)
  then show ?thesis using unat_sub [of "offset + ucast chunk" sz] r sum o pos by simp
qed

function zero_range_loop :: "u64 \<Rightarrow> u64 \<Rightarrow> u64 \<Rightarrow> paging \<Rightarrow> bool \<times> paging" where
  "zero_range_loop start sz offset s =
     (if \<not> offset < sz then (True, s)
      else
        (let virt = start + offset;
             (chunk, page_off) = vmm_page_chunk_size virt (sz - offset)
         in case vmm_query s virt of
              None \<Rightarrow> (False, s)
            | Some phys \<Rightarrow>
                zero_range_loop start sz (offset + ucast chunk)
                  (s\<lparr>pg_mem := mem_write (pg_mem s) ((phys AND NOT (VMM_PAGE_SIZE - 1)) + page_off)
                                  (replicate (unat chunk) 0)\<rparr>)))"
  by pat_completeness auto
termination
  by (relation "measure (\<lambda>(start, sz, offset, s). unat (sz - offset))") (auto dest: chunk_step64 [OF sym])

definition vmm_zero_range :: "paging \<Rightarrow> u64 \<Rightarrow> u64 \<Rightarrow> bool \<times> paging" where
  "vmm_zero_range s start sz = zero_range_loop start sz 0 s"

function copy_to_range_loop :: "u64 \<Rightarrow> u8 list \<Rightarrow> u64 \<Rightarrow> u64 \<Rightarrow> paging \<Rightarrow> bool \<times> paging" where
  "copy_to_range_loop dest src sz offset s =
     (if \<not> offset < sz then (True, s)
      else
        (let virt = dest + offset;
             (chunk, page_off) = vmm_page_chunk_size virt (sz - offset)
         in case vmm_query s virt of
              None \<Rightarrow> (False, s)
            | Some phys \<Rightarrow>
                copy_to_range_loop dest src sz (offset + ucast chunk)
                  (s\<lparr>pg_mem := mem_write (pg_mem s) ((phys AND NOT (VMM_PAGE_SIZE - 1)) + page_off)
                                  (take (unat chunk) (drop (unat offset) src))\<rparr>)))"
  by pat_completeness auto
termination
  by (relation "measure (\<lambda>(dest, src, sz, offset, s). unat (sz - offset))") (auto dest: chunk_step64 [OF sym])

definition vmm_copy_to_range :: "paging \<Rightarrow> u64 \<Rightarrow> u8 list \<Rightarrow> u64 \<Rightarrow> bool \<times> paging" where
  "vmm_copy_to_range s dest src sz = copy_to_range_loop dest src sz 0 s"

declare copy_from_loop.simps [simp del] copy_to_loop.simps [simp del] copy_cstr_loop.simps [simp del]
  zero_range_loop.simps [simp del] copy_to_range_loop.simps [simp del]

end
