(* ===== verification/Vmm_Copy.thy ===== *)
theory Vmm_Copy
  imports Vmm
begin

text \<open>
  What the page-wise copies of \<^verbatim>\<open>vmm.c\<close> mean byte by byte: all bytes of a page have the
  translation and the rights that the copy looked up for the first byte of its chunk.
\<close>

section \<open>Bytes of one page\<close>

lemma same_page_index:
  assumes "page_of va' = page_of va"
  shows "pml4_index va' = pml4_index va" "pdpt_index va' = pdpt_index va" "pd_index va' = pd_index va"
    "pt_index va' = pt_index va"
proof -
  have b: "bit va' n \<longleftrightarrow> bit va n" if "12 \<le> n" for n
  proof -
    have m: "(0xfff :: u64) = mask 12" by (simp add: mask_eq_exp_minus_1)
    from assms have "bit (va' AND NOT (mask 12)) n \<longleftrightarrow> bit (va AND NOT (mask 12)) n" by (simp add: page_of_def m)
    with that show ?thesis
      by (cases "n < 64") (simp_all add: bit_and_iff bit_not_iff bit_mask_iff impossible_bit)
  qed
  have d: "drop_bit k va' = drop_bit k va" if "12 \<le> k" for k
    by (rule bit_word_eqI) (use that b in \<open>auto simp: bit_drop_bit_eq\<close>)
  show "pml4_index va' = pml4_index va" "pdpt_index va' = pdpt_index va" "pd_index va' = pd_index va"
    "pt_index va' = pt_index va"
    by (simp_all add: pml4_index_def pdpt_index_def pd_index_def pt_index_def d)
qed

lemma page_join:
  assumes "page_of va' = page_of va" and "12 \<le> k" and "b AND mask 12 = (0 :: u64)"
  shows "b OR (va' AND mask k) = ((b OR (va AND mask k)) AND NOT (mask 12)) OR (va' AND mask 12)"
proof (rule bit_word_eqI)
  fix n assume n: "n < LENGTH(64)"
  have m: "(0xfff :: u64) = mask 12" by (simp add: mask_eq_exp_minus_1)
  from assms(1) have "bit (va' AND NOT (mask 12)) n \<longleftrightarrow> bit (va AND NOT (mask 12)) n" by (simp add: page_of_def m)
  moreover from assms(3) have "\<not> bit (b AND mask 12) n" by simp
  ultimately show "bit (b OR (va' AND mask k)) n \<longleftrightarrow> bit (((b OR (va AND mask k)) AND NOT (mask 12)) OR (va' AND mask 12)) n"
    using n assms(2) by (auto simp: bit_and_iff bit_or_iff bit_not_iff bit_mask_iff)
qed

lemma walk_same_page:
  assumes pg: "page_of va' = page_of va" and w: "paging_walk_in_root m root va = Some info"
  shows "\<exists>info'. paging_walk_in_root m root va' = Some info' \<and> wi_flags info' = wi_flags info \<and>
    wi_phys_addr info' = (wi_phys_addr info AND NOT (mask 12)) OR (va' AND mask 12)"
proof -
  have mk: "(0x3fffffff :: u64) = mask 30" "(0x1fffff :: u64) = mask 21" "(0xfff :: u64) = mask 12"
    by (simp_all add: mask_eq_exp_minus_1)
  have z: "(e AND 0x000fffffc0000000) AND mask 12 = 0" "(e AND 0x000fffffffe00000) AND mask 12 = 0"
    "(e AND PAGING_ADDR_MASK) AND mask 12 = 0" for e :: u64
    by (simp_all add: and.assoc mask_eq_exp_minus_1 PAGING_ADDR_MASK_def)
  note j = page_join [OF pg _ z(1), of 30] page_join [OF pg _ z(2), of 21] page_join [OF pg _ z(3), of 12]
  from w show ?thesis
    unfolding paging_walk_in_root_def Let_def same_page_index [OF pg] mk
    by (auto simp: j split: if_splits)
qed

lemma or_disjoint_add:
  "(a AND NOT (mask 12)) OR (b AND mask 12) = (a AND NOT (mask 12)) + (b AND mask 12)" for a b :: u64
  by (rule disjunctive_add [symmetric]) (simp add: bit_and_iff bit_not_iff bit_mask_iff)

lemma page_split: "va = page_of va + of_nat (unat va mod 4096)" for va :: u64
  using page_of_offset(2) [of "page_of va" "unat va mod 4096"] by (simp add: word_unat_eq_iff unat_page_of)

lemma low_of_nat: "va AND 0xfff = of_nat (unat va mod 4096)" for va :: u64
  by (simp add: unat_and_low [symmetric])

lemma page_advance:
  assumes "i < 4096 - unat va mod 4096"
  shows "page_of (va + of_nat i) = page_of va" "(va + of_nat i) AND 0xfff = (va AND 0xfff) + (of_nat i :: u64)"
proof -
  define k where "k = unat va mod 4096 + i"
  have k: "k < 4096" using assms by (simp add: k_def)
  have va: "va + of_nat i = page_of va + of_nat k" using page_split [of va] by (simp add: k_def add.assoc)
  show "page_of (va + of_nat i) = page_of va" unfolding va by (rule page_of_offset(1)) (use k in simp_all)
  have "unat (va + of_nat i) = unat (page_of va) + k" unfolding va by (rule page_of_offset(2)) (use k in simp_all)
  moreover have "unat (page_of va) mod 4096 = 0" using page_of_aligned [of va] by (simp add: page_aligned_mod)
  ultimately have "unat (va + of_nat i) mod 4096 = k" using k by (simp add: mod_add_eq [symmetric, of "unat (page_of va)"])
  then have "(va + of_nat i) AND 0xfff = of_nat k"
    using low_of_nat [of "va + of_nat i"] by simp
  moreover note low_of_nat [of va]
  ultimately show "(va + of_nat i) AND 0xfff = (va AND 0xfff) + (of_nat i :: u64)" by (simp add: k_def)
qed

lemma query_same_page:
  assumes q: "vmm_query_info s va = Some (phys, flags)" and i: "i < 4096 - unat va mod 4096"
  shows "vmm_query_info s (va + of_nat i) = Some ((phys AND NOT (VMM_PAGE_SIZE - 1)) + (va AND 0xfff) + of_nat i, flags)"
proof -
  have m: "mask 12 = (0xfff :: u64)" by (simp add: mask_eq_exp_minus_1)
  from q obtain info where w: "paging_walk_in_root (pg_mem s) (paging_get_current_cr3 s) va = Some info"
    "phys = wi_phys_addr info" "flags = wi_flags info"
    by (auto simp: vmm_query_info_def paging_get_mapping_info_def)
  from walk_same_page [OF page_advance(1) [OF i] w(1), unfolded or_disjoint_add, unfolded m page_advance(2) [OF i]] w(2,3)
  show ?thesis by (auto simp: vmm_query_info_def paging_get_mapping_info_def VMM_PAGE_SIZE_def add.assoc)
qed

section \<open>Reading\<close>

definition user_byte :: "paging \<Rightarrow> u64 \<Rightarrow> u8 option" where
  "user_byte s va =
     (case vmm_query_info s va of
        None \<Rightarrow> None
      | Some (phys, flags) \<Rightarrow>
          if flags AND (VMM_FLAG_PRESENT OR VMM_FLAG_USER) = VMM_FLAG_PRESENT OR VMM_FLAG_USER then Some (pg_mem s phys) else None)"

lemma chunk_bytes:
  assumes q: "vmm_query_info s virt = Some (phys, flags)"
    and fl: "flags AND (VMM_FLAG_PRESENT OR VMM_FLAG_USER) = VMM_FLAG_PRESENT OR VMM_FLAG_USER"
    and n: "n \<le> 4096 - unat virt mod 4096"
  shows "map Some (mem_read (pg_mem s) ((phys AND NOT (VMM_PAGE_SIZE - 1)) + (virt AND 0xfff)) n) =
     map (\<lambda>i. user_byte s (virt + of_nat i)) [0..<n]"
proof -
  have "user_byte s (virt + of_nat i) =
      Some (pg_mem s ((phys AND NOT (VMM_PAGE_SIZE - 1)) + (virt AND 0xfff) + of_nat i))" if "i < n" for i
    using query_same_page [OF q, of i] that n fl by (simp add: user_byte_def)
  then show ?thesis by (simp add: mem_read_def)
qed

text \<open>The loop returns the longest readable prefix, and succeeds when that is everything.\<close>

lemma copy_from_loop_step:
  assumes lt: "offset < sz" and loop: "copy_from_loop s user_addr sz offset = (ok, bytes)"
  shows "user_byte s (user_addr + of_nat (unat offset)) = None \<and> \<not> ok \<and> bytes = [] \<or>
    (\<exists>chunk head rest. copy_from_loop s user_addr sz (offset + chunk) = (ok, rest) \<and> bytes = head @ rest \<and>
       length head = unat chunk \<and> 0 < unat chunk \<and> unat offset + unat chunk \<le> unat sz \<and>
       unat (offset + chunk) = unat offset + unat chunk \<and>
       map Some head = map (\<lambda>k. user_byte s (user_addr + of_nat (unat offset + k))) [0..<unat chunk])"
proof -
  let ?virt = "user_addr + ucast offset"
  obtain chunk page_off where ch: "vmm_page_chunk_size ?virt (ucast (sz - offset)) = (chunk, page_off)"
    by (cases "vmm_page_chunk_size ?virt (ucast (sz - offset))") auto
  note st = chunk_step32 [OF ch lt] and cs = chunk_size [OF ch]
  have addr: "?virt + of_nat i = user_addr + of_nat (unat offset + i)" for i
    by (simp add: add.assoc)
  have loop: "(case vmm_query_info s ?virt of None \<Rightarrow> (False, [])
      | Some (phys, flags) \<Rightarrow>
          if flags AND (VMM_FLAG_PRESENT OR VMM_FLAG_USER) \<noteq> VMM_FLAG_PRESENT OR VMM_FLAG_USER then (False, [])
          else (let (ok, rest) = copy_from_loop s user_addr sz (offset + chunk)
                in (ok, mem_read (pg_mem s) ((phys AND NOT (VMM_PAGE_SIZE - 1)) + page_off) (unat chunk) @ rest))) = (ok, bytes)"
    using loop [unfolded copy_from_loop.simps [of s user_addr sz offset] Let_def ch prod.case eqTrueI [OF lt]]
    by (simp only: simp_thms if_False Let_def)
  show ?thesis
  proof (cases "user_byte s ?virt")
    case None
    with loop have "\<not> ok" "bytes = []" by (auto simp: user_byte_def split: option.splits if_splits)
    with None addr [of 0] show ?thesis by simp
  next
    case (Some b)
    then obtain phys flags where q: "vmm_query_info s ?virt = Some (phys, flags)"
      and fl: "flags AND (VMM_FLAG_PRESENT OR VMM_FLAG_USER) = VMM_FLAG_PRESENT OR VMM_FLAG_USER"
      by (auto simp: user_byte_def split: option.splits if_splits)
    define head where "head = mem_read (pg_mem s) ((phys AND NOT (VMM_PAGE_SIZE - 1)) + page_off) (unat chunk)"
    obtain rest where "copy_from_loop s user_addr sz (offset + chunk) = (ok, rest)" "bytes = head @ rest"
      using loop q fl by (auto simp: head_def split: prod.splits)
    moreover have "length head = unat chunk" by (simp add: head_def mem_read_def)
    moreover have "map Some head = map (\<lambda>k. user_byte s (user_addr + of_nat (unat offset + k))) [0..<unat chunk]"
      using chunk_bytes [OF q fl, of "unat chunk"] cs unfolding head_def addr by simp
    ultimately show ?thesis using st by blast
  qed
qed

definition prefix_read :: "(nat \<Rightarrow> 'a option) \<Rightarrow> nat \<Rightarrow> bool \<Rightarrow> 'a list \<Rightarrow> bool" where
  "prefix_read f n ok xs \<longleftrightarrow>
     length xs \<le> n \<and> map Some xs = map f [0..<length xs] \<and> (ok \<longleftrightarrow> (\<forall>k<n. f k \<noteq> None)) \<and> (ok \<longrightarrow> length xs = n)"

lemma prefix_read_append:
  assumes "map Some xs = map f [0..<length xs]" and "prefix_read (\<lambda>k. f (length xs + k)) (n - length xs) ok ys"
    and "length xs \<le> n"
  shows "prefix_read f n ok (xs @ ys)"
proof -
  have f: "f k \<noteq> None" if "k < length xs" for k
    using arg_cong [OF assms(1), of "\<lambda>zs. zs ! k"] that by (auto dest: sym)
  have "map f [0..<length xs + length ys] = map f [0..<length xs] @ map (\<lambda>k. f (length xs + k)) [0..<length ys]"
    by (rule nth_equalityI) (auto simp: nth_append)
  moreover have "(\<forall>k<n. f k \<noteq> None) \<longleftrightarrow> (\<forall>k<n - length xs. f (length xs + k) \<noteq> None)"
  proof (intro iffI allI impI)
    fix k assume all: "\<forall>k<n - length xs. f (length xs + k) \<noteq> None" and "k < n"
    then show "f k \<noteq> None" using f [of k] all [rule_format, of "k - length xs"] by (cases "k < length xs") auto
  qed auto
  ultimately show ?thesis using assms by (simp add: prefix_read_def) linarith
qed

lemma copy_from_loop_spec:
  assumes "copy_from_loop s user_addr sz offset = (ok, bytes)" and "offset \<le> sz"
  shows "prefix_read (\<lambda>k. user_byte s (user_addr + of_nat (unat offset + k))) (unat sz - unat offset) ok bytes"
  using assms
proof (induction "unat sz - unat offset" arbitrary: offset ok bytes rule: less_induct)
  case less
  show ?case
  proof (cases "offset < sz")
    case False
    with less.prems have "offset = sz" by simp
    with less.prems show ?thesis by (simp add: prefix_read_def copy_from_loop.simps [of s user_addr sz sz])
  next
    case True
    then have lt: "unat offset < unat sz" by (simp add: word_less_nat_alt)
    from copy_from_loop_step [OF True less.prems(1)] show ?thesis
    proof (elim disjE conjE exE)
      assume "user_byte s (user_addr + of_nat (unat offset)) = None" "\<not> ok" "bytes = []"
      moreover from this lt have "\<exists>k<unat sz - unat offset. user_byte s (user_addr + of_nat (unat offset + k)) = None"
        by (intro exI [of _ 0]) simp
      ultimately show ?thesis by (auto simp: prefix_read_def)
    next
      fix chunk head rest
      assume r: "copy_from_loop s user_addr sz (offset + chunk) = (ok, rest)" "bytes = head @ rest"
        "length head = unat chunk" "0 < unat chunk" "unat offset + unat chunk \<le> unat sz"
        "unat (offset + chunk) = unat offset + unat chunk"
        "map Some head = map (\<lambda>k. user_byte s (user_addr + of_nat (unat offset + k))) [0..<unat chunk]"
      have "prefix_read (\<lambda>k. user_byte s (user_addr + of_nat (unat (offset + chunk) + k))) (unat sz - unat (offset + chunk)) ok rest"
        by (rule less.hyps) (use r lt in \<open>simp_all add: word_le_nat_alt\<close>)
      then show ?thesis unfolding r(2)
        by (intro prefix_read_append) (use r in \<open>simp_all add: add.assoc\<close>)
    qed
  qed
qed

end
