(* ===== verification/Vmm_Write.thy ===== *)
theory Vmm_Write
  imports Vmm_Copy
begin

text \<open>
  Writing to user memory: \<^verbatim>\<open>vmm_copy_to_user\<close> resolves a copy-on-write page before it stores to
  the frame, so a frame that is shared keeps its contents.
\<close>

abbreviation cur_root :: "paging \<Rightarrow> u64" where
  "cur_root s \<equiv> paging_get_current_cr3 s"

abbreviation cur_tabs :: "paging \<Rightarrow> u64 set" where
  "cur_tabs s \<equiv> pt_tabs 4 (pg_mem s) (cur_root s)"

section \<open>Queries as functions of the tables\<close>

lemma query_eq:
  assumes "pg_inv s (cur_root s)"
  shows "vmm_query_info s va =
    map_option (\<lambda>phys. (phys, effective_flags (pt_walk 4 (pg_mem s) (cur_root s) va))) (pt_trans 4 (pg_mem s) (cur_root s) va)"
proof -
  note rf = root_facts [OF assms]
  note f = pt_walk_flags [OF rf(1), of "pg_mem s" va, unfolded rf(3)]
  note t = translate_eq_trans [OF rf(1), of "pg_mem s" va, unfolded rf(3) paging_translate_in_root_def]
  show ?thesis
  proof (cases "paging_walk_in_root (pg_mem s) (cur_root s) va")
    case None
    with t show ?thesis by (simp add: vmm_query_info_def paging_get_mapping_info_def)
  next
    case (Some info)
    with t [symmetric] f show ?thesis
      by (simp add: vmm_query_info_def paging_get_mapping_info_def Let_def split: if_splits)
  qed
qed

lemma walk_small_page:
  assumes "paging_walk_in_root m root va = Some info" and "bit (wi_pte info) 0"
  shows "wi_phys_addr info = (wi_pte info AND PAGING_ADDR_MASK) OR (va AND 0xfff)"
  using assms by (auto simp: paging_walk_in_root_def Let_def split: if_splits)

text \<open>Memory outside the tables does not matter.\<close>

lemma write_frame:
  assumes inv: "pg_inv s (cur_root s)" and out: "same_outside {f} (pg_mem s) m'" and "f \<notin> cur_tabs s"
  defines "s' \<equiv> s\<lparr>pg_mem := m'\<rparr>"
  shows "pg_inv s' (cur_root s')" "cur_root s' = cur_root s" "cur_tabs s' = cur_tabs s"
    "vmm_query_info s' va = vmm_query_info s va" "pg_pmm s' = pg_pmm s"
proof -
  show r: "cur_root s' = cur_root s" and p: "pg_pmm s' = pg_pmm s" by (simp_all add: s'_def paging_get_current_cr3_def)
  have ts: "pt_tabs 4 m' (cur_root s) = cur_tabs s \<and> pt_trans 4 m' (cur_root s) = pt_trans 4 (pg_mem s) (cur_root s) \<and>
      (pt_wf 4 m' (cur_root s) \<longleftrightarrow> pt_wf 4 (pg_mem s) (cur_root s))"
    by (rule tree_same [OF out]) (use assms(3) root_facts(2) [OF inv] in auto)
  have wk: "pt_walk 4 m' (cur_root s) va = pt_walk 4 (pg_mem s) (cur_root s) va"
    by (rule pt_walk_same [OF out]) (use assms(3) root_facts(2) [OF inv] in auto)
  show inv': "pg_inv s' (cur_root s')" unfolding r using inv ts by (simp add: pg_inv_def s'_def)
  show "cur_tabs s' = cur_tabs s" unfolding r using ts by (simp add: s'_def)
  show "vmm_query_info s' va = vmm_query_info s va"
    unfolding query_eq [OF inv'] query_eq [OF inv] r using ts wk by (simp add: s'_def)
qed

section \<open>Making a page writable\<close>

definition frame_busy :: "paging \<Rightarrow> u64 \<Rightarrow> bool" where
  "frame_busy s f \<longleftrightarrow> f \<notin> cur_tabs s \<and> page_lookup (pg_pmm s) f \<noteq> Some (PMM_PAGE_FREE, 0)"

definition quiet :: "paging \<Rightarrow> paging \<Rightarrow> bool" where
  "quiet s s' \<longleftrightarrow> (\<forall>x. frame_busy s (page_of x) \<longrightarrow> pg_mem s' x = pg_mem s x)"

definition cow_moved :: "paging \<Rightarrow> u64 \<Rightarrow> u64 \<Rightarrow> u64 \<Rightarrow> paging \<Rightarrow> bool" where
  "cow_moved s va old new s' \<longleftrightarrow>
     pg_inv s' (cur_root s') \<and> cur_root s' = cur_root s \<and> cur_tabs s' = cur_tabs s \<and> masked old \<and> masked new \<and>
     (\<exists>fl. vmm_query_info s va = Some (old OR (va AND 0xfff), fl)) \<and>
     (\<forall>va'. page_number va' \<noteq> page_number va \<longrightarrow> vmm_query_info s' va' = vmm_query_info s va') \<and>
     (\<forall>va'. page_number va' = page_number va \<longrightarrow> (\<exists>fl. vmm_query_info s' va' = Some (new OR (va' AND 0xfff), fl))) \<and>
     (\<forall>x. page_of x \<notin> cur_tabs s \<longrightarrow> pg_mem s' x = (if page_of x = new then pg_mem s (old + (x - new)) else pg_mem s x)) \<and>
     cow_private s old new s'"

lemma resolve_moved:
  assumes inv: "pg_inv s (cur_root s)" and r: "vmm_resolve_cow_fault s (vmm_current_root s) va err = (True, s')"
  shows "\<exists>old new. cow_moved s va old new s'"
proof -
  let ?root = "cur_root s"
  from cow_fault_result [OF inv r [unfolded vmm_resolve_cow_fault_def vmm_current_root_def]]
  obtain info new where i: "paging_walk_in_root (pg_mem s) ?root va = Some info" "is_cow (wi_pte info)"
    and inv': "pg_inv s' ?root"
    and res: "cow_resolved ?root va s (wi_pte info) (wi_pte info AND PAGING_ADDR_MASK) new s'"
    and priv: "cow_private s (wi_pte info AND PAGING_ADDR_MASK) new s'"
    by auto
  define old where "old = wi_pte info AND PAGING_ADDR_MASK"
  note res = res [folded old_def] and priv = priv [folded old_def]
  have root: "cur_root s' = ?root"
    using res by (simp add: cow_resolved_def paging_config_def paging_get_current_cr3_def)
  note inv'' = inv' [folded root]
  have b0: "bit (wi_pte info) 0" using i(2) by (simp add: is_cow_def)
  have mo: "masked old" by (simp add: old_def)
  have pi: "pmm_inv (pg_pmm s)" using inv by (simp add: pg_inv_def)
  have mn: "masked new"
  proof (cases "new = old")
    case False
    with priv have "new \<in> free_set s" by (auto simp: cow_private_def Let_def split: if_splits)
    from pmm_invD(4) [OF pi pmm_invD(3) [OF pi this]] show ?thesis by (rule pool_page_masked)
  qed (use mo in simp)
  have q: "vmm_query_info s va = Some (old OR (va AND 0xfff), wi_flags info)"
    using i(1) walk_small_page [OF i(1) b0] by (simp add: vmm_query_info_def paging_get_mapping_info_def old_def)
  have "cow_moved s va old new s'"
    unfolding cow_moved_def
  proof (intro conjI)
    show "\<forall>va'. page_number va' \<noteq> page_number va \<longrightarrow> vmm_query_info s' va' = vmm_query_info s va'"
      unfolding query_eq [OF inv''] query_eq [OF inv] root using res by (simp add: cow_resolved_def)
    show "\<forall>va'. page_number va' = page_number va \<longrightarrow> (\<exists>fl. vmm_query_info s' va' = Some (new OR (va' AND 0xfff), fl))"
      unfolding query_eq [OF inv''] root using res by (simp add: cow_resolved_def)
  qed (use inv'' root res priv mo mn q in \<open>simp_all add: cow_resolved_def\<close>)
  then show ?thesis by blast
qed

lemma moved_quiet:
  assumes "cow_moved s va old new s'" and "pg_inv s (cur_root s)"
  shows "quiet s s'" "frame_busy s f \<Longrightarrow> frame_busy s' f" "frame_busy s' new \<or> new \<in> cur_tabs s"
    "new \<noteq> old \<Longrightarrow> \<not> frame_busy s new"
proof -
  from assms(2) have pi: "pmm_inv (pg_pmm s)" by (simp add: pg_inv_def)
  have free: "page_lookup (pg_pmm s) new = Some (PMM_PAGE_FREE, 0)" if "new \<noteq> old"
    using assms(1) that pmm_invD(3) [OF pi, of new] by (auto simp: cow_moved_def cow_private_def Let_def split: if_splits)
  then show nb: "new \<noteq> old \<Longrightarrow> \<not> frame_busy s new" by (simp add: frame_busy_def)
  have lk: "page_lookup (pg_pmm s') f = page_lookup (pg_pmm s) f \<or> (\<exists>r. page_lookup (pg_pmm s') f = Some (PMM_PAGE_ALLOCATED, r))" for f
    using assms(1) by (auto simp: cow_moved_def cow_private_def Let_def split: if_splits)
  have tabs: "cur_tabs s' = cur_tabs s" using assms(1) unfolding cow_moved_def by (elim conjE)
  show "frame_busy s f \<Longrightarrow> frame_busy s' f" using lk [of f] by (auto simp: frame_busy_def tabs)
  show "quiet s s'"
    unfolding quiet_def
  proof (intro allI impI)
    fix x assume b: "frame_busy s (page_of x)"
    then have "pg_mem s' x = (if page_of x = new then pg_mem s (old + (x - new)) else pg_mem s x)"
      using assms(1) by (simp add: cow_moved_def frame_busy_def)
    with b nb show "pg_mem s' x = pg_mem s x" by (cases "new = old") auto
  qed
  have "page_lookup (pg_pmm s') new \<noteq> Some (PMM_PAGE_FREE, 0)"
  proof (cases "pmm_ref_count (pg_pmm s) old = 1")
    case True
    with assms(1) have "new = old" "pg_pmm s' = pg_pmm s" by (simp_all add: cow_moved_def cow_private_def Let_def)
    with True pmm_ref_count_eq [OF pmm_invD(1) [OF pi], of old] show ?thesis by (auto split: if_splits)
  next
    case False
    with assms(1) show ?thesis by (auto simp: cow_moved_def cow_private_def Let_def)
  qed
  then show "frame_busy s' new \<or> new \<in> cur_tabs s" by (auto simp: frame_busy_def tabs)
qed

text \<open>The outcome of \<^verbatim>\<open>vmm_ensure_user_page_writable\<close>.\<close>

abbreviation VMM_USER_RW :: u64 where
  "VMM_USER_RW \<equiv> VMM_FLAG_PRESENT OR VMM_FLAG_RW OR VMM_FLAG_USER"

lemma ensure_writable:
  assumes inv: "pg_inv s (cur_root s)" and e: "vmm_ensure_user_page_writable s va = (r, s')"
  shows "pg_inv s' (cur_root s') \<and> quiet s s' \<and>
    (\<forall>phys. r = Some phys \<longrightarrow> (\<exists>fl. vmm_query_info s' va = Some (phys, fl) \<and> fl AND VMM_USER_RW = VMM_USER_RW) \<and>
       (s' = s \<or> (\<exists>old new. cow_moved s va old new s')))"
proof -
  have q0: "quiet s s" by (simp add: quiet_def)
  show ?thesis
  proof (cases "vmm_query_info s va")
    case None
    with e inv q0 show ?thesis by (auto simp: vmm_ensure_user_page_writable_def)
  next
    case (Some pf)
    obtain phys fl where q: "vmm_query_info s va = Some (phys, fl)" using Some by (cases pf) auto
    obtain ok s1 where rc: "vmm_resolve_cow_fault s (vmm_current_root s) va VMM_USER_RW = (ok, s1)"
      by (cases "vmm_resolve_cow_fault s (vmm_current_root s) va VMM_USER_RW") auto
    note e = e [unfolded vmm_ensure_user_page_writable_def Let_def q rc option.case prod.case]
    show ?thesis
    proof (cases ok)
      case True
      with rc have "vmm_resolve_cow_fault s (vmm_current_root s) va VMM_USER_RW = (True, s1)" by simp
      from resolve_moved [OF inv this] obtain old new where mv: "cow_moved s va old new s1" by blast
      then have "pg_inv s1 (cur_root s1)" unfolding cow_moved_def by (elim conjE)
      with e True mv moved_quiet(1) [OF mv inv] q q0 inv show ?thesis
        by (auto split: if_splits option.splits)
    next
      case False
      from cow_fault_result [OF inv rc [unfolded vmm_resolve_cow_fault_def vmm_current_root_def]] False
      have ref: "cow_refused (cur_root s) s s1" by simp
      then have root: "cur_root s1 = cur_root s" by (simp add: cow_refused_def paging_config_def paging_get_current_cr3_def)
      from ref have "pg_inv s1 (cur_root s1)" unfolding root by (simp add: cow_refused_def)
      moreover have "quiet s s1"
        using ref pmm_invD(3) [of "pg_pmm s"] inv by (auto simp: quiet_def cow_refused_def frame_busy_def pg_inv_def)
      ultimately show ?thesis using e False inv q q0 by (auto split: if_splits)
    qed
  qed
qed

section \<open>A range of user addresses\<close>

text \<open>
  The frames behind the range are neither tables nor free, and no frame is behind two of its
  pages.
\<close>

definition user_range :: "paging \<Rightarrow> u64 \<Rightarrow> nat \<Rightarrow> bool" where
  "user_range s a n \<longleftrightarrow>
     pg_inv s (cur_root s) \<and> unat a + n \<le> 2 ^ 47 \<and>
     (\<forall>k<n. \<forall>p fl. vmm_query_info s (a + of_nat k) = Some (p, fl) \<longrightarrow> frame_busy s (page_of p)) \<and>
     (\<forall>j<n. \<forall>k<n. \<forall>p fl q fl'. vmm_query_info s (a + of_nat j) = Some (p, fl) \<longrightarrow>
        vmm_query_info s (a + of_nat k) = Some (q, fl') \<longrightarrow> page_of p = page_of q \<longrightarrow>
        page_of (a + of_nat j) = page_of (a + of_nat k))"

lemma range_addr:
  assumes "unat a + n \<le> 2 ^ 47" and "k < n"
  shows "unat (a + of_nat k :: u64) = unat a + k"
proof -
  have k: "unat (of_nat k :: u64) = k" using assms by (simp add: unat_of_nat)
  have "unat a + unat (of_nat k :: u64) < 2 ^ 64" unfolding k using assms by simp
  then show ?thesis using k unat_add_lem [of a "of_nat k"] by simp
qed

lemma page_eq_div: "page_of x = page_of y \<longleftrightarrow> unat x div 4096 = unat y div 4096"
  by (auto simp: word_unat_eq_iff unat_page_of minus_mod_eq_div_mult)

lemma range_page:
  assumes "unat a + n \<le> 2 ^ 47" and "j < n" and "k < n"
  shows "page_of (a + of_nat j) = page_of (a + of_nat k) \<longleftrightarrow> (unat a + j) div 4096 = (unat a + k) div 4096"
    "page_number (a + of_nat j) = page_number (a + of_nat k) \<longleftrightarrow> page_of (a + of_nat j) = page_of (a + of_nat k)"
proof -
  have u: "unat (a + of_nat j) = unat a + j" "unat (a + of_nat k) = unat a + k" using assms range_addr by blast+
  show p: "page_of (a + of_nat j) = page_of (a + of_nat k) \<longleftrightarrow> (unat a + j) div 4096 = (unat a + k) div 4096"
    unfolding page_eq_div u ..
  have d: "unat (page_number x) = unat x div 4096" if "unat x < 2 ^ 48" for x
    using that by (simp add: page_number_def drop_bit_eq_div unat_div unsigned_take_bit_eq take_bit_nat_eq_self)
  have "unat (a + of_nat j) < 2 ^ 48" "unat (a + of_nat k) < 2 ^ 48" unfolding u using assms by simp_all
  then show "page_number (a + of_nat j) = page_number (a + of_nat k) \<longleftrightarrow> page_of (a + of_nat j) = page_of (a + of_nat k)"
    unfolding page_eq_div word_unat_eq_iff [of "page_number _"] by (simp add: d)
qed

lemma page_of_join: "masked f \<Longrightarrow> page_of (f OR (va AND 0xfff)) = f"
proof -
  assume f: "masked f"
  have m: "(0xfff :: u64) = mask 12" by (simp add: mask_eq_exp_minus_1)
  show ?thesis
    unfolding page_of_def m
    by (rule bit_word_eqI) (use f in \<open>auto simp: masked_iff_bits bit_and_iff bit_or_iff bit_not_iff bit_mask_iff\<close>)
qed

lemma user_rangeD:
  assumes "user_range s a n"
  shows "pg_inv s (cur_root s)" "unat a + n \<le> 2 ^ 47"
    "\<And>k p fl. k < n \<Longrightarrow> vmm_query_info s (a + of_nat k) = Some (p, fl) \<Longrightarrow> frame_busy s (page_of p)"
    "\<And>j k p fl q fl'. j < n \<Longrightarrow> k < n \<Longrightarrow> vmm_query_info s (a + of_nat j) = Some (p, fl) \<Longrightarrow>
       vmm_query_info s (a + of_nat k) = Some (q, fl') \<Longrightarrow> page_of p = page_of q \<Longrightarrow>
       page_of (a + of_nat j) = page_of (a + of_nat k)"
  using assms unfolding user_range_def by blast+

lemma moved_range:
  assumes mv: "cow_moved s (a + of_nat i) old new s'" and ur: "user_range s a n" and i: "i < n"
  shows "user_range s' a n"
proof -
  note ud = user_rangeD [OF ur]
  note inv = ud(1) and len = ud(2)
  note mq = moved_quiet [OF mv inv]
  from mv obtain fl0 where q0: "vmm_query_info s (a + of_nat i) = Some (old OR ((a + of_nat i) AND 0xfff), fl0)"
    and inv': "pg_inv s' (cur_root s')" and mo: "masked old" "masked new"
    unfolding cow_moved_def by blast
  have busy_old: "frame_busy s old" using ud(3) [OF i q0] by (simp add: page_of_join [OF mo(1)])
  have busy_new: "frame_busy s' new"
  proof (cases "new = old")
    case False
    with mv have "new \<in> free_set s" by (auto simp: cow_moved_def cow_private_def Let_def split: if_splits)
    with inv_tab_facts(1) [OF inv] mq(3) show ?thesis by blast
  qed (use mq(2) [OF busy_old] in simp)
  have q: "vmm_query_info s' (a + of_nat k) = Some (p, fl) \<Longrightarrow>
      if page_of (a + of_nat k) = page_of (a + of_nat i) then page_of p = new else vmm_query_info s (a + of_nat k) = Some (p, fl)"
    if "k < n" for k p fl
  proof -
    assume qk: "vmm_query_info s' (a + of_nat k) = Some (p, fl)"
    show ?thesis
    proof (cases "page_of (a + of_nat k) = page_of (a + of_nat i)")
      case True
      with range_page(2) [OF len that i] mv obtain fl' where
        "vmm_query_info s' (a + of_nat k) = Some (new OR ((a + of_nat k) AND 0xfff), fl')"
        unfolding cow_moved_def by blast
      with qk True page_of_join [OF mo(2)] show ?thesis by auto
    next
      case False
      with range_page(2) [OF len that i] mv qk show ?thesis unfolding cow_moved_def by auto
    qed
  qed
  have cross: "page_of p \<noteq> new" if "k < n" "page_of (a + of_nat k) \<noteq> page_of (a + of_nat i)"
    "vmm_query_info s (a + of_nat k) = Some (p, fl)" for k p fl
  proof (cases "new = old")
    case True
    with ud(4) [OF that(1) i that(3) q0] that(2) show ?thesis by (auto simp: page_of_join [OF mo(1)])
  next
    case False
    with mq(4) ud(3) [OF that(1,3)] show ?thesis by blast
  qed
  show ?thesis
    unfolding user_range_def
  proof (intro conjI allI impI)
    show "frame_busy s' (page_of p)" if "k < n" "vmm_query_info s' (a + of_nat k) = Some (p, fl)" for k p fl
      using q [OF that] busy_new ud(3) [OF that(1)] mq(2) by (auto split: if_splits)
    show "page_of (a + of_nat j) = page_of (a + of_nat k)" if jk: "j < n" "k < n"
      "vmm_query_info s' (a + of_nat j) = Some (p, fl)" "vmm_query_info s' (a + of_nat k) = Some (q, fl')" "page_of p = page_of q"
      for j k p fl q fl'
      using q [OF jk(1,3)] q [OF jk(2,4)] cross [OF jk(1)] cross [OF jk(2)] ud(4) [OF jk(1,2) _ _ jk(5)] jk(5)
      by (cases "page_of (a + of_nat j) = page_of (a + of_nat i)"; cases "page_of (a + of_nat k) = page_of (a + of_nat i)") simp_all
  qed (use inv' len in simp_all)
qed

section \<open>One chunk\<close>

lemma chunk_pages:
  fixes sz offset :: u32
  assumes ch: "vmm_page_chunk_size (a + ucast offset) (ucast (sz - offset)) = (chunk, po)" and lt: "offset < sz"
    and len: "unat a + unat sz \<le> 2 ^ 47"
  shows "unat offset \<le> k \<Longrightarrow> k < unat offset + unat chunk \<Longrightarrow> page_of (a + of_nat k) = page_of (a + of_nat (unat offset))"
    "k < unat offset + unat chunk \<Longrightarrow> unat offset + unat chunk \<le> k' \<Longrightarrow> k' < unat sz \<Longrightarrow>
       page_of (a + of_nat k) \<noteq> page_of (a + of_nat k')"
proof -
  note st = chunk_step32 [OF ch lt]
  have o: "unat offset < unat sz" using lt by (simp add: word_less_nat_alt)
  have ua: "unat (a + ucast offset) = unat a + unat offset" using range_addr [OF len o] by simp
  have rest: "unat (ucast (sz - offset) :: u64) = unat sz - unat offset"
    using lt unat_sub [of offset sz] unsigned_less [of "sz - offset", where ?'a = nat]
    by (simp add: unsigned_ucast_eq take_bit_nat_eq_self order_less_imp_le)
  note c = chunk_size(1) [OF ch, unfolded ua rest]
  show "page_of (a + of_nat k) = page_of (a + of_nat (unat offset))" if k: "unat offset \<le> k" "k < unat offset + unat chunk"
  proof -
    have "unat chunk \<le> 4096 - (unat a + unat offset) mod 4096" using c by simp
    with k have "k - unat offset < 4096 - unat (a + ucast offset) mod 4096" unfolding ua by linarith
    from page_advance(1) [OF this] k(1) show ?thesis by (simp add: add.assoc of_nat_diff)
  qed
  show "page_of (a + of_nat k) \<noteq> page_of (a + of_nat k')"
    if k: "k < unat offset + unat chunk" "unat offset + unat chunk \<le> k'" "k' < unat sz"
  proof -
    let ?N = "unat a + (unat offset + unat chunk)"
    have full: "unat chunk = 4096 - (unat a + unat offset) mod 4096" using c k by simp
    have "(unat a + unat offset) div 4096 * 4096 + (unat a + unat offset) mod 4096 = unat a + unat offset"
      "(unat a + unat offset) mod 4096 < 4096" by simp_all
    moreover from full this(2) have "unat chunk + (unat a + unat offset) mod 4096 = 4096" by simp
    ultimately have "?N = ((unat a + unat offset) div 4096 + 1) * 4096" unfolding distrib_right by linarith
    then have "(unat a + k) div 4096 < (unat a + unat offset) div 4096 + 1" "(unat a + unat offset) div 4096 + 1 \<le> (unat a + k') div 4096"
      using k by (simp_all add: div_less_iff_less_mult less_eq_div_iff_mult_less_eq)
    moreover have "k < unat sz" using k st(2) by simp
    ultimately show ?thesis using range_page(1) [OF len _ k(3)] by simp
  qed
qed

lemma mem_write_page:
  assumes "page_aligned f" and "unat (va AND 0xfff) + length bytes \<le> 4096"
  shows "same_outside {f} m (mem_write m (f + (va AND 0xfff)) bytes)"
    "i < length bytes \<Longrightarrow> mem_write m (f + (va AND 0xfff)) bytes (f + (va AND 0xfff) + of_nat i) = bytes ! i"
proof -
  let ?A = "f + (va AND 0xfff)"
  show "same_outside {f} m (mem_write m ?A bytes)"
    unfolding same_outside_def mem_write_def
  proof (intro allI impI)
    fix x assume x: "page_of x \<notin> {f}"
    have "page_of x = f" if "unat (x - ?A) < length bytes"
    proof -
      have "f + of_nat (unat (va AND 0xfff) + unat (x - ?A)) = x" by simp
      with page_of_offset(1) [OF assms(1), of "unat (va AND 0xfff) + unat (x - ?A)"] assms(2) that show ?thesis by simp
    qed
    with x show "(if unat (x - ?A) < length bytes then bytes ! unat (x - ?A) else m x) = m x" by auto
  qed
  show "mem_write m ?A bytes (?A + of_nat i) = bytes ! i" if "i < length bytes"
    using that assms(2) by (simp add: mem_write_def unat_of_nat)
qed

lemma user_rw_flags:
  assumes "fl AND VMM_USER_RW = VMM_USER_RW"
  shows "fl AND (VMM_FLAG_PRESENT OR VMM_FLAG_USER) = VMM_FLAG_PRESENT OR VMM_FLAG_USER" "fl AND VMM_FLAG_RW \<noteq> 0"
proof -
  have sub: "fl AND m = m" if "VMM_USER_RW AND m = m" for m
  proof -
    have "fl AND m = (fl AND VMM_USER_RW) AND m" using that by (simp only: and.assoc)
    with assms that show ?thesis by (simp only:)
  qed
  have "VMM_USER_RW AND (VMM_FLAG_PRESENT OR VMM_FLAG_USER) = VMM_FLAG_PRESENT OR VMM_FLAG_USER" "VMM_USER_RW AND VMM_FLAG_RW = VMM_FLAG_RW"
    "VMM_FLAG_RW \<noteq> 0" by (simp_all add: VMM_FLAG_PRESENT_def VMM_FLAG_RW_def VMM_FLAG_USER_def)
  with sub show "fl AND (VMM_FLAG_PRESENT OR VMM_FLAG_USER) = VMM_FLAG_PRESENT OR VMM_FLAG_USER" "fl AND VMM_FLAG_RW \<noteq> 0"
    by simp_all
qed

text \<open>
  What a copy leaves alone: memory in use that the range does not reach, and shared
  copy-on-write pages that it does reach.
\<close>

definition untouched :: "paging \<Rightarrow> u64 \<Rightarrow> nat \<Rightarrow> nat \<Rightarrow> u64 \<Rightarrow> bool" where
  "untouched s a k0 n x \<longleftrightarrow>
     frame_busy s (page_of x) \<and>
     (\<forall>k fl. k0 \<le> k \<longrightarrow> k < n \<longrightarrow> vmm_query_info s (a + of_nat k) = Some (x, fl) \<longrightarrow>
        fl AND VMM_FLAG_RW = 0 \<and> pmm_ref_count (pg_pmm s) (page_of x) \<noteq> 1)"

lemma write_chunk:
  assumes ur: "user_range s a n" and i: "i < n" and q: "vmm_query_info s (a + of_nat i) = Some (phys, fl)"
    and fl: "fl AND VMM_USER_RW = VMM_USER_RW" and c: "length bytes \<le> 4096 - unat (a + of_nat i) mod 4096"
  defines "A \<equiv> page_of phys + ((a + of_nat i) AND 0xfff)"
  defines "s' \<equiv> s\<lparr>pg_mem := mem_write (pg_mem s) A bytes\<rparr>"
  shows "user_range s' a n" "j < length bytes \<Longrightarrow> user_byte s' (a + of_nat (i + j)) = Some (bytes ! j)"
    "vmm_query_info s' va = vmm_query_info s va" "pg_pmm s' = pg_pmm s" "frame_busy s' f \<longleftrightarrow> frame_busy s f"
    "(\<And>j. j < length bytes \<Longrightarrow> x \<noteq> A + of_nat j) \<Longrightarrow> pg_mem s' x = pg_mem s x"
proof -
  note ud = user_rangeD [OF ur]
  have busy: "frame_busy s (page_of phys)" by (rule ud(3) [OF i q])
  have "unat ((a + of_nat i) AND 0xfff) = unat (a + of_nat i) mod 4096" by (rule unat_and_low)
  then have len: "unat ((a + of_nat i) AND 0xfff) + length bytes \<le> 4096" using c by simp
  note mw = mem_write_page [OF page_of_aligned [of phys] len, where m = "pg_mem s", folded A_def]
  have "page_of phys \<notin> cur_tabs s" using busy by (simp add: frame_busy_def)
  note wf = write_frame [OF ud(1) mw(1) this, folded s'_def]
  show qs: "vmm_query_info s' va = vmm_query_info s va" for va by (fact wf(4))
  show pm: "pg_pmm s' = pg_pmm s" by (fact wf(5))
  show fb: "frame_busy s' f \<longleftrightarrow> frame_busy s f" for f unfolding frame_busy_def wf(3) pm ..
  show "user_range s' a n" using ur wf(1) unfolding user_range_def qs fb by blast
  show "user_byte s' (a + of_nat (i + j)) = Some (bytes ! j)" if j: "j < length bytes"
  proof -
    have "j < 4096 - unat (a + of_nat i) mod 4096" using j c by simp
    note q2 = query_same_page [OF q this]
    have m: "(phys AND NOT (VMM_PAGE_SIZE - 1)) + ((a + of_nat i) AND 0xfff) = A"
      by (simp add: A_def page_of_def VMM_PAGE_SIZE_def)
    have ad: "a + of_nat i + of_nat j = a + of_nat (i + j)" by (simp add: add.assoc)
    have "pg_mem s' = mem_write (pg_mem s) A bytes" by (simp add: s'_def)
    with q2 [unfolded m ad] mw(2) [OF j] user_rw_flags(1) [OF fl] show ?thesis
      by (simp add: user_byte_def qs)
  qed
  show "pg_mem s' x = pg_mem s x" if x: "\<And>j. j < length bytes \<Longrightarrow> x \<noteq> A + of_nat j"
  proof -
    have "\<not> unat (x - A) < length bytes" using x [of "unat (x - A)"] by auto
    then show ?thesis by (simp add: s'_def mem_write_def)
  qed
qed

lemma ensure_other:
  assumes ur: "user_range s a n" and i: "i < n" and k: "k < n" "page_of (a + of_nat k) \<noteq> page_of (a + of_nat i)"
    and mv: "s1 = s \<or> (\<exists>old new. cow_moved s (a + of_nat i) old new s1)"
  shows "vmm_query_info s1 (a + of_nat k) = vmm_query_info s (a + of_nat k)"
  using mv
proof (elim disjE exE)
  fix old new assume "cow_moved s (a + of_nat i) old new s1"
  with range_page(2) [OF user_rangeD(2) [OF ur] k(1) i] k(2) show ?thesis unfolding cow_moved_def by blast
qed simp

lemma chunk_page:
  assumes "j < 4096 - unat va mod 4096"
  shows "page_of (page_of phys + (va AND 0xfff) + of_nat j) = page_of phys"
proof -
  have "page_of phys + (va AND 0xfff) + of_nat j = page_of phys + of_nat (unat va mod 4096 + j)"
    unfolding low_of_nat of_nat_add by (simp only: add.assoc)
  with page_of_offset(1) [OF page_of_aligned [of phys], of "unat va mod 4096 + j"] assms show ?thesis by (simp only: less_diff_conv add.commute [of j])
qed

text \<open>The bytes stored in one chunk are not among those that the copy leaves alone.\<close>

lemma untouched_miss:
  assumes inv: "pg_inv s (cur_root s)" and un: "untouched s a i n x" and i: "i + j < n"
    and q: "vmm_query_info s1 (a + of_nat i) = Some (phys, fl)" "fl AND VMM_USER_RW = VMM_USER_RW"
    and mv: "s1 = s \<or> (\<exists>old new. cow_moved s (a + of_nat i) old new s1)"
    and j: "j < 4096 - unat (a + of_nat i) mod 4096"
  shows "x \<noteq> page_of phys + ((a + of_nat i) AND 0xfff) + of_nat j"
proof
  let ?va = "a + of_nat i"
  assume x: "x = page_of phys + (?va AND 0xfff) + of_nat j"
  have px: "page_of x = page_of phys" unfolding x by (rule chunk_page [OF j])
  have no: False if "vmm_query_info s ?va = Some (p, f)" "page_of p = page_of phys"
    "f AND VMM_FLAG_RW \<noteq> 0 \<or> pmm_ref_count (pg_pmm s) (page_of x) = 1" for p f
  proof -
    have "vmm_query_info s (a + of_nat (i + j)) = Some (x, f)"
      using query_same_page [OF that(1) j] that(2) unfolding x by (simp add: page_of_def VMM_PAGE_SIZE_def add.assoc)
    with un i that(3) show False unfolding untouched_def by (meson le_add1)
  qed
  from mv show False
  proof (elim disjE exE)
    assume "s1 = s"
    with no q user_rw_flags(2) [OF q(2)] show False by blast
  next
    fix old new assume mv: "cow_moved s ?va old new s1"
    then obtain f0 f1 where qs: "vmm_query_info s ?va = Some (old OR (?va AND 0xfff), f0)"
      "vmm_query_info s1 ?va = Some (new OR (?va AND 0xfff), f1)" and mo: "masked old" "masked new"
      unfolding cow_moved_def by blast
    have ph: "page_of phys = new" using q(1) qs(2) page_of_join [OF mo(2)] by auto
    show False
    proof (cases "new = old")
      case True
      with mv have "pmm_ref_count (pg_pmm s) old = 1"
        by (auto simp: cow_moved_def cow_private_def Let_def split: if_splits)
      with no [OF qs(1)] True ph px page_of_join [OF mo(1)] show False by simp
    next
      case False
      with moved_quiet(4) [OF mv inv] un ph px show False by (simp add: untouched_def)
    qed
  qed
qed

lemma moved_ref_count:
  assumes "cow_moved s va old new s1" and "pg_inv s (cur_root s)" and "f \<noteq> old" and "f \<noteq> new"
  shows "pmm_ref_count (pg_pmm s1) f = pmm_ref_count (pg_pmm s) f"
proof -
  have "page_lookup (pg_pmm s1) f = page_lookup (pg_pmm s) f"
    using assms by (auto simp: cow_moved_def cow_private_def Let_def split: if_splits)
  moreover have "index_ok (pg_pmm s1)" "index_ok (pg_pmm s)"
    using assms by (auto simp: cow_moved_def pg_inv_def pmm_invD(1))
  ultimately show ?thesis by (simp add: pmm_ref_count_eq)
qed

lemma ensure_untouched:
  assumes ur: "user_range s a n" and i: "i < n" and un: "untouched s a i n x" and "i \<le> i'"
    and mv: "s1 = s \<or> (\<exists>old new. cow_moved s (a + of_nat i) old new s1)"
    and later: "\<And>k. i' \<le> k \<Longrightarrow> k < n \<Longrightarrow> page_of (a + of_nat k) \<noteq> page_of (a + of_nat i)"
  shows "untouched s1 a i' n x"
  using mv
proof (elim disjE exE)
  assume "s1 = s"
  with un assms(4) show ?thesis unfolding untouched_def by (meson le_trans)
next
  let ?va = "a + of_nat i"
  note ud = user_rangeD [OF ur]
  fix old new assume mv': "cow_moved s ?va old new s1"
  from un have busy: "frame_busy s (page_of x)" by (simp add: untouched_def)
  have "f0 AND VMM_FLAG_RW = 0 \<and> pmm_ref_count (pg_pmm s1) (page_of x) \<noteq> 1"
    if k: "i' \<le> k" "k < n" "vmm_query_info s1 (a + of_nat k) = Some (x, f0)" for k f0
  proof -
    have q: "vmm_query_info s (a + of_nat k) = Some (x, f0)"
      using ensure_other [OF ur i k(2) later [OF k(1,2)] mv] k(3) by simp
    from mv' obtain f1 where q1: "vmm_query_info s ?va = Some (old OR (?va AND 0xfff), f1)" and mo: "masked old"
      unfolding cow_moved_def by blast
    have "page_of x \<noteq> old" using ud(4) [OF k(2) i q q1] later [OF k(1,2)] by (auto simp: page_of_join [OF mo])
    moreover from this have "page_of x \<noteq> new" using moved_quiet(4) [OF mv' ud(1)] busy by auto
    ultimately have "pmm_ref_count (pg_pmm s1) (page_of x) = pmm_ref_count (pg_pmm s) (page_of x)"
      by (rule moved_ref_count [OF mv' ud(1)])
    moreover have "i \<le> k" using k(1) assms(4) by simp
    ultimately show ?thesis using un k(2) q unfolding untouched_def by metis
  qed
  with moved_quiet(2) [OF mv' ud(1) busy] show ?thesis unfolding untouched_def by blast
qed

section \<open>The copy\<close>

text \<open>What one round of the loop does: \<open>i\<close> and \<open>i'\<close> are the offsets before and after it.\<close>

definition chunk_copied :: "u64 \<Rightarrow> u8 list \<Rightarrow> nat \<Rightarrow> nat \<Rightarrow> nat \<Rightarrow> paging \<Rightarrow> paging \<Rightarrow> bool" where
  "chunk_copied a src n i i' s s' \<longleftrightarrow>
     user_range s' a n \<and>
     (\<forall>k. i \<le> k \<longrightarrow> k < i' \<longrightarrow> user_byte s' (a + of_nat k) = Some (src ! k)) \<and>
     (\<forall>k<n. page_of (a + of_nat k) \<noteq> page_of (a + of_nat i) \<longrightarrow>
        user_byte s' (a + of_nat k) = user_byte s (a + of_nat k) \<and> vmm_query_info s' (a + of_nat k) = vmm_query_info s (a + of_nat k)) \<and>
     (\<forall>x. untouched s a i n x \<longrightarrow> pg_mem s' x = pg_mem s x \<and> untouched s' a i' n x)"

lemma copy_chunk:
  assumes ur: "user_range s a n" and i: "i < i'" "i' \<le> n" and src: "n \<le> length src"
    and e: "vmm_ensure_user_page_writable s (a + of_nat i) = (Some phys, s1)"
    and c: "i' - i \<le> 4096 - unat (a + of_nat i) mod 4096"
    and later: "\<And>k. i' \<le> k \<Longrightarrow> k < n \<Longrightarrow> page_of (a + of_nat k) \<noteq> page_of (a + of_nat i)"
  defines "A \<equiv> page_of phys + ((a + of_nat i) AND 0xfff)"
  defines "s' \<equiv> s1\<lparr>pg_mem := mem_write (pg_mem s1) A (take (i' - i) (drop i src))\<rparr>"
  shows "chunk_copied a src n i i' s s'"
proof -
  let ?bytes = "take (i' - i) (drop i src)"
  note ud = user_rangeD [OF ur]
  have in_n: "i < n" using i by simp
  have len: "length ?bytes = i' - i" using i src by simp
  from ensure_writable [OF ud(1) e] obtain fl where qt: "quiet s s1"
    and q1: "vmm_query_info s1 (a + of_nat i) = Some (phys, fl)" "fl AND VMM_USER_RW = VMM_USER_RW"
    and mv: "s1 = s \<or> (\<exists>old new. cow_moved s (a + of_nat i) old new s1)" by blast
  have ur1: "user_range s1 a n" using mv ur moved_range [OF _ ur in_n] by blast
  note ud1 = user_rangeD [OF ur1]
  note wc = write_chunk [OF ur1 in_n q1, of ?bytes, unfolded len, OF c, folded A_def, folded s'_def]
  have bytes: "user_byte s' (a + of_nat k) = Some (src ! k)" if "i \<le> k" "k < i'" for k
    using wc(2) [of "k - i"] that src i by simp
  have other: "user_byte s' (a + of_nat k) = user_byte s (a + of_nat k) \<and> vmm_query_info s' (a + of_nat k) = vmm_query_info s (a + of_nat k)"
    if k: "k < n" "page_of (a + of_nat k) \<noteq> page_of (a + of_nat i)" for k
  proof -
    have qk: "vmm_query_info s' (a + of_nat k) = vmm_query_info s (a + of_nat k)" "vmm_query_info s1 (a + of_nat k) = vmm_query_info s (a + of_nat k)"
      using ensure_other [OF ur in_n k mv] wc(3) by simp_all
    have "pg_mem s' p = pg_mem s p" if q: "vmm_query_info s (a + of_nat k) = Some (p, f)" for p f
    proof -
      have "page_of p \<noteq> page_of phys" using ud1(4) [OF k(1) in_n q [folded qk(2)] q1(1)] k(2) by blast
      then have "p \<noteq> A + of_nat j" if "j < i' - i" for j
        using chunk_page [of j "a + of_nat i" phys] c that unfolding A_def by auto
      then have "pg_mem s' p = pg_mem s1 p" by (rule wc(6))
      with qt ud(3) [OF k(1) q] show ?thesis by (simp add: quiet_def)
    qed
    then show ?thesis using qk(1) by (auto simp: user_byte_def split: option.splits)
  qed
  have left: "pg_mem s' x = pg_mem s x \<and> untouched s' a i' n x" if un: "untouched s a i n x" for x
  proof -
    have "x \<noteq> A + of_nat j" if "j < i' - i" for j
      unfolding A_def by (rule untouched_miss [OF ud(1) un _ q1 mv]) (use that c i in simp_all)
    then have "pg_mem s' x = pg_mem s1 x" by (rule wc(6))
    moreover have "pg_mem s1 x = pg_mem s x" using qt un by (simp add: quiet_def untouched_def)
    moreover have "untouched s1 a i' n x" by (rule ensure_untouched [OF ur in_n un _ mv later]) (use i in simp_all)
    ultimately show ?thesis unfolding untouched_def wc(3,4,5) by simp
  qed
  show ?thesis unfolding chunk_copied_def using wc(1) bytes other left by blast
qed

lemma copy_to_loop_step:
  assumes ur: "user_range s a (unat sz)" and lt: "offset < sz" and src: "unat sz \<le> length src"
    and loop: "copy_to_loop a src sz offset s = (ok, s')"
  shows "\<not> ok \<and> pg_inv s' (cur_root s') \<and> quiet s s' \<and>
       (\<forall>p fl. vmm_query_info s (a + of_nat (unat offset)) = Some (p, fl) \<longrightarrow> fl AND VMM_USER_RW \<noteq> VMM_USER_RW) \<or>
    (\<exists>chunk s2. copy_to_loop a src sz (offset + chunk) s2 = (ok, s') \<and> 0 < unat chunk \<and>
       unat (offset + chunk) = unat offset + unat chunk \<and> unat offset + unat chunk \<le> unat sz \<and>
       chunk_copied a src (unat sz) (unat offset) (unat offset + unat chunk) s s2 \<and>
       (\<forall>k k'. k < unat offset + unat chunk \<longrightarrow> unat offset + unat chunk \<le> k' \<longrightarrow> k' < unat sz \<longrightarrow>
          page_of (a + of_nat k) \<noteq> page_of (a + of_nat k')))"
proof -
  let ?virt = "a + of_nat (unat offset) :: u64"
  have virt: "a + ucast offset = ?virt" by simp
  obtain chunk po where ch: "vmm_page_chunk_size (a + ucast offset) (ucast (sz - offset)) = (chunk, po)"
    by (cases "vmm_page_chunk_size (a + ucast offset) (ucast (sz - offset))") auto
  note ud = user_rangeD [OF ur]
  note st = chunk_step32 [OF ch lt] and cs = chunk_size [OF ch] and cp = chunk_pages [OF ch lt ud(2)]
  obtain r s1 where e: "vmm_ensure_user_page_writable s ?virt = (r, s1)"
    by (cases "vmm_ensure_user_page_writable s ?virt") auto
  note loop = loop [unfolded copy_to_loop.simps [of a src sz offset] Let_def ch prod.case eqTrueI [OF lt] simp_thms if_False virt e]
  show ?thesis
  proof (cases r)
    case None
    with loop e have "\<not> ok" "s' = s1" by simp_all
    moreover have "fl AND VMM_USER_RW \<noteq> VMM_USER_RW" if "vmm_query_info s ?virt = Some (p, fl)" for p fl
      using e that None by (auto simp: vmm_ensure_user_page_writable_def Let_def)
    ultimately show ?thesis using ensure_writable [OF ud(1) e] by blast
  next
    case (Some phys)
    define s2 where "s2 = s1\<lparr>pg_mem := mem_write (pg_mem s1) (page_of phys + (?virt AND 0xfff)) (take (unat chunk) (drop (unat offset) src))\<rparr>"
    have po: "po = ?virt AND 0xfff" using cs by simp
    have "phys AND NOT (VMM_PAGE_SIZE - 1) = page_of phys" by (simp add: page_of_def VMM_PAGE_SIZE_def)
    with loop Some have "copy_to_loop a src sz (offset + chunk) s2 = (ok, s')" by (simp add: s2_def po ch)
    moreover have "chunk_copied a src (unat sz) (unat offset) (unat offset + unat chunk) s s2"
    proof -
      have later: "page_of (a + of_nat k) \<noteq> page_of ?virt" if "unat offset + unat chunk \<le> k" "k < unat sz" for k
        using cp(2) [of "unat offset" k] that st(4) by (metis less_add_same_cancel1)
      have "unat chunk \<le> 4096 - unat ?virt mod 4096" using cs(1) by simp
      with copy_chunk [OF ur _ st(2) src e [unfolded Some] _ later] st(4) show ?thesis by (simp add: s2_def)
    qed
    ultimately show ?thesis using st cp by blast
  qed
qed

text \<open>
  The loop from \<open>offset\<close> on: what is left alone stays, whether it succeeds or not; when it
  succeeds the range holds the source; it succeeds when the range is mapped writable.
\<close>

lemma copy_to_loop_spec:
  assumes "copy_to_loop a src sz offset s = (ok, s')" and "offset \<le> sz" and "user_range s a (unat sz)"
    and "unat sz \<le> length src" and "\<And>k. k < unat offset \<Longrightarrow> user_byte s (a + of_nat k) = Some (src ! k)"
    and "\<And>k k'. k < unat offset \<Longrightarrow> unat offset \<le> k' \<Longrightarrow> k' < unat sz \<Longrightarrow> page_of (a + of_nat k) \<noteq> page_of (a + of_nat k')"
  shows "pg_inv s' (cur_root s') \<and>
    (\<forall>x. untouched s a (unat offset) (unat sz) x \<longrightarrow> pg_mem s' x = pg_mem s x) \<and>
    (ok \<longrightarrow> (\<forall>k<unat sz. user_byte s' (a + of_nat k) = Some (src ! k))) \<and>
    ((\<forall>k. unat offset \<le> k \<longrightarrow> k < unat sz \<longrightarrow> (\<exists>p fl. vmm_query_info s (a + of_nat k) = Some (p, fl) \<and> fl AND VMM_USER_RW = VMM_USER_RW)) \<longrightarrow> ok)"
  using assms
proof (induction "unat sz - unat offset" arbitrary: offset s rule: less_induct)
  case less
  show ?case
  proof (cases "offset < sz")
    case False
    with less.prems(2) have "offset = sz" by simp
    with less.prems user_rangeD(1) [OF less.prems(3)] show ?thesis by (simp add: copy_to_loop.simps [of a src sz sz])
  next
    case True
    then have lt: "unat offset < unat sz" by (simp add: word_less_nat_alt)
    from copy_to_loop_step [OF less.prems(3) True less.prems(4,1)] show ?thesis
    proof (elim disjE conjE exE)
      assume "\<not> ok" "pg_inv s' (cur_root s')" "quiet s s'"
        "\<forall>p fl. vmm_query_info s (a + of_nat (unat offset)) = Some (p, fl) \<longrightarrow> fl AND VMM_USER_RW \<noteq> VMM_USER_RW"
      with lt show ?thesis unfolding quiet_def untouched_def by blast
    next
      fix chunk :: u32 and s2
      let ?i' = "unat offset + unat chunk"
      assume r: "copy_to_loop a src sz (offset + chunk) s2 = (ok, s')" "0 < unat chunk" "unat (offset + chunk) = ?i'" "?i' \<le> unat sz"
        and cc: "chunk_copied a src (unat sz) (unat offset) ?i' s s2"
        and pages: "\<forall>k k'. k < ?i' \<longrightarrow> ?i' \<le> k' \<longrightarrow> k' < unat sz \<longrightarrow> page_of (a + of_nat k) \<noteq> page_of (a + of_nat k')"
      have past: "user_byte s2 (a + of_nat k) = Some (src ! k)" if k: "k < ?i'" for k
      proof (cases "k < unat offset")
        case True
        then have "page_of (a + of_nat k) \<noteq> page_of (a + of_nat (unat offset))" by (rule less.prems(6)) (use lt in simp_all)
        with cc less.prems(5) [OF True] order_less_trans [OF True lt] show ?thesis unfolding chunk_copied_def by simp
      next
        case False
        with k cc show ?thesis unfolding chunk_copied_def by (simp add: not_less)
      qed
      have ahead: "vmm_query_info s2 (a + of_nat k) = vmm_query_info s (a + of_nat k)" if k: "?i' \<le> k" "k < unat sz" for k
      proof -
        have "page_of (a + of_nat (unat offset)) \<noteq> page_of (a + of_nat k)" using pages [rule_format, of "unat offset" k] k r(2) by simp
        with cc k show ?thesis unfolding chunk_copied_def by (simp add: not_sym)
      qed
      from cc have ur2: "user_range s2 a (unat sz)" and
        un: "\<And>x. untouched s a (unat offset) (unat sz) x \<Longrightarrow> pg_mem s2 x = pg_mem s x \<and> untouched s2 a ?i' (unat sz) x"
        unfolding chunk_copied_def by blast+
      have le: "offset + chunk \<le> sz" using r by (simp add: word_le_nat_alt)
      have IH: "pg_inv s' (cur_root s') \<and>
        (\<forall>x. untouched s2 a ?i' (unat sz) x \<longrightarrow> pg_mem s' x = pg_mem s2 x) \<and>
        (ok \<longrightarrow> (\<forall>k<unat sz. user_byte s' (a + of_nat k) = Some (src ! k))) \<and>
        ((\<forall>k. ?i' \<le> k \<longrightarrow> k < unat sz \<longrightarrow> (\<exists>p fl. vmm_query_info s2 (a + of_nat k) = Some (p, fl) \<and> fl AND VMM_USER_RW = VMM_USER_RW)) \<longrightarrow> ok)"
        by (rule less.hyps [of "offset + chunk" s2, unfolded r(3), OF _ r(1) le ur2 less.prems(4) past])
           (use r(2) lt pages in \<open>linarith, blast+\<close>)
      have "(\<forall>k. unat offset \<le> k \<longrightarrow> k < unat sz \<longrightarrow> (\<exists>p fl. vmm_query_info s (a + of_nat k) = Some (p, fl) \<and> fl AND VMM_USER_RW = VMM_USER_RW)) \<longrightarrow> ok"
      proof
        assume rw: "\<forall>k. unat offset \<le> k \<longrightarrow> k < unat sz \<longrightarrow> (\<exists>p fl. vmm_query_info s (a + of_nat k) = Some (p, fl) \<and> fl AND VMM_USER_RW = VMM_USER_RW)"
        have "\<exists>p fl. vmm_query_info s2 (a + of_nat k) = Some (p, fl) \<and> fl AND VMM_USER_RW = VMM_USER_RW" if k: "?i' \<le> k" "k < unat sz" for k
          unfolding ahead [OF k] using rw k by (meson le_add1 le_trans)
        with IH show ok by blast
      qed
      moreover have "pg_mem s' x = pg_mem s x" if "untouched s a (unat offset) (unat sz) x" for x
        using IH un [OF that] by simp
      ultimately show ?thesis using IH by blast
    qed
  qed
qed

end
