(* ===== verification/Paging_Props.thy ===== *)
theory Paging_Props
  imports Paging_Cow Paging_Boot Pmm_Props
begin

text \<open>
  The properties of the page tables, stated over \<^verbatim>\<open>paging_translate_current\<close>, the translation
  of the root in CR3.
\<close>

section \<open>Translations of the current root\<close>

abbreviation cur_inv :: "paging \<Rightarrow> bool" where
  "cur_inv s \<equiv> pg_inv s (paging_get_current_cr3 s)"

lemma translate_current_eq:
  assumes "cur_inv s"
  shows "paging_translate_current s va = pt_trans 4 (pg_mem s) (paging_get_current_cr3 s) va"
proof -
  have "pg_cr3 s \<noteq> 0" using root_facts(1) [OF assms] by (auto simp: paging_get_current_cr3_def)
  then show ?thesis by (simp add: paging_translate_current_def translate_eq_trans paging_get_current_cr3_def)
qed

lemma frame_cr3: "pg_frame root s s' \<Longrightarrow> paging_get_current_cr3 s' = paging_get_current_cr3 s"
  by (simp add: pg_frame_def paging_config_def paging_get_current_cr3_def)

lemma frame_cur_inv: "pg_frame (paging_get_current_cr3 s) s s' \<Longrightarrow> cur_inv s'"
  by (simp add: frame_cr3) (simp add: pg_frame_def)

text \<open>The address space of the current root as a whole.\<close>

lemma frame_translate:
  assumes "pg_frame (paging_get_current_cr3 s) s s'"
  shows "paging_translate_current s' va = pt_trans 4 (pg_mem s') (paging_get_current_cr3 s) va"
  using translate_current_eq [OF frame_cur_inv [OF assms]] by (simp add: frame_cr3 [OF assms])

lemma unmap_hits:
  assumes inv: "cur_inv s" and valid: "paging_validate_page_address va"
    and i: "paging_walk_in_root (pg_mem s) (paging_get_current_cr3 s) va = Some info" "bit (wi_pte info) 0"
  shows "\<exists>s'. paging_unmap_page s va = (Some (wi_pte info AND PAGING_ADDR_MASK), s')"
proof -
  note rf = root_facts [OF inv]
  note i = i(1) [unfolded paging_walk_in_root_def Let_def rf(3) lvl_index_eqs flag_iff] i(2)
  from i valid rf(1) show ?thesis
    by (auto simp: paging_unmap_page_def Let_def rf(3) lvl_index_eqs flag_iff entry_get_def split: if_splits)
qed

lemma translate_page_none:
  assumes "cur_inv s" and "page_number va' = page_number va"
  shows "pt_trans 4 (pg_mem s) (paging_get_current_cr3 s) va' = None \<longleftrightarrow>
    pt_trans 4 (pg_mem s) (paging_get_current_cr3 s) va = None"
proof -
  have "same_prefix 4 0 va va'" using assms(2) by (simp add: same_prefix_page)
  then have "lvl_index 4 va' = lvl_index 4 va" "lvl_index 3 va' = lvl_index 3 va" "lvl_index 2 va' = lvl_index 2 va"
    "lvl_index 1 va' = lvl_index 1 va"
    using same_prefix_step [of 0 4 va va'] same_prefix_step [of 1 4 va va'] same_prefix_step [of 2 4 va va']
      same_prefix_step [of 3 4 va va'] by (simp_all add: eval_nat_numeral)
  then show ?thesis by (simp add: pt_trans_4 Let_def)
qed

lemma unmap_frees:
  assumes inv: "cur_inv s" and u: "paging_unmap_page s va = (Some phys, s')"
  shows "\<exists>info. paging_walk_in_root (pg_mem s) (paging_get_current_cr3 s) va = Some info \<and>
    (let ts = emptied_tables (pg_mem s) va (wi_pt_phys info) (wi_pd_phys info) (wi_pdpt_phys info) in
     free_page_stack (pg_pmm s') = free_page_stack (pg_pmm s) @ ts \<and>
     pt_tabs 4 (pg_mem s') (paging_get_current_cr3 s) = pt_tabs 4 (pg_mem s) (paging_get_current_cr3 s) - set ts)"
proof -
  note ur = unmap_page_result [OF inv refl u, unfolded option.case]
  from ur obtain t3 t2 t1 where lp: "leaf_path s (paging_get_current_cr3 s) va t3 t2 t1"
    and e: "bit (entry_get s (t1, lvl_index 1 va)) 0"
    and f: "free_page_stack (pg_pmm s') = free_page_stack (pg_pmm s) @ emptied_tables (pg_mem s) va t1 t2 t3" by blast
  from ur have fr: "pg_frame (paging_get_current_cr3 s) s s'" by simp
  from leaf_path_walk [OF lp inv e] frame_tables [OF inv fr f] f show ?thesis by (simp add: Let_def)
qed

text \<open>Unmapping a page right after mapping it.\<close>

lemma map_then_unmap:
  assumes inv: "cur_inv s" and m: "paging_map_page_with_exec s va phys us wr x = (True, s1)"
  shows "\<exists>s2. paging_unmap_page s1 va = (Some (phys AND PAGING_ADDR_MASK), s2) \<and>
    pg_frame (paging_get_current_cr3 s) s s2 \<and>
    (\<forall>va'. paging_translate_current s2 va' = paging_translate_current s va')"
proof -
  let ?root = "paging_get_current_cr3 s"
  note mr = map_page_result [OF inv refl m, simplified]
  then have fr: "pg_frame ?root s s1" by simp
  note inv1 = frame_cur_inv [OF fr] and cr3 = frame_cr3 [OF fr]
  from m have valid: "paging_validate_page_address va"
    by (auto simp: paging_map_page_with_exec_def split: if_splits)
  from mr obtain info where i: "paging_walk_in_root (pg_mem s1) (paging_get_current_cr3 s1) va = Some info"
    "wi_pte info = (phys AND PAGING_ADDR_MASK) OR leaf_flags s us wr x" by (auto simp: cr3)
  note le = leaf_entry [OF i(2)]
  from unmap_hits [OF inv1 valid i(1) le(1)] obtain s2 where
    u: "paging_unmap_page s1 va = (Some (phys AND PAGING_ADDR_MASK), s2)" by (auto simp: le(2))
  note ur = unmap_page_result [OF inv1 refl u, simplified, unfolded cr3]
  then have fr2: "pg_frame ?root s s2" using pg_frame_trans [OF fr] by blast
  have "paging_translate_current s2 va' = paging_translate_current s va'" for va'
  proof (cases "page_number va' = page_number va")
    case True
    then have "pt_trans 4 (pg_mem s) ?root va' = pt_trans 4 (pg_mem s) ?root va"
      using mr translate_page_none [OF inv True] by simp
    with True ur mr show ?thesis by (simp add: frame_translate [OF fr2] translate_current_eq [OF inv])
  next
    case False
    with ur mr show ?thesis by (simp add: frame_translate [OF fr2] translate_current_eq [OF inv])
  qed
  with u fr2 show ?thesis by blast
qed

section \<open>A concrete address space\<close>

text \<open>Seven free pages, one of them the empty root.\<close>

definition pg_demo_map :: "janus_memmap_entry list" where
  "pg_demo_map = [\<lparr>mm_base = 0x100000, mm_length = 0x8000, mm_type = JANUS_MEMMAP_USABLE\<rparr>]"

definition pg_demo :: paging where
  "pg_demo = \<lparr>pg_pmm = snd (pmm_alloc_page (pmm_init pmm_cleared pg_demo_map 0x107000 0x1000)),
     pg_mem = (\<lambda>_. 0), pg_cr3 = 0x100000, g_paging_nx_enabled = True, g_kernel_guard_pages = [], g_kernel_ranges = []\<rparr>"

lemma pg_demo_stack0:
  "free_page_stack (pmm_init pmm_cleared pg_demo_map 0x107000 0x1000) =
     [0x106000, 0x105000, 0x104000, 0x103000, 0x102000, 0x101000, 0x100000]"
  by (simp add: pmm_init_def pg_demo_map_def pmm_init_region_def pmm_cleared_def pmm_eval)
    (simp add: pmm_init_pages.simps pmm_eval)

lemma pg_demo_pmm0: "pmm_inv (pmm_init pmm_cleared pg_demo_map 0x107000 0x1000)"
  by (rule pmm_reachable_inv') (rule reach_init, simp add: memmap_ok_def pg_demo_map_def)

lemma pg_demo_took:
  "pmm_took (pmm_init pmm_cleared pg_demo_map 0x107000 0x1000) [0x100000] PMM_PAGE_ALLOCATED (pg_pmm pg_demo)"
proof -
  note sp = pmm_alloc_page_spec [OF pg_demo_pmm0, unfolded pg_demo_stack0, simplified]
  from pmm_alloc_page_took [OF pg_demo_pmm0, of "0x100000" "pg_pmm pg_demo"] sp
  show ?thesis by (simp add: pg_demo_def)
qed

lemma pt_get_zero: "pt_get (\<lambda>_. 0) t i = 0"
proof -
  have "foldr (\<lambda>k v :: u64. v) xs 0 = 0" for xs :: "nat list" by (induction xs) simp_all
  then show ?thesis by (simp add: pt_get_def load64_def)
qed

lemma pg_demo_cr3: "paging_get_current_cr3 pg_demo = 0x100000"
  by (simp add: paging_get_current_cr3_def pg_demo_def PAGING_ADDR_MASK_def)

lemma pg_demo_tables:
  "pt_tabs 4 (pg_mem pg_demo) 0x100000 = {0x100000}" "pt_wf 4 (pg_mem pg_demo) 0x100000"
  "pt_trans 4 (pg_mem pg_demo) 0x100000 va = None"
proof -
  have "masked 0x100000" by (simp add: masked_def PAGING_ADDR_MASK_def)
  from empty_table [of "pg_mem pg_demo" "0x100000" 3, OF _ this]
  show "pt_tabs 4 (pg_mem pg_demo) 0x100000 = {0x100000}" "pt_wf 4 (pg_mem pg_demo) 0x100000"
    "pt_trans 4 (pg_mem pg_demo) 0x100000 va = None"
    by (simp_all add: pg_demo_def pt_get_zero)
qed

lemma pg_demo_inv: "cur_inv pg_demo"
  using pmm_took_inv [OF pg_demo_pmm0 pg_demo_took] pg_demo_took
  by (simp add: pg_demo_cr3 pg_inv_def pg_demo_tables pmm_took_def)

lemma pg_demo_free: "free_page_count (pg_pmm pg_demo) = 6"
  using pg_demo_took by (simp add: pmm_took_def pg_demo_stack0 free_page_count_def)

lemma pg_demo_translate: "paging_translate_current pg_demo va = None"
  by (simp add: translate_current_eq [OF pg_demo_inv] pg_demo_cr3 pg_demo_tables)

lemma pg_demo_maps: "\<exists>s'. paging_map_page_with_exec pg_demo 0x400000 0x90000000 True True False = (True, s')"
proof -
  obtain ok s' where m: "paging_map_page_with_exec pg_demo 0x400000 0x90000000 True True False = (ok, s')"
    by (cases "paging_map_page_with_exec pg_demo 0x400000 0x90000000 True True False") auto
  have "\<not> paging_is_kernel_guard_page pg_demo 0x400000" "paging_validate_page_address 0x400000" "paging_is_page_aligned 0x90000000"
    by (simp_all add: paging_is_kernel_guard_page_def pg_demo_def paging_validate_page_address_def
        paging_is_canonical_def paging_is_page_aligned_def)
  with map_page_result [OF pg_demo_inv refl m] have ok
    by (simp add: pg_demo_free pg_demo_cr3 pg_demo_tables split: if_splits)
  with m show ?thesis by simp
qed

text \<open>A page marked copy-on-write whose frame has two references, with a free page left for the copy.\<close>

lemma walk_leaf_path:
  assumes inv: "pg_inv s root" and i: "paging_walk_in_root (pg_mem s) root va = Some info" "bit (wi_pte info) 0"
  shows "\<exists>t3 t2 t1. leaf_path s root va t3 t2 t1 \<and> wi_pte info = entry_get s (t1, lvl_index 1 va)"
proof -
  note rf = root_facts [OF inv]
  note i = i(1) [unfolded paging_walk_in_root_def Let_def rf(3) lvl_index_eqs flag_iff] i(2)
  from i rf(1) rf(5) [of va] show ?thesis
    by (auto simp: leaf_path_def Let_def entry_get_def split: if_splits)
qed

definition pg_demo_frames :: pmm where
  "pg_demo_frames =
     (let p1 = snd (pmm_alloc_page (pg_pmm pg_demo)); p2 = snd (pmm_alloc_page p1)
      in page_set p2 0x101000 PMM_PAGE_ALLOCATED 2)"

lemma pg_demo_frames:
  "pmm_inv pg_demo_frames" "free_page_count pg_demo_frames = 4"
  "page_lookup pg_demo_frames =
     (page_lookup (pg_pmm pg_demo))(0x101000 \<mapsto> (PMM_PAGE_ALLOCATED, 2), 0x102000 \<mapsto> (PMM_PAGE_ALLOCATED, 1))"
  "set (free_page_stack pg_demo_frames) = {0x106000, 0x105000, 0x104000, 0x103000}"
proof -
  let ?p = "pg_pmm pg_demo"
  define p1 where "p1 = snd (pmm_alloc_page ?p)"
  define p2 where "p2 = snd (pmm_alloc_page p1)"
  have inv: "pmm_inv ?p" using pg_demo_inv by (simp add: pg_inv_def)
  have st: "free_page_stack ?p = [0x106000, 0x105000, 0x104000, 0x103000, 0x102000, 0x101000]"
    using pg_demo_took by (simp add: pmm_took_def pg_demo_stack0)
  have al1: "pmm_alloc_page ?p = (0x101000, p1)" by (simp add: p1_def pmm_alloc_page_spec [OF inv] st)
  have tk1: "pmm_took ?p [0x101000] PMM_PAGE_ALLOCATED p1"
    using pmm_alloc_page_took [OF inv al1] by simp
  have inv1: "pmm_inv p1" by (rule pmm_took_inv [OF inv tk1])
  have st1: "free_page_stack p1 = [0x106000, 0x105000, 0x104000, 0x103000, 0x102000]"
    using tk1 by (simp add: pmm_took_def st)
  have al2: "pmm_alloc_page p1 = (0x102000, p2)" by (simp add: p2_def pmm_alloc_page_spec [OF inv1] st1)
  have tk2: "pmm_took p1 [0x102000] PMM_PAGE_ALLOCATED p2"
    using pmm_alloc_page_took [OF inv1 al2] by simp
  have inv2: "pmm_inv p2" by (rule pmm_took_inv [OF inv1 tk2])
  have st2: "free_page_stack p2 = [0x106000, 0x105000, 0x104000, 0x103000]"
    using tk2 by (simp add: pmm_took_def st1)
  have lk2: "page_lookup p2 = (page_lookup ?p)(0x101000 \<mapsto> (PMM_PAGE_ALLOCATED, 1), 0x102000 \<mapsto> (PMM_PAGE_ALLOCATED, 1))"
    using tk1 tk2 by (auto simp: pmm_took_def)
  have def: "pg_demo_frames = page_set p2 0x101000 PMM_PAGE_ALLOCATED 2"
    by (simp add: pg_demo_frames_def p1_def p2_def)
  show "pmm_inv pg_demo_frames" unfolding def by (rule pmm_inv_page_set [OF inv2]) (simp_all add: lk2)
  show "free_page_count pg_demo_frames = 4" "set (free_page_stack pg_demo_frames) = {0x106000, 0x105000, 0x104000, 0x103000}"
    by (simp_all add: def free_page_count_def st2)
  show "page_lookup pg_demo_frames =
     (page_lookup ?p)(0x101000 \<mapsto> (PMM_PAGE_ALLOCATED, 2), 0x102000 \<mapsto> (PMM_PAGE_ALLOCATED, 1))"
    unfolding def by (subst page_lookup_page_set) (auto simp: lk2)
qed

lemma pg_demo_shared:
  "\<exists>s. pg_inv s 0x100000 \<and> free_page_stack (pg_pmm s) \<noteq> [] \<and>
     page_lookup (pg_pmm s) 0x101000 = Some (PMM_PAGE_ALLOCATED, 2) \<and>
     (\<exists>info. paging_walk_in_root (pg_mem s) 0x100000 0x400000 = Some info \<and> is_cow (wi_pte info) \<and>
        wi_pte info AND PAGING_ADDR_MASK = 0x101000)"
proof -
  let ?root = "0x100000 :: u64" and ?va = "0x400000 :: u64" and ?f = "0x101000 :: u64"
  define s where "s = pg_demo\<lparr>pg_pmm := pg_demo_frames\<rparr>"
  have cr3: "paging_get_current_cr3 s = ?root" using pg_demo_cr3 by (simp add: s_def paging_get_current_cr3_def)
  have tr: "pt_tabs 4 (pg_mem s) ?root = {?root}" "pt_trans 4 (pg_mem s) ?root va = None" for va
    by (simp_all add: s_def pg_demo_tables)
  have inv: "pg_inv s ?root"
    using pg_demo_inv by (simp add: pg_inv_def s_def pg_demo_frames pg_demo_tables pg_demo_cr3)
  obtain ok s1 where m: "paging_map_page_with_exec s ?va ?f True False False = (ok, s1)"
    by (cases "paging_map_page_with_exec s ?va ?f True False False") auto
  have "\<not> paging_is_kernel_guard_page s ?va" "paging_validate_page_address ?va" "paging_is_page_aligned ?f"
    by (simp_all add: s_def paging_is_kernel_guard_page_def pg_demo_def paging_validate_page_address_def
        paging_is_canonical_def paging_is_page_aligned_def)
  with map_page_result [OF inv cr3 [symmetric] m]
  have fr: "pg_frame ?root s s1" and wk: "\<exists>info. paging_walk_in_root (pg_mem s1) ?root ?va = Some info \<and>
      wi_pte info = (?f AND PAGING_ADDR_MASK) OR leaf_flags s True False False"
    by (simp_all add: s_def pg_demo_frames pg_demo_tables split: if_splits)
  from wk obtain info where i: "paging_walk_in_root (pg_mem s1) ?root ?va = Some info"
    "wi_pte info = (?f AND PAGING_ADDR_MASK) OR leaf_flags s True False False" by blast
  from fr have inv1: "pg_inv s1 ?root" by (simp add: pg_frame_def)
  from walk_leaf_path [OF inv1 i(1)] leaf_entry(1) [OF i(2)] obtain t3 t2 t1
    where lp: "leaf_path s1 ?root ?va t3 t2 t1" by auto
  define e where "e = wi_pte info OR PAGING_FLAG_COW"
  have e: "is_cow e" "bit e 0" "e AND PAGING_ADDR_MASK = ?f"
    unfolding e_def i(2) is_cow_def leaf_flags_def
    by (simp_all add: bit_or_iff bit_paging_flags) (simp add: PAGING_ADDR_MASK_def paging_flag_defs s_def pg_demo_def)
  define s2 where "s2 = entry_set s1 (t1, lvl_index 1 ?va) e"
  note lw = leaf_write [OF lp inv1 e(2), folded s2_def]
  from lw(1) have inv2: "pg_inv s2 ?root" by (simp add: pg_frame_def)
  have lk: "page_lookup (pg_pmm s2) ?f = Some (PMM_PAGE_ALLOCATED, 2)" "page_lookup (pg_pmm s2) 0x102000 = Some (PMM_PAGE_ALLOCATED, 1)"
    "0x102000 \<notin> pt_tabs 4 (pg_mem s2) ?root"
  proof -
    have fr2: "pg_frame ?root s s2" by (rule pg_frame_trans [OF fr lw(1)])
    have out: "?f \<notin> pg_pages s ?root" "0x102000 \<notin> pg_pages s ?root"
      by (simp_all add: pg_pages_def tr) (simp_all add: s_def pg_demo_frames)
    with fr2 show "page_lookup (pg_pmm s2) ?f = Some (PMM_PAGE_ALLOCATED, 2)"
      "page_lookup (pg_pmm s2) 0x102000 = Some (PMM_PAGE_ALLOCATED, 1)"
      by (simp_all add: pg_frame_def) (simp_all add: s_def pg_demo_frames)
    from fr2 out show "0x102000 \<notin> pt_tabs 4 (pg_mem s2) ?root" by (auto simp: pg_frame_def pg_pages_def)
  qed
  from inv2 have pi2: "pmm_inv (pg_pmm s2)" by (simp add: pg_inv_def)
  define pm where "pm = (page_set (pg_pmm s2) 0x102000 PMM_PAGE_FREE 0)\<lparr>free_page_stack := free_page_stack (pg_pmm s2) @ [0x102000]\<rparr>"
  have rel: "pmm_release_page (pg_pmm s2) 0x102000 = (True, pm)"
    by (simp add: pmm_release_page_spec [OF pi2] lk pm_def)
  note df = drop_frame [OF inv2 lk(3) rel]
  from df(2) lk have lk3: "page_lookup pm ?f = Some (PMM_PAGE_ALLOCATED, 2)" by auto
  from leaf_path_walk [OF lw(2) inv2] lw(3) e(2)
  have "\<exists>info. paging_walk_in_root (pg_mem s2) ?root ?va = Some info \<and> wi_pte info = e" by simp
  with e lk3 df(1) show ?thesis by (intro exI [of _ "s2\<lparr>pg_pmm := pm\<rparr>"]) (auto simp: pm_def)
qed

section \<open>Properties\<close>

text \<open>
  C33. \<^verbatim>\<open>paging_map_page_with_exec\<close> on a well-formed address space. It succeeds only on a page that was not
  mapped; the page then translates to the given frame through an entry with exactly the
  requested permissions, and every other address keeps its translation, also when tables
  were created or large pages split on the way. When it fails no translation changes, and
  the reason is a guard page, a bad address, an occupied page or fewer than three free
  pages. In both cases the tables stay well formed, the free pages and the table pages
  together stay the same pages, and no memory outside of them is touched.
\<close>

theorem map_page_spec:
  assumes "cur_inv s" and "paging_map_page_with_exec s va phys us wr x = (ok, s')"
  shows "cur_inv s' \<and> pg_frame (paging_get_current_cr3 s) s s' \<and>
    (if ok then paging_translate_current s va = None \<and>
       (\<exists>info. paging_walk_in_root (pg_mem s') (paging_get_current_cr3 s') va = Some info \<and>
          wi_pte info = (phys AND PAGING_ADDR_MASK) OR leaf_flags s us wr x) \<and>
       (\<forall>va'. paging_translate_current s' va' =
          (if page_number va' = page_number va then Some ((phys AND PAGING_ADDR_MASK) OR (va' AND 0xfff))
           else paging_translate_current s va'))
     else (\<forall>va'. paging_translate_current s' va' = paging_translate_current s va') \<and>
       (paging_is_kernel_guard_page s va \<or> \<not> paging_validate_page_address va \<or> \<not> paging_is_page_aligned phys \<or>
        paging_translate_current s va \<noteq> None \<or> free_page_count (pg_pmm s) \<le> 2))"
  using map_page_result [OF assms(1) refl assms(2)] frame_cur_inv [of s s'] frame_translate [of s s']
    frame_cr3 [of "paging_get_current_cr3 s" s s']
  by (simp add: translate_current_eq [OF assms(1)] split: if_splits)

theorem map_page_spec_witness:
  "\<exists>s'. paging_map_page_with_exec pg_demo 0x400000 0x90000000 True True False = (True, s') \<and>
     paging_translate_current s' 0x400abc = Some 0x90000abc \<and> paging_translate_current s' 0x800000 = None"
proof -
  obtain s' where m: "paging_map_page_with_exec pg_demo 0x400000 0x90000000 True True False = (True, s')"
    using pg_demo_maps by blast
  from map_page_spec [OF pg_demo_inv m] m show ?thesis
    by (simp add: pg_demo_translate page_number_def PAGING_ADDR_MASK_def take_bit_eq_mask mask_eq_exp_minus_1)
qed

text \<open>
  C34. \<^verbatim>\<open>paging_unmap_page\<close> returns the frame that the page translated to, removes the translation of that page and of no other
  page, and gives back exactly the tables that became empty: bottom up from the page table, every
  table in which the entry for the page was the only present one leaves the tables of the address
  space and is pushed on the stack of free pages. When
  it refuses, the state is unchanged. A page that was just mapped can be unmapped: the call
  returns the frame that was given to \<^verbatim>\<open>paging_map_page_with_exec\<close> and every address translates
  as it did before the mapping.
\<close>

theorem unmap_page_spec:
  assumes "cur_inv s"
  shows "(paging_unmap_page s va = (r, s') \<longrightarrow>
      (case r of None \<Rightarrow> s' = s
       | Some phys \<Rightarrow> cur_inv s' \<and> pg_frame (paging_get_current_cr3 s) s s' \<and>
           paging_translate_current s va = Some (phys OR (va AND 0xfff)) \<and>
           (\<exists>info. paging_walk_in_root (pg_mem s) (paging_get_current_cr3 s) va = Some info \<and>
              (let ts = emptied_tables (pg_mem s) va (wi_pt_phys info) (wi_pd_phys info) (wi_pdpt_phys info) in
               free_page_stack (pg_pmm s') = free_page_stack (pg_pmm s) @ ts \<and>
               pt_tabs 4 (pg_mem s') (paging_get_current_cr3 s) = pt_tabs 4 (pg_mem s) (paging_get_current_cr3 s) - set ts)) \<and>
           (\<forall>va'. paging_translate_current s' va' =
              (if page_number va' = page_number va then None else paging_translate_current s va')))) \<and>
    (paging_map_page_with_exec s va phys us wr x = (True, s1) \<longrightarrow>
      (\<exists>s2. paging_unmap_page s1 va = (Some (phys AND PAGING_ADDR_MASK), s2) \<and>
         pg_frame (paging_get_current_cr3 s) s s2 \<and>
         (\<forall>va'. paging_translate_current s2 va' = paging_translate_current s va')))"
  using unmap_page_result [OF assms refl, of va r s'] unmap_frees [OF assms, of va _ s'] frame_cur_inv [of s s']
    frame_translate [of s s'] map_then_unmap [OF assms, of va phys us wr x s1]
  by (auto simp: translate_current_eq [OF assms] split: option.splits)

theorem unmap_page_spec_witness:
  "\<exists>s1 s2. paging_map_page_with_exec pg_demo 0x400000 0x90000000 True True False = (True, s1) \<and>
     paging_unmap_page s1 0x400000 = (Some 0x90000000, s2) \<and> paging_translate_current s2 0x400abc = None \<and>
     paging_unmap_page pg_demo 0x400000 = (None, pg_demo)"
proof -
  obtain s1 where m: "paging_map_page_with_exec pg_demo 0x400000 0x90000000 True True False = (True, s1)"
    using pg_demo_maps by blast
  obtain r s' where u: "paging_unmap_page pg_demo 0x400000 = (r, s')" by (cases "paging_unmap_page pg_demo 0x400000") auto
  note sp = unmap_page_spec [OF pg_demo_inv, of "0x400000" r s' "0x90000000" True True False s1]
  from sp u have "r = None" "s' = pg_demo" by (cases r; simp add: pg_demo_translate)+
  with sp m u show ?thesis by (auto simp: PAGING_ADDR_MASK_def pg_demo_translate)
qed

text \<open>
  C35. Copy on write. A successful \<^verbatim>\<open>paging_resolve_cow_fault\<close> happens only for a user write to a present
  page marked copy-on-write. Afterwards the page is writable, no longer marked, keeps its other
  flags, and translates to a frame with the same contents that only this mapping refers to: the
  old frame when that had one reference, otherwise a frame that was free, while the shared frame
  loses exactly one reference and its contents stay. Every other address keeps its translation,
  and no memory but the new frame and the tables changes. A refused fault changes no translation,
  no page state and no memory in use, and it is refused only for a fault of another kind, for a frame
  that the allocator does not count as allocated, or when a copy is needed and no page is free.
\<close>

theorem cow_fault_spec:
  assumes "pg_inv s root" and "paging_resolve_cow_fault s root va err = (ok, s')"
  shows "if ok then err AND 7 = 7 \<and>
      (\<exists>info new. paging_walk_in_root (pg_mem s) root va = Some info \<and> is_cow (wi_pte info) \<and> pg_inv s' root \<and>
         cow_resolved root va s (wi_pte info) (wi_pte info AND PAGING_ADDR_MASK) new s' \<and>
         cow_private s (wi_pte info AND PAGING_ADDR_MASK) new s')
    else cow_refused root s s' \<and>
      (err AND 7 \<noteq> 7 \<or> \<not> paging_validate_page_address (va AND PAGING_ADDR_MASK) \<or>
       (\<forall>info. paging_walk_in_root (pg_mem s) root va = Some info \<longrightarrow> is_cow (wi_pte info) \<longrightarrow>
          free_page_stack (pg_pmm s) = [] \<and> pmm_ref_count (pg_pmm s) (wi_pte info AND PAGING_ADDR_MASK) \<noteq> 1 \<or>
          (\<forall>r. page_lookup (pg_pmm s) (wi_pte info AND PAGING_ADDR_MASK) \<noteq> Some (PMM_PAGE_ALLOCATED, r))))"
  by (rule cow_fault_result [OF assms])

theorem cow_fault_spec_witness:
  "\<exists>s s' new. pg_inv s 0x100000 \<and> paging_resolve_cow_fault s 0x100000 0x400abc 7 = (True, s') \<and> new \<noteq> 0x101000 \<and>
     page_lookup (pg_pmm s') 0x101000 = Some (PMM_PAGE_ALLOCATED, 1) \<and>
     page_lookup (pg_pmm s') new = Some (PMM_PAGE_ALLOCATED, 1) \<and>
     pt_trans 4 (pg_mem s') 0x100000 0x400abc = Some (new OR 0xabc)"
proof -
  obtain s info where s: "pg_inv s 0x100000" "free_page_stack (pg_pmm s) \<noteq> []"
    "page_lookup (pg_pmm s) 0x101000 = Some (PMM_PAGE_ALLOCATED, 2)"
    and i: "paging_walk_in_root (pg_mem s) 0x100000 0x400000 = Some info" "is_cow (wi_pte info)"
      "wi_pte info AND PAGING_ADDR_MASK = 0x101000"
    using pg_demo_shared by blast
  have m: "0x400abc AND PAGING_ADDR_MASK = (0x400000 :: u64)" by (simp add: PAGING_ADDR_MASK_def)
  from walk_masked [of "pg_mem s" "0x100000" "0x400abc", unfolded m] i obtain info'
    where i': "paging_walk_in_root (pg_mem s) 0x100000 0x400abc = Some info'" "wi_pte info' = wi_pte info"
    by (cases "paging_walk_in_root (pg_mem s) 0x100000 0x400abc") auto
  have refs: "pmm_ref_count (pg_pmm s) 0x101000 = 2"
    using s by (simp add: pg_inv_def pmm_ref_count_eq [OF pmm_invD(1)] page_aligned_def PMM_PAGE_SIZE_def)
  obtain ok s' where r: "paging_resolve_cow_fault s 0x100000 0x400abc 7 = (ok, s')"
    by (cases "paging_resolve_cow_fault s 0x100000 0x400abc 7") auto
  have v: "paging_validate_page_address 0x400000"
    by (simp add: paging_validate_page_address_def paging_is_canonical_def paging_is_page_aligned_def)
  note sp = cow_fault_spec [OF s(1) r, unfolded m]
  have ok using sp v s(2,3) i i' by (auto split: if_splits)
  with sp i' i(3) refs obtain new where
    "cow_resolved 0x100000 0x400abc s (wi_pte info) 0x101000 new s'" "cow_private s 0x101000 new s'" by auto
  with s r \<open>ok\<close> refs show ?thesis
    by (intro exI [of _ s] exI [of _ s'] exI [of _ new]) (simp add: cow_resolved_def cow_private_def)
qed

end
