(* ===== verification/Vmm_Props.thy ===== *)
theory Vmm_Props
  imports Vmm_Write Paging_Props
begin

text \<open>
  The copies between kernel and user memory of \<^verbatim>\<open>kernel/mem/vmm.c\<close>: properties C36 and C37.
\<close>

section \<open>Valid ranges\<close>

lemma valid_range_bounds:
  assumes "vmm_user_range_valid a sz \<noteq> None"
  shows "0x1000 \<le> unat a" "unat a + unat sz \<le> 2 ^ 47"
proof -
  have c: "a \<ge> VMM_USER_MIN" "a < VMM_USER_MAX"
    using assms by (auto simp: vmm_user_range_valid_def not_less not_le split: if_splits)
  then show "0x1000 \<le> unat a" by (simp add: word_le_nat_alt VMM_USER_MIN_def)
  have lt: "unat a < 2 ^ 47" using c(2) by (simp add: word_less_nat_alt VMM_USER_MAX_def)
  show "unat a + unat sz \<le> 2 ^ 47"
  proof (cases "sz = 0")
    case False
    then have e: "a + ucast sz \<le> VMM_USER_MAX"
      using assms by (auto simp: vmm_user_range_valid_def Let_def split: if_splits)
    have sz: "unat (ucast sz :: u64) = unat sz" using unsigned_less [of sz, where ?'a = nat] by (simp add: unsigned_ucast_eq take_bit_nat_eq_self)
    have "unat a + unat (ucast sz :: u64) < 2 ^ 64" unfolding sz using lt unsigned_less [of sz, where ?'a = nat] by simp
    then have "unat (a + ucast sz) = unat a + unat sz" using unat_add_lem [of a "ucast sz"] sz by simp
    with e show ?thesis by (simp add: word_le_nat_alt VMM_USER_MAX_def)
  qed (use lt in simp)
qed

lemma copy_from_result:
  assumes "vmm_copy_from_user s a sz = (ok, bytes)"
  shows "(ok \<longleftrightarrow> vmm_user_range_valid a sz \<noteq> None \<and> (\<forall>k<unat sz. user_byte s (a + of_nat k) \<noteq> None)) \<and>
    length bytes \<le> unat sz \<and> (ok \<longrightarrow> length bytes = unat sz) \<and>
    (\<forall>k<length bytes. user_byte s (a + of_nat k) = Some (bytes ! k) \<and> 0x1000 \<le> unat (a + of_nat k) \<and> unat (a + of_nat k) < 2 ^ 47)"
proof (cases "vmm_user_range_valid a sz = None")
  case True
  with assms show ?thesis by (simp add: vmm_copy_from_user_def)
next
  case False
  note b = valid_range_bounds [OF False]
  from False assms have "copy_from_loop s a sz 0 = (ok, bytes)" by (simp only: vmm_copy_from_user_def if_False)
  from copy_from_loop_spec [OF this] have p: "prefix_read (\<lambda>k. user_byte s (a + of_nat k)) (unat sz) ok bytes" by simp
  have "user_byte s (a + of_nat k) = Some (bytes ! k)" if "k < length bytes" for k
  proof -
    from p have "map Some bytes = map (\<lambda>k. user_byte s (a + of_nat k)) [0..<length bytes]" by (simp add: prefix_read_def)
    from arg_cong [OF this, of "\<lambda>zs. zs ! k"] that show ?thesis by simp
  qed
  moreover have "unat (a + of_nat k) = unat a + k" "unat a + k < 2 ^ 47" if "k < length bytes" for k
  proof -
    have k: "k < unat sz" using that p by (simp add: prefix_read_def)
    show "unat (a + of_nat k) = unat a + k" by (rule range_addr [OF b(2) k])
    show "unat a + k < 2 ^ 47" using k b(2) by simp
  qed
  ultimately show ?thesis using p False b(1) by (auto simp: prefix_read_def)
qed

section \<open>Checking a range\<close>

lemma byte_of_page: "user_byte s va = None \<longleftrightarrow> user_byte s (page_of va) = None"
proof -
  have p: "page_of (page_of va) = page_of va" by (rule page_of_id) simp
  have w: "map_option wi_flags (paging_walk_in_root m r (page_of va)) = map_option wi_flags (paging_walk_in_root m r va)" for m r
  proof (cases "paging_walk_in_root m r va")
    case None
    with walk_same_page [OF p [symmetric], of m r] show ?thesis by (cases "paging_walk_in_root m r (page_of va)") auto
  qed (use walk_same_page [OF p, of m r] in auto)
  have "user_byte s x = None \<longleftrightarrow>
      (case map_option wi_flags (paging_walk_in_root (pg_mem s) (cur_root s) x) of None \<Rightarrow> True
       | Some fl \<Rightarrow> fl AND (VMM_FLAG_PRESENT OR VMM_FLAG_USER) \<noteq> VMM_FLAG_PRESENT OR VMM_FLAG_USER)" for x
    by (simp add: user_byte_def vmm_query_info_def paging_get_mapping_info_def split: option.splits)
  then show ?thesis by (simp only: w)
qed

lemma readable_pages:
  "user_pages_have_perms pages (VMM_FLAG_PRESENT OR VMM_FLAG_USER) s = (\<forall>p\<in>set pages. user_byte s p \<noteq> None, s)"
proof (induction pages)
  case (Cons p pages)
  have "(VMM_FLAG_PRESENT OR VMM_FLAG_USER) AND VMM_FLAG_RW = 0"
    by (simp add: VMM_FLAG_PRESENT_def VMM_FLAG_RW_def VMM_FLAG_USER_def)
  with Cons show ?case by (auto simp: user_byte_def Let_def split: option.splits)
qed simp

lemma div_range:
  fixes A n m :: nat
  assumes "0 < n" and "0 < m"
  shows "(\<lambda>k. (A + k) div m) ` {..<n} = {A div m..(A + n - 1) div m}"
proof (intro equalityI subsetI)
  fix q assume q: "q \<in> {A div m..(A + n - 1) div m}"
  define k where "k = q * m - A"
  have "q * m \<le> (A + n - 1) div m * m" using q by simp
  also have "\<dots> \<le> A + n - 1" by simp
  finally have "k < n" using assms(1) by (simp add: k_def)
  moreover have "(A + k) div m = q"
  proof (cases "q * m \<le> A")
    case True
    then have "q \<le> A div m" using assms(2) by (simp add: less_eq_div_iff_mult_less_eq)
    with q True show ?thesis by (simp add: k_def)
  next
    case False
    then have "A + k = q * m" by (simp add: k_def)
    with assms(2) show ?thesis by simp
  qed
  ultimately show "q \<in> (\<lambda>k. (A + k) div m) ` {..<n}" by blast
next
  fix q assume "q \<in> (\<lambda>k. (A + k) div m) ` {..<n}"
  then show "q \<in> {A div m..(A + n - 1) div m}" by (auto intro: div_le_mono)
qed

lemma page_of_nat: "page_of x = of_nat (unat x div 4096 * 4096)"
proof -
  have "unat (page_of x) = unat x div 4096 * 4096" by (simp add: unat_page_of minus_mod_eq_div_mult)
  from arg_cong [OF this, of "of_nat :: nat \<Rightarrow> u64"] show ?thesis by simp
qed

lemma range_step_pages:
  assumes len: "unat a + n \<le> 2 ^ 47" and n: "0 < n"
  shows "set (step_pages (page_of a) (page_of (a + of_nat (n - 1)) + 4096)) = (\<lambda>k. page_of (a + of_nat k)) ` {..<n}"
proof -
  let ?A = "unat a" and ?b = "unat a div 4096" and ?t = "(unat a + n - 1) div 4096"
  let ?E = "page_of (a + of_nat (n - 1)) + 4096 :: u64"
  define c where "c = ?t - ?b + 1"
  have le: "?b \<le> ?t" using n by (intro div_le_mono) simp
  have pg: "page_of (a + of_nat k) = of_nat ((?A + k) div 4096 * 4096)" if "k < n" for k
    unfolding page_of_nat [of "a + of_nat k"] range_addr [OF len that] ..
  have E: "?E - page_of a = of_nat (c * 4096)"
    unfolding pg [of "n - 1", OF diff_less [OF zero_less_one n]] page_of_nat [of a] c_def using le n
    by (simp add: of_nat_diff algebra_simps)
  have "?t * 4096 \<le> ?A + n - 1" by simp
  moreover have "c * 4096 = ?t * 4096 + 4096 - ?b * 4096" using le by (simp add: c_def diff_mult_distrib add.commute)
  ultimately have "c * 4096 < 2 ^ 64" using len by simp
  then have d: "unat (?E - page_of a) = c * 4096" unfolding E by (simp only: unat_of_nat) simp
  moreover have "page_of a < ?E"
  proof -
    have "unat (page_of a) + c * 4096 < 2 ^ 64"
      using len \<open>?t * 4096 \<le> ?A + n - 1\<close> \<open>c * 4096 = _\<close> unat_page_of [of a] by simp
    then have "unat (page_of a + (?E - page_of a)) = unat (page_of a) + c * 4096"
      using unat_add_lem [of "page_of a" "?E - page_of a"] d by simp
    then show ?thesis by (simp add: word_less_nat_alt c_def)
  qed
  ultimately have "set (step_pages (page_of a) ?E) = (\<lambda>i. page_of a + of_nat i * 4096) ` {..<c}"
    unfolding step_pages_def by (simp add: atLeast0LessThan)
  also have "\<dots> = (\<lambda>q. of_nat (q * 4096)) ` (\<lambda>i. ?b + i) ` {..<c}"
    unfolding image_image page_of_nat [of a] by (simp add: algebra_simps)
  also have "(\<lambda>i. ?b + i) ` {..<c} = {?b..?t}"
  proof -
    have "{..<c} = {0..?t - ?b}" by (auto simp: c_def)
    then show ?thesis using le image_add_atLeastAtMost [of ?b 0 "?t - ?b"] by simp
  qed
  also have "\<dots> = (\<lambda>k. (?A + k) div 4096) ` {..<n}" using div_range [OF n, of 4096 ?A] by simp
  finally show ?thesis unfolding image_image by (simp add: pg)
qed

text \<open>The check before the fact: a range is readable when a copy from it succeeds.\<close>

lemma user_readable_result:
  "vmm_user_readable s a sz =
     (vmm_user_range_valid a sz \<noteq> None \<and> (\<forall>k<unat sz. user_byte s (a + of_nat k) \<noteq> None), s)"
proof (cases "vmm_user_range_valid a sz = None")
  case True
  then show ?thesis by (simp add: vmm_user_readable_def vmm_user_range_has_perms_def)
next
  case False
  note b = valid_range_bounds [OF False]
  show ?thesis
  proof (cases "sz = 0")
    case True
    with False have "vmm_user_range_valid a sz = Some (a, a)"
      by (simp add: vmm_user_range_valid_def split: if_splits)
    with True show ?thesis
      by (simp add: vmm_user_readable_def vmm_user_range_has_perms_def step_pages_def)
  next
    case nz: False
    then have n: "0 < unat sz" by (simp add: unat_gt_0)
    have ad: "a + ucast sz - 1 = a + of_nat (unat sz - 1)" using n by (simp add: of_nat_diff)
    have "vmm_user_range_valid a sz = Some (page_of a, page_of (a + of_nat (unat sz - 1)) + 4096)"
      using False nz unfolding vmm_user_range_valid_def Let_def ad
      by (simp add: vmm_align_down_def page_of_def VMM_PAGE_SIZE_def split: if_splits)
    then have "vmm_user_readable s a sz = (\<forall>p\<in>(\<lambda>k. page_of (a + of_nat k)) ` {..<unat sz}. user_byte s p \<noteq> None, s)"
      using range_step_pages [OF b(2) n]
      by (simp add: vmm_user_readable_def vmm_user_range_has_perms_def readable_pages)
    also have "(\<forall>p\<in>(\<lambda>k. page_of (a + of_nat k)) ` {..<unat sz}. user_byte s p \<noteq> None) \<longleftrightarrow> (\<forall>k<unat sz. user_byte s (a + of_nat k) \<noteq> None)"
      using byte_of_page [of s] by (auto simp del: not_None_eq)
    finally show ?thesis using False by simp
  qed
qed

lemma copy_to_result:
  assumes r: "vmm_copy_to_user s a src sz = (ok, s')" and ur: "user_range s a (unat sz)" and src: "unat sz \<le> length src"
  shows "pg_inv s' (cur_root s') \<and> (\<forall>x. untouched s a 0 (unat sz) x \<longrightarrow> pg_mem s' x = pg_mem s x) \<and>
    (ok \<longrightarrow> vmm_copy_from_user s' a sz = (True, take (unat sz) src)) \<and>
    (vmm_user_range_valid a sz \<noteq> None \<longrightarrow>
       (\<forall>k<unat sz. \<exists>p fl. vmm_query_info s (a + of_nat k) = Some (p, fl) \<and> fl AND VMM_USER_RW = VMM_USER_RW) \<longrightarrow> ok)"
proof (cases "vmm_user_range_valid a sz = None")
  case True
  with r user_rangeD(1) [OF ur] show ?thesis by (simp add: vmm_copy_to_user_def)
next
  case False
  with r have "copy_to_loop a src sz 0 s = (ok, s')" by (simp only: vmm_copy_to_user_def if_False)
  note sp = copy_to_loop_spec [OF this _ ur src, simplified]
  obtain ok' bytes where f: "vmm_copy_from_user s' a sz = (ok', bytes)" by (cases "vmm_copy_from_user s' a sz") auto
  have "ok' \<and> bytes = take (unat sz) src" if ok
  proof -
    from sp that have u: "user_byte s' (a + of_nat k) = Some (src ! k)" if "k < unat sz" for k using that by blast
    note cf = copy_from_result [OF f]
    from cf u False have ok': ok' by auto
    with cf u have "bytes ! k = src ! k" if "k < unat sz" for k using that by auto
    with cf ok' src have "bytes = take (unat sz) src" by (intro nth_equalityI) auto
    with ok' show ?thesis by simp
  qed
  with sp f show ?thesis by auto
qed

section \<open>Two mapped user pages\<close>

lemma alloc_next:
  assumes "pmm_inv p" and "free_page_stack p = xs @ [f]"
  defines "p' \<equiv> snd (pmm_alloc_page p)"
  shows "pmm_inv p'" "free_page_stack p' = xs" "page_lookup p' = (page_lookup p)(f \<mapsto> (PMM_PAGE_ALLOCATED, 1))"
proof -
  have al: "pmm_alloc_page p = (f, p')" by (simp add: p'_def pmm_alloc_page_spec [OF assms(1)] assms(2))
  from pmm_alloc_page_took [OF assms(1) al] assms(2) have tk: "pmm_took p [f] PMM_PAGE_ALLOCATED p'" by auto
  show "pmm_inv p'" by (rule pmm_took_inv [OF assms(1) tk])
  from pmm_invD(2) [OF assms(1)] assms(2) have "f \<notin> set xs" by simp
  then have "filter (\<lambda>q. q \<noteq> f) xs = xs" by (simp add: filter_id_conv) blast
  with tk show "free_page_stack p' = xs" "page_lookup p' = (page_lookup p)(f \<mapsto> (PMM_PAGE_ALLOCATED, 1))"
    by (auto simp: pmm_took_def assms(2))
qed

definition vm_demo_pmm :: pmm where
  "vm_demo_pmm = ((\<lambda>p. snd (pmm_alloc_page p)) ^^ 5) (pg_pmm pg_demo)"

lemma vm_demo_pmm:
  "pmm_inv vm_demo_pmm" "free_page_stack vm_demo_pmm = [0x106000]"
  "t \<in> {0x100000, 0x101000, 0x102000, 0x103000, 0x104000, 0x105000} \<Longrightarrow> page_lookup vm_demo_pmm t = Some (PMM_PAGE_ALLOCATED, 1)"
proof -
  let ?n = "\<lambda>p. snd (pmm_alloc_page p)" and ?p = "pg_pmm pg_demo"
  have p0: "pmm_inv ?p" "free_page_stack ?p = [0x106000, 0x105000, 0x104000, 0x103000, 0x102000] @ [0x101000]"
    "page_lookup ?p 0x100000 = Some (PMM_PAGE_ALLOCATED, 1)"
    using pg_demo_inv pg_demo_took by (simp_all add: pmm_took_def pg_demo_stack0 pg_inv_def)
  note p1 = alloc_next [OF p0(1,2)]
  note p2 = alloc_next [OF p1(1), where xs = "[0x106000, 0x105000, 0x104000, 0x103000]" and f = "0x102000", unfolded p1, simplified]
  note p3 = alloc_next [OF p2(1), where xs = "[0x106000, 0x105000, 0x104000]" and f = "0x103000", unfolded p2, simplified]
  note p4 = alloc_next [OF p3(1), where xs = "[0x106000, 0x105000]" and f = "0x104000", unfolded p3, simplified]
  note p5 = alloc_next [OF p4(1), where xs = "[0x106000]" and f = "0x105000", unfolded p4, simplified]
  have d: "vm_demo_pmm = ?n (?n (?n (?n (?n ?p))))" by (simp add: vm_demo_pmm_def eval_nat_numeral)
  show "pmm_inv vm_demo_pmm" "free_page_stack vm_demo_pmm = [0x106000]" unfolding d by (rule p5(1), rule p5(2))
  show "t \<in> {0x100000, 0x101000, 0x102000, 0x103000, 0x104000, 0x105000} \<Longrightarrow> page_lookup vm_demo_pmm t = Some (PMM_PAGE_ALLOCATED, 1)"
    unfolding d p5(3) using p0(3) by auto
qed

definition vm_demo_mem :: phys_memory where
  "vm_demo_mem =
     pt_set (pt_set (pt_set (pt_set (pt_set (\<lambda>_. 0) 0x100000 0 0x101007) 0x101000 0 0x102007)
       0x102000 2 0x103007) 0x103000 0 0x104007) 0x103000 1 0x105007"

definition vm_demo :: paging where
  "vm_demo = pg_demo\<lparr>pg_pmm := vm_demo_pmm, pg_mem := vm_demo_mem\<rparr>"

lemma vm_demo_get:
  assumes "i < 512"
  shows "pt_get vm_demo_mem 0x100000 i = (if i = 0 then 0x101007 else 0)"
    "pt_get vm_demo_mem 0x101000 i = (if i = 0 then 0x102007 else 0)"
    "pt_get vm_demo_mem 0x102000 i = (if i = 2 then 0x103007 else 0)"
    "pt_get vm_demo_mem 0x103000 i = (if i = 0 then 0x104007 else if i = 1 then 0x105007 else 0)"
proof -
  have al: "page_aligned 0x100000" "page_aligned 0x101000" "page_aligned 0x102000" "page_aligned 0x103000"
    by (simp_all add: page_aligned_def PMM_PAGE_SIZE_def)
  show "pt_get vm_demo_mem 0x100000 i = (if i = 0 then 0x101007 else 0)"
    "pt_get vm_demo_mem 0x101000 i = (if i = 0 then 0x102007 else 0)"
    "pt_get vm_demo_mem 0x102000 i = (if i = 2 then 0x103007 else 0)"
    "pt_get vm_demo_mem 0x103000 i = (if i = 0 then 0x104007 else if i = 1 then 0x105007 else 0)"
    using assms by (simp_all add: vm_demo_mem_def pt_get_set pt_get_zero al)
qed

lemma vm_demo_entries:
  "(0x101007 :: u64) AND PAGING_ADDR_MASK = 0x101000" "(0x102007 :: u64) AND PAGING_ADDR_MASK = 0x102000"
  "(0x103007 :: u64) AND PAGING_ADDR_MASK = 0x103000" "(0x104007 :: u64) AND PAGING_ADDR_MASK = 0x104000"
  "(0x105007 :: u64) AND PAGING_ADDR_MASK = 0x105000" "(0x100000 :: u64) AND PAGING_ADDR_MASK = 0x100000"
  "masked 0x100000" "masked 0x101000" "masked 0x102000" "masked 0x103000"
  by (simp_all add: PAGING_ADDR_MASK_def masked_def)

lemma one_child:
  assumes "j < 512" and "\<And>i. i < 512 \<Longrightarrow> i \<noteq> j \<Longrightarrow> pt_get m t i = 0" and "masked t" and "child_wf l m (pt_get m t j)"
    and "t \<notin> child_tabs l m (pt_get m t j)"
  shows "pt_tabs (Suc l) m t = insert t (child_tabs l m (pt_get m t j))" "pt_wf (Suc l) m t"
proof -
  define C where "C = child_tabs l m (pt_get m t j)"
  have c: "child_tabs l m (pt_get m t i) = (if i = j then C else {})" "child_wf l m (pt_get m t i)" if "i < 512" for i
  proof -
    have "pt_get m t i = 0" if "i \<noteq> j" using assms(2) \<open>i < 512\<close> that by blast
    moreover have "child_wf l m 0" "child_tabs l m 0 = {}" by (simp_all add: child_wf_def child_tabs_def)
    ultimately show "child_tabs l m (pt_get m t i) = (if i = j then C else {})" "child_wf l m (pt_get m t i)"
      using assms(4) C_def by (cases "i = j"; simp)+
  qed
  show "pt_tabs (Suc l) m t = insert t (child_tabs l m (pt_get m t j))"
    unfolding pt_tabs_Suc C_def [symmetric] using assms(1) by (simp add: c(1))
  show "pt_wf (Suc l) m t" unfolding pt_wf_Suc using assms(3) assms(5) [folded C_def] by (simp add: c)
qed

lemma vm_demo_tree:
  "pt_tabs 4 vm_demo_mem 0x100000 = {0x100000, 0x101000, 0x102000, 0x103000}" "pt_wf 4 vm_demo_mem 0x100000"
proof -
  let ?m = vm_demo_mem
  have n: "Suc 0 = 1" "Suc 1 = 2" "Suc 2 = 3" "Suc 3 = 4" by simp_all
  have leaf: "child_tabs 0 ?m e = {}" "child_wf 0 ?m e" for e by (simp_all add: child_tabs_def child_wf_def is_leaf_def)
  have t1: "pt_tabs 1 ?m 0x103000 = {0x103000}" "pt_wf 1 ?m 0x103000"
    unfolding n(1) [symmetric] pt_tabs_Suc pt_wf_Suc leaf(1) using vm_demo_entries(10) leaf(2) by simp_all
  have c2: "child_tabs 1 ?m (pt_get ?m 0x102000 2) = {0x103000}" "child_wf 1 ?m (pt_get ?m 0x102000 2)"
    using t1 by (simp_all add: child_tabs_def child_wf_def is_leaf_def vm_demo_entries vm_demo_get)
  note t2 = one_child [OF _ _ vm_demo_entries(9) c2(2), unfolded n c2(1)]
  have t2: "pt_tabs 2 ?m 0x102000 = {0x102000, 0x103000}" "pt_wf 2 ?m 0x102000"
    by (rule t2; simp add: vm_demo_get)+
  have c3: "child_tabs 2 ?m (pt_get ?m 0x101000 0) = {0x102000, 0x103000}" "child_wf 2 ?m (pt_get ?m 0x101000 0)"
    using t2 by (simp_all add: child_tabs_def child_wf_def is_leaf_def vm_demo_entries vm_demo_get)
  note t3 = one_child [OF _ _ vm_demo_entries(8) c3(2), unfolded n c3(1)]
  have t3: "pt_tabs 3 ?m 0x101000 = {0x101000, 0x102000, 0x103000}" "pt_wf 3 ?m 0x101000"
    by (rule t3; simp add: vm_demo_get)+
  have c4: "child_tabs 3 ?m (pt_get ?m 0x100000 0) = {0x101000, 0x102000, 0x103000}" "child_wf 3 ?m (pt_get ?m 0x100000 0)"
    using t3 by (simp_all add: child_tabs_def child_wf_def is_leaf_def vm_demo_entries vm_demo_get)
  note t4 = one_child [OF _ _ vm_demo_entries(7) c4(2), unfolded n c4(1)]
  show "pt_tabs 4 ?m 0x100000 = {0x100000, 0x101000, 0x102000, 0x103000}" "pt_wf 4 ?m 0x100000"
    by (rule t4; simp add: vm_demo_get)+
qed

lemma vm_demo_inv: "cur_root vm_demo = 0x100000" "pg_inv vm_demo (cur_root vm_demo)"
proof -
  show r: "cur_root vm_demo = 0x100000" using pg_demo_cr3 by (simp add: vm_demo_def paging_get_current_cr3_def)
  show "pg_inv vm_demo (cur_root vm_demo)"
    unfolding r pg_inv_def using vm_demo_pmm by (simp add: vm_demo_def vm_demo_tree)
qed

lemma vm_demo_query:
  "vmm_query_info vm_demo va =
     (if lvl_index 4 va = 0 \<and> lvl_index 3 va = 0 \<and> lvl_index 2 va = 2 \<and> lvl_index 1 va \<in> {0, 1}
      then Some ((if lvl_index 1 va = 0 then 0x104000 else 0x105000) OR (va AND 0xfff), VMM_USER_RW) else None)"
    (is "_ = ?r")
proof -
  have m: "pg_mem vm_demo = vm_demo_mem" by (simp add: vm_demo_def)
  let ?w = "paging_walk_in_root vm_demo_mem 0x100000 va"
  note w = paging_walk_in_root_def [of vm_demo_mem "0x100000" va, unfolded Let_def lvl_index_eqs flag_iff]
  have fl: "effective_flags [0x101007, 0x102007, 0x103007, 0x104007] = VMM_USER_RW"
    "effective_flags [0x101007, 0x102007, 0x103007, 0x105007] = VMM_USER_RW"
    by (simp_all add: effective_flags_def VMM_FLAG_PRESENT_def VMM_FLAG_RW_def VMM_FLAG_USER_def paging_flag_defs)
  note ev = w vm_demo_get vm_demo_entries fl
  have q: "vmm_query_info vm_demo va = map_option (\<lambda>info. (wi_phys_addr info, wi_flags info)) ?w"
    by (simp add: vmm_query_info_def paging_get_mapping_info_def m vm_demo_inv)
  consider (n4) "lvl_index 4 va \<noteq> 0"
    | (n3) "lvl_index 4 va = 0" "lvl_index 3 va \<noteq> 0"
    | (n2) "lvl_index 4 va = 0" "lvl_index 3 va = 0" "lvl_index 2 va \<noteq> 2"
    | (n1) "lvl_index 4 va = 0" "lvl_index 3 va = 0" "lvl_index 2 va = 2" "lvl_index 1 va \<noteq> 0" "lvl_index 1 va \<noteq> 1"
    | (one) "lvl_index 4 va = 0" "lvl_index 3 va = 0" "lvl_index 2 va = 2" "lvl_index 1 va = 0"
    | (two) "lvl_index 4 va = 0" "lvl_index 3 va = 0" "lvl_index 2 va = 2" "lvl_index 1 va = 1" by blast
  then show ?thesis
    unfolding q
  proof cases
    case n4
    then show "map_option (\<lambda>info. (wi_phys_addr info, wi_flags info)) ?w = ?r" by (simp add: ev)
  next
    case n3
    then show "map_option (\<lambda>info. (wi_phys_addr info, wi_flags info)) ?w = ?r" by (simp add: ev)
  next
    case n2
    then show "map_option (\<lambda>info. (wi_phys_addr info, wi_flags info)) ?w = ?r" by (simp add: ev)
  next
    case n1
    then show "map_option (\<lambda>info. (wi_phys_addr info, wi_flags info)) ?w = ?r" by (simp add: ev)
  next
    case one
    then show "map_option (\<lambda>info. (wi_phys_addr info, wi_flags info)) ?w = ?r" by (simp add: ev)
  next
    case two
    then show "map_option (\<lambda>info. (wi_phys_addr info, wi_flags info)) ?w = ?r" by (simp add: ev)
  qed
qed

lemma vm_demo_addr:
  assumes "k < 4"
  shows "vmm_query_info vm_demo (0x400ffe + of_nat k) =
    Some (if k < 2 then 0x104ffe + of_nat k else 0x105000 + of_nat (k - 2), VMM_USER_RW)"
proof -
  from assms consider "k = 0" | "k = 1" | "k = 2" | "k = 3" by linarith
  then show ?thesis
    by cases (simp_all add: vm_demo_query lvl_index_def)
qed

lemma vm_user_rw: "VMM_USER_RW AND (VMM_FLAG_PRESENT OR VMM_FLAG_USER) = VMM_FLAG_PRESENT OR VMM_FLAG_USER"
  by (simp add: VMM_FLAG_PRESENT_def VMM_FLAG_RW_def VMM_FLAG_USER_def)

lemma vm_demo_frame:
  assumes "k < 4" and "vmm_query_info vm_demo (0x400ffe + of_nat k) = Some (p, fl)"
  shows "page_of p = (if k < 2 then 0x104000 else 0x105000)" "page_of (0x400ffe + of_nat k) = (if k < 2 then 0x400000 else 0x401000)"
proof -
  have p: "p = (if k < 2 then 0x104ffe + of_nat k else 0x105000 + of_nat (k - 2))"
    using assms(2) by (simp add: vm_demo_addr [OF assms(1)])
  from assms(1) consider "k = 0" | "k = 1" | "k = 2" | "k = 3" by linarith
  then have "page_of p = (if k < 2 then 0x104000 else 0x105000) \<and> page_of (0x400ffe + of_nat k) = (if k < 2 then 0x400000 else 0x401000)"
    by cases (simp_all add: p page_of_def)
  then show "page_of p = (if k < 2 then 0x104000 else 0x105000)" "page_of (0x400ffe + of_nat k) = (if k < 2 then 0x400000 else 0x401000)"
    by simp_all
qed

lemma vm_demo_busy: "frame_busy vm_demo 0x104000" "frame_busy vm_demo 0x105000"
proof -
  have t: "cur_tabs vm_demo = {0x100000, 0x101000, 0x102000, 0x103000}" "pg_pmm vm_demo = vm_demo_pmm"
    unfolding vm_demo_inv(1) by (simp_all add: vm_demo_def vm_demo_tree)
  show "frame_busy vm_demo 0x104000" "frame_busy vm_demo 0x105000" unfolding frame_busy_def t by (simp_all add: vm_demo_pmm)
qed

lemma vm_demo_range: "user_range vm_demo 0x400ffe 4"
  unfolding user_range_def
proof (intro conjI allI impI)
  show "frame_busy vm_demo (page_of p)" if "k < 4" "vmm_query_info vm_demo (0x400ffe + of_nat k) = Some (p, fl)" for k p fl
    using vm_demo_frame(1) [OF that] vm_demo_busy by presburger
  show "page_of (0x400ffe + of_nat j) = page_of (0x400ffe + of_nat k)"
    if "j < 4" "k < 4" "vmm_query_info vm_demo (0x400ffe + of_nat j) = Some (p, fl)"
      "vmm_query_info vm_demo (0x400ffe + of_nat k) = Some (q, fl')" "page_of p = page_of q" for j k p fl q fl'
  proof -
    have "(if j < 2 then 0x104000 else 0x105000 :: u64) = (if k < 2 then 0x104000 else 0x105000)"
      using vm_demo_frame(1) [OF that(1,3)] vm_demo_frame(1) [OF that(2,4)] that(5) by presburger
    then have "j < 2 \<longleftrightarrow> k < 2" by (cases "j < 2"; cases "k < 2") simp_all
    then show ?thesis unfolding vm_demo_frame(2) [OF that(1,3)] vm_demo_frame(2) [OF that(2,4)] by presburger
  qed
  show "pg_inv vm_demo (cur_root vm_demo)" by (fact vm_demo_inv)
  show "unat (0x400ffe :: u64) + 4 \<le> 2 ^ 47" by simp
qed

lemma vm_demo_valid: "vmm_user_range_valid 0x400ffe 4 \<noteq> None" "vmm_user_range_valid 0xffff800000000000 4 = None"
  by (simp_all add: vmm_user_range_valid_def VMM_USER_MIN_def VMM_USER_MAX_def vmm_is_canonical_def)

section \<open>Properties\<close>

text \<open>
  C36. \<^verbatim>\<open>vmm_copy_from_user\<close> reads exactly what user mode could read. It succeeds if and only if the range is a valid
  user range and every byte of it is mapped present and user-accessible, which is also
  what \<^verbatim>\<open>vmm_user_readable\<close> reports for the range; then it returns all of its bytes. When it
  fails it has stored a prefix of the range. Every byte it stores, in either case, is the
  byte that the current page tables show at its address, and the address is a user address:
  no kernel memory is read, also when the range wraps around or crosses page boundaries.
\<close>

theorem copy_from_user_spec:
  assumes "vmm_copy_from_user s a sz = (ok, bytes)"
  shows "vmm_user_readable s a sz = (ok, s) \<and>
    (ok \<longleftrightarrow> vmm_user_range_valid a sz \<noteq> None \<and> (\<forall>k<unat sz. user_byte s (a + of_nat k) \<noteq> None)) \<and>
    length bytes \<le> unat sz \<and> (ok \<longrightarrow> length bytes = unat sz) \<and>
    (\<forall>k<length bytes. user_byte s (a + of_nat k) = Some (bytes ! k) \<and> 0x1000 \<le> unat (a + of_nat k) \<and> unat (a + of_nat k) < 2 ^ 47)"
  using copy_from_result [OF assms] user_readable_result [of s a sz] by simp

theorem copy_from_user_spec_witness:
  "vmm_copy_from_user vm_demo 0xffff800000000000 4 = (False, []) \<and>
   (\<exists>bytes. vmm_copy_from_user vm_demo 0x400ffe 4 = (True, bytes) \<and> length bytes = 4 \<and>
      bytes ! 3 = pg_mem vm_demo 0x105001)"
proof -
  obtain ok bytes where c: "vmm_copy_from_user vm_demo 0x400ffe 4 = (ok, bytes)"
    by (cases "vmm_copy_from_user vm_demo 0x400ffe 4") auto
  have u: "user_byte vm_demo (0x400ffe + of_nat k) \<noteq> None" if "k < 4" for k
    using vm_demo_addr [OF that] by (simp add: user_byte_def vm_user_rw)
  note sp = copy_from_user_spec [OF c]
  have ok: ok using sp u vm_demo_valid(1) by simp
  have "3 < length bytes" using sp ok by simp
  with sp have "user_byte vm_demo (0x400ffe + of_nat 3) = Some (bytes ! 3)" by blast
  then have "bytes ! 3 = pg_mem vm_demo 0x105001" using vm_demo_addr [of 3] by (simp add: user_byte_def vm_user_rw)
  with sp ok c vm_demo_valid(2) show ?thesis by (simp add: vmm_copy_from_user_def)
qed

text \<open>
  C37. \<^verbatim>\<open>vmm_copy_to_user\<close> together with copy on write. The frames behind the range are in use, hold no page
  tables, and no frame is behind two of its pages. When the copy succeeds, copying the range
  back with \<^verbatim>\<open>vmm_copy_from_user\<close> returns the bytes that were written; it does succeed on a
  valid range that is mapped writable. Whether it succeeds or not, the page tables stay well
  formed, and memory in use outside of the range keeps its contents, and so does a frame behind the range that is mapped
  read-only while others hold references to it: a shared frame is replaced by a private copy
  before the first byte is stored.
\<close>

theorem copy_to_user_spec:
  assumes "vmm_copy_to_user s a src sz = (ok, s')" and "user_range s a (unat sz)" and "unat sz \<le> length src"
  shows "pg_inv s' (cur_root s') \<and> (\<forall>x. untouched s a 0 (unat sz) x \<longrightarrow> pg_mem s' x = pg_mem s x) \<and>
    (ok \<longrightarrow> vmm_copy_from_user s' a sz = (True, take (unat sz) src)) \<and>
    (vmm_user_range_valid a sz \<noteq> None \<longrightarrow>
       (\<forall>k<unat sz. \<exists>p fl. vmm_query_info s (a + of_nat k) = Some (p, fl) \<and> fl AND VMM_USER_RW = VMM_USER_RW) \<longrightarrow> ok)"
  by (rule copy_to_result [OF assms])

theorem copy_to_user_spec_witness:
  "\<exists>s'. vmm_copy_to_user vm_demo 0x400ffe [1, 2, 3, 4] 4 = (True, s') \<and>
     vmm_copy_from_user s' 0x400ffe 4 = (True, [1, 2, 3, 4]) \<and> pg_mem s' 0x104ffd = pg_mem vm_demo 0x104ffd"
proof -
  obtain ok s' where c: "vmm_copy_to_user vm_demo 0x400ffe [1, 2, 3, 4] 4 = (ok, s')"
    by (cases "vmm_copy_to_user vm_demo 0x400ffe [1, 2, 3, 4] 4") auto
  have r: "user_range vm_demo 0x400ffe (unat (4 :: u32))" using vm_demo_range by simp
  note sp = copy_to_user_spec [OF c r]
  have ok: ok using sp vm_demo_valid(1) vm_demo_addr by auto
  have "0x104ffd \<noteq> p" if "k < 4" "vmm_query_info vm_demo (0x400ffe + of_nat k) = Some (p, fl)" for k p fl
  proof -
    from that(1) consider "k = 0" | "k = 1" | "k = 2" | "k = 3" by linarith
    then show ?thesis using that(2) unfolding vm_demo_addr [OF that(1)] by cases auto
  qed
  then have "untouched vm_demo 0x400ffe 0 4 0x104ffd"
    using vm_demo_busy(1) unfolding untouched_def by (fastforce simp: page_of_def)
  with sp ok c show ?thesis by auto
qed

end
