(* ===== verification/Checked_Array.thy ===== *)
theory Checked_Array
  imports Nexos_Prelude "HOL-Library.Monad_Syntax"
begin

text \<open>
  Code on fixed-size C arrays as computations with a result in \<open>option\<close>: an array is a function from indices
  together with its size, an access outside of the array is \<open>None\<close>, and so is a loop that does not end.
  \<open>ensures m P\<close> says that \<open>m\<close> is defined and its result satisfies \<open>P\<close>; the collection
  \<open>ok_intros\<close> holds its rules.
\<close>

named_theorems ok_intros \<open>introduction rules for \<open>ensures\<close>\<close>

definition arr_get :: "nat \<Rightarrow> (nat \<Rightarrow> 'a) \<Rightarrow> nat \<Rightarrow> 'a option" where
  "arr_get n a i = (if i < n then Some (a i) else None)"

definition arr_set :: "nat \<Rightarrow> (nat \<Rightarrow> 'a) \<Rightarrow> nat \<Rightarrow> 'a \<Rightarrow> (nat \<Rightarrow> 'a) option" where
  "arr_set n a i v = (if i < n then Some (a(i := v)) else None)"

definition tab_get :: "'a list \<Rightarrow> nat \<Rightarrow> 'a option" where
  "tab_get xs i = (if i < length xs then Some (xs ! i) else None)"

text \<open>The loop \<^verbatim>\<open>for\<close> over a known list of values.\<close>

primrec for_each :: "'a list \<Rightarrow> ('a \<Rightarrow> 's \<Rightarrow> 's option) \<Rightarrow> 's \<Rightarrow> 's option" where
  "for_each [] f s = Some s"
| "for_each (x # xs) f s = do { s1 \<leftarrow> f x s; for_each xs f s1 }"

text \<open>The loop \<^verbatim>\<open>while\<close>; it is \<open>None\<close> when it does not end.\<close>

partial_function (option) loop :: "('s \<Rightarrow> bool) \<Rightarrow> ('s \<Rightarrow> 's option) \<Rightarrow> 's \<Rightarrow> 's option" where
  "loop b f s = (if b s then do { s1 \<leftarrow> f s; loop b f s1 } else Some s)"

section \<open>Defined computations\<close>

definition ensures :: "'a option \<Rightarrow> ('a \<Rightarrow> bool) \<Rightarrow> bool" where
  "ensures m P \<longleftrightarrow> (\<exists>x. m = Some x \<and> P x)"

lemma ensures_Some [simp]: "ensures (Some x) P \<longleftrightarrow> P x"
  by (simp add: ensures_def)

lemma ensures_bind: "ensures m Q \<Longrightarrow> (\<And>x. Q x \<Longrightarrow> ensures (f x) P) \<Longrightarrow> ensures (m \<bind> f) P"
  by (auto simp: ensures_def)

lemma ensures_mono: "ensures m Q \<Longrightarrow> (\<And>x. Q x \<Longrightarrow> P x) \<Longrightarrow> ensures m P"
  by (auto simp: ensures_def)

lemma ensures_conj: "ensures m P \<Longrightarrow> ensures m Q \<Longrightarrow> ensures m (\<lambda>x. P x \<and> Q x)"
  by (auto simp: ensures_def)

lemma ensures_if: "(b \<Longrightarrow> ensures m P) \<Longrightarrow> (\<not> b \<Longrightarrow> ensures n P) \<Longrightarrow> ensures (if b then m else n) P"
  by simp

lemma ensures_map: "ensures m (\<lambda>x. P (f x)) \<Longrightarrow> ensures (map_option f m) P"
  by (auto simp: ensures_def)

lemma ensures_get: "i < n \<Longrightarrow> P (a i) \<Longrightarrow> ensures (arr_get n a i) P"
  by (simp add: arr_get_def)

lemma ensures_set: "i < n \<Longrightarrow> P (a(i := v)) \<Longrightarrow> ensures (arr_set n a i v) P"
  by (simp add: arr_set_def)

lemma ensures_tab: "i < length xs \<Longrightarrow> P (xs ! i) \<Longrightarrow> ensures (tab_get xs i) P"
  by (simp add: tab_get_def)

lemma ensures_for_each:
  assumes "P s" and "\<And>x s. x \<in> set xs \<Longrightarrow> P s \<Longrightarrow> ensures (f x s) P"
  shows "ensures (for_each xs f s) P"
  using assms
proof (induction xs arbitrary: s)
  case (Cons x xs)
  have "ensures (f x s) P" using Cons.prems by simp
  then show ?case unfolding for_each.simps by (rule ensures_bind) (use Cons in simp)
qed simp

text \<open>Counting loops, with the index in the invariant.\<close>

lemma ensures_for_upt:
  assumes "a \<le> b" and "P a s" and "\<And>i s. a \<le> i \<Longrightarrow> i < b \<Longrightarrow> P i s \<Longrightarrow> ensures (f i s) (P (Suc i))"
  shows "ensures (for_each [a..<b] f s) (P b)"
  using assms
proof (induction "b - a" arbitrary: a s)
  case (Suc n)
  then have "[a..<b] = a # [Suc a..<b]" by (simp add: upt_conv_Cons)
  moreover have "ensures (f a s) (P (Suc a))" using Suc by simp
  moreover have "ensures (for_each [Suc a..<b] f s1) (P b)" if "P (Suc a) s1" for s1
    using Suc(1) [of "Suc a" s1] Suc(2-) that by simp
  ultimately show ?case by (simp add: ensures_bind)
qed simp

lemma for_each_append: "for_each (xs @ ys) f s = do { s1 \<leftarrow> for_each xs f s; for_each ys f s1 }"
  by (induction xs arbitrary: s) (simp_all add: bind_assoc)

text \<open>A loop is defined when its body is, and a measure decreases in it.\<close>

lemma ensures_loop:
  fixes \<mu> :: "'s \<Rightarrow> nat"
  assumes "P s" and "\<And>s. P s \<Longrightarrow> b s \<Longrightarrow> ensures (f s) (\<lambda>s'. P s' \<and> \<mu> s' < \<mu> s)"
  shows "ensures (loop b f s) (\<lambda>s. P s \<and> \<not> b s)"
  using assms(1)
proof (induction "\<mu> s" arbitrary: s rule: less_induct)
  case less
  show ?case
  proof (cases "b s")
    case True
    have "ensures (f s \<bind> loop b f) (\<lambda>s. P s \<and> \<not> b s)"
      by (rule ensures_bind, rule assms(2) [OF less.prems True]) (use less.hyps in blast)
    then show ?thesis using True by (subst loop.simps) simp
  next
    case False
    then show ?thesis using less.prems by (subst loop.simps) simp
  qed
qed

text \<open>A loop with a stronger condition is an initial part of the loop; a loop on the image of its states.\<close>

lemma loop_prefix:
  assumes "loop b1 f1 s = Some s1" and "\<And>s. b1 s \<Longrightarrow> b2 s \<and> f2 s = f1 s"
  shows "loop b2 f2 s = loop b2 f2 s1"
  using assms
proof (induction b1 f1 s s1 rule: loop.raw_induct [rotated, consumes 1, case_names step])
  case (step loop' b1 f1 s s1)
  show ?case
  proof (cases "b1 s")
    case True
    then obtain s2 where "f1 s = Some s2" "loop' b1 f1 s2 = Some s1" using step(2) by (auto simp: bind_eq_Some_conv)
    then show ?thesis using True step(1) [of b1 f1 s2 s1] step(3) by (subst loop.simps) simp
  next
    case False
    then show ?thesis using step(2) by simp
  qed
qed

lemma loop_image:
  assumes "loop b f s = Some s1" and "\<And>s. b' (g s) = b s" and "\<And>s. b s \<Longrightarrow> f' (g s) = map_option g (f s)"
  shows "loop b' f' (g s) = Some (g s1)"
  using assms
proof (induction b f s s1 rule: loop.raw_induct [rotated, consumes 1, case_names step])
  case (step loop' b f s s1)
  show ?case
  proof (cases "b s")
    case True
    then obtain s2 where "f s = Some s2" "loop' b f s2 = Some s1" using step(2) by (auto simp: bind_eq_Some_conv)
    then show ?thesis using True step(1) [of b f s2 s1] step(3,4) by (subst loop.simps) simp
  next
    case False
    then show ?thesis using step(2,3) by (subst loop.simps) simp
  qed
qed
end
