(* ===== verification/Console.thy ===== *)
theory Console
  imports Checked_Array
begin

text \<open>
  The scrolling text console (\<^verbatim>\<open>kernel/core/console.c\<close>): a ring of 512 lines of cells, the window on it
  that is shown, the cursor and the mouse selection. What the display driver is told has no effect on the console and is left
  out; the number of text columns \<^verbatim>\<open>hal_display_text_columns()\<close> is an argument, as the driver may report
  another one at every call. \<open>con_displayed\<close> stands for \<^verbatim>\<open>g_console_visible_display == console\<close>.
\<close>

definition CONSOLE_SCROLLBACK_LINES :: nat where "CONSOLE_SCROLLBACK_LINES = 512"
definition HAL_TEXT_WIDTH :: nat where "HAL_TEXT_WIDTH = 320"
definition HAL_DISPLAY_CELL_CODEPOINT_MASK :: u32 where "HAL_DISPLAY_CELL_CODEPOINT_MASK = 0x001fffff"
definition HAL_DISPLAY_CELL_WIDE :: u32 where "HAL_DISPLAY_CELL_WIDE = 0x00200000"
definition HAL_DISPLAY_CELL_CONT :: u32 where "HAL_DISPLAY_CELL_CONT = 0x00400000"
definition HAL_DISPLAY_CELL_FLAGS_MASK :: u32 where "HAL_DISPLAY_CELL_FLAGS_MASK = 0x00e00000"
definition HAL_DISPLAY_CELL_COLOR_SHIFT :: nat where "HAL_DISPLAY_CELL_COLOR_SHIFT = 24"
definition CONSOLE_TAB_WIDTH :: u16 where "CONSOLE_TAB_WIDTH = 8"

record console =
  top_row :: u16
  bottom_row :: u16
  cursor_row :: u16
  cursor_col :: u16
  default_color :: u8
  con_visible :: bool
  con_displayed :: bool
  history_base_line :: u32
  history_line_count :: u32
  cursor_line :: u32
  view_top_line :: u32
  selection_active :: bool
  selection_dragging :: bool
  selection_anchor_line :: u32
  selection_anchor_col :: u16
  selection_focus_line :: u32
  selection_focus_col :: u16
  con_history :: "nat \<Rightarrow> nat \<Rightarrow> u32"

section \<open>Cells and lines\<close>

definition console_height :: "console \<Rightarrow> u16" where
  "console_height c = bottom_row c - top_row c + 1"

definition console_pack_cell :: "u32 \<Rightarrow> u8 \<Rightarrow> u32 \<Rightarrow> u32" where
  "console_pack_cell codepoint color flags =
     (let codepoint = (if codepoint > 0x10ffff \<or> codepoint \<ge> 0xd800 \<and> codepoint \<le> 0xdfff then 0xfffd else codepoint)
      in push_bit HAL_DISPLAY_CELL_COLOR_SHIFT (ucast color) OR (flags AND HAL_DISPLAY_CELL_FLAGS_MASK) OR
         (codepoint AND HAL_DISPLAY_CELL_CODEPOINT_MASK))"

definition console_blank_cell_with_color :: "u8 \<Rightarrow> u32" where
  "console_blank_cell_with_color color = console_pack_cell 0x20 color 0"

definition console_cell_is_wide :: "u32 \<Rightarrow> bool" where
  "console_cell_is_wide cell \<longleftrightarrow> cell AND HAL_DISPLAY_CELL_WIDE \<noteq> 0"

definition console_cell_is_cont :: "u32 \<Rightarrow> bool" where
  "console_cell_is_cont cell \<longleftrightarrow> cell AND HAL_DISPLAY_CELL_CONT \<noteq> 0"

definition console_cell_codepoint :: "u32 \<Rightarrow> u32" where
  "console_cell_codepoint cell = cell AND HAL_DISPLAY_CELL_CODEPOINT_MASK"

definition console_cell_is_blank :: "u32 \<Rightarrow> bool" where
  "console_cell_is_blank cell \<longleftrightarrow>
     (let codepoint = console_cell_codepoint cell in \<not> console_cell_is_cont cell \<and> (codepoint = 0 \<or> codepoint = 0x20))"

definition console_codepoint_width :: "u32 \<Rightarrow> nat" where
  "console_codepoint_width codepoint =
     (if codepoint \<ge> 0x0300 \<and> codepoint \<le> 0x036f \<or> codepoint \<ge> 0x1ab0 \<and> codepoint \<le> 0x1aff \<or>
         codepoint \<ge> 0x1dc0 \<and> codepoint \<le> 0x1dff \<or> codepoint \<ge> 0x20d0 \<and> codepoint \<le> 0x20ff \<or>
         codepoint \<ge> 0xfe20 \<and> codepoint \<le> 0xfe2f then 0
      else if codepoint \<ge> 0x1100 \<and> codepoint \<le> 0x115f \<or> codepoint \<ge> 0x2329 \<and> codepoint \<le> 0x232a \<or>
         codepoint \<ge> 0x2e80 \<and> codepoint \<le> 0xa4cf \<or> codepoint \<ge> 0xac00 \<and> codepoint \<le> 0xd7a3 \<or>
         codepoint \<ge> 0xf900 \<and> codepoint \<le> 0xfaff \<or> codepoint \<ge> 0xfe10 \<and> codepoint \<le> 0xfe19 \<or>
         codepoint \<ge> 0xfe30 \<and> codepoint \<le> 0xfe6f \<or> codepoint \<ge> 0xff00 \<and> codepoint \<le> 0xff60 \<or>
         codepoint \<ge> 0xffe0 \<and> codepoint \<le> 0xffe6 \<or> codepoint \<ge> 0x20000 \<and> codepoint \<le> 0x3fffd then 2
      else 1)"

definition console_live_top_line :: "console \<Rightarrow> u32" where
  "console_live_top_line c =
     (let height = console_height c in
      if history_line_count c \<le> ucast height then history_base_line c
      else history_base_line c + history_line_count c - ucast height)"

definition console_is_live_view :: "console \<Rightarrow> bool" where
  "console_is_live_view c \<longleftrightarrow> view_top_line c = console_live_top_line c"

definition console_line_to_slot :: "u32 \<Rightarrow> nat" where
  "console_line_to_slot line = unat line mod CONSOLE_SCROLLBACK_LINES"

definition hist_get :: "console \<Rightarrow> nat \<Rightarrow> nat \<Rightarrow> u32 option" where
  "hist_get c slot col =
     (if slot < CONSOLE_SCROLLBACK_LINES \<and> col < HAL_TEXT_WIDTH then Some (con_history c slot col) else None)"

definition hist_set :: "console \<Rightarrow> nat \<Rightarrow> nat \<Rightarrow> u32 \<Rightarrow> console option" where
  "hist_set c slot col cell =
     (if slot < CONSOLE_SCROLLBACK_LINES \<and> col < HAL_TEXT_WIDTH
      then Some (c\<lparr>con_history := (con_history c)(slot := (con_history c slot)(col := cell))\<rparr>) else None)"

definition console_history_cell :: "console \<Rightarrow> u32 \<Rightarrow> u16 \<Rightarrow> u32 option" where
  "console_history_cell c line col = hist_get c (console_line_to_slot line) (unat col)"

definition console_clear_history_line :: "u16 \<Rightarrow> u32 \<Rightarrow> u8 \<Rightarrow> console \<Rightarrow> console option" where
  "console_clear_history_line text_width line color c =
     (let cell = console_blank_cell_with_color color; slot = console_line_to_slot line
      in for_each [0..<unat text_width] (\<lambda>col c. hist_set c slot col cell) c)"

definition console_set_history_cell :: "u32 \<Rightarrow> u16 \<Rightarrow> u8 \<Rightarrow> u32 \<Rightarrow> u32 \<Rightarrow> console \<Rightarrow> console option" where
  "console_set_history_cell line col color codepoint flags c =
     hist_set c (console_line_to_slot line) (unat col) (console_pack_cell codepoint color flags)"

definition console_clear_overlapping_cells :: "u16 \<Rightarrow> u32 \<Rightarrow> u16 \<Rightarrow> nat \<Rightarrow> u8 \<Rightarrow> console \<Rightarrow> console option" where
  "console_clear_overlapping_cells text_width line col cell_width color c =
     (if text_width = 0 \<or> col \<ge> text_width then Some c
      else
        (let blank = console_blank_cell_with_color color;
             last = col + of_nat (if cell_width \<noteq> 0 then cell_width - 1 else 0);
             last = (if last \<ge> text_width then text_width - 1 else last)
         in do {
           start \<leftarrow> (if col > 0
                    then do { cell \<leftarrow> console_history_cell c line col;
                              Some (if console_cell_is_cont cell then col - 1 else col) }
                    else Some col);
           last \<leftarrow> (if unat last + 1 < unat text_width
                   then do { cell \<leftarrow> console_history_cell c line last;
                             Some (if console_cell_is_wide cell then last + 1 else last) }
                   else Some last);
           for_each [unat start..<unat last + 1] (\<lambda>cur c. hist_set c (console_line_to_slot line) cur blank) c
         }))"

section \<open>View and cursor\<close>

definition console_update_cursor_row :: "console \<Rightarrow> console" where
  "console_update_cursor_row c =
     (let height = console_height c;
          relative = (if cursor_line c \<ge> view_top_line c then sint (cursor_line c - view_top_line c) else 0);
          relative = (if relative < 0 then 0 else relative);
          relative = (if relative \<ge> int (unat height) then int (unat height) - 1 else relative)
      in c\<lparr>cursor_row := top_row c + word_of_int relative\<rparr>)"

definition console_resume_live_view :: "console \<Rightarrow> console" where
  "console_resume_live_view c = console_update_cursor_row (c\<lparr>view_top_line := console_live_top_line c\<rparr>)"

definition console_append_history_line :: "u16 \<Rightarrow> u8 \<Rightarrow> console \<Rightarrow> console option" where
  "console_append_history_line text_width color c =
     (let c1 = (if history_line_count c = of_nat CONSOLE_SCROLLBACK_LINES
                then (let base = history_base_line c + 1
                      in c\<lparr>history_base_line := base, history_line_count := history_line_count c - 1,
                           view_top_line := (if view_top_line c < base then base else view_top_line c),
                           cursor_line := (if cursor_line c < base then base else cursor_line c)\<rparr>)
                else c);
          new_line = history_base_line c1 + history_line_count c1
      in do { c2 \<leftarrow> console_clear_history_line text_width new_line color c1;
              Some (c2\<lparr>history_line_count := history_line_count c2 + 1\<rparr>) })"

definition console_newline :: "u16 \<Rightarrow> console \<Rightarrow> console option" where
  "console_newline text_width c =
     (let old_live_top = console_live_top_line c; c1 = c\<lparr>cursor_col := 0\<rparr>
      in do {
        c2 \<leftarrow> (if cursor_line c1 + 1 \<ge> history_base_line c1 + history_line_count c1
               then console_append_history_line text_width (default_color c1) c1 else Some c1);
        let c3 = c2\<lparr>cursor_line := cursor_line c2 + 1\<rparr>;
        Some (if console_is_live_view c3 then
                (let new_live_top = console_live_top_line c3 in
                 if new_live_top \<noteq> old_live_top
                 then console_update_cursor_row (c3\<lparr>view_top_line := new_live_top\<rparr>)
                 else console_update_cursor_row c3)
              else console_resume_live_view c3)
      })"

definition console_row_to_line :: "console \<Rightarrow> u16 \<Rightarrow> u32" where
  "console_row_to_line c row = view_top_line c + of_int (int (unat row) - int (unat (top_row c)))"

definition clear_rows :: "u16 \<Rightarrow> u8 \<Rightarrow> console \<Rightarrow> console option" where
  "clear_rows text_width color c =
     for_each [0..<unat (console_height c)]
       (\<lambda>row c. do { c \<leftarrow> console_clear_history_line text_width (of_nat row) color c;
                     Some (c\<lparr>history_line_count := history_line_count c + 1\<rparr>) }) c"

definition console_init :: "u16 \<Rightarrow> console \<Rightarrow> u16 \<Rightarrow> u16 \<Rightarrow> u8 \<Rightarrow> console option" where
  "console_init text_width c first_row last_row color =
     clear_rows text_width color
       (c\<lparr>top_row := first_row, bottom_row := last_row, cursor_row := first_row, cursor_col := 0, default_color := color, con_visible := True,
          history_base_line := 0, history_line_count := 0, cursor_line := 0, view_top_line := 0,
          selection_active := False, selection_dragging := False, selection_anchor_line := 0,
          selection_anchor_col := 0, selection_focus_line := 0, selection_focus_col := 0\<rparr>)"

definition console_clear :: "u16 \<Rightarrow> console \<Rightarrow> console option" where
  "console_clear text_width c =
     clear_rows text_width (default_color c)
       (c\<lparr>history_base_line := 0, history_line_count := 0, cursor_line := 0, view_top_line := 0,
          selection_active := False, selection_dragging := False, cursor_row := top_row c, cursor_col := 0\<rparr>)"

definition console_set_visible :: "bool \<Rightarrow> console \<Rightarrow> console" where
  "console_set_visible vis c = c\<lparr>con_visible := vis, con_displayed := vis\<rparr>"

definition console_is_visible :: "console \<Rightarrow> bool" where
  "console_is_visible c \<longleftrightarrow> con_visible c \<and> con_displayed c"

definition console_clear_row :: "u16 \<Rightarrow> u16 \<Rightarrow> u8 \<Rightarrow> console \<Rightarrow> console option" where
  "console_clear_row text_width row color c =
     (let c1 = console_resume_live_view c in console_clear_history_line text_width (console_row_to_line c1 row) color c1)"

definition console_set_cursor :: "u16 \<Rightarrow> u16 \<Rightarrow> u16 \<Rightarrow> console \<Rightarrow> console" where
  "console_set_cursor text_width row col c =
     (let c1 = console_resume_live_view c;
          row = (if row < top_row c1 then top_row c1 else row);
          row = (if row > bottom_row c1 then bottom_row c1 else row);
          col = (if col \<ge> text_width then text_width - 1 else col)
      in c1\<lparr>cursor_row := row, cursor_col := col, cursor_line := console_row_to_line c1 row\<rparr>)"

definition console_get_cursor_row :: "console \<Rightarrow> u16" where
  "console_get_cursor_row c = cursor_row c"

definition console_get_cursor_col :: "console \<Rightarrow> u16" where
  "console_get_cursor_col c = cursor_col c"

end
