(* ===== verification/Console_Write.thy ===== *)
theory Console_Write
  imports Console
begin

text \<open>
  Output to the console (\<^verbatim>\<open>kernel/core/console.c\<close>): code points at the cursor and at a position, numbers,
  scrolling of the view, and the mouse selection with the text it covers.
\<close>

section \<open>Code points\<close>

definition console_put_at :: "u16 \<Rightarrow> u16 \<Rightarrow> u16 \<Rightarrow> u8 \<Rightarrow> u8 \<Rightarrow> console \<Rightarrow> console option" where
  "console_put_at text_width row col ch color c =
     (if row < top_row c \<or> row > bottom_row c \<or> col \<ge> text_width then Some c
      else
        (let c1 = console_resume_live_view c; line = console_row_to_line c1 row
         in do { c2 \<leftarrow> console_clear_overlapping_cells text_width line col 1 color c1;
                 console_set_history_cell line col color (ucast ch) 0 c2 }))"

text \<open>
  \<open>console_put_cell\<close> is the part of \<^verbatim>\<open>console_put_codepoint\<close> after the control characters, and
  \<open>console_put_space\<close> its recursive call for the spaces of a tab.
\<close>

definition console_put_cell :: "u16 \<Rightarrow> u32 \<Rightarrow> u8 \<Rightarrow> console \<Rightarrow> console option" where
  "console_put_cell text_width codepoint color c =
     (let codepoint = (if codepoint > 0x10ffff \<or> codepoint \<ge> 0xd800 \<and> codepoint \<le> 0xdfff then 0xfffd else codepoint);
          cell_width = console_codepoint_width codepoint
      in if cell_width = 0 then Some c
         else if text_width = 0 then Some c
         else
           (let (codepoint, cell_width) = (if cell_width > unat text_width then (0x3f, 1) else (codepoint, cell_width))
            in do {
              c1 \<leftarrow> (if cursor_col c \<ge> text_width \<or> unat (cursor_col c) + cell_width > unat text_width
                     then console_newline text_width c else Some c);
              c2 \<leftarrow> console_clear_overlapping_cells text_width (cursor_line c1) (cursor_col c1) cell_width color c1;
              c3 \<leftarrow> console_set_history_cell (cursor_line c2) (cursor_col c2) color codepoint
                     (if cell_width = 2 then HAL_DISPLAY_CELL_WIDE else 0) c2;
              c4 \<leftarrow> (if cell_width = 2
                     then console_set_history_cell (cursor_line c3) (cursor_col c3 + 1) color codepoint HAL_DISPLAY_CELL_CONT c3
                     else Some c3);
              Some (c4\<lparr>cursor_col := cursor_col c4 + of_nat cell_width\<rparr>)
            }))"

definition console_put_space :: "u16 \<Rightarrow> u8 \<Rightarrow> console \<Rightarrow> console option" where
  "console_put_space text_width color c = console_put_cell text_width 0x20 color (console_resume_live_view c)"

definition console_put_codepoint :: "u16 \<Rightarrow> u32 \<Rightarrow> u8 \<Rightarrow> console \<Rightarrow> console option" where
  "console_put_codepoint text_width codepoint color c =
     (let c1 = console_resume_live_view c in
      if codepoint = 0x0a then console_newline text_width c1
      else if codepoint = 0x0d then Some (c1\<lparr>cursor_col := 0\<rparr>)
      else if codepoint = 0x09 then
        (let spaces = CONSOLE_TAB_WIDTH - cursor_col c1 mod CONSOLE_TAB_WIDTH
         in for_each [0..<unat spaces] (\<lambda>_. console_put_space text_width color) c1)
      else if codepoint = 0x08 then
        (let c2 = (if cursor_col c1 \<noteq> 0 then c1\<lparr>cursor_col := cursor_col c1 - 1\<rparr>
                   else if cursor_line c1 > history_base_line c1
                   then c1\<lparr>cursor_line := cursor_line c1 - 1, cursor_col := text_width - 1\<rparr>
                   else c1)
         in do {
           c3 \<leftarrow> (if cursor_col c2 > 0
                  then do { cell \<leftarrow> console_history_cell c2 (cursor_line c2) (cursor_col c2);
                            Some (if console_cell_is_cont cell then c2\<lparr>cursor_col := cursor_col c2 - 1\<rparr> else c2) }
                  else Some c2);
           let c4 = console_update_cursor_row c3;
           console_clear_overlapping_cells text_width (cursor_line c4) (cursor_col c4) 1 color c4
         })
      else console_put_cell text_width codepoint color c1)"

definition console_putc :: "u16 \<Rightarrow> u8 \<Rightarrow> u8 \<Rightarrow> console \<Rightarrow> console option" where
  "console_putc text_width ch color c = console_put_codepoint text_width (ucast ch) color c"

definition console_write :: "u16 \<Rightarrow> u8 list \<Rightarrow> u8 \<Rightarrow> console \<Rightarrow> console option" where
  "console_write text_width text color c = for_each text (\<lambda>ch. console_putc text_width ch color) c"

section \<open>Numbers\<close>

text \<open>The digits that the loop over \<^verbatim>\<open>value % 10\<close> stores, the last one first; a 32-bit value has at most ten.\<close>

fun dec_digits :: "nat \<Rightarrow> u8 list" where
  "dec_digits value = (if value = 0 then [] else of_nat (0x30 + value mod 10) # dec_digits (value div 10))"

declare dec_digits.simps [simp del]

definition dec_text :: "u32 \<Rightarrow> u8 list" where
  "dec_text value = (if value = 0 then [0x30] else rev (dec_digits (unat value)))"

definition hex_digit :: "u64 \<Rightarrow> u8" where
  "hex_digit v = (if v < 10 then 0x30 + ucast v else 0x37 + ucast v)"

definition hex_text :: "nat \<Rightarrow> u64 \<Rightarrow> u8 list" where
  "hex_text n value = map (\<lambda>k. hex_digit (drop_bit (4 * k) value AND 0xf)) (rev [0..<n])"

definition console_write_dec :: "u16 \<Rightarrow> u32 \<Rightarrow> u8 \<Rightarrow> console \<Rightarrow> console option" where
  "console_write_dec text_width value color c = for_each (dec_text value) (\<lambda>ch. console_putc text_width ch color) c"

definition console_write_hex64 :: "u16 \<Rightarrow> u64 \<Rightarrow> u8 \<Rightarrow> console \<Rightarrow> console option" where
  "console_write_hex64 text_width value color c = for_each (hex_text 16 value) (\<lambda>ch. console_putc text_width ch color) c"

text \<open>The loop that puts a text at a row from a column on, while the column is on the screen.\<close>

primrec put_text_at :: "u16 \<Rightarrow> u16 \<Rightarrow> u16 \<Rightarrow> u8 list \<Rightarrow> u8 \<Rightarrow> console \<Rightarrow> console option" where
  "put_text_at text_width row col [] color c = Some c"
| "put_text_at text_width row col (ch # text) color c =
     (if col < text_width
      then do { c1 \<leftarrow> console_put_at text_width row col ch color c; put_text_at text_width row (col + 1) text color c1 }
      else Some c)"

definition console_write_at :: "u16 \<Rightarrow> u16 \<Rightarrow> u16 \<Rightarrow> u8 list \<Rightarrow> u8 \<Rightarrow> console \<Rightarrow> console option" where
  "console_write_at text_width row col text color c =
     put_text_at text_width row col text color (console_resume_live_view c)"

definition console_write_dec_at :: "u16 \<Rightarrow> u16 \<Rightarrow> u16 \<Rightarrow> u32 \<Rightarrow> u8 \<Rightarrow> console \<Rightarrow> console option" where
  "console_write_dec_at text_width row col value color c =
     (if value = 0 then console_put_at text_width row col 0x30 color c
      else put_text_at text_width row col (dec_text value) color c)"

definition console_write_hex32_at :: "u16 \<Rightarrow> u16 \<Rightarrow> u16 \<Rightarrow> u32 \<Rightarrow> u8 \<Rightarrow> console \<Rightarrow> console option" where
  "console_write_hex32_at text_width row col value color c = put_text_at text_width row col (hex_text 8 (ucast value)) color c"

definition console_write_hex64_at :: "u16 \<Rightarrow> u16 \<Rightarrow> u16 \<Rightarrow> u64 \<Rightarrow> u8 \<Rightarrow> console \<Rightarrow> console option" where
  "console_write_hex64_at text_width row col value color c =
     do { c1 \<leftarrow> console_write_hex32_at text_width row col (ucast (drop_bit 32 value)) color c;
          console_write_hex32_at text_width row (col + 8) (ucast value) color c1 }"

section \<open>Scrolling the view\<close>

definition scroll_step :: "console \<Rightarrow> u32" where
  "scroll_step c = (let height = console_height c in if height > 1 then ucast height - 1 else 1)"

definition console_scroll_page_up :: "console \<Rightarrow> console" where
  "console_scroll_page_up c =
     (if view_top_line c \<le> history_base_line c then c
      else c\<lparr>view_top_line := (if view_top_line c - history_base_line c < scroll_step c then history_base_line c
                               else view_top_line c - scroll_step c)\<rparr>)"

definition console_scroll_page_down :: "console \<Rightarrow> console" where
  "console_scroll_page_down c =
     (let live_top = console_live_top_line c in
      if view_top_line c \<ge> live_top then c
      else c\<lparr>view_top_line := (if live_top - view_top_line c < scroll_step c then live_top
                               else view_top_line c + scroll_step c)\<rparr>)"

section \<open>Selection\<close>

definition console_mouse_select_begin :: "u16 \<Rightarrow> u16 \<Rightarrow> u16 \<Rightarrow> console \<Rightarrow> console" where
  "console_mouse_select_begin text_width row col c =
     (if row < top_row c \<or> row > bottom_row c \<or> text_width = 0 then c
      else
        (let col = (if col \<ge> text_width then text_width - 1 else col); line = console_row_to_line c row
         in c\<lparr>selection_active := True, selection_dragging := True, selection_anchor_line := line,
              selection_anchor_col := col, selection_focus_line := line, selection_focus_col := col\<rparr>))"

definition console_mouse_select_update :: "u16 \<Rightarrow> u16 \<Rightarrow> u16 \<Rightarrow> console \<Rightarrow> console" where
  "console_mouse_select_update text_width row col c =
     (if \<not> selection_dragging c \<or> row < top_row c \<or> row > bottom_row c \<or> text_width = 0 then c
      else
        (let col = (if col \<ge> text_width then text_width - 1 else col)
         in c\<lparr>selection_active := True, selection_focus_line := console_row_to_line c row, selection_focus_col := col\<rparr>))"

definition console_mouse_select_end :: "u16 \<Rightarrow> u16 \<Rightarrow> u16 \<Rightarrow> console \<Rightarrow> console" where
  "console_mouse_select_end text_width row col c =
     (if \<not> selection_dragging c then c
      else (console_mouse_select_update text_width row col c)\<lparr>selection_dragging := False\<rparr>)"

definition console_mouse_select_clear :: "console \<Rightarrow> console" where
  "console_mouse_select_clear c =
     (if \<not> selection_active c then c else c\<lparr>selection_active := False, selection_dragging := False\<rparr>)"

definition console_selection_bounds :: "console \<Rightarrow> (u32 \<times> u16) \<times> (u32 \<times> u16)" where
  "console_selection_bounds c =
     (let a = (selection_anchor_line c, selection_anchor_col c); f = (selection_focus_line c, selection_focus_col c)
      in if fst f < fst a \<or> fst f = fst a \<and> snd f < snd a then (f, a) else (a, f))"

text \<open>
  The text of the selection. The buffer \<open>out\<close> has \<open>out_size\<close> bytes; \<open>written\<close> counts also the bytes
  that did not fit.
\<close>

type_synonym text_out = "(nat \<Rightarrow> u8) \<times> u32"

definition console_append_byte :: "u32 \<Rightarrow> u8 \<Rightarrow> text_out \<Rightarrow> text_out option" where
  "console_append_byte out_size byte w =
     (case w of (out, written) \<Rightarrow> do {
        out1 \<leftarrow> (if out_size \<noteq> 0 \<and> written + 1 < out_size then arr_set (unat out_size) out (unat written) byte else Some out);
        Some (out1, written + 1) })"

definition codepoint_utf8 :: "u32 \<Rightarrow> u8 list" where
  "codepoint_utf8 codepoint =
     (if codepoint \<le> 0x7f then [ucast codepoint]
      else if codepoint \<le> 0x7ff then [ucast (0xc0 OR drop_bit 6 codepoint), ucast (0x80 OR (codepoint AND 0x3f))]
      else if codepoint \<le> 0xffff
      then [ucast (0xe0 OR drop_bit 12 codepoint), ucast (0x80 OR (drop_bit 6 codepoint AND 0x3f)),
            ucast (0x80 OR (codepoint AND 0x3f))]
      else [ucast (0xf0 OR drop_bit 18 codepoint), ucast (0x80 OR (drop_bit 12 codepoint AND 0x3f)),
            ucast (0x80 OR (drop_bit 6 codepoint AND 0x3f)), ucast (0x80 OR (codepoint AND 0x3f))])"

definition console_append_codepoint_utf8 :: "u32 \<Rightarrow> u32 \<Rightarrow> text_out \<Rightarrow> text_out option" where
  "console_append_codepoint_utf8 out_size codepoint w =
     (case w of (out, written) \<Rightarrow>
        (let codepoint = (if codepoint > 0x10ffff \<or> codepoint \<ge> 0xd800 \<and> codepoint \<le> 0xdfff then 0xfffd else codepoint);
             encoded = codepoint_utf8 codepoint; len = of_nat (length encoded)
         in do {
           out1 \<leftarrow> (if out_size \<noteq> 0 \<and> written + len < out_size
                   then for_each [0..<length encoded]
                          (\<lambda>i out. arr_set (unat out_size) out (unat (written + of_nat i)) (encoded ! i)) out
                   else Some out);
           Some (out1, written + len)
         }))"

text \<open>The loop that moves \<open>col_end\<close> left over blank cells.\<close>

fun trim_blank :: "console \<Rightarrow> u32 \<Rightarrow> nat \<Rightarrow> nat \<Rightarrow> nat option" where
  "trim_blank c line col_start col_end =
     (if col_end \<ge> col_start
      then do { cell \<leftarrow> hist_get c (console_line_to_slot line) col_end;
                if console_cell_is_blank cell
                then (case col_end of 0 \<Rightarrow> Some 0 | Suc n \<Rightarrow> trim_blank c line col_start n)
                else Some col_end }
      else Some col_end)"

declare trim_blank.simps [simp del]

definition selection_cell :: "console \<Rightarrow> u32 \<Rightarrow> u32 \<Rightarrow> nat \<Rightarrow> text_out \<Rightarrow> text_out option" where
  "selection_cell c out_size line col w =
     do { cell \<leftarrow> hist_get c (console_line_to_slot line) col;
          if console_cell_is_cont cell then Some w
          else (let codepoint = console_cell_codepoint cell
                in console_append_codepoint_utf8 out_size (if codepoint = 0 then 0x20 else codepoint) w) }"

definition selection_line :: "u16 \<Rightarrow> console \<Rightarrow> u32 \<Rightarrow> u32 \<times> u16 \<Rightarrow> u32 \<times> u16 \<Rightarrow> u32 \<Rightarrow> text_out \<Rightarrow> text_out option" where
  "selection_line text_width c out_size start stop line w =
     (let col_start = (if line = fst start then snd start else 0);
          col_end = (if line = fst stop then snd stop else text_width - 1);
          col_start = (if col_start \<ge> text_width then text_width - 1 else col_start);
          col_end = (if col_end \<ge> text_width then text_width - 1 else col_end)
      in do {
        col_end \<leftarrow> trim_blank c line (unat col_start) (unat col_end);
        w1 \<leftarrow> (if col_end \<ge> unat col_start
               then do { cell \<leftarrow> hist_get c (console_line_to_slot line) col_end;
                         if \<not> console_cell_is_blank cell
                         then for_each [unat col_start..<col_end + 1] (selection_cell c out_size line) w else Some w }
               else Some w);
        (if line \<noteq> fst stop then console_append_byte out_size 0x0a w1 else Some w1)
      })"

definition console_get_selection_text :: "u16 \<Rightarrow> console \<Rightarrow> (nat \<Rightarrow> u8) \<Rightarrow> u32 \<Rightarrow> text_out option" where
  "console_get_selection_text text_width c out out_size =
     do {
       out0 \<leftarrow> (if out_size \<noteq> 0 then arr_set (unat out_size) out 0 0 else Some out);
       (let history_end = history_base_line c + history_line_count c; (start, stop) = console_selection_bounds c;
            start = (if fst start < history_base_line c then (history_base_line c, 0) else start);
            stop = (if fst stop \<ge> history_end then (history_end - 1, text_width - 1) else stop)
        in if \<not> selection_active c \<or> text_width = 0 \<or> history_end = 0 \<or> fst start > fst stop then Some (out0, 0)
           else do {
             (out1, written) \<leftarrow>
               for_each [unat (fst start)..<unat (fst stop) + 1] (\<lambda>l. selection_line text_width c out_size start stop (of_nat l)) (out0, 0);
             out2 \<leftarrow> (if out_size \<noteq> 0
                     then arr_set (unat out_size) out1 (unat (if written < out_size then written else out_size - 1)) 0
                     else Some out1);
             Some (out2, written)
           })
     }"

section \<open>Colours\<close>

definition console_ansi_palette_color :: "u32 \<Rightarrow> bool \<Rightarrow> u8" where
  "console_ansi_palette_color index bright =
     (let color = [0, 4, 2, 6, 1, 5, 3, 7] ! unat (index AND 7) in if bright then color + 8 else color)"

end
