(* ===== verification/Console_Ok.thy ===== *)
theory Console_Ok
  imports Console_Write
begin

text \<open>
  Every operation of the console keeps its cursor on the screen and stays inside of its
  arrays, for every text width that a display can report.
\<close>

definition width_ok :: "u16 \<Rightarrow> bool" where
  "width_ok text_width \<longleftrightarrow> 0 < unat text_width \<and> unat text_width \<le> HAL_TEXT_WIDTH"

definition console_ok :: "console \<Rightarrow> bool" where
  "console_ok c \<longleftrightarrow>
     top_row c \<le> bottom_row c \<and> bottom_row c < 0xffff \<and> top_row c \<le> cursor_row c \<and> cursor_row c \<le> bottom_row c \<and>
     unat (cursor_col c) \<le> HAL_TEXT_WIDTH \<and> unat (bottom_row c) - unat (top_row c) < CONSOLE_SCROLLBACK_LINES \<and>
     unat (history_line_count c) \<le> CONSOLE_SCROLLBACK_LINES"

lemma width_okD: "width_ok w \<Longrightarrow> w \<noteq> 0" "width_ok w \<Longrightarrow> col < w \<Longrightarrow> unat col < HAL_TEXT_WIDTH"
  "width_ok w \<Longrightarrow> unat w \<le> HAL_TEXT_WIDTH" "width_ok w \<Longrightarrow> unat (w - 1) < HAL_TEXT_WIDTH" "width_ok w \<Longrightarrow> w - 1 < w"
proof -
  assume w: "width_ok w"
  show nz: "w \<noteq> 0" using w by (auto simp: width_ok_def)
  show "unat w \<le> HAL_TEXT_WIDTH" using w by (simp add: width_ok_def)
  show "col < w \<Longrightarrow> unat col < HAL_TEXT_WIDTH" using w by (simp add: width_ok_def word_less_nat_alt)
  have "unat (w - 1) = unat w - 1" using nz by (simp add: unat_minus_one)
  with w show "unat (w - 1) < HAL_TEXT_WIDTH" "w - 1 < w" unfolding width_ok_def word_less_nat_alt by linarith+
qed

lemma console_ok_fields [simp]:
  "console_ok (c\<lparr>cursor_line := l\<rparr>) \<longleftrightarrow> console_ok c" "console_ok (c\<lparr>view_top_line := l\<rparr>) \<longleftrightarrow> console_ok c"
  "console_ok (c\<lparr>con_history := h\<rparr>) \<longleftrightarrow> console_ok c"
  by (simp_all add: console_ok_def)

lemma slot_ok [simp]: "console_line_to_slot line < CONSOLE_SCROLLBACK_LINES"
  by (simp add: console_line_to_slot_def CONSOLE_SCROLLBACK_LINES_def)

section \<open>Cells\<close>

text \<open>Operations that change cells only.\<close>

definition cells_only :: "console \<Rightarrow> console \<Rightarrow> bool" where
  "cells_only c c' \<longleftrightarrow> (\<exists>h. c' = c\<lparr>con_history := h\<rparr>)"

lemma cells_only_refl [simp]: "cells_only c c"
  by (auto simp: cells_only_def intro: exI [of _ "con_history c"])

lemma cells_only_fields:
  assumes "cells_only c c'"
  shows "cursor_col c' = cursor_col c" "cursor_line c' = cursor_line c" "cursor_row c' = cursor_row c" "top_row c' = top_row c"
    "bottom_row c' = bottom_row c" "console_ok c' \<longleftrightarrow> console_ok c" "history_line_count c' = history_line_count c"
    "history_base_line c' = history_base_line c" "view_top_line c' = view_top_line c"
  using assms by (auto simp: cells_only_def console_ok_def)

lemma ensures_hist_get: "unat col < HAL_TEXT_WIDTH \<Longrightarrow> ensures (console_history_cell c line col) (\<lambda>_. True)"
  by (simp add: console_history_cell_def hist_get_def)

lemma ensures_hist_set:
  "slot < CONSOLE_SCROLLBACK_LINES \<Longrightarrow> col < HAL_TEXT_WIDTH \<Longrightarrow> cells_only c d \<Longrightarrow> ensures (hist_set d slot col cell) (cells_only c)"
  by (auto simp: hist_set_def cells_only_def)

lemma ensures_set_cell: "unat col < HAL_TEXT_WIDTH \<Longrightarrow> ensures (console_set_history_cell line col color cp fl c) (cells_only c)"
  unfolding console_set_history_cell_def by (rule ensures_hist_set) simp_all

lemma ensures_clear_line: "width_ok w \<Longrightarrow> ensures (console_clear_history_line w line color c) (cells_only c)"
  unfolding console_clear_history_line_def Let_def
  by (rule ensures_for_each) (auto intro!: ensures_hist_set dest: width_okD(3))

lemma ensures_clear_overlapping:
  assumes w: "width_ok w" and cw: "cw \<le> 2"
  shows "ensures (console_clear_overlapping_cells w line col cw color c) (cells_only c)"
proof (cases "col \<ge> w")
  case False
  then have col: "col < w" by simp
  define last where "last = (let e = col + of_nat (if cw \<noteq> 0 then cw - 1 else 0) in if e \<ge> w then w - 1 else e)"
  have last: "last < w" using width_okD(5) [OF w] by (auto simp: last_def Let_def)
  have start: "ensures (if col > 0 then do { cell \<leftarrow> console_history_cell c line col;
      Some (if console_cell_is_cont cell then col - 1 else col) } else Some col) (\<lambda>_. True)"
    by (intro ensures_if ensures_bind [OF ensures_hist_get]) (use width_okD(2) [OF w col] in simp_all)
  have stop: "ensures (if unat last + 1 < unat w then do { cell \<leftarrow> console_history_cell c line last;
      Some (if console_cell_is_wide cell then last + 1 else last) } else Some last) (\<lambda>e. unat e < unat w)"
  proof (intro ensures_if ensures_bind [OF ensures_hist_get])
    assume lt: "unat last + 1 < unat w"
    then have "unat (last + 1) = unat last + 1" using unsigned_less [of w, where ?'a = nat] by (subst unat_add_lem [THEN iffD1]) simp_all
    with lt show "ensures (Some (if console_cell_is_wide cell then last + 1 else last)) (\<lambda>e. unat e < unat w)" for cell by simp
  qed (use width_okD(2) [OF w last] last in \<open>simp_all add: word_less_nat_alt\<close>)
  have "ensures (for_each [unat (s :: u16)..<unat e + 1] (\<lambda>cur c. hist_set c (console_line_to_slot line) cur blank) c) (cells_only c)"
    if "unat e < unat w" for s and e :: u16 and blank
    by (rule ensures_for_each) (use that width_okD(3) [OF w] in \<open>auto intro!: ensures_hist_set\<close>)
  note loop = this
  have "w = 0 \<or> col \<ge> w \<longleftrightarrow> False" using False width_okD(1) [OF w] by simp
  then show ?thesis
    unfolding console_clear_overlapping_cells_def Let_def last_def [unfolded Let_def, symmetric]
    by (simp only: if_False) (rule ensures_bind [OF start], rule ensures_bind [OF stop], rule loop)
qed (simp add: console_clear_overlapping_cells_def)

section \<open>Rows\<close>

lemma height_ok:
  assumes "console_ok c"
  shows "unat (console_height c) = unat (bottom_row c) - unat (top_row c) + 1"
proof -
  have b: "top_row c \<le> bottom_row c" "unat (bottom_row c) < 0xffff" using assms by (simp_all add: console_ok_def word_less_nat_alt)
  have "unat (bottom_row c - top_row c) = unat (bottom_row c) - unat (top_row c)" using b by (simp add: unat_sub)
  moreover from this b have "unat (bottom_row c - top_row c) + unat (1 :: u16) < 2 ^ 16" by simp
  ultimately show ?thesis unfolding console_height_def using unat_add_lem [of "bottom_row c - top_row c" 1] by simp
qed

lemma update_row_ok: "console_ok c \<Longrightarrow> console_ok (console_update_cursor_row c)"
proof -
  assume ok: "console_ok c"
  let ?r = "if cursor_line c \<ge> view_top_line c then sint (cursor_line c - view_top_line c) else 0"
  define r where "r = (let r = (if ?r < 0 then 0 else ?r) in if r \<ge> int (unat (console_height c)) then int (unat (console_height c)) - 1 else r)"
  have r: "0 \<le> r" "r \<le> int (unat (bottom_row c) - unat (top_row c))"
    using height_ok [OF ok] by (auto simp: r_def Let_def)
  have b: "unat (top_row c) \<le> unat (bottom_row c)" "unat (bottom_row c) < 0xffff"
    using ok by (simp_all add: console_ok_def word_less_nat_alt word_le_nat_alt)
  have ur: "unat (word_of_int r :: u16) = nat r"
  proof -
    have "r < 65536" using r b by linarith
    with r(1) show ?thesis by (simp add: unsigned_of_int take_bit_int_eq_self)
  qed
  have "unat (top_row c) + unat (word_of_int r :: u16) \<le> unat (bottom_row c)" using r b unfolding ur by linarith
  moreover from this b have "unat (top_row c + word_of_int r) = unat (top_row c) + unat (word_of_int r :: u16)"
    using unat_add_lem [of "top_row c" "word_of_int r"] by simp
  moreover have "console_update_cursor_row c = c\<lparr>cursor_row := top_row c + word_of_int r\<rparr>"
    by (simp add: console_update_cursor_row_def r_def Let_def)
  ultimately show ?thesis using ok by (simp add: console_ok_def word_le_nat_alt)
qed

lemma update_row_fields [simp]:
  "cursor_col (console_update_cursor_row c) = cursor_col c" "cursor_line (console_update_cursor_row c) = cursor_line c"
  "top_row (console_update_cursor_row c) = top_row c" "bottom_row (console_update_cursor_row c) = bottom_row c"
  by (simp_all add: console_update_cursor_row_def Let_def)

lemma resume_ok: "console_ok c \<Longrightarrow> console_ok (console_resume_live_view c)"
  unfolding console_resume_live_view_def by (rule update_row_ok) (simp add: console_ok_def)

lemma resume_fields [simp]:
  "cursor_col (console_resume_live_view c) = cursor_col c" "cursor_line (console_resume_live_view c) = cursor_line c"
  "top_row (console_resume_live_view c) = top_row c" "bottom_row (console_resume_live_view c) = bottom_row c"
  by (simp_all add: console_resume_live_view_def)

lemma ensures_append:
  assumes w: "width_ok w" and ok: "console_ok c"
  shows "ensures (console_append_history_line w color c) (\<lambda>d. console_ok d \<and> cursor_col d = cursor_col c)"
proof -
  have le: "unat (history_line_count c) \<le> 512" using ok by (simp add: console_ok_def CONSOLE_SCROLLBACK_LINES_def)
  have full: "history_line_count c = 512 \<longleftrightarrow> unat (history_line_count c) = 512" by (simp add: word_unat_eq_iff)
  have suc: "unat (history_line_count c + 1) \<le> 512" if "history_line_count c \<noteq> 512"
    using that le full unat_add_lem [of "history_line_count c" 1] by simp
  show ?thesis
    unfolding console_append_history_line_def Let_def
    by (rule ensures_bind [OF ensures_clear_line [OF w]])
      (use ok suc in \<open>auto simp: cells_only_def console_ok_def CONSOLE_SCROLLBACK_LINES_def\<close>)
qed

lemma ensures_newline:
  assumes w: "width_ok w" and ok: "console_ok c"
  shows "ensures (console_newline w c) (\<lambda>d. console_ok d \<and> cursor_col d = 0)"
proof -
  let ?c1 = "c\<lparr>cursor_col := 0\<rparr>"
  have ok1: "console_ok ?c1" using ok by (simp add: console_ok_def)
  have "ensures (if cursor_line ?c1 + 1 \<ge> history_base_line ?c1 + history_line_count ?c1
      then console_append_history_line w (default_color ?c1) ?c1 else Some ?c1) (\<lambda>d. console_ok d \<and> cursor_col d = 0)"
    using ensures_append [OF w ok1] ok1 by (intro ensures_if) auto
  then show ?thesis
    unfolding console_newline_def Let_def
    by (rule ensures_bind) (simp add: update_row_ok resume_ok)
qed

lemma ensures_clear_rows:
  assumes w: "width_ok w" and ok: "console_ok c" and "history_line_count c = 0"
  shows "ensures (clear_rows w color c) console_ok"
proof -
  have h: "unat (console_height c) \<le> 512"
    unfolding height_ok [OF ok] using ok by (simp add: console_ok_def CONSOLE_SCROLLBACK_LINES_def)
  have "ensures (clear_rows w color c) (\<lambda>d. console_ok d \<and> unat (history_line_count d) = unat (console_height c))"
    unfolding clear_rows_def
  proof (rule ensures_for_upt [where P = "\<lambda>i d. console_ok d \<and> unat (history_line_count d) = i"])
    show "ensures (do { c \<leftarrow> console_clear_history_line w (of_nat i) color d; Some (c\<lparr>history_line_count := history_line_count c + 1\<rparr>) })
        (\<lambda>d. console_ok d \<and> unat (history_line_count d) = Suc i)"
      if i: "i < unat (console_height c)" "console_ok d \<and> unat (history_line_count d) = i" for i d
    proof (rule ensures_bind [OF ensures_clear_line [OF w]])
      fix e assume e: "cells_only d e"
      have "unat (history_line_count d + 1) = Suc i" using i h unat_add_lem [of "history_line_count d" 1] by simp
      with e i h show "ensures (Some (e\<lparr>history_line_count := history_line_count e + 1\<rparr>))
          (\<lambda>d. console_ok d \<and> unat (history_line_count d) = Suc i)"
        by (auto simp: cells_only_def console_ok_def CONSOLE_SCROLLBACK_LINES_def)
    qed
  qed (use ok assms(3) in simp_all)
  then show ?thesis by (rule ensures_mono) simp
qed

lemma ensures_init:
  "width_ok w \<Longrightarrow> first_row \<le> last_row \<Longrightarrow> last_row < 0xffff \<Longrightarrow> unat last_row - unat first_row < CONSOLE_SCROLLBACK_LINES \<Longrightarrow>
     ensures (console_init w c first_row last_row color) console_ok"
  unfolding console_init_def by (rule ensures_clear_rows) (simp_all add: console_ok_def)

lemma ensures_clear: "width_ok w \<Longrightarrow> console_ok c \<Longrightarrow> ensures (console_clear w c) console_ok"
  unfolding console_clear_def by (rule ensures_clear_rows) (simp_all add: console_ok_def)

lemma ensures_clear_row: "width_ok w \<Longrightarrow> console_ok c \<Longrightarrow> ensures (console_clear_row w row color c) console_ok"
  unfolding console_clear_row_def Let_def
  by (rule ensures_mono [OF ensures_clear_line]) (auto simp: cells_only_def resume_ok)

lemma set_cursor_ok:
  assumes w: "width_ok w" and ok: "console_ok c"
  shows "console_ok (console_set_cursor w row col c)"
proof -
  have "unat (if col \<ge> w then w - 1 else col) \<le> HAL_TEXT_WIDTH"
    using width_okD(2) [OF w, of col] width_okD(4) [OF w] by (cases "col \<ge> w") (simp_all add: not_le less_imp_le)
  then show ?thesis
    using resume_ok [OF ok] by (auto simp: console_set_cursor_def Let_def console_ok_def not_less not_le)
qed

lemma ensures_put_at:
  assumes w: "width_ok w" and ok: "console_ok c"
  shows "ensures (console_put_at w row col ch color c) console_ok"
proof (cases "row < top_row c \<or> row > bottom_row c \<or> col \<ge> w")
  case False
  then have col: "unat col < HAL_TEXT_WIDTH" using width_okD(2) [OF w, of col] by (simp add: not_le)
  from False have f: "(row < top_row c \<or> row > bottom_row c \<or> col \<ge> w) = False" by simp
  show ?thesis
    unfolding console_put_at_def Let_def f if_False
    by (rule ensures_bind [OF ensures_clear_overlapping [OF w]], simp, rule ensures_mono [OF ensures_set_cell [OF col]])
      (use resume_ok [OF ok] in \<open>simp add: cells_only_fields\<close>)
qed (simp add: console_put_at_def ok)

section \<open>Code points\<close>

lemma codepoint_width_le: "console_codepoint_width cp \<le> 2"
  by (simp add: console_codepoint_width_def)

lemma cells_only_trans: "cells_only c d \<Longrightarrow> cells_only d e \<Longrightarrow> cells_only c e"
  by (auto simp: cells_only_def)

lemma ensures_put_cells:
  assumes w: "width_ok w" and cw: "cw \<le> 2" and col: "unat (cursor_col d) < HAL_TEXT_WIDTH"
    and next_col: "cw = 2 \<Longrightarrow> unat (cursor_col d + 1) < HAL_TEXT_WIDTH" and P: "\<And>e. cells_only d e \<Longrightarrow> P (f e)"
  shows "ensures (do {
      c2 \<leftarrow> console_clear_overlapping_cells w (cursor_line d) (cursor_col d) cw color d;
      c3 \<leftarrow> console_set_history_cell (cursor_line c2) (cursor_col c2) color cp fl c2;
      c4 \<leftarrow> (if cw = 2 then console_set_history_cell (cursor_line c3) (cursor_col c3 + 1) color cp fl' c3 else Some c3);
      Some (f c4) }) P"
proof (rule ensures_bind [OF ensures_clear_overlapping [OF w cw]], rule ensures_bind [OF ensures_set_cell])
  show "unat (cursor_col c2) < HAL_TEXT_WIDTH" if "cells_only d c2" for c2 using col that by (simp add: cells_only_fields)
next
  fix c2 c3 assume c: "cells_only d c2" "cells_only c2 c3"
  from c have d: "cells_only d c3" by (rule cells_only_trans)
  have "ensures (if cw = 2 then console_set_history_cell (cursor_line c3) (cursor_col c3 + 1) color cp fl' c3 else Some c3) (cells_only d)"
    by (rule ensures_if, rule ensures_mono [OF ensures_set_cell cells_only_trans [OF d]])
      (use next_col cells_only_fields(1) [OF d] d in simp_all)
  then show "ensures (do {
      c4 \<leftarrow> (if cw = 2 then console_set_history_cell (cursor_line c3) (cursor_col c3 + 1) color cp fl' c3 else Some c3);
      Some (f c4) }) P"
    by (rule ensures_bind) (simp add: P)
qed

lemma ensures_put_cell:
  assumes w: "width_ok w" and ok: "console_ok c"
  shows "ensures (console_put_cell w cp color c) console_ok"
proof -
  define cp1 where "cp1 = (if cp > 0x10ffff \<or> cp \<ge> 0xd800 \<and> cp \<le> 0xdfff then 0xfffd else cp)"
  define p where "p = (if console_codepoint_width cp1 > unat w then (0x3f, 1) else (cp1, console_codepoint_width cp1))"
  define cw where "cw = snd p"
  show ?thesis
  proof (cases "console_codepoint_width cp1 = 0")
    case True
    then show ?thesis using ok by (simp add: console_put_cell_def Let_def cp1_def)
  next
    case False
    have cw: "0 < cw" "cw \<le> 2" "cw \<le> unat w"
      using False codepoint_width_le [of cp1] w by (auto simp: cw_def p_def width_ok_def)
    have W: "unat w \<le> 320" using width_okD(3) [OF w] by (simp add: HAL_TEXT_WIDTH_def)
    have first: "ensures (if cursor_col c \<ge> w \<or> unat (cursor_col c) + cw > unat w then console_newline w c else Some c)
        (\<lambda>d. console_ok d \<and> unat (cursor_col d) + cw \<le> unat w)"
      by (rule ensures_if, rule ensures_mono [OF ensures_newline [OF w ok]]) (use ok cw in auto)
    have step: "unat (cursor_col d) < HAL_TEXT_WIDTH" "cw = 2 \<Longrightarrow> unat (cursor_col d + 1) < HAL_TEXT_WIDTH"
      "cells_only d e \<Longrightarrow> console_ok (e\<lparr>cursor_col := cursor_col e + of_nat cw\<rparr>)"
      if d: "console_ok d" "unat (cursor_col d) + cw \<le> unat w" for d e
    proof -
      show "unat (cursor_col d) < HAL_TEXT_WIDTH" using d(2) cw W by (simp add: HAL_TEXT_WIDTH_def)
      show "cw = 2 \<Longrightarrow> unat (cursor_col d + 1) < HAL_TEXT_WIDTH"
        using d(2) W unat_add_lem [of "cursor_col d" 1] by (simp add: HAL_TEXT_WIDTH_def)
      have "unat (cursor_col d + of_nat cw) \<le> HAL_TEXT_WIDTH"
        using d(2) cw W unat_add_lem [of "cursor_col d" "of_nat cw"] by (simp add: HAL_TEXT_WIDTH_def unat_of_nat)
      then show "cells_only d e \<Longrightarrow> console_ok (e\<lparr>cursor_col := cursor_col e + of_nat cw\<rparr>)"
        using d(1) cells_only_fields [of d e] by (simp add: console_ok_def)
    qed
    have nz: "(console_codepoint_width cp1 = 0) = False" "(w = 0) = False" using False width_okD(1) [OF w] by simp_all
    show ?thesis
      unfolding console_put_cell_def Let_def cp1_def [symmetric] p_def [symmetric] nz if_False case_prod_beta cw_def [symmetric]
      by (rule ensures_bind [OF first], elim conjE, rule ensures_put_cells [OF w cw(2)]) (use step in blast)+
  qed
qed

lemma ensures_backspace:
  assumes w: "width_ok w" and ok: "console_ok d" and col: "unat (cursor_col d) < HAL_TEXT_WIDTH"
  shows "ensures (do {
      c3 \<leftarrow> (if cursor_col d > 0
             then do { cell \<leftarrow> console_history_cell d (cursor_line d) (cursor_col d);
                       Some (if console_cell_is_cont cell then d\<lparr>cursor_col := cursor_col d - 1\<rparr> else d) }
             else Some d);
      let c4 = console_update_cursor_row c3;
      console_clear_overlapping_cells w (cursor_line c4) (cursor_col c4) 1 color c4 }) console_ok"
proof -
  have left: "console_ok (d\<lparr>cursor_col := cursor_col d - 1\<rparr>)" if "cursor_col d > 0"
  proof -
    have "cursor_col d \<noteq> 0" using that by auto
    then have "unat (cursor_col d - 1) < unat (cursor_col d)" by (simp add: unat_minus_one unat_gt_0)
    with ok col show ?thesis by (simp add: console_ok_def)
  qed
  have "ensures (if cursor_col d > 0
      then do { cell \<leftarrow> console_history_cell d (cursor_line d) (cursor_col d);
                Some (if console_cell_is_cont cell then d\<lparr>cursor_col := cursor_col d - 1\<rparr> else d) }
      else Some d) console_ok"
    by (intro ensures_if ensures_bind [OF ensures_hist_get [OF col]]) (use ok left in simp_all)
  then show ?thesis
    unfolding Let_def
    by (rule ensures_bind, intro ensures_mono [OF ensures_clear_overlapping [OF w]])
      (simp_all add: cells_only_fields(6) update_row_ok)
qed

lemma ensures_put_codepoint:
  assumes w: "width_ok w" and ok: "console_ok c"
  shows "ensures (console_put_codepoint w cp color c) console_ok"
proof -
  define d where "d = console_resume_live_view c"
  have d: "console_ok d" unfolding d_def by (rule resume_ok [OF ok])
  have space: "ensures (console_put_space w color e) console_ok" if "console_ok e" for e
    unfolding console_put_space_def by (rule ensures_put_cell [OF w resume_ok [OF that]])
  have tab: "ensures (for_each xs (\<lambda>_. console_put_space w color) d) console_ok" for xs :: "nat list"
    by (rule ensures_for_each) (use d space in auto)
  define e where "e = (if cursor_col d \<noteq> 0 then d\<lparr>cursor_col := cursor_col d - 1\<rparr>
       else if cursor_line d > history_base_line d then d\<lparr>cursor_line := cursor_line d - 1, cursor_col := w - 1\<rparr> else d)"
  have e: "console_ok e" "unat (cursor_col e) < HAL_TEXT_WIDTH"
  proof -
    have "unat (cursor_col d - 1) < HAL_TEXT_WIDTH" if "cursor_col d \<noteq> 0"
    proof -
      have "unat (cursor_col d) \<le> HAL_TEXT_WIDTH" using d by (simp add: console_ok_def)
      moreover have "unat (cursor_col d - 1) < unat (cursor_col d)" using that by (simp add: unat_minus_one unat_gt_0)
      ultimately show ?thesis by simp
    qed
    with width_okD(4) [OF w] show "unat (cursor_col e) < HAL_TEXT_WIDTH" by (simp add: e_def HAL_TEXT_WIDTH_def)
    then show "console_ok e" using d by (auto simp: console_ok_def e_def less_imp_le)
  qed
  have cr: "console_ok (d\<lparr>cursor_col := 0\<rparr>)" using d by (simp add: console_ok_def)
  show ?thesis
    unfolding console_put_codepoint_def d_def [symmetric] Let_def [of d] Let_def [of "_ - _"] e_def [symmetric] Let_def [of e]
    by (intro ensures_if ensures_mono [OF ensures_newline [OF w d]] ensures_put_cell [OF w d] tab ensures_backspace [OF w e])
      (simp_all add: cr)
qed

lemma ensures_putc: "width_ok w \<Longrightarrow> console_ok c \<Longrightarrow> ensures (console_putc w ch color c) console_ok"
  unfolding console_putc_def by (rule ensures_put_codepoint)

lemma ensures_puts: "width_ok w \<Longrightarrow> console_ok c \<Longrightarrow> ensures (for_each text (\<lambda>ch. console_putc w ch color) c) console_ok"
  by (rule ensures_for_each) (simp_all add: ensures_putc)

lemma ensures_write_dec: "width_ok w \<Longrightarrow> console_ok c \<Longrightarrow> ensures (console_write_dec w value color c) console_ok"
  unfolding console_write_dec_def by (rule ensures_puts)

lemma ensures_write_hex64: "width_ok w \<Longrightarrow> console_ok c \<Longrightarrow> ensures (console_write_hex64 w value color c) console_ok"
  unfolding console_write_hex64_def by (rule ensures_puts)

lemma ensures_put_text_at: "width_ok w \<Longrightarrow> console_ok c \<Longrightarrow> ensures (put_text_at w row col ts color c) console_ok"
proof (induction ts arbitrary: col c)
  case (Cons ch ts)
  show ?case
    unfolding put_text_at.simps
    by (intro ensures_if ensures_bind [OF ensures_put_at]) (use Cons in simp_all)
qed simp

lemma ensures_write_at: "width_ok w \<Longrightarrow> console_ok c \<Longrightarrow> ensures (console_write_at w row col text color c) console_ok"
  unfolding console_write_at_def by (intro ensures_put_text_at resume_ok)

section \<open>View and selection\<close>

lemma scroll_ok: "console_ok c \<Longrightarrow> console_ok (console_scroll_page_up c)" "console_ok c \<Longrightarrow> console_ok (console_scroll_page_down c)"
  by (simp_all add: console_scroll_page_up_def console_scroll_page_down_def Let_def)

lemma select_ok:
  assumes "console_ok c"
  shows "console_ok (console_mouse_select_begin w row col c)" "console_ok (console_mouse_select_update w row col c)"
    "console_ok (console_mouse_select_end w row col c)" "console_ok (console_mouse_select_clear c)"
  using assms
  by (simp_all add: console_mouse_select_begin_def console_mouse_select_update_def console_mouse_select_end_def
      console_mouse_select_clear_def Let_def console_ok_def)

lemma visible_ok: "console_ok c \<Longrightarrow> console_ok (console_set_visible vis c)"
  by (simp add: console_set_visible_def console_ok_def)

text \<open>
  The selection covers at most 512 lines, so the number of bytes counted in \<open>written\<close> does not wrap
  around and the test against the buffer size is exact.
\<close>

lemma written_add:
  assumes "unat (written :: u32) + k < 2 ^ 32"
  shows "unat (written + of_nat k) = unat written + k"
  using assms unat_add_lem [of written "of_nat k"] by (simp add: unat_of_nat)

lemma ensures_append_byte:
  assumes "unat written + 1 < 2 ^ 32"
  shows "ensures (console_append_byte out_size byte (out, written)) (\<lambda>w. unat (snd w) = unat written + 1)"
proof -
  note a = written_add [OF assms, simplified]
  have "unat written < unat out_size" if "written + 1 < out_size" using that a by (simp add: word_less_nat_alt)
  then show ?thesis using a by (simp add: console_append_byte_def arr_set_def)
qed

lemma ensures_append_codepoint:
  assumes "unat written + 4 < 2 ^ 32"
  shows "ensures (console_append_codepoint_utf8 out_size cp (out, written)) (\<lambda>w. unat (snd w) \<le> unat written + 4)"
proof -
  define cp1 where "cp1 = (if cp > 0x10ffff \<or> cp \<ge> 0xd800 \<and> cp \<le> 0xdfff then 0xfffd else cp)"
  define enc where "enc = codepoint_utf8 cp1"
  have n: "length enc \<le> 4" by (simp add: enc_def codepoint_utf8_def)
  have a: "unat (written + of_nat k) = unat written + k" if "k \<le> 4" for k using written_add [of written k] assms that by simp
  have "ensures (for_each [0..<length enc] (\<lambda>i out. arr_set (unat out_size) out (unat (written + of_nat i)) (enc ! i)) out) (\<lambda>_. True)"
    if lt: "written + of_nat (length enc) < out_size"
  proof (rule ensures_for_each)
    fix i and out :: "nat \<Rightarrow> u8" assume "i \<in> set [0..<length enc]"
    then have "unat (written + of_nat i) < unat out_size" using lt n a by (simp add: word_less_nat_alt)
    then show "ensures (arr_set (unat out_size) out (unat (written + of_nat i)) (enc ! i)) (\<lambda>_. True)" by (simp add: ensures_set)
  qed simp
  then have "ensures (if out_size \<noteq> 0 \<and> written + of_nat (length enc) < out_size
      then for_each [0..<length enc] (\<lambda>i out. arr_set (unat out_size) out (unat (written + of_nat i)) (enc ! i)) out else Some out) (\<lambda>_. True)"
    by (intro ensures_if) simp_all
  then show ?thesis
    unfolding console_append_codepoint_utf8_def prod.case Let_def cp1_def [symmetric] enc_def [symmetric]
    by (rule ensures_bind) (use a [OF n] n in simp)
qed

lemma ensures_selection_cell:
  assumes "col < HAL_TEXT_WIDTH" and "unat (snd w) + 4 < 2 ^ 32"
  shows "ensures (selection_cell c out_size line col w) (\<lambda>w'. unat (snd w') \<le> unat (snd w) + 4)"
proof (cases w)
  case (Pair out written)
  have "hist_get c (console_line_to_slot line) col = Some (con_history c (console_line_to_slot line) col)"
    using assms(1) by (simp add: hist_get_def)
  then show ?thesis
    using assms(2) ensures_append_codepoint [of written out_size _ out] by (simp add: selection_cell_def Pair Let_def)
qed

lemma ensures_trim_blank:
  "col_end < HAL_TEXT_WIDTH \<Longrightarrow> ensures (trim_blank c line col_start col_end) (\<lambda>e. e < HAL_TEXT_WIDTH)"
proof (induction col_end)
  case 0
  then show ?case by (simp add: trim_blank.simps [of c line col_start 0] hist_get_def)
next
  case (Suc n)
  then show ?case by (simp add: trim_blank.simps [of c line col_start "Suc n"] hist_get_def)
qed

lemma ensures_selection_line:
  assumes w: "width_ok w" and "unat (snd out) + 1281 < 2 ^ 32"
  shows "ensures (selection_line w c out_size start stop line out) (\<lambda>out'. unat (snd out') \<le> unat (snd out) + 1281)"
proof -
  define lo where "lo = (let l = (if line = fst start then snd start else 0) in if l \<ge> w then w - 1 else l)"
  define hi where "hi = (let l = (if line = fst stop then snd stop else w - 1) in if l \<ge> w then w - 1 else l)"
  have hi: "unat hi < HAL_TEXT_WIDTH" using width_okD(2,5) [OF w] by (auto simp: hi_def Let_def not_le)
  have row: "ensures (for_each [unat lo..<e + 1] (selection_cell c out_size line) out) (\<lambda>out'. unat (snd out') \<le> unat (snd out) + 1280)"
    if e: "e < HAL_TEXT_WIDTH" "unat lo \<le> e" for e
  proof -
    have "ensures (for_each [unat lo..<e + 1] (selection_cell c out_size line) out) (\<lambda>out'. unat (snd out') \<le> unat (snd out) + 4 * (e + 1))"
    proof (rule ensures_for_upt [where P = "\<lambda>i out'. unat (snd out') \<le> unat (snd out) + 4 * i"])
      fix i and out' :: text_out assume i: "i < e + 1" "unat (snd out') \<le> unat (snd out) + 4 * i"
      have "unat (snd out') + 4 < 2 ^ 32" "i < HAL_TEXT_WIDTH" using i e assms(2) by (simp_all add: HAL_TEXT_WIDTH_def)
      from ensures_selection_cell [OF this(2,1)]
      show "ensures (selection_cell c out_size line i out') (\<lambda>out''. unat (snd out'') \<le> unat (snd out) + 4 * Suc i)"
        by (rule ensures_mono) (use i(2) in simp)
    qed (use e in simp_all)
    then show ?thesis by (rule ensures_mono) (use e in \<open>simp add: HAL_TEXT_WIDTH_def\<close>)
  qed
  have mid: "ensures (if e \<ge> unat lo
      then do { cell \<leftarrow> hist_get c (console_line_to_slot line) e;
                if \<not> console_cell_is_blank cell then for_each [unat lo..<e + 1] (selection_cell c out_size line) out else Some out }
      else Some out) (\<lambda>out'. unat (snd out') \<le> unat (snd out) + 1280)" if "e < HAL_TEXT_WIDTH" for e
    using row [OF that] that by (simp add: hist_get_def)
  show ?thesis
    unfolding selection_line_def Let_def lo_def [unfolded Let_def, symmetric] hi_def [unfolded Let_def, symmetric]
  proof (rule ensures_bind [OF ensures_trim_blank [OF hi]], rule ensures_bind [OF mid])
    fix out' :: text_out assume o: "unat (snd out') \<le> unat (snd out) + 1280"
    then have "ensures (console_append_byte out_size 0x0a (fst out', snd out')) (\<lambda>out''. unat (snd out'') \<le> unat (snd out) + 1281)"
      using assms(2) by (intro ensures_mono [OF ensures_append_byte]) simp_all
    with o show "ensures (if line \<noteq> fst stop then console_append_byte out_size 0x0a out' else Some out')
        (\<lambda>out''. unat (snd out'') \<le> unat (snd out) + 1281)" by simp
  qed
qed

lemma ensures_selection_text:
  assumes w: "width_ok w" and ok: "console_ok c"
  shows "ensures (console_get_selection_text w c out out_size) (\<lambda>_. True)"
proof -
  define he where "he = history_base_line c + history_line_count c"
  obtain st0 sp0 where b: "console_selection_bounds c = (st0, sp0)" by (cases "console_selection_bounds c") auto
  define st where "st = (if fst st0 < history_base_line c then (history_base_line c, 0) else st0)"
  define sp where "sp = (if fst sp0 \<ge> he then (he - 1, w - 1) else sp0)"
  have zero: "ensures (if out_size \<noteq> 0 then arr_set (unat out_size) o' i 0 else Some o') (\<lambda>_. True)" if "out_size \<noteq> 0 \<Longrightarrow> i < unat out_size"
    for i and o' :: "nat \<Rightarrow> u8" using that by (intro ensures_if) (simp_all add: ensures_set)
  have lines: "unat (fst sp) + 1 - unat (fst st) \<le> 512" if "he \<noteq> 0" "\<not> fst st > fst sp"
  proof -
    have base: "unat (history_base_line c) \<le> unat (fst st)" by (simp add: st_def word_less_nat_alt not_less)
    have "fst sp < he" using that(1) by (auto simp: sp_def not_le word_less_nat_alt unat_minus_one unat_gt_0 word_le_nat_alt)
    then have "unat (fst sp) < unat he" by (simp add: word_less_nat_alt)
    also have "unat he \<le> unat (history_base_line c) + unat (history_line_count c)"
      unfolding he_def by (simp add: unat_word_ariths)
    also have "unat (history_line_count c) \<le> 512" using ok by (simp add: console_ok_def CONSOLE_SCROLLBACK_LINES_def)
    finally show ?thesis using base by linarith
  qed
  have loop: "ensures (for_each [unat (fst st)..<unat (fst sp) + 1] (\<lambda>l. selection_line w c out_size st sp (of_nat l)) (o', 0)) (\<lambda>_. True)"
    if le: "unat (fst sp) + 1 - unat (fst st) \<le> 512" "unat (fst st) \<le> unat (fst sp) + 1" for o'
  proof -
    have "ensures (for_each [unat (fst st)..<unat (fst sp) + 1] (\<lambda>l. selection_line w c out_size st sp (of_nat l)) (o', 0))
        (\<lambda>out'. unat (snd out') \<le> (unat (fst sp) + 1 - unat (fst st)) * 1281)"
    proof (rule ensures_for_upt [where P = "\<lambda>i out'. unat (snd out') \<le> (i - unat (fst st)) * 1281"])
      fix i and out' :: text_out
      assume i: "unat (fst st) \<le> i" "i < unat (fst sp) + 1" "unat (snd out') \<le> (i - unat (fst st)) * 1281"
      then have "(i - unat (fst st)) * 1281 \<le> 512 * 1281" using le by (intro mult_le_mono1) simp
      with i(3) have "unat (snd out') + 1281 < 2 ^ 32" by simp
      from ensures_selection_line [OF w this]
      show "ensures (selection_line w c out_size st sp (of_nat i) out') (\<lambda>out''. unat (snd out'') \<le> (Suc i - unat (fst st)) * 1281)"
        by (rule ensures_mono) (use i in \<open>simp add: Suc_diff_le\<close>)
    qed (use le in simp_all)
    then show ?thesis by (rule ensures_mono) simp
  qed
  have nul: "unat (if written < out_size then written else out_size - 1) < unat out_size" if "out_size \<noteq> 0" for written :: u32
    using that by (simp add: word_less_nat_alt unat_minus_one unat_gt_0)
  show ?thesis
    unfolding console_get_selection_text_def Let_def b prod.case he_def [symmetric] st_def [symmetric] sp_def [symmetric]
  proof (rule ensures_bind [OF zero], simp add: unat_gt_0, rule ensures_if, simp)
    fix o' :: "nat \<Rightarrow> u8"
    assume g: "\<not> (\<not> selection_active c \<or> w = 0 \<or> he = 0 \<or> fst st > fst sp)"
    then have le: "unat (fst sp) + 1 - unat (fst st) \<le> 512" "unat (fst st) \<le> unat (fst sp) + 1"
      using lines by (simp_all add: word_less_nat_alt not_less)
    show "ensures (do {
        (out1, written) \<leftarrow> for_each [unat (fst st)..<unat (fst sp) + 1] (\<lambda>l. selection_line w c out_size st sp (of_nat l)) (o', 0);
        out2 \<leftarrow> (if out_size \<noteq> 0 then arr_set (unat out_size) out1 (unat (if written < out_size then written else out_size - 1)) 0 else Some out1);
        Some (out2, written) }) (\<lambda>_. True)"
      by (rule ensures_bind [OF loop [OF le]], clarify, rule ensures_bind [OF zero [OF nul]]) simp_all
  qed
qed

end
