(* ===== verification/Tty_Utf8.thy ===== *)
theory Tty_Utf8
  imports Checked_Array
begin

text \<open>
  UTF-8 in the terminal (\<^verbatim>\<open>kernel/core/tty_utf8.c\<close>). The bytes are read through an accessor that is \<open>None\<close> outside of the
  array, \<open>arr_get n a\<close> for an array \<open>a\<close> of \<open>n\<close> bytes.
\<close>

definition tty_codepoint_width :: "u32 \<Rightarrow> nat" where
  "tty_codepoint_width codepoint =
     (if codepoint \<ge> 0x1100 \<and> codepoint \<le> 0x115f \<or> codepoint \<ge> 0x2e80 \<and> codepoint \<le> 0xa4cf \<or>
         codepoint \<ge> 0xac00 \<and> codepoint \<le> 0xd7a3 \<or> codepoint \<ge> 0xf900 \<and> codepoint \<le> 0xfaff \<or>
         codepoint \<ge> 0xff00 \<and> codepoint \<le> 0xff60 then 2 else 1)"

text \<open>The bytes that are stored to \<^verbatim>\<open>out\<close>; their number is the return value.\<close>

definition tty_utf8_encode :: "u32 \<Rightarrow> u8 list" where
  "tty_utf8_encode codepoint =
     (if codepoint \<le> 0x7f then [ucast codepoint]
      else if codepoint \<le> 0x7ff then [ucast (0xc0 OR drop_bit 6 codepoint), ucast (0x80 OR (codepoint AND 0x3f))]
      else [ucast (0xe0 OR drop_bit 12 codepoint), ucast (0x80 OR (drop_bit 6 codepoint AND 0x3f)),
            ucast (0x80 OR (codepoint AND 0x3f))])"

definition tty_utf8_is_continuation :: "u8 \<Rightarrow> bool" where
  "tty_utf8_is_continuation ch \<longleftrightarrow> ch AND 0xc0 = 0x80"

definition tty_utf8_expected_length :: "u8 \<Rightarrow> u8" where
  "tty_utf8_expected_length byte =
     (if byte < 0x80 then 1 else if byte AND 0xe0 = 0xc0 then 2 else if byte AND 0xf0 = 0xe0 then 3
      else if byte AND 0xf8 = 0xf0 then 4 else 0)"

text \<open>The loop over the continuation bytes; the inner \<open>None\<close> is its early return.\<close>

primrec decode_rest :: "(nat \<Rightarrow> u8 option) \<Rightarrow> u32 list \<Rightarrow> u32 \<Rightarrow> u32 option option" where
  "decode_rest data [] v = Some (Some v)"
| "decode_rest data (i # is) v =
     do { next_byte \<leftarrow> data (unat i);
          if next_byte = 0 \<or> \<not> tty_utf8_is_continuation next_byte then Some None
          else decode_rest data is (push_bit 6 v OR ucast (next_byte AND 0x3f)) }"

text \<open>
  The result is the return value and \<^verbatim>\<open>*codepoint\<close>, which is \<open>initial\<close> when nothing is decoded.
\<close>

definition tty_utf8_decode_next :: "(nat \<Rightarrow> u8 option) \<Rightarrow> u32 \<Rightarrow> u32 \<Rightarrow> u32 \<Rightarrow> (u32 \<times> u32) option" where
  "tty_utf8_decode_next data len offset initial =
     (if offset \<ge> len then Some (0, initial)
      else do {
        lead \<leftarrow> data (unat offset);
        if lead < 0x80 then Some (1, ucast lead)
        else
          (let multi = (if lead AND 0xe0 = 0xc0 then Some (2, lead AND 0x1f, 0x80)
                        else if lead AND 0xf0 = 0xe0 then Some (3, lead AND 0x0f, 0x800)
                        else if lead AND 0xf8 = 0xf0 then Some (4, lead AND 0x07, 0x10000)
                        else None)
           in case multi of
                None \<Rightarrow> Some (1, 0xfffd)
              | Some (needed, v, minimum) \<Rightarrow>
                  if offset + needed > len then Some (1, 0xfffd)
                  else do {
                    r \<leftarrow> decode_rest data (map (\<lambda>i. offset + of_nat i) [1..<unat needed]) (ucast v);
                    (case r of
                       None \<Rightarrow> Some (1, 0xfffd)
                     | Some v \<Rightarrow>
                         if v < minimum \<or> v > 0x10ffff \<or> v \<ge> 0xd800 \<and> v \<le> 0xdfff then Some (1, 0xfffd)
                         else Some (needed, v))
                  })
      })"

text \<open>The loop that moves left over continuation bytes.\<close>

primrec skip_back :: "(nat \<Rightarrow> u8 option) \<Rightarrow> nat \<Rightarrow> nat option" where
  "skip_back data 0 = Some 0"
| "skip_back data (Suc n) =
     do { ch \<leftarrow> data (Suc n); if tty_utf8_is_continuation ch then skip_back data n else Some (Suc n) }"

definition tty_utf8_previous_offset :: "(nat \<Rightarrow> u8 option) \<Rightarrow> u8 \<Rightarrow> u8 option" where
  "tty_utf8_previous_offset data offset =
     (if offset = 0 then Some 0 else map_option of_nat (skip_back data (unat (offset - 1))))"

definition tty_utf8_next_offset :: "(nat \<Rightarrow> u8 option) \<Rightarrow> u8 \<Rightarrow> u8 \<Rightarrow> u8 option" where
  "tty_utf8_next_offset data len offset =
     (if offset \<ge> len then Some len
      else do {
        (consumed, codepoint) \<leftarrow> tty_utf8_decode_next data (ucast len) (ucast offset) 0;
        let consumed = (if consumed = 0 \<or> unat consumed > unat len - unat offset then 1 else consumed);
        Some (ucast (ucast offset + consumed))
      })"

section \<open>Decoding\<close>

lemma ensures_decode_rest:
  assumes "\<And>i. i \<in> set is \<Longrightarrow> ensures (data (unat i)) (\<lambda>_. True)"
  shows "ensures (decode_rest data is v) (\<lambda>_. True)"
  using assms
proof (induction "is" arbitrary: v)
  case (Cons i "is")
  have "ensures (data (unat i)) (\<lambda>_. True)" using Cons.prems by simp
  then show ?case unfolding decode_rest.simps by (rule ensures_bind) (use Cons in \<open>auto intro!: ensures_if\<close>)
qed simp

text \<open>
  A step of the decoder is defined on every array that holds the bytes, consumes between one and four bytes of
  them, and yields a Unicode scalar value.
\<close>

definition scalar :: "u32 \<Rightarrow> bool" where
  "scalar cp \<longleftrightarrow> cp \<le> 0x10ffff \<and> \<not> (cp \<ge> 0xd800 \<and> cp \<le> 0xdfff)"

lemma ensures_decode_next:
  assumes "\<And>i. i < unat len \<Longrightarrow> ensures (data i) (\<lambda>_. True)" and lt: "offset < len" and "unat len \<le> 255"
  shows "ensures (tty_utf8_decode_next data len offset cp0)
    (\<lambda>r. 0 < unat (fst r) \<and> unat offset + unat (fst r) \<le> unat len \<and> scalar (snd r))"
proof -
  let ?P = "\<lambda>r. 0 < unat (fst r) \<and> unat offset + unat (fst r) \<le> unat len \<and> scalar (snd r)"
  have o: "unat offset < unat len" using lt by (simp add: word_less_nat_alt)
  have bad: "?P (1, 0xfffd)" using o by (simp add: scalar_def)
  have off: "unat (offset + of_nat i) = unat offset + i" if "i \<le> 4" for i
    using that o assms(3) unat_add_lem [of offset "of_nat i"] by (simp add: unat_of_nat)
  have multi: "ensures (if offset + needed > len then Some (1, 0xfffd) else do {
      r \<leftarrow> decode_rest data (map (\<lambda>i. offset + of_nat i) [1..<unat needed]) v;
      (case r of None \<Rightarrow> Some (1, 0xfffd)
       | Some v \<Rightarrow> if v < minimum \<or> v > 0x10ffff \<or> v \<ge> 0xd800 \<and> v \<le> 0xdfff then Some (1, 0xfffd) else Some (needed, v)) }) ?P"
    if "0 < unat needed" "unat needed \<le> 4" for needed v minimum
  proof (rule ensures_if)
    assume fits: "\<not> offset + needed > len"
    have "unat (offset + needed) = unat offset + unat needed" using off [of "unat needed"] that by simp
    with fits have n: "unat offset + unat needed \<le> unat len" by (simp add: word_less_nat_alt not_less)
    have "ensures (decode_rest data (map (\<lambda>i. offset + of_nat i) [1..<unat needed]) v) (\<lambda>_. True)"
      by (rule ensures_decode_rest) (use n off that assms(1) in auto)
    then show "ensures (do {
      r \<leftarrow> decode_rest data (map (\<lambda>i. offset + of_nat i) [1..<unat needed]) v;
      (case r of None \<Rightarrow> Some (1, 0xfffd)
       | Some v \<Rightarrow> if v < minimum \<or> v > 0x10ffff \<or> v \<ge> 0xd800 \<and> v \<le> 0xdfff then Some (1, 0xfffd) else Some (needed, v)) }) ?P"
      by (rule ensures_bind) (use bad n that in \<open>auto simp: scalar_def not_less split: option.splits\<close>)
  qed (use bad in simp)
  have ascii: "?P (1, ucast lead)" if "lead < 0x80" for lead :: u8
  proof -
    have "unat (ucast lead :: u32) < 0x80" using that by (simp add: word_less_nat_alt unsigned_ucast_eq take_bit_nat_eq_self)
    then have "(ucast lead :: u32) < 0x80" by (simp add: word_less_nat_alt)
    then show ?thesis using o by (simp add: scalar_def word_le_nat_alt word_less_nat_alt)
  qed
  have "ensures (data (unat offset)) (\<lambda>_. True)" using assms(1) o by simp
  then obtain lead where lead: "data (unat offset) = Some lead" by (auto simp: ensures_def)
  show ?thesis
    using lt ascii [of lead] bad multi [of 2] multi [of 3] multi [of 4]
    by (simp add: tty_utf8_decode_next_def lead Let_def not_le)
qed

end
