(* ===== verification/Tty_Output.thy ===== *)
theory Tty_Output
  imports Tty_Queue Console_Ok Tty_Utf8
begin

text \<open>
  The terminal and its output (\<^verbatim>\<open>kernel/core/tty.c\<close>, \<^verbatim>\<open>kernel/core/tty_ansi.c\<close>). \<open>tty\<close> is
  \<^verbatim>\<open>struct tty\<close> of \<^verbatim>\<open>kernel/internal/core/tty_internal.h\<close>: the fields of the character queue are those of
  \<open>tty_queue\<close>, a flag is a \<open>bool\<close>, an \<^verbatim>\<open>int8_t\<close> is an \<open>int\<close>, and an array is a function together with
  its size at the accesses. The first argument of an operation is the text width of the display
  (\<^verbatim>\<open>console_width\<close>). Presenting the frame and the profiling counters have no part in the state.
\<close>

definition TTY_LINE_MAX :: nat where "TTY_LINE_MAX = 255"
definition TTY_ANSI_PARAM_MAX :: nat where "TTY_ANSI_PARAM_MAX = 4"
definition TTY_HISTORY_MAX :: nat where "TTY_HISTORY_MAX = 8"
definition TTY_PROMPT_CACHE_SIZE :: nat where "TTY_PROMPT_CACHE_SIZE = 192"
definition TTY_TAB_WIDTH :: u16 where "TTY_TAB_WIDTH = 8"

datatype ansi_state = TTY_ANSI_STATE_NONE | TTY_ANSI_STATE_ESC | TTY_ANSI_STATE_CSI

record tty = tty_queue +
  tty_console :: console
  text_color :: u8
  prompt_color :: u8
  foreground_pid :: u32
  input :: "nat \<Rightarrow> u8"
  ready_line :: "nat \<Rightarrow> u8"
  history :: "nat \<Rightarrow> nat \<Rightarrow> u8"
  history_scratch :: "nat \<Rightarrow> u8"
  prompt_cache :: "nat \<Rightarrow> u8"
  input_len :: u8
  input_cursor :: u8
  line_ready :: bool
  raw_input :: bool
  history_len :: u8
  history_next :: u8
  history_index :: int
  history_scratch_saved :: bool
  ansi_color :: u8
  ansi_active :: bool
  ansi_bold :: bool
  ansi_state :: ansi_state
  ansi_param_count :: u8
  ansi_param_active :: bool
  ansi_private :: bool
  ansi_saved_row :: u16
  ansi_saved_col :: u16
  input_origin_row :: u16
  input_origin_col :: u16
  input_render_rows :: u16
  prompt_cache_len :: u16
  input_origin_valid :: bool
  hangul_mode :: bool
  hangul_initial :: int
  hangul_medial :: int
  hangul_final :: int
  hangul_start :: u8
  hangul_bytes :: u8
  output_utf8_len :: u8
  output_utf8_expected :: u8
  output_utf8 :: "nat \<Rightarrow> u8"
  ansi_params :: "nat \<Rightarrow> u16"

text \<open>A call of a console operation on the console of the terminal.\<close>

definition on_console :: "(console \<Rightarrow> console option) \<Rightarrow> tty \<Rightarrow> tty option" where
  "on_console f tty = do { c \<leftarrow> f (tty_console tty); Some (tty\<lparr>tty_console := c\<rparr>) }"

section \<open>Colours and parameters\<close>

definition tty_ansi_effective_color :: "tty \<Rightarrow> u8 \<Rightarrow> u8" where
  "tty_ansi_effective_color tty color = (if ansi_active tty \<and> color = text_color tty then ansi_color tty else color)"

definition tty_ansi_clear_color :: "tty \<Rightarrow> u8" where
  "tty_ansi_clear_color tty = (if ansi_active tty then ansi_color tty else text_color tty)"

definition tty_ansi_refresh_active :: "tty \<Rightarrow> tty" where
  "tty_ansi_refresh_active tty = tty\<lparr>ansi_active := ansi_color tty \<noteq> text_color tty \<or> ansi_bold tty\<rparr>"

definition tty_ansi_reset_parser :: "tty \<Rightarrow> tty" where
  "tty_ansi_reset_parser tty =
     tty\<lparr>ansi_state := TTY_ANSI_STATE_NONE, ansi_param_count := 0, ansi_param_active := False, ansi_private := False,
         ansi_params := (\<lambda>i. if i < TTY_ANSI_PARAM_MAX then 0 else ansi_params tty i)\<rparr>"

definition tty_ansi_reset_output :: "tty \<Rightarrow> tty" where
  "tty_ansi_reset_output tty =
     tty_ansi_reset_parser (tty_ansi_refresh_active (tty\<lparr>ansi_color := text_color tty, ansi_bold := False\<rparr>))"

definition tty_ansi_set_fg :: "u8 \<Rightarrow> tty \<Rightarrow> tty" where
  "tty_ansi_set_fg fg tty =
     tty_ansi_refresh_active (tty\<lparr>ansi_color := (ansi_color tty AND 0xf0) OR (fg AND 0x0f)\<rparr>)"

definition tty_ansi_set_bg :: "u8 \<Rightarrow> tty \<Rightarrow> tty" where
  "tty_ansi_set_bg bg tty =
     tty_ansi_refresh_active (tty\<lparr>ansi_color := (ansi_color tty AND 0x0f) OR push_bit 4 (bg AND 0x0f)\<rparr>)"

definition tty_ansi_apply_sgr :: "u32 \<Rightarrow> tty \<Rightarrow> tty" where
  "tty_ansi_apply_sgr param tty =
     (if param = 0 then tty_ansi_reset_output tty
      else if param = 1 then
        tty_ansi_refresh_active
          (tty\<lparr>ansi_bold := True,
               ansi_color := (if ansi_color tty AND 0x0f < 8 then ansi_color tty + 8 else ansi_color tty)\<rparr>)
      else if param = 22 then
        tty_ansi_refresh_active
          (tty\<lparr>ansi_bold := False,
               ansi_color := (if ansi_color tty AND 0x0f \<ge> 8 then ansi_color tty - 8 else ansi_color tty)\<rparr>)
      else if param \<ge> 30 \<and> param \<le> 37 then tty_ansi_set_fg (console_ansi_palette_color (param - 30) (ansi_bold tty)) tty
      else if param = 39 then tty_ansi_set_fg (text_color tty AND 0x0f) tty
      else if param \<ge> 40 \<and> param \<le> 47 then tty_ansi_set_bg (console_ansi_palette_color (param - 40) False) tty
      else if param = 49 then tty_ansi_set_bg (drop_bit 4 (text_color tty) AND 0x0f) tty
      else if param \<ge> 90 \<and> param \<le> 97 then tty_ansi_set_fg (console_ansi_palette_color (param - 90) True) tty
      else if param \<ge> 100 \<and> param \<le> 107 then tty_ansi_set_bg (console_ansi_palette_color (param - 100) True) tty
      else tty)"

definition tty_ansi_param :: "tty \<Rightarrow> nat \<Rightarrow> u32 \<Rightarrow> u32 option" where
  "tty_ansi_param tty index fallback =
     (if index \<ge> unat (ansi_param_count tty) then Some fallback
      else do { p \<leftarrow> arr_get TTY_ANSI_PARAM_MAX (ansi_params tty) index;
                Some (if p = 0 then fallback else ucast p) })"

section \<open>Clearing, the cursor\<close>

definition tty_clear :: "u16 \<Rightarrow> tty \<Rightarrow> tty option" where
  "tty_clear text_width tty =
     do { t1 \<leftarrow> on_console (console_clear text_width) tty;
          Some ((tty_ansi_reset_output t1)\<lparr>ansi_saved_row := top_row (tty_console t1), ansi_saved_col := 0,
             input_origin_valid := False, input_render_rows := 1, prompt_cache_len := 0\<rparr>) }"

definition tty_putc :: "u16 \<Rightarrow> u8 \<Rightarrow> u8 \<Rightarrow> tty \<Rightarrow> tty option" where
  "tty_putc text_width ch color = on_console (console_putc text_width ch color)"

definition tty_clear_row :: "u16 \<Rightarrow> u16 \<Rightarrow> u8 \<Rightarrow> tty \<Rightarrow> tty option" where
  "tty_clear_row text_width row color = on_console (console_clear_row text_width row color)"

definition tty_set_cursor :: "u16 \<Rightarrow> u16 \<Rightarrow> u16 \<Rightarrow> tty \<Rightarrow> tty" where
  "tty_set_cursor text_width row col tty = tty\<lparr>tty_console := console_set_cursor text_width row col (tty_console tty)\<rparr>"

definition tty_cursor_row :: "tty \<Rightarrow> u16" where
  "tty_cursor_row tty = console_get_cursor_row (tty_console tty)"

definition tty_put_at :: "u16 \<Rightarrow> u16 \<Rightarrow> u16 \<Rightarrow> u8 \<Rightarrow> u8 \<Rightarrow> tty \<Rightarrow> tty option" where
  "tty_put_at text_width row col ch color = on_console (console_put_at text_width row col ch color)"

definition tty_write_dec :: "u16 \<Rightarrow> u32 \<Rightarrow> u8 \<Rightarrow> tty \<Rightarrow> tty option" where
  "tty_write_dec text_width v color = on_console (console_write_dec text_width v color)"

definition tty_write_hex64 :: "u16 \<Rightarrow> u64 \<Rightarrow> u8 \<Rightarrow> tty \<Rightarrow> tty option" where
  "tty_write_hex64 text_width v color = on_console (console_write_hex64 text_width v color)"

definition tty_ansi_fill_row :: "u16 \<Rightarrow> u16 \<Rightarrow> u16 \<Rightarrow> u16 \<Rightarrow> u8 \<Rightarrow> tty \<Rightarrow> tty option" where
  "tty_ansi_fill_row text_width row start_col end_col color tty =
     (let end_col = (if end_col \<ge> text_width then text_width - 1 else end_col)
      in if start_col \<ge> text_width \<or> start_col > end_col then Some tty
         else for_each [unat start_col..<unat end_col + 1] (\<lambda>col. tty_put_at text_width row (of_nat col) 0x20 color) tty)"

text \<open>The rows below the cursor are cleared while \<^verbatim>\<open>cur <= bottom_row\<close>, with a 16-bit counter.\<close>

definition tty_ansi_clear_display :: "u16 \<Rightarrow> u32 \<Rightarrow> tty \<Rightarrow> tty option" where
  "tty_ansi_clear_display text_width mode tty =
     (let row = console_get_cursor_row (tty_console tty); col = console_get_cursor_col (tty_console tty);
          color = tty_ansi_clear_color tty
      in if mode = 2 then tty_clear text_width tty
         else if mode = 1 then do {
           t1 \<leftarrow> for_each [unat (top_row (tty_console tty))..<unat row] (\<lambda>cur. tty_clear_row text_width (of_nat cur) color) tty;
           t2 \<leftarrow> tty_ansi_fill_row text_width row 0 col color t1;
           Some (tty_set_cursor text_width row col t2)
         }
         else do {
           t1 \<leftarrow> tty_ansi_fill_row text_width row col (text_width - 1) color tty;
           (cur, t2) \<leftarrow> loop (\<lambda>(cur, t). cur \<le> bottom_row (tty_console t))
              (\<lambda>(cur, t). do { t' \<leftarrow> tty_clear_row text_width cur color t; Some (cur + 1, t') }) (row + 1, t1);
           Some (tty_set_cursor text_width row col t2)
         })"

definition tty_ansi_clear_line :: "u16 \<Rightarrow> u32 \<Rightarrow> tty \<Rightarrow> tty option" where
  "tty_ansi_clear_line text_width mode tty =
     (let row = console_get_cursor_row (tty_console tty); col = console_get_cursor_col (tty_console tty);
          color = tty_ansi_clear_color tty
      in do {
        t1 \<leftarrow> (if mode = 2 then tty_clear_row text_width row color tty
              else if mode = 1 then tty_ansi_fill_row text_width row 0 col color tty
              else tty_ansi_fill_row text_width row col (text_width - 1) color tty);
        Some (tty_set_cursor text_width row col t1)
      })"

definition tty_ansi_move_cursor :: "u16 \<Rightarrow> int \<Rightarrow> int \<Rightarrow> tty \<Rightarrow> tty" where
  "tty_ansi_move_cursor text_width row_delta col_delta tty =
     (let row = uint (console_get_cursor_row (tty_console tty)) + row_delta;
          col = uint (console_get_cursor_col (tty_console tty)) + col_delta;
          row = (if row < uint (top_row (tty_console tty)) then uint (top_row (tty_console tty)) else row);
          row = (if row > uint (bottom_row (tty_console tty)) then uint (bottom_row (tty_console tty)) else row);
          col = (if col < 0 then 0 else col);
          col = (if col \<ge> uint text_width then uint text_width - 1 else col)
      in tty_set_cursor text_width (word_of_int row) (word_of_int col) tty)"

section \<open>Escape sequences\<close>

text \<open>
  The loop over the parameters of \<^verbatim>\<open>ESC [ ... m\<close> reads the parameter count again in each round, and a
  parameter 0 resets it.
\<close>

definition apply_sgr_params :: "tty \<Rightarrow> tty option" where
  "apply_sgr_params tty =
     do { (i, t) \<leftarrow> loop (\<lambda>(i, t). i < unat (ansi_param_count t))
            (\<lambda>(i, t). do { p \<leftarrow> arr_get TTY_ANSI_PARAM_MAX (ansi_params t) i;
                           Some (Suc i, tty_ansi_apply_sgr (ucast p) t) }) (0, tty);
          Some t }"

definition tty_ansi_apply_csi :: "u16 \<Rightarrow> u8 \<Rightarrow> tty \<Rightarrow> tty option" where
  "tty_ansi_apply_csi text_width fin tty =
     (let c = tty_console tty
      in if fin = 0x6d then
           (if ansi_param_count tty = 0 then Some (tty_ansi_apply_sgr 0 tty) else apply_sgr_params tty)
         else if fin = 0x48 \<or> fin = 0x66 then do {
           ansi_row \<leftarrow> tty_ansi_param tty 0 1;
           ansi_col \<leftarrow> tty_ansi_param tty 1 1;
           Some (tty_set_cursor text_width (ucast (ucast (top_row c) + (if ansi_row > 0 then ansi_row - 1 else 0)))
                   (ucast (if ansi_col > 0 then ansi_col - 1 else 0)) tty)
         }
         else if fin = 0x41 then do { p \<leftarrow> tty_ansi_param tty 0 1; Some (tty_ansi_move_cursor text_width (- uint p) 0 tty) }
         else if fin = 0x42 then do { p \<leftarrow> tty_ansi_param tty 0 1; Some (tty_ansi_move_cursor text_width (uint p) 0 tty) }
         else if fin = 0x43 then do { p \<leftarrow> tty_ansi_param tty 0 1; Some (tty_ansi_move_cursor text_width 0 (uint p) tty) }
         else if fin = 0x44 then do { p \<leftarrow> tty_ansi_param tty 0 1; Some (tty_ansi_move_cursor text_width 0 (- uint p) tty) }
         else if fin = 0x47 then do {
           p \<leftarrow> tty_ansi_param tty 0 1;
           Some (tty_set_cursor text_width (console_get_cursor_row c) (ucast (p - 1)) tty)
         }
         else if fin = 0x64 then do {
           p \<leftarrow> tty_ansi_param tty 0 1;
           Some (tty_set_cursor text_width (ucast (ucast (top_row c) + p - 1)) (console_get_cursor_col c) tty)
         }
         else if fin = 0x4a then do { p \<leftarrow> tty_ansi_param tty 0 0; tty_ansi_clear_display text_width p tty }
         else if fin = 0x4b then do { p \<leftarrow> tty_ansi_param tty 0 0; tty_ansi_clear_line text_width p tty }
         else if fin = 0x73 then
           Some (tty\<lparr>ansi_saved_row := console_get_cursor_row c, ansi_saved_col := console_get_cursor_col c\<rparr>)
         else if fin = 0x75 then Some (tty_set_cursor text_width (ansi_saved_row tty) (ansi_saved_col tty) tty)
         else Some tty)"

definition tty_ansi_finish_param :: "tty \<Rightarrow> tty" where
  "tty_ansi_finish_param tty =
     (if ansi_param_active tty then tty\<lparr>ansi_param_count := ansi_param_count tty + 1, ansi_param_active := False\<rparr> else tty)"

text \<open>The branch of the state \<open>TTY_ANSI_STATE_NONE\<close>, to which \<^verbatim>\<open>goto retry\<close> comes back.\<close>

definition write_plain_char :: "u16 \<Rightarrow> u8 \<Rightarrow> u8 \<Rightarrow> tty \<Rightarrow> tty option" where
  "write_plain_char text_width ch color tty =
     (if ch = 0x1b then Some (tty\<lparr>ansi_state := TTY_ANSI_STATE_ESC\<rparr>)
      else on_console (console_putc text_width ch (tty_ansi_effective_color tty color)) tty)"

definition write_csi_char :: "u16 \<Rightarrow> u8 \<Rightarrow> tty \<Rightarrow> tty option" where
  "write_csi_char text_width ch tty =
     (if ch = 0x3f then Some (tty\<lparr>ansi_private := True\<rparr>)
      else if ch \<ge> 0x30 \<and> ch \<le> 0x39 then
        (if \<not> ansi_param_active tty then
           (if unat (ansi_param_count tty) \<ge> TTY_ANSI_PARAM_MAX then Some (tty_ansi_reset_parser tty)
            else do {
              ps \<leftarrow> arr_set TTY_ANSI_PARAM_MAX (ansi_params tty) (unat (ansi_param_count tty)) (ucast (ch - 0x30));
              Some (tty\<lparr>ansi_params := ps, ansi_param_active := True\<rparr>)
            })
         else do {
           p \<leftarrow> arr_get TTY_ANSI_PARAM_MAX (ansi_params tty) (unat (ansi_param_count tty));
           ps \<leftarrow> arr_set TTY_ANSI_PARAM_MAX (ansi_params tty) (unat (ansi_param_count tty)) (p * 10 + ucast (ch - 0x30));
           Some (tty\<lparr>ansi_params := ps\<rparr>)
         })
      else if ch = 0x3b then
        (if \<not> ansi_param_active tty then
           (if unat (ansi_param_count tty) \<ge> TTY_ANSI_PARAM_MAX then Some (tty_ansi_reset_parser tty)
            else do {
              ps \<leftarrow> arr_set TTY_ANSI_PARAM_MAX (ansi_params tty) (unat (ansi_param_count tty)) 0;
              Some (tty\<lparr>ansi_params := ps, ansi_param_count := ansi_param_count tty + 1\<rparr>)
            })
         else Some (tty_ansi_finish_param tty))
      else if ch \<ge> 0x40 \<and> ch \<le> 0x7e then do {
        t1 \<leftarrow> tty_ansi_apply_csi text_width ch (tty_ansi_finish_param tty);
        Some (tty_ansi_reset_parser t1)
      }
      else Some (tty_ansi_reset_parser tty))"

definition tty_write_parsed_char :: "u16 \<Rightarrow> u8 \<Rightarrow> u8 \<Rightarrow> tty \<Rightarrow> tty option" where
  "tty_write_parsed_char text_width ch color tty =
     (case ansi_state tty of
        TTY_ANSI_STATE_NONE \<Rightarrow> write_plain_char text_width ch color tty
      | TTY_ANSI_STATE_ESC \<Rightarrow>
          (if ch = 0x5b then Some ((tty_ansi_reset_parser tty)\<lparr>ansi_state := TTY_ANSI_STATE_CSI\<rparr>)
           else do {
             t1 \<leftarrow> on_console (console_putc text_width 0x1b (tty_ansi_effective_color tty color))
                     (tty\<lparr>ansi_state := TTY_ANSI_STATE_NONE\<rparr>);
             write_plain_char text_width ch color t1
           })
      | TTY_ANSI_STATE_CSI \<Rightarrow> write_csi_char text_width ch tty)"

definition tty_write_parsed_codepoint :: "u16 \<Rightarrow> u32 \<Rightarrow> u8 \<Rightarrow> tty \<Rightarrow> tty option" where
  "tty_write_parsed_codepoint text_width codepoint color tty =
     (if codepoint < 0x80 then tty_write_parsed_char text_width (ucast codepoint) color tty
      else
        (let t1 = (if ansi_state tty \<noteq> TTY_ANSI_STATE_NONE then tty_ansi_reset_parser tty else tty)
         in on_console (console_put_codepoint text_width codepoint (tty_ansi_effective_color t1 color)) t1))"

section \<open>Writing\<close>

text \<open>
  A round of the loop of \<^verbatim>\<open>tty_write\<close> over the bytes \<open>data\<close>, at the position \<open>written\<close>.
\<close>

definition write_round :: "u16 \<Rightarrow> u8 list \<Rightarrow> u8 \<Rightarrow> nat \<times> tty \<Rightarrow> (nat \<times> tty) option" where
  "write_round text_width data color = (\<lambda>(written, tty).
     do {
       ch \<leftarrow> tab_get data written;
       let prompt_cache_before = prompt_cache_len tty;
       t1 \<leftarrow> (if ch = 0x0a \<or> ch = 0x0d then Some (tty\<lparr>prompt_cache_len := 0\<rparr>)
             else if unat (prompt_cache_len tty) < TTY_PROMPT_CACHE_SIZE then do {
               pc \<leftarrow> arr_set TTY_PROMPT_CACHE_SIZE (prompt_cache tty) (unat (prompt_cache_len tty)) ch;
               Some (tty\<lparr>prompt_cache := pc, prompt_cache_len := prompt_cache_len tty + 1\<rparr>)
             }
             else Some tty);
       (if output_utf8_len t1 \<noteq> 0 then
          (if \<not> tty_utf8_is_continuation ch then do {
             t2 \<leftarrow> tty_write_parsed_codepoint text_width 0xfffd color t1;
             Some (written, t2\<lparr>output_utf8_len := 0, output_utf8_expected := 0, prompt_cache_len := prompt_cache_before\<rparr>)
           }
           else do {
             buf \<leftarrow> arr_set 4 (output_utf8 t1) (unat (output_utf8_len t1)) ch;
             let t2 = t1\<lparr>output_utf8 := buf, output_utf8_len := output_utf8_len t1 + 1\<rparr>;
             (if output_utf8_len t2 = output_utf8_expected t2 then do {
                (consumed, codepoint) \<leftarrow> tty_utf8_decode_next (arr_get 4 (output_utf8 t2)) (ucast (output_utf8_len t2)) 0 0xfffd;
                t3 \<leftarrow> tty_write_parsed_codepoint text_width codepoint color t2;
                Some (written + 1, t3\<lparr>output_utf8_len := 0, output_utf8_expected := 0\<rparr>)
              }
              else Some (written + 1, t2))
           })
        else if ch < 0x80 \<or> ansi_state t1 \<noteq> TTY_ANSI_STATE_NONE then do {
          t2 \<leftarrow> tty_write_parsed_char text_width ch color t1;
          Some (written + 1, t2)
        }
        else if tty_utf8_expected_length ch = 0 then do {
          t2 \<leftarrow> tty_write_parsed_codepoint text_width 0xfffd color t1;
          Some (written + 1, t2)
        }
        else do {
          buf \<leftarrow> arr_set 4 (output_utf8 t1) 0 ch;
          Some (written + 1, t1\<lparr>output_utf8 := buf, output_utf8_len := 1, output_utf8_expected := tty_utf8_expected_length ch\<rparr>)
        })
     })"

text \<open>The result is the return value and the terminal; \<^verbatim>\<open>len\<close> is the number of bytes in \<open>data\<close>.\<close>

definition tty_write :: "u16 \<Rightarrow> u8 list \<Rightarrow> u8 \<Rightarrow> tty \<Rightarrow> (nat \<times> tty) option" where
  "tty_write text_width data color tty =
     loop (\<lambda>(written, t). written < length data) (write_round text_width data color)
       (0, if length data \<noteq> 0 then tty\<lparr>input_origin_valid := False, input_render_rows := 1\<rparr> else tty)"

definition tty_write_str :: "u16 \<Rightarrow> u8 list \<Rightarrow> u8 \<Rightarrow> tty \<Rightarrow> (nat \<times> tty) option" where
  "tty_write_str text_width text = tty_write text_width (takeWhile (\<lambda>ch. ch \<noteq> 0) text)"

end
