(* ===== verification/Tty_Ok.thy ===== *)
theory Tty_Ok
  imports Tty_Output
begin

text \<open>
  The invariant of a terminal, and that output keeps it: no operation accesses an array out of its bounds and every
  loop ends.
\<close>

definition has_nul :: "(nat \<Rightarrow> u8) \<Rightarrow> bool" where
  "has_nul a \<longleftrightarrow> (\<exists>i\<in>{..TTY_LINE_MAX}. a i = 0)"

definition hangul_ok :: "int \<Rightarrow> int \<Rightarrow> int \<Rightarrow> bool" where
  "hangul_ok i m f \<longleftrightarrow>
     -1 \<le> i \<and> i \<le> 18 \<and> -1 \<le> m \<and> m \<le> 20 \<and> (f = -1 \<or> 1 \<le> f \<and> f \<le> 27 \<and> 0 \<le> i \<and> 0 \<le> m)"

definition edit_ok :: "tty \<Rightarrow> bool" where
  "edit_ok t \<longleftrightarrow>
     input_cursor t \<le> input_len t \<and> input t (unat (input_len t)) = 0 \<and>
     has_nul (ready_line t) \<and> has_nul (history_scratch t) \<and> (\<forall>slot < TTY_HISTORY_MAX. has_nul (history t slot)) \<and>
     unat (history_len t) \<le> TTY_HISTORY_MAX \<and> unat (history_next t) < TTY_HISTORY_MAX \<and>
     -1 \<le> history_index t \<and> history_index t < int (unat (history_len t)) \<and>
     hangul_ok (hangul_initial t) (hangul_medial t) (hangul_final t) \<and> tty_queue_ok t"

definition utf8_ok :: "tty \<Rightarrow> bool" where
  "utf8_ok t \<longleftrightarrow> output_utf8_len t = 0 \<or> output_utf8_len t < output_utf8_expected t \<and> unat (output_utf8_expected t) \<le> 4"

definition output_ok :: "tty \<Rightarrow> bool" where
  "output_ok t \<longleftrightarrow>
     console_ok (tty_console t) \<and> unat (prompt_cache_len t) \<le> TTY_PROMPT_CACHE_SIZE \<and>
     unat (ansi_param_count t) \<le> TTY_ANSI_PARAM_MAX \<and>
     (ansi_param_active t \<longrightarrow> unat (ansi_param_count t) < TTY_ANSI_PARAM_MAX)"

definition tty_ok :: "tty \<Rightarrow> bool" where
  "tty_ok t \<longleftrightarrow> edit_ok t \<and> utf8_ok t \<and> output_ok t"

text \<open>
  What output leaves alone: the line editor, the queue and the partial character. It never sets an anchor for the
  prompt.
\<close>

definition edit_part where
  "edit_part t = ((input t, ready_line t, history t, history_scratch t, input_len t, input_cursor t, history_len t, history_next t),
     (history_index t, hangul_initial t, hangul_medial t, hangul_final t, char_head t, char_tail t, char_count t, text_color t))"

lemma edit_ok_part: "edit_part t = edit_part t' \<Longrightarrow> edit_ok t \<longleftrightarrow> edit_ok t'"
  by (simp add: edit_part_def edit_ok_def tty_queue_ok_def ttyq.ok_def)

definition unanchored :: "tty \<Rightarrow> bool" where
  "unanchored t \<longleftrightarrow> \<not> input_origin_valid t \<and> input_render_rows t = 1"

definition keeps :: "tty \<Rightarrow> tty \<Rightarrow> bool" where
  "keeps t0 t \<longleftrightarrow> output_ok t \<and> edit_part t = edit_part t0 \<and>
     output_utf8_len t = output_utf8_len t0 \<and> output_utf8_expected t = output_utf8_expected t0 \<and>
     (unanchored t0 \<longrightarrow> unanchored t)"

lemma keeps_refl: "output_ok t \<Longrightarrow> keeps t t"
  by (simp add: keeps_def)

lemma keeps_tty_ok: "keeps t0 t \<Longrightarrow> tty_ok t0 \<Longrightarrow> tty_ok t"
  using edit_ok_part [of t t0] by (simp add: keeps_def tty_ok_def utf8_ok_def)

lemma keeps_console: "keeps t0 t \<Longrightarrow> console_ok (tty_console t)"
  by (simp add: keeps_def output_ok_def)

lemmas keeps_simps = keeps_def output_ok_def edit_part_def unanchored_def

text \<open>One rule for every call of a console operation.\<close>

lemma ensures_on_console:
  assumes "keeps t0 t" and "console_ok (tty_console t) \<Longrightarrow> ensures (f (tty_console t)) console_ok"
  shows "ensures (on_console f t) (keeps t0)"
  unfolding on_console_def
  by (rule ensures_bind, rule assms(2) [OF keeps_console [OF assms(1)]]) (use assms(1) in \<open>simp add: keeps_simps\<close>)

lemma keeps_set_cursor: "width_ok w \<Longrightarrow> keeps t0 t \<Longrightarrow> keeps t0 (tty_set_cursor w row col t)"
  using set_cursor_ok [of w "tty_console t"] by (simp add: keeps_simps tty_set_cursor_def)

lemma keeps_reset_parser: "keeps t0 t \<Longrightarrow> keeps t0 (tty_ansi_reset_parser t)"
  by (simp add: keeps_simps tty_ansi_reset_parser_def)

lemma keeps_refresh: "keeps t0 t \<Longrightarrow> keeps t0 (tty_ansi_refresh_active t)"
  by (simp add: keeps_simps tty_ansi_refresh_active_def)

lemma keeps_reset_output: "keeps t0 t \<Longrightarrow> keeps t0 (tty_ansi_reset_output t)"
  unfolding tty_ansi_reset_output_def by (intro keeps_reset_parser keeps_refresh) (simp add: keeps_simps)

lemma keeps_color: "keeps t0 t \<Longrightarrow> keeps t0 (t\<lparr>ansi_color := c\<rparr>)" "keeps t0 t \<Longrightarrow> keeps t0 (t\<lparr>ansi_bold := b\<rparr>)"
  by (simp_all add: keeps_simps)

lemma keeps_sgr: "keeps t0 t \<Longrightarrow> keeps t0 (tty_ansi_apply_sgr p t)"
  unfolding tty_ansi_apply_sgr_def tty_ansi_set_fg_def tty_ansi_set_bg_def
  by (simp add: keeps_reset_output keeps_refresh keeps_color)

lemma keeps_finish_param: "keeps t0 t \<Longrightarrow> keeps t0 (tty_ansi_finish_param t)"
proof -
  assume k: "keeps t0 t"
  have "unat (ansi_param_count t + 1) = unat (ansi_param_count t) + 1" if "ansi_param_active t"
    using k that unat_add_lem [of "ansi_param_count t" 1] by (simp add: keeps_simps TTY_ANSI_PARAM_MAX_def)
  with k show ?thesis by (auto simp: tty_ansi_finish_param_def keeps_simps)
qed

section \<open>Clearing\<close>

lemma keeps_clear_fields:
  "keeps t0 t \<Longrightarrow> keeps t0 (t\<lparr>ansi_saved_row := a, ansi_saved_col := b, input_origin_valid := False, input_render_rows := 1,
     prompt_cache_len := 0\<rparr>)"
  by (simp add: keeps_simps)

lemma ensures_tty_clear: "width_ok w \<Longrightarrow> keeps t0 t \<Longrightarrow> ensures (tty_clear w t) (keeps t0)"
  unfolding tty_clear_def
  by (rule ensures_bind, rule ensures_on_console [of t0], assumption, rule ensures_clear)
     (simp_all add: keeps_reset_output keeps_clear_fields)

lemma ensures_tty_clear_row: "width_ok w \<Longrightarrow> keeps t0 t \<Longrightarrow> ensures (tty_clear_row w row color t) (keeps t0)"
  unfolding tty_clear_row_def by (rule ensures_on_console) (simp_all add: ensures_clear_row)

lemma ensures_tty_put_at: "width_ok w \<Longrightarrow> keeps t0 t \<Longrightarrow> ensures (tty_put_at w row col ch color t) (keeps t0)"
  unfolding tty_put_at_def by (rule ensures_on_console) (simp_all add: ensures_put_at)

lemma ensures_tty_putc: "width_ok w \<Longrightarrow> keeps t0 t \<Longrightarrow> ensures (tty_putc w ch color t) (keeps t0)"
  unfolding tty_putc_def by (rule ensures_on_console) (simp_all add: ensures_putc)

lemma ensures_fill_row: "width_ok w \<Longrightarrow> keeps t0 t \<Longrightarrow> ensures (tty_ansi_fill_row w row a b color t) (keeps t0)"
  unfolding tty_ansi_fill_row_def Let_def
  by (intro ensures_if ensures_for_each ensures_tty_put_at) simp_all

text \<open>The rows of a console end below \<^verbatim>\<open>0xffff\<close>, so the counter of the rows passes the last one.\<close>

lemma ensures_clear_below:
  assumes w: "width_ok w" and k: "keeps t0 t"
  shows "ensures (loop (\<lambda>(cur, t). cur \<le> bottom_row (tty_console t))
      (\<lambda>(cur, t). do { t' \<leftarrow> tty_clear_row w cur color t; Some (cur + 1, t') }) (row, t)) (\<lambda>s. keeps t0 (snd s))"
proof -
  have "ensures (loop (\<lambda>(cur, t). cur \<le> bottom_row (tty_console t))
      (\<lambda>(cur, t). do { t' \<leftarrow> tty_clear_row w cur color t; Some (cur + 1, t') }) (row, t))
    (\<lambda>s. keeps t0 (snd s) \<and> \<not> (\<lambda>(cur, t). cur \<le> bottom_row (tty_console t)) s)"
  proof (rule ensures_loop [where \<mu> = "\<lambda>s. 0xffff - unat (fst s)"])
    fix s :: "u16 \<times> tty"
    assume s: "keeps t0 (snd s)" "(\<lambda>(cur, t). cur \<le> bottom_row (tty_console t)) s"
    obtain cur t1 where [simp]: "s = (cur, t1)" by (cases s)
    have "cur \<le> bottom_row (tty_console t1)" "bottom_row (tty_console t1) < 0xffff"
      using s keeps_console [of t0 t1] by (simp_all add: console_ok_def)
    then have "cur < 0xffff" by (rule order_le_less_trans)
    then have "unat cur < 0xffff" by (simp add: word_less_nat_alt)
    then have "0xffff - unat (cur + 1) < 0xffff - unat cur" using unat_add_lem [of cur 1] by simp
    then show "ensures ((\<lambda>(cur, t). do { t' \<leftarrow> tty_clear_row w cur color t; Some (cur + 1, t') }) s)
        (\<lambda>s'. keeps t0 (snd s') \<and> 0xffff - unat (fst s') < 0xffff - unat (fst s))"
      using s(1) by (simp add: ensures_bind [OF ensures_tty_clear_row [OF w]])
  qed (use k in simp)
  then show ?thesis by (rule ensures_mono) simp
qed

lemma ensures_clear_display: "width_ok w \<Longrightarrow> keeps t0 t \<Longrightarrow> ensures (tty_ansi_clear_display w mode t) (keeps t0)"
proof -
  assume w: "width_ok w" and k: "keeps t0 t"
  have rows: "ensures (for_each xs (\<lambda>cur. tty_clear_row w (of_nat cur) color) t) (keeps t0)" for xs color
    by (rule ensures_for_each, rule k) (simp add: ensures_tty_clear_row [OF w])
  show ?thesis
    unfolding tty_ansi_clear_display_def Let_def
    by (intro ensures_if ensures_tty_clear [OF w k] ensures_bind [OF rows] ensures_bind [OF ensures_fill_row [OF w, of t0]]
        ensures_bind [OF ensures_clear_below [OF w, of t0]])
       (auto simp: keeps_set_cursor [OF w] k)
qed

lemma ensures_clear_line': "width_ok w \<Longrightarrow> keeps t0 t \<Longrightarrow> ensures (tty_ansi_clear_line w mode t) (keeps t0)"
proof -
  assume w: "width_ok w" and k: "keeps t0 t"
  show ?thesis
    unfolding tty_ansi_clear_line_def Let_def
    by (rule ensures_bind [where Q = "keeps t0"])
       (simp_all add: ensures_tty_clear_row [OF w k] ensures_fill_row [OF w k] keeps_set_cursor [OF w])
qed

lemma keeps_move_cursor: "width_ok w \<Longrightarrow> keeps t0 t \<Longrightarrow> keeps t0 (tty_ansi_move_cursor w dr dc t)"
  unfolding tty_ansi_move_cursor_def Let_def by (rule keeps_set_cursor)

section \<open>Escape sequences\<close>

lemma ensures_param:
  assumes "keeps t0 t"
  shows "ensures (tty_ansi_param t i fallback) (\<lambda>_. True)"
  using assms unfolding tty_ansi_param_def
  by (intro ensures_if ensures_bind [OF ensures_get]) (auto simp: keeps_simps)

lemma reset_parser_count: "ansi_param_count (tty_ansi_reset_parser t) = 0"
  by (simp add: tty_ansi_reset_parser_def)

lemma ensures_sgr_params:
  assumes k: "keeps t0 t"
  shows "ensures (apply_sgr_params t) (keeps t0)"
proof -
  let ?b = "\<lambda>(i, t). i < unat (ansi_param_count t)"
  let ?f = "\<lambda>(i, t). do { p \<leftarrow> arr_get TTY_ANSI_PARAM_MAX (ansi_params t) i; Some (Suc i, tty_ansi_apply_sgr (ucast p) t) }"
  have "ensures (loop ?b ?f (0, t)) (\<lambda>s. keeps t0 (snd s) \<and> \<not> ?b s)"
  proof (rule ensures_loop [where \<mu> = "\<lambda>s. TTY_ANSI_PARAM_MAX - fst s"])
    fix s :: "nat \<times> tty"
    assume s: "keeps t0 (snd s)" "?b s"
    obtain i t1 where [simp]: "s = (i, t1)" by (cases s)
    have "i < TTY_ANSI_PARAM_MAX" using s by (simp add: keeps_simps)
    then show "ensures (?f s) (\<lambda>s'. keeps t0 (snd s') \<and> TTY_ANSI_PARAM_MAX - fst s' < TTY_ANSI_PARAM_MAX - fst s)"
      using s(1) keeps_sgr by (simp add: arr_get_def)
  qed (use k in simp)
  then show ?thesis unfolding apply_sgr_params_def by (rule ensures_bind) auto
qed

lemma ensures_apply_csi: "width_ok w \<Longrightarrow> keeps t0 t \<Longrightarrow> ensures (tty_ansi_apply_csi w fin t) (keeps t0)"
proof -
  assume w: "width_ok w" and k: "keeps t0 t"
  have saved: "keeps t0 (t\<lparr>ansi_saved_row := a, ansi_saved_col := b\<rparr>)" for a b
    using k by (simp add: keeps_simps)
  show ?thesis
    unfolding tty_ansi_apply_csi_def Let_def
    by (intro ensures_if ensures_bind [OF ensures_param [OF k]] ensures_sgr_params [OF k] ensures_clear_display [OF w k]
        ensures_clear_line' [OF w k])
       (simp_all add: keeps_sgr keeps_set_cursor keeps_move_cursor w k saved)
qed

lemma ensures_plain_char: "width_ok w \<Longrightarrow> keeps t0 t \<Longrightarrow> ensures (write_plain_char w ch color t) (keeps t0)"
  unfolding write_plain_char_def
  by (intro ensures_if ensures_on_console) (simp_all add: ensures_putc, simp add: keeps_simps)

lemma param_step:
  assumes "keeps t0 t" and "unat (ansi_param_count t) < TTY_ANSI_PARAM_MAX"
  shows "unat (ansi_param_count t + 1) = unat (ansi_param_count t) + 1"
  using assms unat_add_lem [of "ansi_param_count t" 1] by (simp add: TTY_ANSI_PARAM_MAX_def)

lemma ensures_csi_char:
  assumes w: "width_ok w" and k: "keeps t0 t"
  shows "ensures (write_csi_char w ch t) (keeps t0)"
proof -
  have lt: "unat (ansi_param_count t) < TTY_ANSI_PARAM_MAX" if "ansi_param_active t"
    using k that by (simp add: keeps_simps)
  have active: "keeps t0 (t\<lparr>ansi_params := ps, ansi_param_active := True\<rparr>)" if "unat (ansi_param_count t) < TTY_ANSI_PARAM_MAX" for ps
    using k that by (simp add: keeps_simps)
  have params: "keeps t0 (t\<lparr>ansi_params := ps\<rparr>)" "keeps t0 (t\<lparr>ansi_private := True\<rparr>)" for ps
    using k by (simp_all add: keeps_simps)
  have count: "keeps t0 (t\<lparr>ansi_params := ps, ansi_param_count := ansi_param_count t + 1\<rparr>)"
    if "unat (ansi_param_count t) < TTY_ANSI_PARAM_MAX" "\<not> ansi_param_active t" for ps
    using k that param_step [OF k] by (simp add: keeps_simps)
  show ?thesis
    unfolding write_csi_char_def
    by (intro ensures_if ensures_bind [OF ensures_apply_csi [OF w keeps_finish_param [OF k]]])
       (simp_all add: arr_set_def arr_get_def lt active params count keeps_reset_parser keeps_finish_param k)
qed

lemma ensures_parsed_char:
  assumes w: "width_ok w" and k: "keeps t0 t"
  shows "ensures (tty_write_parsed_char w ch color t) (keeps t0)"
proof -
  have state: "keeps t0 (t\<lparr>ansi_state := a\<rparr>)" "keeps t0 ((tty_ansi_reset_parser t)\<lparr>ansi_state := a\<rparr>)" for a
    using k keeps_reset_parser [OF k] by (simp_all add: keeps_simps)
  have "ensures (on_console (console_putc w 0x1b color') (t\<lparr>ansi_state := a\<rparr>) \<bind> write_plain_char w ch color) (keeps t0)"
    for color' a
    by (rule ensures_bind, rule ensures_on_console [OF state(1)], rule ensures_putc [OF w], assumption)
       (rule ensures_plain_char [OF w])
  then show ?thesis
    unfolding tty_write_parsed_char_def
    by (simp add: ensures_plain_char [OF w] ensures_csi_char [OF w] k state split: ansi_state.split)
qed

lemma ensures_parsed_codepoint:
  assumes w: "width_ok w" and k: "keeps t0 t"
  shows "ensures (tty_write_parsed_codepoint w cp color t) (keeps t0)"
proof -
  have "keeps t0 (if b then tty_ansi_reset_parser t else t)" for b by (simp add: k keeps_reset_parser)
  then show ?thesis
    unfolding tty_write_parsed_codepoint_def Let_def
    by (intro ensures_if ensures_parsed_char [OF w k] ensures_on_console ensures_put_codepoint [OF w])
qed

section \<open>Writing\<close>

text \<open>The first statement of a round: the prompt cache.\<close>

lemma ensures_cache:
  assumes k: "keeps t0 t"
  shows "ensures (if ch = 0x0a \<or> ch = 0x0d then Some (t\<lparr>prompt_cache_len := 0\<rparr>)
      else if unat (prompt_cache_len t) < TTY_PROMPT_CACHE_SIZE then do {
        pc \<leftarrow> arr_set TTY_PROMPT_CACHE_SIZE (prompt_cache t) (unat (prompt_cache_len t)) ch;
        Some (t\<lparr>prompt_cache := pc, prompt_cache_len := prompt_cache_len t + 1\<rparr>)
      }
      else Some t) (keeps t0)"
proof -
  have "unat (prompt_cache_len t + 1) = unat (prompt_cache_len t) + 1" if "unat (prompt_cache_len t) < TTY_PROMPT_CACHE_SIZE"
    using that unat_add_lem [of "prompt_cache_len t" 1] by (simp add: TTY_PROMPT_CACHE_SIZE_def)
  then have "keeps t0 (t\<lparr>prompt_cache := pc, prompt_cache_len := prompt_cache_len t + 1\<rparr>)"
    if "unat (prompt_cache_len t) < TTY_PROMPT_CACHE_SIZE" for pc
    using k that by (simp add: keeps_simps)
  moreover have "keeps t0 (t\<lparr>prompt_cache_len := 0\<rparr>)" using k by (simp add: keeps_simps)
  ultimately show ?thesis using k by (simp add: arr_set_def)
qed

text \<open>After a round: the invariant, the anchor, and the measure of what is left.\<close>

definition round_done :: "u8 list \<Rightarrow> nat \<Rightarrow> tty \<Rightarrow> nat \<times> tty \<Rightarrow> bool" where
  "round_done data written t0 s \<longleftrightarrow> tty_ok (snd s) \<and> (unanchored t0 \<longrightarrow> unanchored (snd s)) \<and> fst s \<le> length data \<and>
     2 * (length data - fst s) + (if output_utf8_len (snd s) \<noteq> 0 then 1 else 0) <
     2 * (length data - written) + (if output_utf8_len t0 \<noteq> 0 then 1 else 0)"

lemma expected_length: "unat (tty_utf8_expected_length ch) \<le> 4" "\<not> ch < 0x80 \<Longrightarrow> tty_utf8_expected_length ch \<noteq> 0 \<Longrightarrow> 1 < tty_utf8_expected_length ch"
  by (simp_all add: tty_utf8_expected_length_def split: if_splits)

text \<open>A character that is written whole: the partial character is empty before or after.\<close>

lemma keeps_round:
  assumes "keeps t0 t" and "tty_ok t0" and "written < length data"
  shows "round_done data written t0 (written + 1, t)"
  using assms keeps_tty_ok [of t0 t] by (auto simp: round_done_def keeps_def)

lemma reset_round:
  assumes t: "edit_part t = edit_part t0" "output_ok t" "unanchored t0 \<longrightarrow> unanchored t" "output_utf8_len t = 0"
    and ok: "tty_ok t0" and le: "written' \<le> length data"
    and m: "2 * (length data - written') < 2 * (length data - written) + (if output_utf8_len t0 \<noteq> 0 then 1 else 0)"
  shows "round_done data written t0 (written', t)"
  using t ok le m edit_ok_part [of t t0] by (simp add: round_done_def tty_ok_def utf8_ok_def)

lemma keeps_reset_round:
  assumes "keeps t1 t" "edit_part t1 = edit_part t0" "unanchored t0 \<longrightarrow> unanchored t1"
    and "tty_ok t0" "written' \<le> length data" "unat n \<le> TTY_PROMPT_CACHE_SIZE"
    and "2 * (length data - written') < 2 * (length data - written) + (if output_utf8_len t0 \<noteq> 0 then 1 else 0)"
  shows "round_done data written t0 (written', t\<lparr>output_utf8_len := 0, output_utf8_expected := 0, prompt_cache_len := n\<rparr>)"
    and "round_done data written t0 (written', t\<lparr>output_utf8_len := 0, output_utf8_expected := 0\<rparr>)"
  by (rule reset_round; use assms in \<open>simp add: keeps_simps\<close>)+

lemma unat_ucast_u8: "unat (ucast (x :: u8) :: u32) = unat x"
  using unsigned_less [of x, where ?'a = nat] by (simp add: unsigned_ucast_eq take_bit_nat_eq_self)

lemma ensures_partial:
  assumes w: "width_ok w" and ok: "tty_ok t0" and k: "keeps t0 t" and lt: "written < length data" and p: "output_utf8_len t \<noteq> 0"
  shows "ensures (do {
      buf \<leftarrow> arr_set 4 (output_utf8 t) (unat (output_utf8_len t)) ch;
      let t2 = t\<lparr>output_utf8 := buf, output_utf8_len := output_utf8_len t + 1\<rparr>;
      (if output_utf8_len t2 = output_utf8_expected t2 then do {
         (consumed, codepoint) \<leftarrow> tty_utf8_decode_next (arr_get 4 (output_utf8 t2)) (ucast (output_utf8_len t2)) 0 0xfffd;
         t3 \<leftarrow> tty_write_parsed_codepoint w codepoint color t2;
         Some (written + 1, t3\<lparr>output_utf8_len := 0, output_utf8_expected := 0\<rparr>)
       }
       else Some (written + 1, t2)) }) (round_done data written t0)"
proof -
  define buf where "buf = (output_utf8 t)(unat (output_utf8_len t) := ch)"
  define t2 where "t2 = t\<lparr>output_utf8 := buf, output_utf8_len := output_utf8_len t + 1\<rparr>"
  have u: "utf8_ok t" using keeps_tty_ok [OF k ok] by (simp add: tty_ok_def)
  then have len: "unat (output_utf8_len t) < unat (output_utf8_expected t)" "unat (output_utf8_expected t) \<le> 4"
    using p by (simp_all add: utf8_ok_def word_less_nat_alt)
  then have suc: "unat (output_utf8_len t + 1) = unat (output_utf8_len t) + 1"
    using unat_add_lem [of "output_utf8_len t" 1] by simp
  have set: "arr_set 4 (output_utf8 t) (unat (output_utf8_len t)) ch = Some buf" using len by (simp add: arr_set_def buf_def)
  have t2: "keeps t2 t2" "edit_part t2 = edit_part t0" "output_ok t2" "unanchored t0 \<longrightarrow> unanchored t2"
    using k by (simp_all add: keeps_simps t2_def)
  have whole: "ensures (do {
      (consumed, codepoint) \<leftarrow> tty_utf8_decode_next (arr_get 4 (output_utf8 t2)) (ucast (output_utf8_len t2)) 0 0xfffd;
      t3 \<leftarrow> tty_write_parsed_codepoint w codepoint color t2;
      Some (written + 1, t3\<lparr>output_utf8_len := 0, output_utf8_expected := 0\<rparr>) }) (round_done data written t0)"
  proof (rule ensures_bind [OF ensures_decode_next])
    have "unat (ucast (output_utf8_len t2) :: u32) = unat (output_utf8_len t) + 1"
      by (simp add: t2_def suc unat_ucast_u8)
    then show "0 < (ucast (output_utf8_len t2) :: u32)" "unat (ucast (output_utf8_len t2) :: u32) \<le> 255"
      "\<And>i. i < unat (ucast (output_utf8_len t2) :: u32) \<Longrightarrow> ensures (arr_get 4 (output_utf8 t2) i) (\<lambda>_. True)"
      using len by (simp_all add: word_less_nat_alt arr_get_def)
  next
    fix r :: "u32 \<times> u32"
    have "ensures (do { t3 \<leftarrow> tty_write_parsed_codepoint w cp color t2;
        Some (written + 1, t3\<lparr>output_utf8_len := 0, output_utf8_expected := 0\<rparr>) }) (round_done data written t0)" for cp
      by (rule ensures_bind [OF ensures_parsed_codepoint [OF w t2(1)]])
         (use keeps_reset_round(2) [OF _ t2(2,4) ok, where n = 0] lt in simp)
    then show "ensures (case r of (consumed, codepoint) \<Rightarrow> do { t3 \<leftarrow> tty_write_parsed_codepoint w codepoint color t2;
        Some (written + 1, t3\<lparr>output_utf8_len := 0, output_utf8_expected := 0\<rparr>) }) (round_done data written t0)"
      by (simp split: prod.split)
  qed
  have part: "round_done data written t0 (written + 1, t2)" if "output_utf8_len t2 \<noteq> output_utf8_expected t2"
  proof -
    have "unat (output_utf8_len t2) \<noteq> unat (output_utf8_expected t2)" using that by (simp add: word_unat_eq_iff)
    then have "utf8_ok t2" using len suc by (simp add: utf8_ok_def t2_def word_less_nat_alt)
    then show ?thesis using t2 ok lt edit_ok_part [of t2 t0] by (auto simp: round_done_def tty_ok_def)
  qed
  show ?thesis
    unfolding set Let_def bind.simps t2_def [symmetric] by (intro ensures_if whole) (simp only: ensures_Some, rule part)
qed

lemma ensures_round:
  assumes w: "width_ok w" and ok: "tty_ok t" and lt: "written < length data"
  shows "ensures (write_round w data color (written, t)) (round_done data written t)"
proof -
  have k0: "keeps t t" using ok by (simp add: keeps_refl tty_ok_def)
  have n: "unat (prompt_cache_len t) \<le> TTY_PROMPT_CACHE_SIZE" using ok by (simp add: tty_ok_def output_ok_def)
  have tab: "tab_get data written = Some (data ! written)" using lt by (simp add: tab_get_def)
  show ?thesis
    unfolding write_round_def split_conv tab bind.simps Let_def
  proof (rule ensures_bind [OF ensures_cache [OF k0]], intro ensures_if)
    fix t1 assume k: "keeps t t1"
    have len: "output_utf8_len t1 = output_utf8_len t" using k by (simp add: keeps_def)
    show "ensures (do { t2 \<leftarrow> tty_write_parsed_codepoint w 0xfffd color t1;
        Some (written, t2\<lparr>output_utf8_len := 0, output_utf8_expected := 0, prompt_cache_len := prompt_cache_len t\<rparr>) })
      (round_done data written t)" if "output_utf8_len t1 \<noteq> 0"
      by (rule ensures_bind [OF ensures_parsed_codepoint [OF w k]])
         (use keeps_reset_round(1) [OF _ refl _ ok _ n] that len lt in simp)
    show "ensures (do { t2 \<leftarrow> tty_write_parsed_char w (data ! written) color t1; Some (written + 1, t2) }) (round_done data written t)"
      by (rule ensures_bind [OF ensures_parsed_char [OF w k]]) (use keeps_round [OF _ ok lt] in simp)
    show "ensures (do { t2 \<leftarrow> tty_write_parsed_codepoint w 0xfffd color t1; Some (written + 1, t2) }) (round_done data written t)"
      by (rule ensures_bind [OF ensures_parsed_codepoint [OF w k]]) (use keeps_round [OF _ ok lt] in simp)
    show "ensures (do { buf \<leftarrow> arr_set 4 (output_utf8 t1) 0 (data ! written);
        Some (written + 1, t1\<lparr>output_utf8 := buf, output_utf8_len := 1, output_utf8_expected := tty_utf8_expected_length (data ! written)\<rparr>) })
      (round_done data written t)"
      if "\<not> (data ! written < 0x80 \<or> ansi_state t1 \<noteq> TTY_ANSI_STATE_NONE)" "tty_utf8_expected_length (data ! written) \<noteq> 0"
    proof -
      define t2 where "t2 = t1\<lparr>output_utf8 := (output_utf8 t1)(0 := data ! written), output_utf8_len := 1,
        output_utf8_expected := tty_utf8_expected_length (data ! written)\<rparr>"
      have "edit_part t2 = edit_part t" "output_ok t2" "unanchored t \<longrightarrow> unanchored t2"
        using k by (simp_all add: keeps_simps t2_def)
      moreover have "utf8_ok t2" using that expected_length [of "data ! written"] by (simp add: utf8_ok_def t2_def)
      ultimately have "round_done data written t (written + 1, t2)"
        using ok lt edit_ok_part [of t2 t] by (auto simp: round_done_def tty_ok_def)
      then show ?thesis by (simp add: arr_set_def t2_def)
    qed
  qed (use ensures_partial [OF w ok _ lt] in \<open>simp add: Let_def\<close>)
qed

lemma tty_ok_unanchor: "tty_ok t \<Longrightarrow> tty_ok (t\<lparr>input_origin_valid := v, input_render_rows := n\<rparr>)"
  using edit_ok_part [of "t\<lparr>input_origin_valid := v, input_render_rows := n\<rparr>" t]
  by (simp add: tty_ok_def edit_part_def utf8_ok_def output_ok_def)

lemma ensures_write_loop:
  assumes w: "width_ok w" and ok: "tty_ok t" and le: "written \<le> length data"
  shows "ensures (loop (\<lambda>(written, t). written < length data) (write_round w data color) (written, t))
    (\<lambda>s. fst s = length data \<and> tty_ok (snd s) \<and> (unanchored t \<longrightarrow> unanchored (snd s)))"
proof -
  let ?P = "\<lambda>s. fst s \<le> length data \<and> tty_ok (snd s) \<and> (unanchored t \<longrightarrow> unanchored (snd s))"
  have "ensures (loop (\<lambda>(written, t). written < length data) (write_round w data color) (written, t))
      (\<lambda>s. ?P s \<and> \<not> (\<lambda>(written, t). written < length data) s)"
  proof (rule ensures_loop [where \<mu> = "\<lambda>s. 2 * (length data - fst s) + (if output_utf8_len (snd s) \<noteq> 0 then 1 else 0)"])
    fix s assume s: "?P s" "(\<lambda>(written, t). written < length data) s"
    have "ensures (write_round w data color (fst s, snd s)) (round_done data (fst s) (snd s))"
      by (rule ensures_round [OF w]) (use s in \<open>auto simp: case_prod_beta\<close>)
    then show "ensures (write_round w data color s) (\<lambda>s'. ?P s' \<and>
        2 * (length data - fst s') + (if output_utf8_len (snd s') \<noteq> 0 then 1 else 0) <
        2 * (length data - fst s) + (if output_utf8_len (snd s) \<noteq> 0 then 1 else 0))"
      unfolding prod.collapse by (rule ensures_mono) (use s in \<open>simp add: round_done_def\<close>)
  qed (use ok le in simp)
  then show ?thesis by (rule ensures_mono) auto
qed

lemma ensures_tty_write:
  assumes w: "width_ok w" and ok: "tty_ok t"
  shows "ensures (tty_write w data color t) (\<lambda>s. fst s = length data \<and> tty_ok (snd s) \<and> (data \<noteq> [] \<longrightarrow> unanchored (snd s)))"
  unfolding tty_write_def
  by (rule ensures_mono, rule ensures_write_loop [OF w]) (use ok tty_ok_unanchor in \<open>auto simp: unanchored_def\<close>)

end
