(* ===== verification/Tty_Edit.thy ===== *)
theory Tty_Edit
  imports Tty_Output Keyboard
begin

text \<open>
  The line editor of the terminal (\<^verbatim>\<open>kernel/core/tty_line_edit.c\<close>), the Hangul composition
  (\<^verbatim>\<open>kernel/core/tty_hangul.c\<close>) and the clipboard (\<^verbatim>\<open>kernel/core/clipboard.c\<close>). A text that is read
  through a pointer is its accessor, as in \<^verbatim>\<open>tty_utf8.c\<close>.
\<close>

definition LINE_SIZE :: nat where "LINE_SIZE = TTY_LINE_MAX + 1"

section \<open>The clipboard\<close>

definition KERNEL_CLIPBOARD_TEXT_MAX :: nat where "KERNEL_CLIPBOARD_TEXT_MAX = 4096"

record clipboard =
  clip_text :: "nat \<Rightarrow> u8"
  clip_size :: u32

definition kernel_clipboard_text :: "clipboard \<Rightarrow> nat \<Rightarrow> u8 option" where
  "kernel_clipboard_text clip = arr_get (KERNEL_CLIPBOARD_TEXT_MAX + 1) (clip_text clip)"

primrec set_text_loop :: "(nat \<Rightarrow> u8 option) \<Rightarrow> nat list \<Rightarrow> nat \<Rightarrow> (nat \<Rightarrow> u8) \<Rightarrow> (nat \<times> (nat \<Rightarrow> u8)) option" where
  "set_text_loop text [] copied buf = Some (copied, buf)"
| "set_text_loop text (i # is) copied buf =
     do { ch \<leftarrow> text i;
          if ch = 0 then Some (copied, buf)
          else do { buf \<leftarrow> arr_set (KERNEL_CLIPBOARD_TEXT_MAX + 1) buf i ch; set_text_loop text is (Suc i) buf } }"

definition kernel_clipboard_set_text :: "(nat \<Rightarrow> u8 option) \<Rightarrow> u32 \<Rightarrow> clipboard \<Rightarrow> clipboard option" where
  "kernel_clipboard_set_text text len clip =
     do { (copied, buf) \<leftarrow> set_text_loop text [0..<min (unat len) KERNEL_CLIPBOARD_TEXT_MAX] 0 (clip_text clip);
          buf \<leftarrow> arr_set (KERNEL_CLIPBOARD_TEXT_MAX + 1) buf copied 0;
          Some \<lparr>clip_text = buf, clip_size = of_nat copied\<rparr> }"

definition kernel_clipboard_copy_console_selection :: "u16 \<Rightarrow> console \<Rightarrow> clipboard \<Rightarrow> clipboard option" where
  "kernel_clipboard_copy_console_selection text_width c clip =
     do { (buf, needed) \<leftarrow> console_get_selection_text text_width c (clip_text clip) (of_nat (KERNEL_CLIPBOARD_TEXT_MAX + 1));
          Some \<lparr>clip_text = buf,
                clip_size = (if unat needed \<ge> KERNEL_CLIPBOARD_TEXT_MAX + 1 then of_nat KERNEL_CLIPBOARD_TEXT_MAX else needed)\<rparr> }"

definition tty_copy_selection :: "u16 \<Rightarrow> tty \<Rightarrow> clipboard \<Rightarrow> clipboard option" where
  "tty_copy_selection text_width tty = kernel_clipboard_copy_console_selection text_width (tty_console tty)"

section \<open>The prompt\<close>

definition tty_hangul_clear :: "tty \<Rightarrow> tty" where
  "tty_hangul_clear tty = tty\<lparr>hangul_initial := -1, hangul_medial := -1, hangul_final := -1, hangul_bytes := 0\<rparr>"

definition tty_hangul_commit :: "tty \<Rightarrow> tty" where
  "tty_hangul_commit tty = (tty_hangul_clear tty)\<lparr>hangul_start := input_cursor tty\<rparr>"

definition tty_prompt_render_rows :: "u16 \<Rightarrow> u16 \<Rightarrow> u16 \<Rightarrow> u16" where
  "tty_prompt_render_rows width origin_col span =
     (let cells = (ucast origin_col :: u32) + ucast span
      in if width = 0 \<or> cells = 0 then 1 else ucast ((cells - 1) div ucast width + 1))"

definition cell_offset_round :: "tty \<Rightarrow> u8 \<Rightarrow> u16 \<Rightarrow> u16 \<Rightarrow> u32 \<times> u16 \<Rightarrow> (u32 \<times> u16) option" where
  "cell_offset_round tty byte_limit width origin_col = (\<lambda>(offset, cells).
     do {
       (consumed, codepoint) \<leftarrow> tty_utf8_decode_next (arr_get LINE_SIZE (input tty)) (ucast (input_len tty)) offset 0;
       (consumed, codepoint) \<leftarrow>
         (if consumed = 0 \<or> offset + consumed > ucast byte_limit
          then do { ch \<leftarrow> arr_get LINE_SIZE (input tty) (unat offset); Some (1, ucast ch) }
          else Some (consumed, codepoint));
       let col = (if width \<noteq> 0 then ucast (((ucast origin_col :: u32) + ucast cells) mod ucast width) else 0);
       (if codepoint = 9 then Some (offset + consumed, cells + TTY_TAB_WIDTH - col mod TTY_TAB_WIDTH)
        else
          (let cell_width = tty_codepoint_width codepoint;
               cells = (if width \<noteq> 0 \<and> cell_width > 1 \<and> unat col + cell_width > unat width then cells + width - col else cells)
           in Some (offset + consumed, cells + of_nat cell_width)))
     })"

definition tty_input_cell_offset :: "tty \<Rightarrow> u8 \<Rightarrow> u16 \<Rightarrow> u16 \<Rightarrow> u16 option" where
  "tty_input_cell_offset tty byte_limit width origin_col =
     map_option snd (loop (\<lambda>(offset, cells). offset < ucast byte_limit \<and> offset < ucast (input_len tty))
       (cell_offset_round tty byte_limit width origin_col) (0, 0))"

text \<open>The rows of the old line; the loop leaves at the last row of the console.\<close>

primrec blank_rows :: "u16 \<Rightarrow> u16 \<Rightarrow> u16 \<Rightarrow> nat list \<Rightarrow> tty \<Rightarrow> tty option" where
  "blank_rows text_width origin_row origin_col [] tty = Some tty"
| "blank_rows text_width origin_row origin_col (row_offset # rest) tty =
     (let row = origin_row + of_nat row_offset; start_col = (if row_offset = 0 then unat origin_col else 0)
      in if row > bottom_row (tty_console tty) then Some tty
         else do {
           t1 \<leftarrow> for_each [start_col..<unat text_width]
                  (\<lambda>col t. tty_put_at text_width row (of_nat col) 0x20 (default_color (tty_console t)) t) tty;
           blank_rows text_width origin_row origin_col rest t1
         })"

text \<open>A round of the loop that draws the input; the flag is its \<^verbatim>\<open>break\<close>.\<close>

definition draw_round :: "u16 \<Rightarrow> u16 \<times> bool \<times> tty \<Rightarrow> (u16 \<times> bool \<times> tty) option" where
  "draw_round text_width = (\<lambda>(i, stop, tty).
     do {
       (consumed, codepoint) \<leftarrow> tty_utf8_decode_next (arr_get LINE_SIZE (input tty)) (ucast (input_len tty)) (ucast i) 0;
       if consumed = 0 then Some (i, True, tty)
       else do {
         t1 \<leftarrow> on_console (console_put_codepoint text_width codepoint (text_color tty)) tty;
         Some (ucast (ucast i + consumed), False, t1)
       }
     })"

definition prompt_anchor :: "tty \<Rightarrow> tty" where
  "prompt_anchor tty =
     (if input_origin_valid tty then tty
      else tty\<lparr>input_origin_row := console_get_cursor_row (tty_console tty),
               input_origin_col := console_get_cursor_col (tty_console tty),
               input_origin_valid := True, input_render_rows := 1\<rparr>)"

definition prompt_visible_rows :: "tty \<Rightarrow> u16 \<Rightarrow> u16 \<Rightarrow> u16" where
  "prompt_visible_rows tty height required_rows =
     (let above = input_origin_row tty - top_row (tty_console tty);
          previous_rows = (if input_render_rows tty \<noteq> 0 then input_render_rows tty else 1);
          visible_rows = (if ((ucast (input_origin_row tty) :: u32) - ucast (top_row (tty_console tty))) + ucast required_rows > ucast height
                          then height - above else required_rows)
      in if previous_rows > visible_rows then previous_rows else visible_rows)"

definition tty_render_prompt :: "u16 \<Rightarrow> tty \<Rightarrow> tty option" where
  "tty_render_prompt text_width tty =
     (let t0 = prompt_anchor tty;
          height = bottom_row (tty_console t0) - top_row (tty_console t0) + 1;
          origin_row = input_origin_row t0; origin_col = input_origin_col t0
      in if text_width = 0 \<or> height = 0 then Some t0
         else do {
           span \<leftarrow> tty_input_cell_offset t0 (input_len t0) text_width origin_col;
           let required_rows = tty_prompt_render_rows text_width origin_col span;
           t1 \<leftarrow> blank_rows text_width origin_row origin_col [0..<unat (prompt_visible_rows t0 height required_rows)] t0;
           (i, stop, t2) \<leftarrow> loop (\<lambda>(i, stop, t). \<not> stop \<and> i < ucast (input_len t)) (draw_round text_width)
              (0, False, t1\<lparr>tty_console := console_set_cursor text_width origin_row origin_col (tty_console t1)\<rparr>);
           cursor_cells \<leftarrow> tty_input_cell_offset t2 (input_cursor t2) text_width origin_col;
           let cursor_absolute = (ucast origin_col :: u32) + ucast cursor_cells;
           let cursor_row = origin_row + ucast (cursor_absolute div ucast text_width);
           let t3 = (if cursor_row > bottom_row (tty_console t2)
                     then tty_set_cursor text_width (bottom_row (tty_console t2)) (text_width - 1) t2
                     else tty_set_cursor text_width cursor_row (ucast (cursor_absolute mod ucast text_width)) t2);
           Some (t3\<lparr>input_render_rows := required_rows\<rparr>)
         })"

definition tty_emit_ctrl_c_local :: "u16 \<Rightarrow> tty \<Rightarrow> tty option" where
  "tty_emit_ctrl_c_local text_width tty =
     do {
       inp \<leftarrow> arr_set LINE_SIZE (input tty) 0 0;
       line \<leftarrow> arr_set LINE_SIZE (ready_line tty) 0 0;
       map_option snd (tty_write_str text_width [0x5e, 0x43, 0x0a] (text_color tty)
         (tty_hangul_commit (tty\<lparr>input_len := 0, input_cursor := 0, input := inp, ready_line := line, line_ready := True,
            input_origin_valid := False, history_index := -1, history_scratch_saved := False\<rparr>)))
     }"

section \<open>Editing\<close>

text \<open>\<^verbatim>\<open>a[i + delta] = a[i]\<close>\<close>

definition move_byte :: "int \<Rightarrow> nat \<Rightarrow> (nat \<Rightarrow> u8) \<Rightarrow> (nat \<Rightarrow> u8) option" where
  "move_byte delta i a = do { ch \<leftarrow> arr_get LINE_SIZE a i; arr_set LINE_SIZE a (nat (int i + delta)) ch }"

definition tty_insert_input_char :: "u8 \<Rightarrow> tty \<Rightarrow> tty option" where
  "tty_insert_input_char ch tty =
     (if ch = 0 \<or> unat (input_len tty) \<ge> TTY_LINE_MAX then Some tty
      else do {
        inp \<leftarrow> for_each (rev [unat (input_cursor tty)..<unat (input_len tty)]) (move_byte 1) (input tty);
        inp \<leftarrow> arr_set LINE_SIZE inp (unat (input_cursor tty)) ch;
        inp \<leftarrow> arr_set LINE_SIZE inp (unat (input_len tty + 1)) 0;
        Some (tty\<lparr>input := inp, input_len := input_len tty + 1, input_cursor := input_cursor tty + 1\<rparr>)
      })"

definition tty_insert_input_tab :: "u16 \<Rightarrow> tty \<Rightarrow> tty option" where
  "tty_insert_input_tab text_width tty =
     (if unat (input_len tty) \<ge> TTY_LINE_MAX then Some tty
      else do {
        let origin_col = (if input_origin_valid tty then input_origin_col tty else console_get_cursor_col (tty_console tty));
        cells \<leftarrow> tty_input_cell_offset tty (input_cursor tty) text_width origin_col;
        let cursor_col = (if text_width \<noteq> 0 then ucast (((ucast origin_col :: u32) + ucast cells) mod ucast text_width) else 0);
        for_each [0..<unat (TTY_TAB_WIDTH - cursor_col mod TTY_TAB_WIDTH)]
          (\<lambda>_ t. if unat (input_len t) < TTY_LINE_MAX then tty_insert_input_char 0x20 t else Some t) tty
      })"

partial_function (option) copy_line :: "(nat \<Rightarrow> u8 option) \<Rightarrow> nat \<Rightarrow> (nat \<Rightarrow> u8) \<Rightarrow> (nat \<times> (nat \<Rightarrow> u8)) option" where
  "copy_line text len inp =
     do { ch \<leftarrow> text len;
          if ch \<noteq> 0 \<and> len < TTY_LINE_MAX then do { inp \<leftarrow> arr_set LINE_SIZE inp len ch; copy_line text (Suc len) inp }
          else Some (len, inp) }"

definition tty_set_input_line :: "(nat \<Rightarrow> u8 option) \<Rightarrow> tty \<Rightarrow> tty option" where
  "tty_set_input_line text tty =
     do { (len, inp) \<leftarrow> copy_line text 0 (input tty);
          inp \<leftarrow> arr_set LINE_SIZE inp len 0;
          Some (tty_hangul_commit (tty\<lparr>input := inp, input_len := of_nat len, input_cursor := of_nat len\<rparr>)) }"

partial_function (option) tty_text_equal :: "(nat \<Rightarrow> u8 option) \<Rightarrow> (nat \<Rightarrow> u8 option) \<Rightarrow> nat \<Rightarrow> bool option" where
  "tty_text_equal left right i =
     do { a \<leftarrow> left i; b \<leftarrow> right i; if a \<noteq> 0 \<and> a = b then tty_text_equal left right (Suc i) else Some (a = b) }"

text \<open>\<^verbatim>\<open>for (i = 0; i <= len; i++) dst[i] = src[i]\<close>\<close>

definition copy_bytes :: "u8 \<Rightarrow> (nat \<Rightarrow> u8) \<Rightarrow> (nat \<Rightarrow> u8) \<Rightarrow> (nat \<Rightarrow> u8) option" where
  "copy_bytes len src =
     for_each [0..<unat len + 1] (\<lambda>i dst. do { ch \<leftarrow> arr_get LINE_SIZE src i; arr_set LINE_SIZE dst i ch })"

definition tty_history_store :: "tty \<Rightarrow> tty option" where
  "tty_history_store tty =
     (if input_len tty = 0 then Some tty
      else do {
        same \<leftarrow> (if history_len tty \<noteq> 0
                then do { previous \<leftarrow> arr_get TTY_HISTORY_MAX (history tty) ((unat (history_next tty) + TTY_HISTORY_MAX - 1) mod TTY_HISTORY_MAX);
                          tty_text_equal (arr_get LINE_SIZE previous) (arr_get LINE_SIZE (input tty)) 0 }
                else Some False);
        if same then Some tty
        else do {
          line \<leftarrow> arr_get TTY_HISTORY_MAX (history tty) (unat (history_next tty));
          line \<leftarrow> copy_bytes (input_len tty) (input tty) line;
          h \<leftarrow> arr_set TTY_HISTORY_MAX (history tty) (unat (history_next tty)) line;
          Some (tty\<lparr>history := h, history_next := of_nat ((unat (history_next tty) + 1) mod TTY_HISTORY_MAX),
                    history_len := (if unat (history_len tty) < TTY_HISTORY_MAX then history_len tty + 1 else history_len tty)\<rparr>)
        }
      })"

definition tty_history_load :: "u8 \<Rightarrow> tty \<Rightarrow> tty option" where
  "tty_history_load index tty =
     (if index \<ge> history_len tty then Some tty
      else do {
        line \<leftarrow> arr_get TTY_HISTORY_MAX (history tty)
                 ((unat (history_next tty) + TTY_HISTORY_MAX - unat (history_len tty) + unat index) mod TTY_HISTORY_MAX);
        tty_set_input_line (arr_get LINE_SIZE line) tty
      })"

definition tty_history_up :: "tty \<Rightarrow> tty option" where
  "tty_history_up tty =
     (if history_len tty = 0 then Some tty
      else
        (let t1 = tty_hangul_commit tty
         in if history_index t1 < 0 then do {
              scratch \<leftarrow> copy_bytes (input_len t1) (input t1) (history_scratch t1);
              let t2 = t1\<lparr>history_scratch := scratch, history_scratch_saved := True, history_index := sint (history_len t1 - 1)\<rparr>;
              tty_history_load (word_of_int (history_index t2)) t2
            }
            else if history_index t1 > 0 then
              (let t2 = t1\<lparr>history_index := history_index t1 - 1\<rparr> in tty_history_load (word_of_int (history_index t2)) t2)
            else Some t1))"

definition tty_history_down :: "tty \<Rightarrow> tty option" where
  "tty_history_down tty =
     (if history_index tty < 0 then Some tty
      else
        (let t1 = tty_hangul_commit tty
         in if word_of_int (history_index t1 + 1) < history_len t1 then
              (let t2 = t1\<lparr>history_index := history_index t1 + 1\<rparr> in tty_history_load (word_of_int (history_index t2)) t2)
            else
              (let t2 = t1\<lparr>history_index := -1\<rparr>
               in tty_set_input_line (if history_scratch_saved t2 then arr_get LINE_SIZE (history_scratch t2) else tab_get [0]) t2)))"

definition tty_delete_input_range :: "u8 \<Rightarrow> u8 \<Rightarrow> tty \<Rightarrow> tty option" where
  "tty_delete_input_range start stop tty =
     (if start \<ge> stop \<or> stop > input_len tty then Some tty
      else do {
        let removed = stop - start;
        inp \<leftarrow> for_each [unat stop..<unat (input_len tty) + 1] (move_byte (- int (unat removed))) (input tty);
        Some (tty\<lparr>input := inp, input_len := input_len tty - removed, input_cursor := start\<rparr>)
      })"

primrec paste_raw :: "(nat \<Rightarrow> u8 option) \<Rightarrow> bool \<Rightarrow> nat list \<Rightarrow> tty \<Rightarrow> tty option" where
  "paste_raw text preserve_newlines [] tty = Some tty"
| "paste_raw text preserve_newlines (i # is) tty =
     do {
       ch \<leftarrow> text i;
       if ch = 0 \<or> unat (char_count tty) \<ge> TTY_CHAR_QUEUE_SIZE then Some tty
       else if \<not> preserve_newlines \<and> ch = 0x0d then paste_raw text preserve_newlines is tty
       else paste_raw text preserve_newlines is
         (tty_queue_char (if \<not> preserve_newlines \<and> (ch = 0x0a \<or> ch = 9) then 0x20 else ch) tty)
     }"

primrec paste_line :: "(nat \<Rightarrow> u8 option) \<Rightarrow> nat list \<Rightarrow> tty \<Rightarrow> tty option" where
  "paste_line text [] tty = Some tty"
| "paste_line text (i # is) tty =
     do {
       ch \<leftarrow> text i;
       if ch = 0 \<or> unat (input_len tty) \<ge> TTY_LINE_MAX then Some tty
       else if ch = 0x0d then paste_line text is tty
       else do { t1 \<leftarrow> tty_insert_input_char (if ch = 0x0a \<or> ch = 9 then 0x20 else ch) tty; paste_line text is t1 }
     }"

definition tty_paste_text :: "u16 \<Rightarrow> (nat \<Rightarrow> u8 option) \<Rightarrow> u32 \<Rightarrow> bool \<Rightarrow> tty \<Rightarrow> tty option" where
  "tty_paste_text text_width text len preserve_newlines tty =
     (if len = 0 then Some tty
      else if raw_input tty then paste_raw text preserve_newlines [0..<unat len] tty
      else do { t1 \<leftarrow> paste_line text [0..<unat len] tty; tty_render_prompt text_width t1 })"

end
