(* ===== verification/Tty_Hangul.thy ===== *)
theory Tty_Hangul
  imports Tty_Edit
begin

text \<open>
  The composition of Hangul syllables from key events (\<^verbatim>\<open>kernel/core/tty_hangul.c\<close>). The indices of the
  initial, medial and final letter are \<^verbatim>\<open>int8_t\<close> with -1 for none.
\<close>

definition initial_jamo :: "u16 list" where
  "initial_jamo = [0x3131, 0x3132, 0x3134, 0x3137, 0x3138, 0x3139, 0x3141, 0x3142, 0x3143,
     0x3145, 0x3146, 0x3147, 0x3148, 0x3149, 0x314a, 0x314b, 0x314c, 0x314d, 0x314e]"

definition medial_jamo :: "u16 list" where
  "medial_jamo = [0x314f, 0x3150, 0x3151, 0x3152, 0x3153, 0x3154, 0x3155, 0x3156, 0x3157,
     0x3158, 0x3159, 0x315a, 0x315b, 0x315c, 0x315d, 0x315e, 0x315f, 0x3160, 0x3161, 0x3162, 0x3163]"

definition tty_hangul_codepoint :: "tty \<Rightarrow> u32 option" where
  "tty_hangul_codepoint tty =
     (if hangul_initial tty \<ge> 0 \<and> hangul_medial tty \<ge> 0 then
        (let fin = (if hangul_final tty \<ge> 0 then hangul_final tty else 0)
         in Some (0xac00 + (word_of_int (hangul_initial tty) * 21 + word_of_int (hangul_medial tty)) * 28 + word_of_int fin))
      else if hangul_initial tty \<ge> 0 then map_option ucast (tab_get initial_jamo (nat (hangul_initial tty)))
      else if hangul_medial tty \<ge> 0 then map_option ucast (tab_get medial_jamo (nat (hangul_medial tty)))
      else Some 0)"

definition tty_hangul_render_mode :: "u16 \<Rightarrow> tty \<Rightarrow> tty option" where
  "tty_hangul_render_mode text_width tty =
     (if text_width < 4 \<or> \<not> console_is_visible (tty_console tty) then Some tty
      else on_console (\<lambda>c. console_write_at text_width (top_row c) (text_width - 3)
             (if hangul_mode tty then [0x4b, 0x4f, 0x20] else [0x45, 0x4e, 0x20]) (text_color tty) c) tty)"

definition tty_replace_input_range :: "u8 \<Rightarrow> u8 \<Rightarrow> u8 list \<Rightarrow> tty \<Rightarrow> (bool \<times> tty) option" where
  "tty_replace_input_range start old_len text tty =
     (let delta = int (length text) - int (unat old_len); len = unat (input_len tty); stop = unat start + unat old_len
      in if start > input_len tty \<or> stop > len \<or> delta > 0 \<and> int len + delta > int TTY_LINE_MAX then Some (False, tty)
         else do {
           inp \<leftarrow> (if delta > 0 then for_each (rev [stop..<len + 1]) (move_byte delta) (input tty)
                  else if delta < 0 then for_each [stop..<len + 1] (move_byte delta) (input tty)
                  else Some (input tty));
           inp \<leftarrow> for_each [0..<length text]
                    (\<lambda>i a. do { ch \<leftarrow> tab_get text i; arr_set LINE_SIZE a (unat start + i) ch }) inp;
           let new_len = word_of_int (int len + delta);
           inp \<leftarrow> arr_set LINE_SIZE inp (unat new_len) 0;
           Some (True, tty\<lparr>input := inp, input_len := new_len, input_cursor := of_nat (unat start + length text)\<rparr>)
         })"

definition tty_hangul_update :: "tty \<Rightarrow> tty option" where
  "tty_hangul_update tty =
     do {
       codepoint \<leftarrow> tty_hangul_codepoint tty;
       let encoded = tty_utf8_encode codepoint;
       let t1 = (if hangul_bytes tty = 0 then tty\<lparr>hangul_start := input_cursor tty\<rparr> else tty);
       (done, t2) \<leftarrow> tty_replace_input_range (hangul_start t1) (hangul_bytes t1) encoded t1;
       Some (if done then t2\<lparr>hangul_bytes := of_nat (length encoded)\<rparr> else t2)
     }"

definition tty_hangul_combine_medial :: "int \<Rightarrow> int \<Rightarrow> int" where
  "tty_hangul_combine_medial a b =
     (if a = 8 \<and> b = 0 then 9 else if a = 8 \<and> b = 1 then 10 else if a = 8 \<and> b = 20 then 11
      else if a = 13 \<and> b = 4 then 14 else if a = 13 \<and> b = 5 then 15 else if a = 13 \<and> b = 20 then 16
      else if a = 18 \<and> b = 20 then 19 else -1)"

definition tty_hangul_split_medial :: "int \<Rightarrow> int" where
  "tty_hangul_split_medial v = (if v \<ge> 9 \<and> v \<le> 11 then 8 else if v \<ge> 14 \<and> v \<le> 16 then 13 else if v = 19 then 18 else -1)"

definition tty_hangul_final_for_initial :: "int \<Rightarrow> int" where
  "tty_hangul_final_for_initial v =
     (if v \<ge> 0 \<and> v < 19
      then [1, 2, 4, 7, -1, 8, 16, 17, -1, 19, 20, 21, 22, -1, 23, 24, 25, 26, 27] ! nat v else -1)"

definition tty_hangul_initial_for_final :: "int \<Rightarrow> int" where
  "tty_hangul_initial_for_final v =
     (if v \<ge> 0 \<and> v < 28
      then [-1, 0, 1, -1, 2, -1, -1, 3, 5, -1, -1, -1, -1, -1, -1, -1, 6, 7, -1, 9, 10, 11, 12, 14, 15, 16, 17, 18] ! nat v
      else -1)"

definition tty_hangul_combine_final :: "int \<Rightarrow> int \<Rightarrow> int" where
  "tty_hangul_combine_final a b =
     (if a = 1 \<and> b = 19 then 3 else if a = 4 \<and> b = 22 then 5 else if a = 4 \<and> b = 27 then 6
      else if a = 8 \<and> b = 1 then 9 else if a = 8 \<and> b = 16 then 10 else if a = 8 \<and> b = 17 then 11
      else if a = 8 \<and> b = 19 then 12 else if a = 8 \<and> b = 25 then 13 else if a = 8 \<and> b = 26 then 14
      else if a = 8 \<and> b = 27 then 15 else if a = 17 \<and> b = 19 then 18 else -1)"

text \<open>The return value and \<^verbatim>\<open>*second\<close>.\<close>

definition tty_hangul_split_final :: "int \<Rightarrow> int \<times> int" where
  "tty_hangul_split_final v =
     (if v = 3 then (1, 19) else if v = 5 then (4, 22) else if v = 6 then (4, 27) else if v = 9 then (8, 1)
      else if v = 10 then (8, 16) else if v = 11 then (8, 17) else if v = 12 then (8, 19) else if v = 13 then (8, 25)
      else if v = 14 then (8, 26) else if v = 15 then (8, 27) else if v = 18 then (17, 19) else (0, v))"

text \<open>The letter of a key and whether it is a vowel; \<open>None\<close> for a key without a letter.\<close>

definition tty_hangul_map_key :: "keyboard_event \<Rightarrow> (int \<times> bool) option" where
  "tty_hangul_map_key event =
     (let k = keycode event; s = shift event
      in if k = KEYBOARD_KEY_R then Some (if s then 1 else 0, False)
         else if k = KEYBOARD_KEY_S then Some (2, False)
         else if k = KEYBOARD_KEY_E then Some (if s then 4 else 3, False)
         else if k = KEYBOARD_KEY_F then Some (5, False)
         else if k = KEYBOARD_KEY_A then Some (6, False)
         else if k = KEYBOARD_KEY_Q then Some (if s then 8 else 7, False)
         else if k = KEYBOARD_KEY_T then Some (if s then 10 else 9, False)
         else if k = KEYBOARD_KEY_D then Some (11, False)
         else if k = KEYBOARD_KEY_W then Some (if s then 13 else 12, False)
         else if k = KEYBOARD_KEY_C then Some (14, False)
         else if k = KEYBOARD_KEY_Z then Some (15, False)
         else if k = KEYBOARD_KEY_X then Some (16, False)
         else if k = KEYBOARD_KEY_V then Some (17, False)
         else if k = KEYBOARD_KEY_G then Some (18, False)
         else if k = KEYBOARD_KEY_K then Some (0, True)
         else if k = KEYBOARD_KEY_O then Some (if s then 3 else 1, True)
         else if k = KEYBOARD_KEY_I then Some (2, True)
         else if k = KEYBOARD_KEY_J then Some (4, True)
         else if k = KEYBOARD_KEY_P then Some (if s then 7 else 5, True)
         else if k = KEYBOARD_KEY_U then Some (6, True)
         else if k = KEYBOARD_KEY_H then Some (8, True)
         else if k = KEYBOARD_KEY_Y then Some (12, True)
         else if k = KEYBOARD_KEY_N then Some (13, True)
         else if k = KEYBOARD_KEY_B then Some (17, True)
         else if k = KEYBOARD_KEY_M then Some (18, True)
         else if k = KEYBOARD_KEY_L then Some (20, True)
         else None)"

text \<open>
  The letters after a backspace, for a final or a medial letter; \<open>None\<close> when there is neither.
\<close>

definition hangul_drop_letter :: "tty \<Rightarrow> tty option" where
  "hangul_drop_letter tty =
     (if hangul_final tty > 0
      then (let remaining = fst (tty_hangul_split_final (hangul_final tty))
            in Some (tty\<lparr>hangul_final := (if remaining \<noteq> 0 then remaining else -1)\<rparr>))
      else if hangul_medial tty \<ge> 0 then Some (tty\<lparr>hangul_medial := tty_hangul_split_medial (hangul_medial tty)\<rparr>)
      else None)"

definition hangul_erase :: "tty \<Rightarrow> tty option" where
  "hangul_erase tty =
     do { (done, t1) \<leftarrow> tty_replace_input_range (hangul_start tty) (hangul_bytes tty) [] tty; Some (tty_hangul_clear t1) }"

definition tty_hangul_backspace :: "tty \<Rightarrow> (bool \<times> tty) option" where
  "tty_hangul_backspace tty =
     (if hangul_bytes tty = 0 \<or> unat (input_cursor tty) \<noteq> unat (hangul_start tty) + unat (hangul_bytes tty)
      then Some (False, tty)
      else map_option (Pair True)
        (case hangul_drop_letter tty of
           None \<Rightarrow> hangul_erase tty
         | Some t1 \<Rightarrow> if hangul_initial t1 < 0 \<and> hangul_medial t1 < 0 then hangul_erase t1 else tty_hangul_update t1))"

definition hangul_restart :: "tty \<Rightarrow> tty option" where
  "hangul_restart tty = map_option tty_hangul_commit (tty_hangul_update tty)"

definition hangul_vowel :: "int \<Rightarrow> tty \<Rightarrow> tty option" where
  "hangul_vowel v tty =
     (if hangul_medial tty < 0 then Some (tty\<lparr>hangul_medial := v\<rparr>)
      else if hangul_final tty > 0 then
        (let (remaining_final, moved_final) = tty_hangul_split_final (hangul_final tty);
             next_initial = tty_hangul_initial_for_final moved_final
         in do { t1 \<leftarrow> hangul_restart (tty\<lparr>hangul_final := (if remaining_final > 0 then remaining_final else -1)\<rparr>);
                 Some (t1\<lparr>hangul_initial := next_initial, hangul_medial := v\<rparr>) })
      else
        (let combined = tty_hangul_combine_medial (hangul_medial tty) v
         in if combined \<ge> 0 then Some (tty\<lparr>hangul_medial := combined\<rparr>)
            else do { t1 \<leftarrow> hangul_restart tty; Some (t1\<lparr>hangul_medial := v\<rparr>) }))"

definition hangul_consonant :: "int \<Rightarrow> tty \<Rightarrow> tty option" where
  "hangul_consonant v tty =
     (let restart = do { t1 \<leftarrow> hangul_restart tty; Some (t1\<lparr>hangul_initial := v\<rparr>) }
      in if hangul_initial tty < 0 \<and> hangul_medial tty < 0 then Some (tty\<lparr>hangul_initial := v\<rparr>)
         else if hangul_medial tty < 0 then restart
         else if hangul_initial tty < 0 then restart
         else if hangul_final tty < 0 then
           (let fin = tty_hangul_final_for_initial v in if fin > 0 then Some (tty\<lparr>hangul_final := fin\<rparr>) else restart)
         else
           (let combined = tty_hangul_combine_final (hangul_final tty) (tty_hangul_final_for_initial v)
            in if combined > 0 then Some (tty\<lparr>hangul_final := combined\<rparr>) else restart))"

definition tty_hangul_feed :: "u16 \<Rightarrow> keyboard_event \<Rightarrow> tty \<Rightarrow> (bool \<times> tty) option" where
  "tty_hangul_feed text_width event tty =
     (case tty_hangul_map_key event of
        None \<Rightarrow> Some (False, tty_hangul_commit tty)
      | Some (v, vowel) \<Rightarrow>
          (let t1 = (if unat (input_cursor tty) \<noteq> unat (hangul_start tty) + unat (hangul_bytes tty)
                     then tty_hangul_commit tty else tty)
           in do {
             t2 \<leftarrow> (if vowel then hangul_vowel v t1 else hangul_consonant v t1);
             t3 \<leftarrow> tty_hangul_update t2;
             t4 \<leftarrow> tty_render_prompt text_width t3;
             Some (True, t4)
           }))"

section \<open>Raw mode\<close>

text \<open>The syllable goes to the character queue, after a backspace that erases the last one.\<close>

definition tty_raw_hangul_update :: "tty \<Rightarrow> tty option" where
  "tty_raw_hangul_update tty =
     do {
       codepoint \<leftarrow> tty_hangul_codepoint tty;
       if codepoint = 0 then Some tty
       else
         (let encoded = tty_utf8_encode codepoint;
              needed = of_nat (length encoded + (if hangul_bytes tty \<noteq> 0 then 1 else 0))
          in if \<not> tty_can_queue_chars tty needed then Some tty
             else
               (let t1 = (if hangul_bytes tty \<noteq> 0 then tty_queue_char 8 tty else tty);
                    t2 = fold tty_queue_char encoded t1
                in Some (t2\<lparr>hangul_bytes := of_nat (length encoded)\<rparr>)))
     }"

definition tty_raw_hangul_commit :: "tty \<Rightarrow> tty" where
  "tty_raw_hangul_commit = tty_hangul_clear"

definition tty_raw_hangul_backspace :: "tty \<Rightarrow> (bool \<times> tty) option" where
  "tty_raw_hangul_backspace tty =
     (if hangul_bytes tty = 0 then Some (False, tty)
      else map_option (Pair True)
        (case hangul_drop_letter tty of
           None \<Rightarrow> Some (tty_hangul_clear (tty_queue_char 8 tty))
         | Some t1 \<Rightarrow>
             if hangul_initial t1 < 0 \<and> hangul_medial t1 < 0 then Some (tty_hangul_clear (tty_queue_char 8 t1))
             else tty_raw_hangul_update t1))"

definition raw_hangul_vowel :: "int \<Rightarrow> tty \<Rightarrow> tty option" where
  "raw_hangul_vowel v tty =
     (if hangul_medial tty < 0 then Some (tty\<lparr>hangul_medial := v\<rparr>)
      else if hangul_final tty > 0 then
        (let (remaining_final, moved_final) = tty_hangul_split_final (hangul_final tty);
             next_initial = tty_hangul_initial_for_final moved_final
         in do { t1 \<leftarrow> tty_raw_hangul_update (tty\<lparr>hangul_final := (if remaining_final > 0 then remaining_final else -1)\<rparr>);
                 Some ((tty_raw_hangul_commit t1)\<lparr>hangul_initial := next_initial, hangul_medial := v\<rparr>) })
      else
        (let combined = tty_hangul_combine_medial (hangul_medial tty) v
         in if combined \<ge> 0 then Some (tty\<lparr>hangul_medial := combined\<rparr>)
            else Some ((tty_raw_hangul_commit tty)\<lparr>hangul_medial := v\<rparr>)))"

definition raw_hangul_consonant :: "int \<Rightarrow> tty \<Rightarrow> tty" where
  "raw_hangul_consonant v tty =
     (let restart = (tty_raw_hangul_commit tty)\<lparr>hangul_initial := v\<rparr>
      in if hangul_initial tty < 0 \<and> hangul_medial tty < 0 then tty\<lparr>hangul_initial := v\<rparr>
         else if hangul_medial tty < 0 \<or> hangul_initial tty < 0 then restart
         else if hangul_final tty < 0 then
           (let fin = tty_hangul_final_for_initial v in if fin > 0 then tty\<lparr>hangul_final := fin\<rparr> else restart)
         else
           (let combined = tty_hangul_combine_final (hangul_final tty) (tty_hangul_final_for_initial v)
            in if combined > 0 then tty\<lparr>hangul_final := combined\<rparr> else restart))"

definition tty_raw_hangul_feed :: "keyboard_event \<Rightarrow> tty \<Rightarrow> (bool \<times> tty) option" where
  "tty_raw_hangul_feed event tty =
     (case tty_hangul_map_key event of
        None \<Rightarrow> Some (False, tty_raw_hangul_commit tty)
      | Some (v, vowel) \<Rightarrow>
          do {
            t1 \<leftarrow> (if vowel then raw_hangul_vowel v tty else Some (raw_hangul_consonant v tty));
            map_option (Pair True) (tty_raw_hangul_update t1)
          })"

end
