(* ===== verification/Tty_Input.thy ===== *)
theory Tty_Input
  imports Tty_Hangul
begin

text \<open>
  The terminal as its clients use it (\<^verbatim>\<open>kernel/core/tty.c\<close>), the keyboard (\<^verbatim>\<open>kernel/core/tty_input.c\<close>) and the
  virtual terminals (\<^verbatim>\<open>kernel/core/tty_virtual.c\<close>).
\<close>

definition tty_init :: "u16 \<Rightarrow> u16 \<Rightarrow> u16 \<Rightarrow> u8 \<Rightarrow> tty \<Rightarrow> tty option" where
  "tty_init text_width first_row last_row color tty =
     do {
       inp \<leftarrow> arr_set LINE_SIZE (input tty) 0 0;
       line \<leftarrow> arr_set LINE_SIZE (ready_line tty) 0 0;
       scratch \<leftarrow> arr_set LINE_SIZE (history_scratch tty) 0 0;
       on_console (\<lambda>c. console_init text_width c first_row last_row color)
         (tty_ansi_reset_output
           ((tty_hangul_clear
              (tty\<lparr>text_color := color, prompt_color := color, foreground_pid := 0, input_len := 0, input_cursor := 0,
                 input := inp, ready_line := line, line_ready := False, char_head := 0, char_tail := 0, char_count := 0,
                 raw_input := False, history_len := 0, history_next := 0, history_index := -1, history_scratch_saved := False,
                 history_scratch := scratch, input_origin_row := first_row, input_origin_col := 0, input_render_rows := 1,
                 input_origin_valid := False, prompt_cache_len := 0, hangul_mode := False\<rparr>))
            \<lparr>hangul_start := 0, output_utf8_len := 0, output_utf8_expected := 0, ansi_saved_row := first_row, ansi_saved_col := 0\<rparr>))
     }"

definition tty_set_foreground_pid :: "u32 \<Rightarrow> tty \<Rightarrow> tty" where
  "tty_set_foreground_pid pid tty = tty\<lparr>foreground_pid := pid\<rparr>"

definition tty_clear_foreground_pid :: "u32 \<Rightarrow> tty \<Rightarrow> tty" where
  "tty_clear_foreground_pid pid tty =
     (if pid = 0 then tty else if foreground_pid tty = pid then tty\<lparr>foreground_pid := 0\<rparr> else tty)"

definition tty_show_prompt :: "u16 \<Rightarrow> tty \<Rightarrow> tty option" where
  "tty_show_prompt text_width tty =
     do {
       inp \<leftarrow> arr_set LINE_SIZE (input tty) 0 0;
       tty_render_prompt text_width (tty_hangul_commit
         (tty\<lparr>input_len := 0, input_cursor := 0, input := inp,
            input_origin_row := console_get_cursor_row (tty_console tty),
            input_origin_col := console_get_cursor_col (tty_console tty),
            input_render_rows := 1, input_origin_valid := True, history_index := -1, history_scratch_saved := False\<rparr>))
     }"

definition tty_set_raw_input :: "bool \<Rightarrow> tty \<Rightarrow> tty" where
  "tty_set_raw_input enabled tty =
     (let t1 = (if raw_input tty \<noteq> enabled then tty_hangul_clear tty else tty);
          t2 = (if raw_input t1 \<and> \<not> enabled then tty_clear_char_queue t1 else t1)
      in t2\<lparr>raw_input := enabled\<rparr>)"

definition tty_has_line :: "tty \<Rightarrow> bool" where
  "tty_has_line tty = line_ready tty"

datatype read_mode = TTY_READ_LINE | TTY_READ_CHAR

partial_function (option) read_line_loop :: "(nat \<Rightarrow> u8 option) \<Rightarrow> u32 \<Rightarrow> u32 \<Rightarrow> (nat \<Rightarrow> u8) \<Rightarrow> (u32 \<times> (nat \<Rightarrow> u8)) option" where
  "read_line_loop line max_len i out =
     do { ch \<leftarrow> line (unat i);
          if ch \<noteq> 0 \<and> i + 1 < max_len then do { out \<leftarrow> arr_set (unat max_len) out (unat i) ch; read_line_loop line max_len (i + 1) out }
          else Some (i, out) }"

text \<open>The return value, the buffer \<open>out\<close> of \<open>max_len\<close> bytes, and the terminal.\<close>

definition tty_read :: "(nat \<Rightarrow> u8) \<Rightarrow> u32 \<Rightarrow> read_mode \<Rightarrow> tty \<Rightarrow> (u32 \<times> (nat \<Rightarrow> u8) \<times> tty) option" where
  "tty_read out max_len mode tty =
     (if max_len = 0 then Some (0, out, tty)
      else if mode = TTY_READ_CHAR then
        (case tty_pop_char tty of
           (None, t1) \<Rightarrow> do { out \<leftarrow> arr_set (unat max_len) out 0 0; Some (0, out, t1) }
         | (Some ch, t1) \<Rightarrow> do {
             out \<leftarrow> arr_set (unat max_len) out 0 ch;
             out \<leftarrow> (if max_len > 1 then arr_set (unat max_len) out 1 0 else Some out);
             Some (1, out, t1)
           })
      else if \<not> line_ready tty then do { out \<leftarrow> arr_set (unat max_len) out 0 0; Some (0, out, tty) }
      else do {
        ch \<leftarrow> arr_get LINE_SIZE (ready_line tty) 0;
        if ch = 0 then do { out \<leftarrow> arr_set (unat max_len) out 0 0; Some (1, out, tty\<lparr>line_ready := False\<rparr>) }
        else do {
          (i, out) \<leftarrow> read_line_loop (arr_get LINE_SIZE (ready_line tty)) max_len 0 out;
          out \<leftarrow> arr_set (unat max_len) out (unat i) 0;
          line \<leftarrow> arr_set LINE_SIZE (ready_line tty) 0 0;
          Some (i, out, tty\<lparr>ready_line := line, line_ready := False\<rparr>)
        }
      })"

section \<open>Key events\<close>

definition tty_keycode_is_modifier :: "keyboard_keycode \<Rightarrow> bool" where
  "tty_keycode_is_modifier k \<longleftrightarrow>
     k = KEYBOARD_KEY_LEFT_SHIFT \<or> k = KEYBOARD_KEY_RIGHT_SHIFT \<or> k = KEYBOARD_KEY_LEFT_CTRL \<or>
     k = KEYBOARD_KEY_RIGHT_CTRL \<or> k = KEYBOARD_KEY_LEFT_ALT"

text \<open>A key in raw mode, after the Hangul composition.\<close>

definition raw_key :: "u16 \<Rightarrow> keyboard_event \<Rightarrow> tty \<times> clipboard \<Rightarrow> (tty \<times> clipboard) option" where
  "raw_key text_width event = (\<lambda>(tty, clip).
     (let k = keycode event; queue = (\<lambda>ch. Some (tty_queue_char ch tty, clip));
          esc = (\<lambda>ch. Some (tty_queue_escape_bracket ch tty, clip))
      in if k = KEYBOARD_KEY_ESC then queue 0x1b
         else if k = KEYBOARD_KEY_TAB then queue 9
         else if k = KEYBOARD_KEY_PAGE_UP then Some (tty\<lparr>tty_console := console_scroll_page_up (tty_console tty)\<rparr>, clip)
         else if k = KEYBOARD_KEY_PAGE_DOWN then Some (tty\<lparr>tty_console := console_scroll_page_down (tty_console tty)\<rparr>, clip)
         else if k = KEYBOARD_KEY_UP then esc 0x41
         else if k = KEYBOARD_KEY_DOWN then esc 0x42
         else if k = KEYBOARD_KEY_RIGHT then esc 0x43
         else if k = KEYBOARD_KEY_LEFT then esc 0x44
         else if k = KEYBOARD_KEY_HOME then esc 0x48
         else if k = KEYBOARD_KEY_END then esc 0x46
         else if k = KEYBOARD_KEY_DELETE then Some (tty_queue_escape_bracket_tilde 0x33 tty, clip)
         else if ctrl event \<and> shift event \<and> k = KEYBOARD_KEY_C then
           do { clip \<leftarrow> tty_copy_selection text_width tty clip; Some (tty, clip) }
         else if ctrl event \<and> shift event \<and> k = KEYBOARD_KEY_V then
           do { t1 \<leftarrow> tty_paste_text text_width (kernel_clipboard_text clip) (clip_size clip) True tty; Some (t1, clip) }
         else if ctrl event \<and> k = KEYBOARD_KEY_V then queue 0x16
         else if ctrl event \<and> k = KEYBOARD_KEY_A then queue 0x01
         else if ctrl event \<and> k = KEYBOARD_KEY_E then queue 0x05
         else if ctrl event \<and> k = KEYBOARD_KEY_L then queue 0x0c
         else if ctrl event \<and> k = KEYBOARD_KEY_C then queue 0x03
         else if ctrl event \<and> k = KEYBOARD_KEY_Z then queue 0x1a
         else if k = KEYBOARD_KEY_ENTER then queue 0x0a
         else if k = KEYBOARD_KEY_BACKSPACE then queue 8
         else if ascii event = 0 then Some (tty, clip)
         else queue (ascii event)))"

definition raw_key_event :: "u16 \<Rightarrow> keyboard_event \<Rightarrow> tty \<times> clipboard \<Rightarrow> (tty \<times> clipboard) option" where
  "raw_key_event text_width event = (\<lambda>(tty, clip).
     do {
       (handled, t1) \<leftarrow> (if keycode event = KEYBOARD_KEY_BACKSPACE \<and> hangul_mode tty then tty_raw_hangul_backspace tty else Some (False, tty));
       if handled then Some (t1, clip)
       else do {
         (handled, t2) \<leftarrow> (if hangul_mode t1 \<and> \<not> ctrl event then tty_raw_hangul_feed event t1 else Some (False, t1));
         if handled then Some (t2, clip) else raw_key text_width event (tty_raw_hangul_commit t2, clip)
       }
     })"

text \<open>The screen is cleared and the prompt that was cached is written again.\<close>

definition redraw_screen :: "u16 \<Rightarrow> tty \<Rightarrow> tty option" where
  "redraw_screen text_width tty =
     do {
       prompt \<leftarrow> for_each [0..<unat (prompt_cache_len tty)]
                  (\<lambda>i bytes. do { ch \<leftarrow> arr_get TTY_PROMPT_CACHE_SIZE (prompt_cache tty) i; Some (bytes @ [ch]) }) [];
       t1 \<leftarrow> tty_clear text_width tty;
       t2 \<leftarrow> (if prompt_cache_len tty \<noteq> 0 then map_option snd (tty_write text_width prompt (text_color t1) t1) else Some t1);
       tty_render_prompt text_width t2
     }"

definition enter_line :: "u16 \<Rightarrow> tty \<Rightarrow> tty option" where
  "enter_line text_width tty =
     do {
       t1 \<leftarrow> tty_history_store (tty_hangul_commit tty);
       line \<leftarrow> copy_bytes (input_len t1) (input t1) (ready_line t1);
       t2 \<leftarrow> tty_putc text_width 0x0a (text_color t1) (t1\<lparr>ready_line := line, line_ready := True\<rparr>);
       inp \<leftarrow> arr_set LINE_SIZE (input t2) 0 0;
       Some (t2\<lparr>input_len := 0, input_cursor := 0, input := inp, input_origin_valid := False, history_index := -1,
                history_scratch_saved := False\<rparr>)
     }"

definition erase_before_cursor :: "u16 \<Rightarrow> tty \<Rightarrow> tty option" where
  "erase_before_cursor text_width tty =
     do {
       (handled, t1) \<leftarrow> tty_hangul_backspace tty;
       if handled then tty_render_prompt text_width t1
       else if input_len t1 = 0 \<or> input_cursor t1 = 0 then Some t1
       else do {
         previous \<leftarrow> tty_utf8_previous_offset (arr_get LINE_SIZE (input t1)) (input_cursor t1);
         t2 \<leftarrow> tty_delete_input_range previous (input_cursor t1) t1;
         tty_render_prompt text_width t2
       }
     }"

definition erase_at_cursor :: "u16 \<Rightarrow> tty \<Rightarrow> tty option" where
  "erase_at_cursor text_width tty =
     do {
       let t1 = tty_hangul_commit tty;
       next_offset \<leftarrow> tty_utf8_next_offset (arr_get LINE_SIZE (input t1)) (input_len t1) (input_cursor t1);
       t2 \<leftarrow> tty_delete_input_range (input_cursor t1) next_offset t1;
       tty_render_prompt text_width t2
     }"

text \<open>A character key of the line editor.\<close>

definition type_char :: "u16 \<Rightarrow> keyboard_event \<Rightarrow> tty \<Rightarrow> tty option" where
  "type_char text_width event tty =
     do {
       (handled, t1) \<leftarrow> (if hangul_mode tty \<and> \<not> ctrl event then tty_hangul_feed text_width event tty else Some (False, tty));
       if handled then Some t1
       else
         (let t2 = tty_hangul_commit t1
          in if ascii event = 0 \<or> unat (input_len t2) \<ge> TTY_LINE_MAX then Some t2
             else do {
               t3 \<leftarrow> (if ascii event = 9 then tty_insert_input_tab text_width t2 else tty_insert_input_char (ascii event) t2);
               tty_render_prompt text_width t3
             })
     }"

definition edit_key :: "u16 \<Rightarrow> keyboard_event \<Rightarrow> tty \<Rightarrow> tty option" where
  "edit_key text_width event tty =
     (let k = keycode event; t1 = tty_hangul_commit tty
      in if k = KEYBOARD_KEY_ENTER then enter_line text_width tty
         else if k = KEYBOARD_KEY_BACKSPACE then erase_before_cursor text_width tty
         else if k = KEYBOARD_KEY_UP then do { t \<leftarrow> tty_history_up tty; tty_render_prompt text_width t }
         else if k = KEYBOARD_KEY_DOWN then do { t \<leftarrow> tty_history_down tty; tty_render_prompt text_width t }
         else if k = KEYBOARD_KEY_LEFT then do {
           o1 \<leftarrow> tty_utf8_previous_offset (arr_get LINE_SIZE (input t1)) (input_cursor t1);
           tty_render_prompt text_width (t1\<lparr>input_cursor := o1\<rparr>)
         }
         else if k = KEYBOARD_KEY_RIGHT then do {
           o1 \<leftarrow> tty_utf8_next_offset (arr_get LINE_SIZE (input t1)) (input_len t1) (input_cursor t1);
           tty_render_prompt text_width (t1\<lparr>input_cursor := o1\<rparr>)
         }
         else if k = KEYBOARD_KEY_HOME then tty_render_prompt text_width (t1\<lparr>input_cursor := 0\<rparr>)
         else if k = KEYBOARD_KEY_END then tty_render_prompt text_width (t1\<lparr>input_cursor := input_len t1\<rparr>)
         else if k = KEYBOARD_KEY_PAGE_UP then Some (t1\<lparr>tty_console := console_scroll_page_up (tty_console t1)\<rparr>)
         else if k = KEYBOARD_KEY_PAGE_DOWN then Some (t1\<lparr>tty_console := console_scroll_page_down (tty_console t1)\<rparr>)
         else if k = KEYBOARD_KEY_DELETE then erase_at_cursor text_width tty
         else type_char text_width event tty)"

definition line_key_event :: "u16 \<Rightarrow> keyboard_event \<Rightarrow> tty \<times> clipboard \<Rightarrow> (tty \<times> clipboard) option" where
  "line_key_event text_width event = (\<lambda>(tty, clip).
     (let k = keycode event; t1 = (if ctrl event then tty_hangul_commit tty else tty);
          plain = (\<lambda>r. do { t \<leftarrow> r; Some (t, clip) })
      in if ctrl event \<and> shift event \<and> k = KEYBOARD_KEY_C then
           do { clip \<leftarrow> tty_copy_selection text_width t1 clip; Some (t1, clip) }
         else if ctrl event \<and> shift event \<and> k = KEYBOARD_KEY_V then
           plain (tty_paste_text text_width (kernel_clipboard_text clip) (clip_size clip) True t1)
         else if ctrl event \<and> k = KEYBOARD_KEY_V then
           plain (do { t2 \<leftarrow> tty_insert_input_tab text_width t1; tty_render_prompt text_width t2 })
         else if ctrl event \<and> k = KEYBOARD_KEY_A then plain (tty_render_prompt text_width (t1\<lparr>input_cursor := 0\<rparr>))
         else if ctrl event \<and> k = KEYBOARD_KEY_E then plain (tty_render_prompt text_width (t1\<lparr>input_cursor := input_len t1\<rparr>))
         else if ctrl event \<and> k = KEYBOARD_KEY_L then plain (redraw_screen text_width t1)
         else if ctrl event \<and> k = KEYBOARD_KEY_C then plain (tty_emit_ctrl_c_local text_width t1)
         else plain (edit_key text_width event t1)))"

text \<open>The first result says that \<^verbatim>\<open>job_tty_wake_waiting_processes\<close> is called.\<close>

definition tty_feed_key_event :: "u16 \<Rightarrow> keyboard_event \<Rightarrow> tty \<times> clipboard \<Rightarrow> (bool \<times> tty \<times> clipboard) option" where
  "tty_feed_key_event text_width event = (\<lambda>(tty, clip).
     (let k = keycode event; had_readable_input = (line_ready tty \<or> char_count tty > 0)
      in if k = KEYBOARD_KEY_NONE \<or> released event then Some (False, tty, clip)
         else if k = KEYBOARD_KEY_RIGHT_ALT \<or> k = KEYBOARD_KEY_HANGUL \<or> k = KEYBOARD_KEY_F4 \<or> ctrl event \<and> k = KEYBOARD_KEY_SPACE then
           (let t1 = tty_hangul_commit tty
            in do { t2 \<leftarrow> tty_hangul_render_mode text_width (t1\<lparr>hangul_mode := \<not> hangul_mode t1\<rparr>); Some (False, t2, clip) })
         else if tty_keycode_is_modifier k then Some (False, tty, clip)
         else do {
           (t1, clip) \<leftarrow> (if raw_input tty then raw_key_event text_width event (tty, clip) else line_key_event text_width event (tty, clip));
           Some (\<not> had_readable_input \<and> (line_ready t1 \<or> char_count t1 > 0), t1, clip)
         }))"

section \<open>Virtual terminals\<close>

definition TTY_VIRTUAL_COUNT :: nat where "TTY_VIRTUAL_COUNT = 3"

record virtual_ttys =
  virtual_tty :: "nat \<Rightarrow> tty"
  active_tty_index :: u32
  virtual_ttys_ready :: bool
  kernel_clipboard :: clipboard

definition tty_virtual_init_all :: "u16 \<Rightarrow> u16 \<Rightarrow> u16 \<Rightarrow> u8 \<Rightarrow> virtual_ttys \<Rightarrow> virtual_ttys option" where
  "tty_virtual_init_all text_width first_row last_row color s =
     do {
       ts \<leftarrow> for_each [0..<TTY_VIRTUAL_COUNT] (\<lambda>i ts. do {
               t \<leftarrow> arr_get TTY_VIRTUAL_COUNT ts i;
               t \<leftarrow> tty_init text_width first_row last_row color t;
               arr_set TTY_VIRTUAL_COUNT ts i (t\<lparr>tty_console := console_set_visible (i = 0) (tty_console t)\<rparr>) }) (virtual_tty s);
       t \<leftarrow> arr_get TTY_VIRTUAL_COUNT ts 0;
       ts \<leftarrow> arr_set TTY_VIRTUAL_COUNT ts 0 (t\<lparr>tty_console := console_set_visible True (tty_console t)\<rparr>);
       Some (s\<lparr>virtual_tty := ts, active_tty_index := 0, virtual_ttys_ready := True\<rparr>)
     }"

definition tty_switch_active :: "u32 \<Rightarrow> virtual_ttys \<Rightarrow> (bool \<times> virtual_ttys) option" where
  "tty_switch_active index s =
     (if \<not> virtual_ttys_ready s \<or> unat index \<ge> TTY_VIRTUAL_COUNT \<or> unat (active_tty_index s) \<ge> TTY_VIRTUAL_COUNT then Some (False, s)
      else do {
        ts \<leftarrow> (if index \<noteq> active_tty_index s then do {
                t \<leftarrow> arr_get TTY_VIRTUAL_COUNT (virtual_tty s) (unat (active_tty_index s));
                arr_set TTY_VIRTUAL_COUNT (virtual_tty s) (unat (active_tty_index s))
                  (t\<lparr>tty_console := console_set_visible False (tty_console t)\<rparr>) }
              else Some (virtual_tty s));
        t \<leftarrow> arr_get TTY_VIRTUAL_COUNT ts (unat index);
        ts \<leftarrow> arr_set TTY_VIRTUAL_COUNT ts (unat index) (t\<lparr>tty_console := console_set_visible True (tty_console t)\<rparr>);
        Some (True, s\<lparr>virtual_tty := ts, active_tty_index := index\<rparr>)
      })"

end
