(* ===== verification/Tty_Edit_Ok.thy ===== *)
theory Tty_Edit_Ok
  imports Tty_Ok Tty_Input
begin

text \<open>
  The line editor keeps the invariant of the terminal: every access is in bounds and every loop ends.
\<close>

lemmas tty_ok_defs = tty_ok_def edit_ok_def utf8_ok_def output_ok_def tty_queue_ok_def ttyq.ok_def

lemma tty_ok_fields [simp]:
  "tty_ok (t\<lparr>prompt_color := c\<rparr>) \<longleftrightarrow> tty_ok t" "tty_ok (t\<lparr>foreground_pid := p\<rparr>) \<longleftrightarrow> tty_ok t"
  "tty_ok (t\<lparr>line_ready := b\<rparr>) \<longleftrightarrow> tty_ok t" "tty_ok (t\<lparr>raw_input := b\<rparr>) \<longleftrightarrow> tty_ok t"
  "tty_ok (t\<lparr>history_scratch_saved := b\<rparr>) \<longleftrightarrow> tty_ok t" "tty_ok (t\<lparr>input_origin_row := r\<rparr>) \<longleftrightarrow> tty_ok t"
  "tty_ok (t\<lparr>input_origin_col := r\<rparr>) \<longleftrightarrow> tty_ok t" "tty_ok (t\<lparr>input_render_rows := r\<rparr>) \<longleftrightarrow> tty_ok t"
  "tty_ok (t\<lparr>input_origin_valid := b\<rparr>) \<longleftrightarrow> tty_ok t" "tty_ok (t\<lparr>hangul_mode := b\<rparr>) \<longleftrightarrow> tty_ok t"
  "tty_ok (t\<lparr>hangul_start := n\<rparr>) \<longleftrightarrow> tty_ok t" "tty_ok (t\<lparr>hangul_bytes := n\<rparr>) \<longleftrightarrow> tty_ok t"
  by (simp_all add: tty_ok_defs)

text \<open>The parts of the invariant that an operation of the editor changes.\<close>

lemma tty_ok_input:
  "tty_ok t \<Longrightarrow> cursor \<le> len \<Longrightarrow> inp (unat len) = 0 \<Longrightarrow> tty_ok (t\<lparr>input := inp, input_len := len, input_cursor := cursor\<rparr>)"
  by (simp add: tty_ok_defs)

lemma tty_ok_cursor: "tty_ok t \<Longrightarrow> cursor \<le> input_len t \<Longrightarrow> tty_ok (t\<lparr>input_cursor := cursor\<rparr>)"
  by (simp add: tty_ok_defs)

lemma tty_ok_hangul:
  "tty_ok t \<Longrightarrow> hangul_ok i m f \<Longrightarrow> tty_ok (t\<lparr>hangul_initial := i, hangul_medial := m, hangul_final := f\<rparr>)"
  by (simp add: tty_ok_defs)

lemma tty_ok_console: "tty_ok t \<Longrightarrow> console_ok c \<Longrightarrow> tty_ok (t\<lparr>tty_console := c\<rparr>)"
  by (simp add: tty_ok_defs)

lemma tty_ok_index:
  "tty_ok t \<Longrightarrow> -1 \<le> n \<Longrightarrow> n < int (unat (history_len t)) \<Longrightarrow> tty_ok (t\<lparr>history_index := n\<rparr>)"
  by (simp add: tty_ok_defs)

lemma tty_ok_scratch: "tty_ok t \<Longrightarrow> has_nul a \<Longrightarrow> tty_ok (t\<lparr>history_scratch := a\<rparr>)"
  and tty_ok_ready: "tty_ok t \<Longrightarrow> has_nul a \<Longrightarrow> tty_ok (t\<lparr>ready_line := a\<rparr>)"
  by (simp_all add: tty_ok_defs)

lemma tty_ok_dest:
  assumes "tty_ok t"
  shows "input_cursor t \<le> input_len t" "input t (unat (input_len t)) = 0" "has_nul (ready_line t)" "has_nul (history_scratch t)"
    "slot < TTY_HISTORY_MAX \<Longrightarrow> has_nul (history t slot)" "unat (history_len t) \<le> TTY_HISTORY_MAX"
    "unat (history_next t) < TTY_HISTORY_MAX" "-1 \<le> history_index t" "history_index t < int (unat (history_len t))"
    "hangul_ok (hangul_initial t) (hangul_medial t) (hangul_final t)" "tty_queue_ok t" "console_ok (tty_console t)"
    "keeps t t" "unat (prompt_cache_len t) \<le> TTY_PROMPT_CACHE_SIZE"
  using assms by (simp_all add: tty_ok_def edit_ok_def output_ok_def keeps_def)

lemma commit_ok [simp]: "tty_ok t \<Longrightarrow> tty_ok (tty_hangul_clear t)" "tty_ok t \<Longrightarrow> tty_ok (tty_hangul_commit t)"
proof -
  assume "tty_ok t"
  from tty_ok_hangul [OF this, of "-1" "-1" "-1"] show "tty_ok (tty_hangul_clear t)" "tty_ok (tty_hangul_commit t)"
    by (simp_all add: hangul_ok_def tty_hangul_commit_def tty_hangul_clear_def)
qed

lemma commit_fields [simp]:
  "input (tty_hangul_commit t) = input t" "input_len (tty_hangul_commit t) = input_len t"
  "input_cursor (tty_hangul_commit t) = input_cursor t" "history_len (tty_hangul_commit t) = history_len t"
  "history_index (tty_hangul_commit t) = history_index t" "history_scratch (tty_hangul_commit t) = history_scratch t"
  by (simp_all add: tty_hangul_commit_def tty_hangul_clear_def)

lemma line_index [simp]: "unat (n :: u8) < LINE_SIZE"
  using unsigned_less [of n, where ?'a = nat] by (simp add: LINE_SIZE_def TTY_LINE_MAX_def)

section \<open>The prompt\<close>

lemma ensures_decode_line:
  assumes "unat offset < unat (l :: u8)"
  shows "ensures (tty_utf8_decode_next (arr_get LINE_SIZE a) (ucast l) offset c)
    (\<lambda>r. 0 < unat (fst r) \<and> unat offset + unat (fst r) \<le> unat l)"
proof (rule ensures_mono [OF ensures_decode_next])
  have l: "unat l < LINE_SIZE" by simp
  then show "unat (ucast l :: u32) \<le> 255" by (simp only: unat_ucast_u8) (simp add: LINE_SIZE_def TTY_LINE_MAX_def)
  show "offset < ucast l" using assms by (simp add: word_less_nat_alt unat_ucast_u8)
  show "ensures (arr_get LINE_SIZE a i) (\<lambda>_. True)" if "i < unat (ucast l :: u32)" for i
    using that less_trans [OF _ l] by (simp only: unat_ucast_u8) (simp add: arr_get_def)
qed (simp add: unat_ucast_u8)

lemma ensures_cell_round:
  assumes lt: "unat offset < unat (input_len t)"
  shows "ensures (cell_offset_round t limit w col (offset, cells)) (\<lambda>s. unat offset < unat (fst s))"
proof -
  have l: "unat (input_len t) < LINE_SIZE" by simp
  have add: "unat (offset + n) = unat offset + unat n" if "unat offset + unat n \<le> unat (input_len t)" for n
    using that l unat_add_lem [of offset n] by (simp add: LINE_SIZE_def TTY_LINE_MAX_def)
  have "unat offset < LINE_SIZE" using lt l by (rule less_trans)
  then have pick: "ensures (if unat consumed = 0 \<or> offset + consumed > ucast limit
      then do { ch \<leftarrow> arr_get LINE_SIZE (input t) (unat offset); Some (1, ucast ch) } else Some (consumed, codepoint))
      (\<lambda>r. unat offset < unat (offset + fst r))"
    if "0 < unat consumed" "unat offset + unat consumed \<le> unat (input_len t)" for consumed and codepoint :: u32
    using that lt add [of 1] add [OF that(2)] by (simp add: arr_get_def)
  show ?thesis
    unfolding cell_offset_round_def split_conv Let_def unat_eq_0 [symmetric]
    by (rule ensures_bind [OF ensures_decode_line [OF lt]], simp only: case_prod_beta, rule ensures_bind [OF pick]) auto
qed

lemma ensures_cell_offset: "ensures (tty_input_cell_offset t limit w col) (\<lambda>_. True)"
proof -
  let ?b = "\<lambda>(offset, cells). offset < ucast limit \<and> offset < (ucast (input_len t) :: u32)"
  have l: "unat (input_len t) < LINE_SIZE" by simp
  have "ensures (loop ?b (cell_offset_round t limit w col) (0, 0)) (\<lambda>s. True \<and> \<not> ?b s)"
  proof (rule ensures_loop [where \<mu> = "\<lambda>s. LINE_SIZE - unat (fst s)"])
    fix s :: "u32 \<times> u16" assume "?b s"
    then have lt: "unat (fst s) < unat (input_len t)" by (simp add: case_prod_beta word_less_nat_alt unat_ucast_u8)
    have "ensures (cell_offset_round t limit w col (fst s, snd s)) (\<lambda>s'. unat (fst s) < unat (fst s'))"
      by (rule ensures_cell_round [OF lt])
    then show "ensures (cell_offset_round t limit w col s) (\<lambda>s'. True \<and> LINE_SIZE - unat (fst s') < LINE_SIZE - unat (fst s))"
      unfolding prod.collapse by (rule ensures_mono) (simp add: diff_less_mono2 less_trans [OF lt l])
  qed simp
  then show ?thesis unfolding tty_input_cell_offset_def by (intro ensures_map) (rule ensures_mono, assumption, simp)
qed

lemma ensures_blank_rows: "width_ok w \<Longrightarrow> keeps t0 t \<Longrightarrow> ensures (blank_rows w row col is t) (keeps t0)"
proof (induction "is" arbitrary: t)
  case (Cons i "is")
  have "ensures (for_each xs (\<lambda>col t. tty_put_at w row' (of_nat col) 0x20 (default_color (tty_console t)) t) t) (keeps t0)"
    for xs row' by (rule ensures_for_each, rule Cons.prems(2)) (rule ensures_tty_put_at [OF Cons.prems(1)])
  then have "ensures (for_each xs (\<lambda>col t. tty_put_at w row' (of_nat col) 0x20 (default_color (tty_console t)) t) t \<bind>
      blank_rows w row col is) (keeps t0)" for xs row'
    by (rule ensures_bind) (rule Cons.IH [OF Cons.prems(1)])
  then show ?case using Cons.prems by (simp add: Let_def)
qed simp

lemma ensures_draw:
  assumes w: "width_ok w" and k: "keeps t0 t"
  shows "ensures (loop (\<lambda>(i, stop, t). \<not> stop \<and> i < ucast (input_len t)) (draw_round w) (0, False, t)) (\<lambda>s. keeps t0 (snd (snd s)))"
proof -
  let ?b = "\<lambda>(i, stop, t). \<not> stop \<and> i < (ucast (input_len t) :: u16)"
  define \<mu> where "\<mu> = (\<lambda>s :: u16 \<times> bool \<times> tty. if fst (snd s) then 0 else Suc (LINE_SIZE - unat (fst s)))"
  have "ensures (loop ?b (draw_round w) (0, False, t)) (\<lambda>s. keeps t0 (snd (snd s)) \<and> \<not> ?b s)"
  proof (rule ensures_loop [where \<mu> = \<mu>])
    fix s assume s: "keeps t0 (snd (snd s))" "?b s"
    obtain i t1 where [simp]: "s = (i, False, t1)" using s(2) by (cases s) auto
    have l: "unat (input_len t1) < LINE_SIZE" by simp
    have u: "unat (ucast (input_len t1) :: u16) = unat (input_len t1)" "unat (ucast i :: u32) = unat i"
      using l unsigned_less [of i, where ?'a = nat] by (simp_all add: unsigned_ucast_eq take_bit_nat_eq_self LINE_SIZE_def TTY_LINE_MAX_def)
    have lt: "unat (ucast i :: u32) < unat (input_len t1)" using s(2) by (simp add: word_less_nat_alt u)
    have put: "ensures (do { t2 \<leftarrow> on_console (console_put_codepoint w cp color) t1; Some (i', False, t2) })
        (\<lambda>s'. keeps t0 (snd (snd s')) \<and> \<mu> s' < \<mu> (i, False, t1))" if "unat i < unat i'" "unat i' < LINE_SIZE" for cp color and i' :: u16
      by (rule ensures_bind, rule ensures_on_console, use s(1) in simp, rule ensures_put_codepoint [OF w], assumption)
         (use that in \<open>simp add: \<mu>_def diff_less_mono2\<close>)
    have eq: "unat (ucast ((ucast i :: u32) + n) :: u16) = unat i + unat n" if "unat i + unat n \<le> unat (input_len t1)" for n
      using that l unat_add_lem [of "ucast i :: u32" n]
      by (simp add: u unsigned_ucast_eq take_bit_nat_eq_self LINE_SIZE_def TTY_LINE_MAX_def)
    have "ensures (do { t2 \<leftarrow> on_console (console_put_codepoint w cp color) t1; Some (ucast ((ucast i :: u32) + n), False, t2) })
        (\<lambda>s'. keeps t0 (snd (snd s')) \<and> \<mu> s' < \<mu> (i, False, t1))"
      if "0 < unat n" "unat i + unat n \<le> unat (input_len t1)" for cp color n
    proof (rule put)
      have "unat i + unat n < LINE_SIZE" using that(2) l by linarith
      then show "unat (ucast ((ucast i :: u32) + n) :: u16) < LINE_SIZE" using that eq by simp
      show "unat i < unat (ucast ((ucast i :: u32) + n) :: u16)" using that eq by simp
    qed
    then show "ensures (draw_round w s) (\<lambda>s'. keeps t0 (snd (snd s')) \<and> \<mu> s' < \<mu> s)"
      unfolding draw_round_def \<open>s = _\<close> split_conv
      by (intro ensures_bind [OF ensures_decode_line [OF lt]]) (auto simp: u case_prod_beta)
  qed (use k in simp)
  then show ?thesis by (rule ensures_mono) simp
qed

lemma anchor_ok: "tty_ok t \<Longrightarrow> tty_ok (prompt_anchor t)"
  by (simp add: prompt_anchor_def)

lemma ensures_render_prompt:
  assumes w: "width_ok w" and ok: "tty_ok t"
  shows "ensures (tty_render_prompt w t) tty_ok"
proof -
  define t0 where "t0 = prompt_anchor t"
  have ok0: "tty_ok t0" unfolding t0_def by (rule anchor_ok [OF ok])
  have cursor: "keeps t0 (t1\<lparr>tty_console := console_set_cursor w r c (tty_console t1)\<rparr>)" if "keeps t0 t1" for t1 r c
    using keeps_set_cursor [OF w that] by (simp add: tty_set_cursor_def)
  have fin: "tty_ok (tty_set_cursor w r c t2)" if "keeps t0 t2" for r c t2
    by (rule keeps_tty_ok [OF keeps_set_cursor [OF w that] ok0])
  show ?thesis
    unfolding tty_render_prompt_def Let_def t0_def [symmetric]
    apply (intro ensures_if ensures_bind [OF ensures_cell_offset] ensures_bind [OF ensures_blank_rows [OF w tty_ok_dest(13) [OF ok0]]]
        ensures_bind [OF ensures_draw [OF w cursor]])
    subgoal by (simp add: ok0)
    subgoal by assumption
    subgoal by (simp add: case_prod_beta, rule ensures_bind [OF ensures_cell_offset]) (simp add: fin)
    done
qed

section \<open>Editing\<close>

lemma ensures_moves:
  assumes "\<And>i. i \<in> set is \<Longrightarrow> i < LINE_SIZE \<and> nat (int i + d) < LINE_SIZE"
  shows "ensures (for_each is (move_byte d) a) (\<lambda>_. True)"
  by (rule ensures_for_each) (use assms in \<open>auto simp: move_byte_def arr_get_def arr_set_def\<close>)

lemma move_byte_left: "i < LINE_SIZE \<Longrightarrow> move_byte (- int d) i a = Some (a(i - d := a i))"
proof -
  have "nat (int i + - int d) = i - d" by arith
  then show "i < LINE_SIZE \<Longrightarrow> ?thesis" by (simp add: move_byte_def arr_get_def arr_set_def)
qed

lemma len_step: "unat (input_len t) < TTY_LINE_MAX \<Longrightarrow> unat (input_len t + 1) = unat (input_len t) + 1"
  using unat_add_lem [of "input_len t" 1] by (simp add: TTY_LINE_MAX_def)

lemma ensures_insert_char:
  assumes ok: "tty_ok t"
  shows "ensures (tty_insert_input_char ch t) tty_ok"
proof (cases "ch = 0 \<or> unat (input_len t) \<ge> TTY_LINE_MAX")
  case False
  then have lt: "unat (input_len t) < TTY_LINE_MAX" by simp
  have c: "unat (input_cursor t) \<le> unat (input_len t)" using tty_ok_dest(1) [OF ok] by (simp add: word_le_nat_alt)
  then have c1: "unat (input_cursor t + 1) = unat (input_cursor t) + 1"
    using lt unat_add_lem [of "input_cursor t" 1] by (simp add: TTY_LINE_MAX_def)
  have le: "input_cursor t + 1 \<le> input_len t + 1" using c c1 len_step [OF lt] by (simp add: word_le_nat_alt)
  have moves: "ensures (for_each (rev [unat (input_cursor t)..<unat (input_len t)]) (move_byte 1) (input t)) (\<lambda>_. True)"
    by (rule ensures_moves) (use lt in \<open>auto simp: LINE_SIZE_def nat_add_distrib\<close>)
  have step: "tty_ok (t\<lparr>input := (a(unat (input_cursor t) := ch))(unat (input_len t + 1) := 0), input_len := input_len t + 1,
      input_cursor := input_cursor t + 1\<rparr>)" for a
    by (rule tty_ok_input [OF ok le]) simp
  show ?thesis
    unfolding tty_insert_input_char_def if_not_P [OF False]
    by (rule ensures_bind [OF moves]) (simp add: arr_set_def step)
qed (use ok in \<open>simp add: tty_insert_input_char_def\<close>)

lemma ensures_insert_tab: "tty_ok t \<Longrightarrow> ensures (tty_insert_input_tab w t) tty_ok"
  unfolding tty_insert_input_tab_def Let_def
  by (intro ensures_if ensures_bind [OF ensures_cell_offset] ensures_for_each ensures_insert_char) simp_all

lemma ensures_delete:
  assumes ok: "tty_ok t"
  shows "ensures (tty_delete_input_range a b t) tty_ok"
proof (cases "a \<ge> b \<or> b > input_len t")
  case False
  then have ab: "unat a < unat b" "unat b \<le> unat (input_len t)" by (simp_all add: word_less_nat_alt word_le_nat_alt)
  define r where "r = unat (b - a)"
  have r: "r = unat b - unat a" using ab by (simp add: r_def unat_sub word_le_nat_alt)
  define n where "n = unat (input_len t)"
  have n: "unat b \<le> n" "n < LINE_SIZE" "input t n = 0" using ab tty_ok_dest(2) [OF ok] by (simp_all add: n_def)
  have len: "unat (input_len t - (b - a)) = n - r" using ab by (simp add: n_def r r_def unat_sub word_le_nat_alt)
  have "ensures (for_each [unat b..<n] (move_byte (- int r)) (input t)) (\<lambda>x. x n = 0)"
    by (rule ensures_for_each) (use n in \<open>auto simp: move_byte_left\<close>)
  moreover have "[unat b..<n + 1] = [unat b..<n] @ [n]" using n by simp
  moreover have "ensures (for_each [n] (move_byte (- int r)) x) (\<lambda>y. y (n - r) = 0)" if "x n = 0" for x
    using that n by (simp add: move_byte_left)
  ultimately have moves: "ensures (for_each [unat b..<n + 1] (move_byte (- int r)) (input t)) (\<lambda>x. x (n - r) = 0)"
    by (simp only: for_each_append) (rule ensures_bind)
  have "a \<le> input_len t - (b - a)" using ab len by (simp add: word_le_nat_alt r n_def)
  then have step: "tty_ok (t\<lparr>input := x, input_len := input_len t - (b - a), input_cursor := a\<rparr>)" if "x (n - r) = 0" for x
    by (intro tty_ok_input [OF ok]) (simp_all add: len that)
  show ?thesis
    unfolding tty_delete_input_range_def if_not_P [OF False] Let_def r_def [symmetric] n_def [symmetric]
    by (rule ensures_bind [OF moves]) (simp add: step)
qed (use ok in \<open>simp add: tty_delete_input_range_def\<close>)

text \<open>A text that a NUL byte ends, or that fills a line.\<close>

lemma ensures_copy_line:
  assumes "\<And>i. i \<le> n \<Longrightarrow> ensures (text i) (\<lambda>_. True)" and "text n = Some 0 \<or> n = TTY_LINE_MAX" and "n \<le> TTY_LINE_MAX" and "len \<le> n"
  shows "ensures (copy_line text len inp) (\<lambda>r. fst r \<le> TTY_LINE_MAX)"
  using assms(4)
proof (induction "n - len" arbitrary: len inp)
  case 0
  then have "len = n" by simp
  moreover obtain ch where "text n = Some ch" using assms(1) [of n] by (auto simp: ensures_def)
  ultimately show ?case using assms(2,3) by (subst copy_line.simps) auto
next
  case (Suc k)
  obtain ch where ch: "text len = Some ch" using assms(1) [of len] Suc by (auto simp: ensures_def)
  have lt: "len < TTY_LINE_MAX" using Suc assms(3) by simp
  then have "ensures (copy_line text (Suc len) (inp(len := ch))) (\<lambda>r. fst r \<le> TTY_LINE_MAX)" using Suc by simp
  then show ?case using ch lt by (subst copy_line.simps) (simp add: arr_set_def LINE_SIZE_def)
qed

lemma ensures_set_line:
  assumes ok: "tty_ok t" and "ensures (copy_line text 0 (input t)) (\<lambda>r. fst r \<le> TTY_LINE_MAX)"
  shows "ensures (tty_set_input_line text t) tty_ok"
  unfolding tty_set_input_line_def
proof (rule ensures_bind [OF assms(2)])
  fix r :: "nat \<times> (nat \<Rightarrow> u8)" assume r: "fst r \<le> TTY_LINE_MAX"
  have "tty_ok (t\<lparr>input := x(fst r := 0), input_len := of_nat (fst r), input_cursor := of_nat (fst r)\<rparr>)" for x
    by (rule tty_ok_input [OF ok]) (use r in \<open>simp_all add: unat_of_nat_u8 TTY_LINE_MAX_def\<close>)
  then show "ensures (case r of (len, inp) \<Rightarrow> do { inp \<leftarrow> arr_set LINE_SIZE inp len 0;
      Some (tty_hangul_commit (t\<lparr>input := inp, input_len := of_nat len, input_cursor := of_nat len\<rparr>)) }) tty_ok"
    using r by (simp add: case_prod_beta arr_set_def LINE_SIZE_def)
qed

lemma ensures_set_line_array: "tty_ok t \<Longrightarrow> ensures (tty_set_input_line (arr_get LINE_SIZE a) t) tty_ok"
  by (rule ensures_set_line, assumption, rule ensures_copy_line [where n = TTY_LINE_MAX]) (auto simp: arr_get_def LINE_SIZE_def)

lemma ensures_set_line_empty: "tty_ok t \<Longrightarrow> ensures (tty_set_input_line (tab_get [0]) t) tty_ok"
  by (rule ensures_set_line, assumption, rule ensures_copy_line [where n = 0]) (auto simp: tab_get_def)

section \<open>History\<close>

lemma ensures_text_equal:
  assumes "a n = 0" and "n < LINE_SIZE" and "i \<le> n"
  shows "ensures (tty_text_equal (arr_get LINE_SIZE a) (arr_get LINE_SIZE b) i) (\<lambda>_. True)"
  using assms(3)
proof (induction "n - i" arbitrary: i)
  case 0
  then show ?case using assms by (subst tty_text_equal.simps) (simp add: arr_get_def)
next
  case (Suc k)
  then have "ensures (tty_text_equal (arr_get LINE_SIZE a) (arr_get LINE_SIZE b) (Suc i)) (\<lambda>_. True)" by simp
  then show ?case using assms Suc by (subst tty_text_equal.simps) (simp add: arr_get_def)
qed

lemma ensures_compare: "has_nul a \<Longrightarrow> ensures (tty_text_equal (arr_get LINE_SIZE a) (arr_get LINE_SIZE b) 0) (\<lambda>_. True)"
proof -
  assume "has_nul a"
  then obtain n where "a n = 0" "n < LINE_SIZE" by (auto simp: has_nul_def LINE_SIZE_def)
  then show ?thesis by (rule ensures_text_equal) simp
qed

lemma ensures_copy_bytes:
  assumes "src (unat len) = 0"
  shows "ensures (copy_bytes len src dst) has_nul"
proof -
  have "ensures (for_each [0..<unat len] (\<lambda>i dst. do { ch \<leftarrow> arr_get LINE_SIZE src i; arr_set LINE_SIZE dst i ch }) dst) (\<lambda>_. True)"
    by (rule ensures_for_each) (auto simp: arr_get_def arr_set_def dest: less_trans [OF _ line_index])
  moreover have "ensures (for_each [unat len] (\<lambda>i dst. do { ch \<leftarrow> arr_get LINE_SIZE src i; arr_set LINE_SIZE dst i ch }) d) has_nul" for d
    using assms line_index [of len] by (auto simp: arr_get_def arr_set_def has_nul_def LINE_SIZE_def intro!: bexI [of _ "unat len"])
  ultimately show ?thesis
    unfolding copy_bytes_def by (simp only: upt_Suc Suc_eq_plus1 [symmetric] le0 if_True for_each_append) (rule ensures_bind)
qed

lemma tty_ok_history:
  assumes "tty_ok t" and "has_nul line" and "n < TTY_HISTORY_MAX" and "unat len \<le> TTY_HISTORY_MAX" and "history_len t \<le> len"
  shows "tty_ok (t\<lparr>history := (history t)(slot := line), history_next := of_nat n, history_len := len\<rparr>)"
proof -
  have "int (unat (history_len t)) \<le> int (unat len)" using assms(5) by (simp only: word_le_nat_alt of_nat_le_iff)
  then have "history_index t < int (unat len)" using tty_ok_dest(9) [OF assms(1)] by linarith
  moreover have "unat (of_nat n :: u8) = n" using assms(3) by (simp add: unat_of_nat_u8 TTY_HISTORY_MAX_def)
  ultimately show ?thesis
    using assms by (simp add: tty_ok_defs)
qed

lemma ensures_history_store:
  assumes ok: "tty_ok t"
  shows "ensures (tty_history_store t) (\<lambda>t'. tty_ok t' \<and> input t' = input t \<and> input_len t' = input_len t)"
proof -
  let ?Q = "\<lambda>t'. tty_ok t' \<and> input t' = input t \<and> input_len t' = input_len t"
  have bound: "k mod TTY_HISTORY_MAX < TTY_HISTORY_MAX" for k by (simp add: TTY_HISTORY_MAX_def)
  define len where "len = (if unat (history_len t) < TTY_HISTORY_MAX then history_len t + 1 else history_len t)"
  have "unat (history_len t + 1) = unat (history_len t) + 1" if "unat (history_len t) < TTY_HISTORY_MAX"
    using that unat_add_lem [of "history_len t" 1] by (simp add: TTY_HISTORY_MAX_def)
  then have len: "unat len \<le> TTY_HISTORY_MAX" "history_len t \<le> len"
    using tty_ok_dest(6) [OF ok] by (auto simp: len_def word_le_nat_alt)
  have same: "ensures (if history_len t \<noteq> 0
      then do { previous \<leftarrow> arr_get TTY_HISTORY_MAX (history t) ((unat (history_next t) + TTY_HISTORY_MAX - 1) mod TTY_HISTORY_MAX);
                tty_text_equal (arr_get LINE_SIZE previous) (arr_get LINE_SIZE (input t)) 0 }
      else Some False) (\<lambda>_. True)"
    by (simp add: arr_get_def [of TTY_HISTORY_MAX] bound ensures_compare tty_ok_dest(5) [OF ok])
  have store: "ensures (do {
      line \<leftarrow> arr_get TTY_HISTORY_MAX (history t) (unat (history_next t));
      line \<leftarrow> copy_bytes (input_len t) (input t) line;
      h \<leftarrow> arr_set TTY_HISTORY_MAX (history t) (unat (history_next t)) line;
      Some (t\<lparr>history := h, history_next := of_nat ((unat (history_next t) + 1) mod TTY_HISTORY_MAX), history_len := len\<rparr>) }) ?Q"
    by (rule ensures_bind [OF ensures_get [where P = "\<lambda>_. True"]], rule tty_ok_dest(7) [OF ok], simp,
        rule ensures_bind [OF ensures_copy_bytes], rule tty_ok_dest(2) [OF ok])
       (simp add: arr_set_def tty_ok_dest(7) [OF ok] tty_ok_history [OF ok _ bound len])
  show ?thesis
    unfolding tty_history_store_def len_def [symmetric]
    by (intro ensures_if ensures_bind [OF same] store) (simp_all add: ok)
qed

lemma ensures_history_load: "tty_ok t \<Longrightarrow> ensures (tty_history_load n t) tty_ok"
  unfolding tty_history_load_def
  by (intro ensures_if ensures_bind [OF ensures_get [where P = "\<lambda>_. True"]] ensures_set_line_array)
     (simp_all add: TTY_HISTORY_MAX_def)

lemma sint_small: "unat (x :: u8) < 128 \<Longrightarrow> sint x = int (unat x)"
proof -
  assume "unat x < 128"
  then have "int (unat x) < 128" "- 128 \<le> int (unat x)" by arith+
  then show ?thesis unfolding sint_uint uint_nat by (intro signed_take_bit_int_eq_self) simp_all
qed

lemma ensures_history_up:
  assumes ok: "tty_ok t"
  shows "ensures (tty_history_up t) tty_ok"
proof (cases "history_len t = 0")
  case False
  define t1 where "t1 = tty_hangul_commit t"
  have ok1: "tty_ok t1" by (simp add: t1_def ok)
  have h: "history_len t1 \<noteq> 0" "unat (history_len t1) \<le> 8" using False tty_ok_dest(6) [OF ok] by (simp_all add: t1_def TTY_HISTORY_MAX_def)
  then have "unat (history_len t1 - 1) = unat (history_len t1) - 1" "0 < unat (history_len t1)"
    by (simp_all add: unat_minus_one unat_gt_0)
  moreover from this have "sint (history_len t1 - 1) = int (unat (history_len t1 - 1))"
    using h by (intro sint_small) arith
  ultimately have s: "-1 \<le> sint (history_len t1 - 1)" "sint (history_len t1 - 1) < int (unat (history_len t1))" by arith+
  have saved: "tty_ok (t1\<lparr>history_scratch := a, history_scratch_saved := True, history_index := sint (history_len t1 - 1)\<rparr>)"
    if "has_nul a" for a
    by (rule tty_ok_index) (use ok1 that s in \<open>simp_all add: tty_ok_scratch\<close>)
  have prev: "tty_ok (t1\<lparr>history_index := history_index t1 - 1\<rparr>)" if "history_index t1 > 0"
    by (rule tty_ok_index [OF ok1]) (use that tty_ok_dest(9) [OF ok1] in linarith)+
  show ?thesis
    unfolding tty_history_up_def if_not_P [OF False] Let_def t1_def [symmetric]
    by (intro ensures_if ensures_bind [OF ensures_copy_bytes] ensures_history_load saved prev)
       (simp_all add: ok1 tty_ok_dest(2) [OF ok1])
qed (use ok in \<open>simp add: tty_history_up_def\<close>)

lemma ensures_history_down:
  assumes ok: "tty_ok t"
  shows "ensures (tty_history_down t) tty_ok"
proof (cases "history_index t < 0")
  case False
  define t1 where "t1 = tty_hangul_commit t"
  have ok1: "tty_ok t1" by (simp add: t1_def ok)
  have "history_index t < 8" using tty_ok_dest(6,9) [OF ok] unfolding TTY_HISTORY_MAX_def by arith
  then have i: "0 \<le> history_index t1" "history_index t1 < 8" using False by (simp_all add: t1_def)
  have next_ok: "tty_ok (t1\<lparr>history_index := history_index t1 + 1\<rparr>)" if "word_of_int (history_index t1 + 1) < history_len t1"
  proof (rule tty_ok_index [OF ok1])
    have "uint (word_of_int (history_index t1 + 1) :: u8) = history_index t1 + 1"
      unfolding uint_word_of_int using i by simp
    then show "history_index t1 + 1 < int (unat (history_len t1))" using that by (simp add: word_less_def)
  qed (use i in simp)
  have "tty_ok (t1\<lparr>history_index := -1\<rparr>)" by (rule tty_ok_index [OF ok1]) arith+
  then show ?thesis
    unfolding tty_history_down_def if_not_P [OF False] Let_def t1_def [symmetric]
    by (simp add: ensures_history_load next_ok ensures_set_line_array ensures_set_line_empty)
qed (use ok in \<open>simp add: tty_history_down_def\<close>)

end
