(* ===== verification/Tty_Hangul_Ok.thy ===== *)
theory Tty_Hangul_Ok
  imports Tty_Edit_Ok
begin

text \<open>
  The character queue, the clipboard and the Hangul composition keep the invariant of the terminal.
\<close>

section \<open>The character queue\<close>

lemma tty_ok_queue:
  assumes "tty_ok t" and "tty_queue_ok (t\<lparr>char_queue := q, char_head := h, char_tail := l, char_count := n\<rparr>)"
  shows "tty_ok (t\<lparr>char_queue := q, char_head := h, char_tail := l, char_count := n\<rparr>)"
  using assms by (simp add: tty_ok_def edit_ok_def utf8_ok_def output_ok_def)

lemma queue_char_ok [simp]: "tty_ok t \<Longrightarrow> tty_ok (tty_queue_char ch t)"
proof -
  assume ok: "tty_ok t"
  have "\<exists>q h l n. tty_queue_char ch t = t\<lparr>char_queue := q, char_head := h, char_tail := l, char_count := n\<rparr>"
    by (rule exI [of _ "char_queue (tty_queue_char ch t)"], rule exI [of _ "char_head (tty_queue_char ch t)"],
        rule exI [of _ "char_tail (tty_queue_char ch t)"], rule exI [of _ "char_count (tty_queue_char ch t)"])
       (simp add: tty_queue_char_def)
  moreover have "tty_queue_ok (tty_queue_char ch t)" using tty_queue_char_fifo [OF tty_ok_dest(11) [OF ok]] by simp
  ultimately show ?thesis using tty_ok_queue [OF ok] by metis
qed

lemma queue_escape_ok [simp]:
  "tty_ok t \<Longrightarrow> tty_ok (tty_queue_escape_bracket ch t)" "tty_ok t \<Longrightarrow> tty_ok (tty_queue_escape_bracket_tilde ch t)"
  by (simp_all add: tty_queue_escape_bracket_def tty_queue_escape_bracket_tilde_def)

lemma pop_char_ok: "tty_ok t \<Longrightarrow> tty_ok (snd (tty_pop_char t))"
proof -
  assume ok: "tty_ok t"
  have "\<exists>q h l n. snd (tty_pop_char t) = t\<lparr>char_queue := q, char_head := h, char_tail := l, char_count := n\<rparr>"
    by (rule exI [of _ "char_queue (snd (tty_pop_char t))"], rule exI [of _ "char_head (snd (tty_pop_char t))"],
        rule exI [of _ "char_tail (snd (tty_pop_char t))"], rule exI [of _ "char_count (snd (tty_pop_char t))"])
       (simp add: tty_pop_char_def)
  moreover have "tty_queue_ok (snd (tty_pop_char t))" using tty_pop_char_fifo [OF tty_ok_dest(11) [OF ok]] by simp
  ultimately show ?thesis using tty_ok_queue [OF ok] by metis
qed

lemma clear_queue_ok: "tty_ok t \<Longrightarrow> tty_ok (tty_clear_char_queue t)"
  using tty_ok_queue [of t 0 0 0 "char_queue t"] tty_clear_char_queue_empty [of t] by (simp add: tty_clear_char_queue_def)

section \<open>The clipboard\<close>

definition clip_ok :: "clipboard \<Rightarrow> bool" where
  "clip_ok clip \<longleftrightarrow> unat (clip_size clip) \<le> KERNEL_CLIPBOARD_TEXT_MAX"

lemma ensures_copy_selection: "width_ok w \<Longrightarrow> tty_ok t \<Longrightarrow> ensures (tty_copy_selection w t clip) clip_ok"
  unfolding tty_copy_selection_def kernel_clipboard_copy_console_selection_def
  by (rule ensures_bind, rule ensures_selection_text, assumption, rule tty_ok_dest(12), assumption)
     (auto simp: clip_ok_def KERNEL_CLIPBOARD_TEXT_MAX_def)

lemma ensures_set_text_loop:
  assumes "\<And>i. i < n \<Longrightarrow> ensures (text i) (\<lambda>_. True)" and "n \<le> KERNEL_CLIPBOARD_TEXT_MAX" and "k \<le> n"
  shows "ensures (set_text_loop text [k..<n] k buf) (\<lambda>r. fst r \<le> n)"
  using assms(3)
proof (induction "n - k" arbitrary: k buf)
  case (Suc m)
  then have k: "k < n" "[k..<n] = k # [Suc k..<n]" by (simp_all add: upt_conv_Cons)
  obtain ch where "text k = Some ch" using assms(1) [OF k(1)] by (auto simp: ensures_def)
  moreover have "ensures (set_text_loop text [Suc k..<n] (Suc k) (buf(k := ch))) (\<lambda>r. fst r \<le> n)" using Suc by simp
  ultimately show ?case using k(1) assms(2) unfolding k(2) by (simp add: arr_set_def)
qed simp

lemma ensures_set_text:
  assumes "\<And>i. i < unat len \<Longrightarrow> ensures (text i) (\<lambda>_. True)"
  shows "ensures (kernel_clipboard_set_text text len clip) clip_ok"
proof -
  let ?n = "min (unat len) KERNEL_CLIPBOARD_TEXT_MAX"
  have copied: "ensures (set_text_loop text [0..<?n] 0 (clip_text clip)) (\<lambda>r. fst r \<le> ?n)"
    by (rule ensures_set_text_loop) (use assms in simp_all)
  show ?thesis
    unfolding kernel_clipboard_set_text_def
    by (rule ensures_bind [OF copied])
       (auto simp: case_prod_beta arr_set_def clip_ok_def KERNEL_CLIPBOARD_TEXT_MAX_def unat_of_nat)
qed

lemma ensures_paste_raw:
  assumes "\<And>i. i \<in> set is \<Longrightarrow> ensures (text i) (\<lambda>_. True)" and "tty_ok t"
  shows "ensures (paste_raw text b is t) tty_ok"
  using assms
proof (induction "is" arbitrary: t)
  case (Cons i "is")
  have "ensures (text i) (\<lambda>_. True)" using Cons.prems(1) by simp
  then show ?case unfolding paste_raw.simps by (rule ensures_bind) (use Cons in \<open>auto intro!: ensures_if\<close>)
qed simp

lemma ensures_paste_line:
  assumes "\<And>i. i \<in> set is \<Longrightarrow> ensures (text i) (\<lambda>_. True)" and "tty_ok t"
  shows "ensures (paste_line text is t) tty_ok"
  using assms
proof (induction "is" arbitrary: t)
  case (Cons i "is")
  have rest: "ensures (paste_line text is t1) tty_ok" if "tty_ok t1" for t1 using Cons that by simp
  have "ensures (text i) (\<lambda>_. True)" using Cons.prems(1) by simp
  then show ?case
    unfolding paste_line.simps
    by (rule ensures_bind) (intro ensures_if rest ensures_bind [OF ensures_insert_char] Cons.prems(2), simp_all add: Cons.prems)
qed simp

lemma ensures_paste:
  assumes w: "width_ok w" and ok: "tty_ok t" and tx: "\<And>i. i < unat len \<Longrightarrow> ensures (text i) (\<lambda>_. True)"
  shows "ensures (tty_paste_text w text len b t) tty_ok"
  unfolding tty_paste_text_def
  by (intro ensures_if ensures_paste_raw ensures_bind [OF ensures_paste_line] ensures_render_prompt [OF w]) (use ok tx in simp_all)

section \<open>Hangul composition\<close>

lemma ensures_codepoint:
  assumes ok: "tty_ok t"
  shows "ensures (tty_hangul_codepoint t) (\<lambda>_. True)"
proof -
  have h: "hangul_ok (hangul_initial t) (hangul_medial t) (hangul_final t)" by (rule tty_ok_dest(10) [OF ok])
  have "length initial_jamo = 19" "length medial_jamo = 21" by (simp_all add: initial_jamo_def medial_jamo_def)
  then show ?thesis
    unfolding tty_hangul_codepoint_def Let_def
    by (intro ensures_if ensures_map) (use h in \<open>auto simp: tab_get_def hangul_ok_def\<close>)
qed

lemma encode_length: "length (tty_utf8_encode cp) \<le> 3"
  by (simp add: tty_utf8_encode_def)

lemma ensures_replace:
  assumes ok: "tty_ok t"
  shows "ensures (tty_replace_input_range start old text t) (\<lambda>r. tty_ok (snd r))"
proof -
  define d where "d = int (length text) - int (unat old)"
  define len where "len = unat (input_len t)"
  define stop where "stop = unat start + unat old"
  have len: "len < LINE_SIZE" by (simp add: len_def)
  show ?thesis
  proof (cases "start > input_len t \<or> stop > len \<or> d > 0 \<and> int len + d > int TTY_LINE_MAX")
    case False
    then have bounds: "stop \<le> len" "int len + d \<le> int TTY_LINE_MAX"
      using len by (auto simp: LINE_SIZE_def not_less)
    then have pos: "unat start + length text = nat (int stop + d)" "0 \<le> int stop + d" "int stop + d \<le> int len + d"
      unfolding d_def stop_def by arith+
    obtain n where n: "int len + d = int n" using pos by (metis nonneg_int_cases order_trans)
    then have new: "unat (word_of_int (int len + d) :: u8) = nat (int len + d)"
      using bounds by (simp add: unat_of_nat_u8 TTY_LINE_MAX_def)
    have move: "ensures (for_each is (move_byte d) (input t)) (\<lambda>_. True)" if "set is = {stop..<len + 1}" for "is"
      by (rule ensures_moves) (use that len bounds in \<open>auto simp: LINE_SIZE_def nat_less_iff\<close>)
    have fill: "ensures (for_each [0..<length text] (\<lambda>i a. do { ch \<leftarrow> tab_get text i; arr_set LINE_SIZE a (unat start + i) ch }) a) (\<lambda>_. True)" for a
      by (rule ensures_for_each) (use pos bounds in \<open>auto simp: tab_get_def arr_set_def LINE_SIZE_def\<close>)
    have le: "unat start + length text \<le> nat (int len + d)" "nat (int len + d) < 256"
      using pos bounds by (simp_all add: TTY_LINE_MAX_def)
    have result: "tty_ok (t\<lparr>input := a(unat (word_of_int (int len + d) :: u8) := 0), input_len := word_of_int (int len + d),
        input_cursor := of_nat (unat start + length text)\<rparr>)" for a
      by (rule tty_ok_input [OF ok]) (use le in \<open>simp_all only: word_le_nat_alt new unat_of_nat_u8 fun_upd_same\<close>)
    show ?thesis
      unfolding tty_replace_input_range_def Let_def d_def [symmetric] len_def [symmetric] stop_def [symmetric] if_not_P [OF False]
      by (rule ensures_bind [where Q = "\<lambda>_. True"], intro ensures_if move, simp_all only: set_rev set_upt ensures_Some)
         (rule ensures_bind [OF fill], simp only: arr_set_def line_index if_True bind.simps ensures_Some snd_conv, rule result)
  qed (simp add: tty_replace_input_range_def Let_def d_def len_def stop_def ok)
qed

text \<open>The three letters as one part of the state.\<close>

definition letters :: "tty \<Rightarrow> int \<times> int \<times> int" where
  "letters t = (hangul_initial t, hangul_medial t, hangul_final t)"

lemma ensures_update: "tty_ok t \<Longrightarrow> ensures (tty_hangul_update t) tty_ok"
proof -
  assume ok: "tty_ok t"
  have "tty_ok (if hangul_bytes t = 0 then t\<lparr>hangul_start := input_cursor t\<rparr> else t)" by (simp add: ok)
  then show ?thesis
    unfolding tty_hangul_update_def Let_def
    by (intro ensures_bind [OF ensures_codepoint [OF ok]] ensures_bind [OF ensures_replace]) auto
qed

lemma ensures_restart: "tty_ok t \<Longrightarrow> ensures (hangul_restart t) (\<lambda>t'. tty_ok t' \<and> letters t' = (-1, -1, -1))"
  unfolding hangul_restart_def
  by (rule ensures_map, rule ensures_mono, rule ensures_update)
     (auto simp: letters_def tty_hangul_commit_def tty_hangul_clear_def dest: commit_ok)

lemma tty_ok_letters:
  assumes "tty_ok t" and "hangul_ok i m f"
  shows "letters t = (i0, m, f) \<Longrightarrow> tty_ok (t\<lparr>hangul_initial := i\<rparr>)"
    and "letters t = (i, m0, f) \<Longrightarrow> tty_ok (t\<lparr>hangul_medial := m\<rparr>)"
    and "letters t = (i, m, f0) \<Longrightarrow> tty_ok (t\<lparr>hangul_final := f\<rparr>)"
    and "letters t = (i0, m0, f) \<Longrightarrow> tty_ok (t\<lparr>hangul_initial := i, hangul_medial := m\<rparr>)"
  using assms by (simp_all add: letters_def tty_ok_defs)

lemma final_cases: "1 \<le> (f :: int) \<Longrightarrow> f \<le> 27 \<Longrightarrow> f \<in> {1, 2, 3, 4, 5, 6, 7, 8, 9, 10, 11, 12, 13, 14, 15, 16, 17, 18, 19, 20, 21, 22, 23, 24, 25, 26, 27}"
  by simp arith

text \<open>A final letter splits into a final letter or none, and a letter that is also an initial one.\<close>

lemma split_final:
  assumes "1 \<le> f" and "f \<le> 27"
  shows "0 \<le> fst (tty_hangul_split_final f)" "fst (tty_hangul_split_final f) \<le> 27"
    "0 \<le> tty_hangul_initial_for_final (snd (tty_hangul_split_final f))"
    "tty_hangul_initial_for_final (snd (tty_hangul_split_final f)) \<le> 18"
  using final_cases [OF assms] by (auto simp: tty_hangul_split_final_def tty_hangul_initial_for_final_def)

lemma final_for_initial_le: "tty_hangul_final_for_initial v \<le> 27"
proof (cases "v \<ge> 0 \<and> v < 19")
  case True
  then have "v \<in> {0, 1, 2, 3, 4, 5, 6, 7, 8, 9, 10, 11, 12, 13, 14, 15, 16, 17, 18}" by simp arith
  then show ?thesis by (auto simp: tty_hangul_final_for_initial_def)
qed (auto simp: tty_hangul_final_for_initial_def)

lemma combine_le: "tty_hangul_combine_medial a b \<le> 20" "tty_hangul_combine_final a b \<le> 27" "tty_hangul_split_medial a \<le> 20" "-1 \<le> tty_hangul_split_medial a"
  by (simp_all add: tty_hangul_combine_medial_def tty_hangul_combine_final_def tty_hangul_split_medial_def)

lemma map_key_range:
  "tty_hangul_map_key event = Some (v, vowel) \<Longrightarrow> 0 \<le> v \<and> v \<le> (if vowel then 20 else 18)"
  by (simp add: tty_hangul_map_key_def Let_def split: if_splits)

lemma hangul_okD: "tty_ok t \<Longrightarrow> letters t = (i, m, f) \<Longrightarrow> hangul_ok i m f"
  using tty_ok_dest(10) [of t] by (simp add: letters_def)

lemma ensures_vowel:
  assumes ok: "tty_ok t" and v: "0 \<le> v" "v \<le> 20"
  shows "ensures (hangul_vowel v t) tty_ok"
proof -
  obtain i m f where l: "letters t = (i, m, f)" by (cases "letters t")
  then have eq: "hangul_initial t = i" "hangul_medial t = m" "hangul_final t = f" by (simp_all add: letters_def)
  have h: "hangul_ok i m f" by (rule hangul_okD [OF ok l])
  obtain r mv where split: "tty_hangul_split_final f = (r, mv)" by (cases "tty_hangul_split_final f")
  have medial: "tty_ok (t\<lparr>hangul_medial := m'\<rparr>)" if "0 \<le> m'" "m' \<le> 20" for m'
    by (rule tty_ok_letters(2) [OF ok _ l]) (use h that in \<open>auto simp: hangul_ok_def\<close>)
  have moved: "ensures (do { t1 \<leftarrow> hangul_restart (t\<lparr>hangul_final := (if r > 0 then r else -1)\<rparr>);
      Some (t1\<lparr>hangul_initial := tty_hangul_initial_for_final mv, hangul_medial := v\<rparr>) }) tty_ok" if "f > 0"
  proof (rule ensures_bind [OF ensures_restart])
    have f: "1 \<le> f" "f \<le> 27" "0 \<le> i" "0 \<le> m" using h that by (auto simp: hangul_ok_def)
    note sp = split_final [OF f(1,2), unfolded split fst_conv snd_conv]
    show "tty_ok (t\<lparr>hangul_final := (if r > 0 then r else -1)\<rparr>)"
      by (rule tty_ok_letters(3) [OF ok _ l]) (use h f sp in \<open>auto simp: hangul_ok_def\<close>)
    show "ensures (Some (t1\<lparr>hangul_initial := tty_hangul_initial_for_final mv, hangul_medial := v\<rparr>)) tty_ok"
      if "tty_ok t1 \<and> letters t1 = (-1, -1, -1)" for t1
      using that sp v by (simp, intro tty_ok_letters(4) [of t1 _ _ "-1" "-1" "-1"]) (simp_all add: hangul_ok_def)
  qed
  have again: "ensures (do { t1 \<leftarrow> hangul_restart t; Some (t1\<lparr>hangul_medial := v\<rparr>) }) tty_ok"
    by (rule ensures_bind [OF ensures_restart [OF ok]]) (use v in \<open>auto intro!: tty_ok_letters(2) simp: hangul_ok_def\<close>)
  show ?thesis
    unfolding hangul_vowel_def Let_def eq split split_conv
    by (intro ensures_if moved again) (simp_all add: medial v combine_le)
qed

lemma ensures_consonant:
  assumes ok: "tty_ok t" and v: "0 \<le> v" "v \<le> 18"
  shows "ensures (hangul_consonant v t) tty_ok"
proof -
  obtain i m f where l: "letters t = (i, m, f)" by (cases "letters t")
  then have eq: "hangul_initial t = i" "hangul_medial t = m" "hangul_final t = f" by (simp_all add: letters_def)
  have h: "hangul_ok i m f" by (rule hangul_okD [OF ok l])
  have init: "tty_ok (t\<lparr>hangul_initial := v\<rparr>)" by (rule tty_ok_letters(1) [OF ok _ l]) (use h v in \<open>auto simp: hangul_ok_def\<close>)
  have fin: "tty_ok (t\<lparr>hangul_final := f'\<rparr>)" if "0 < f'" "f' \<le> 27" "0 \<le> i" "0 \<le> m" for f'
    by (rule tty_ok_letters(3) [OF ok _ l]) (use h that in \<open>auto simp: hangul_ok_def\<close>)
  have again: "ensures (do { t1 \<leftarrow> hangul_restart t; Some (t1\<lparr>hangul_initial := v\<rparr>) }) tty_ok"
    by (rule ensures_bind [OF ensures_restart [OF ok]]) (use v in \<open>auto intro!: tty_ok_letters(1) simp: hangul_ok_def\<close>)
  show ?thesis
    unfolding hangul_consonant_def Let_def eq
    by (intro ensures_if again) (simp_all add: init fin combine_le final_for_initial_le)
qed

lemma ensures_hangul_feed:
  assumes w: "width_ok w" and ok: "tty_ok t"
  shows "ensures (tty_hangul_feed w event t) (\<lambda>r. tty_ok (snd r))"
proof (cases "tty_hangul_map_key event")
  case (Some key)
  obtain v vowel where key: "key = (v, vowel)" by (cases key)
  have v: "0 \<le> v" "v \<le> (if vowel then 20 else 18)" using map_key_range [of event v vowel] Some key by auto
  define t1 where "t1 = (if unat (input_cursor t) \<noteq> unat (hangul_start t) + unat (hangul_bytes t) then tty_hangul_commit t else t)"
  have ok1: "tty_ok t1" by (simp add: t1_def ok)
  have "ensures (if vowel then hangul_vowel v t1 else hangul_consonant v t1) tty_ok"
    using v ensures_vowel [OF ok1] ensures_consonant [OF ok1] by (cases vowel) simp_all
  then show ?thesis
    unfolding tty_hangul_feed_def Some key Let_def t1_def [symmetric] option.case split_conv
    by (rule ensures_bind) (intro ensures_bind [OF ensures_update] ensures_bind [OF ensures_render_prompt [OF w]], assumption+, simp)
qed (simp add: tty_hangul_feed_def ok)

lemma ensures_erase: "tty_ok t \<Longrightarrow> ensures (hangul_erase t) tty_ok"
  unfolding hangul_erase_def by (rule ensures_bind [OF ensures_replace]) (auto simp: case_prod_beta)

lemma drop_letter_ok:
  assumes ok: "tty_ok t" and d: "hangul_drop_letter t = Some t1"
  shows "tty_ok t1"
proof -
  obtain i m f where l: "letters t = (i, m, f)" by (cases "letters t")
  then have eq: "hangul_initial t = i" "hangul_medial t = m" "hangul_final t = f" by (simp_all add: letters_def)
  have h: "hangul_ok i m f" by (rule hangul_okD [OF ok l])
  define r where "r = fst (tty_hangul_split_final f)"
  have "tty_ok (t\<lparr>hangul_final := (if r \<noteq> 0 then r else -1)\<rparr>)" if "f > 0"
    by (rule tty_ok_letters(3) [OF ok _ l]) (use h that split_final [of f] in \<open>auto simp: hangul_ok_def r_def\<close>)
  moreover have "tty_ok (t\<lparr>hangul_medial := tty_hangul_split_medial m\<rparr>)" if "\<not> f > 0"
    by (rule tty_ok_letters(2) [OF ok _ l]) (use h that combine_le(3,4) [of m] in \<open>auto simp: hangul_ok_def\<close>)
  ultimately show ?thesis using d by (auto simp: hangul_drop_letter_def Let_def eq r_def split: if_splits)
qed

lemma ensures_backspace': "tty_ok t \<Longrightarrow> ensures (tty_hangul_backspace t) (\<lambda>r. tty_ok (snd r))"
  unfolding tty_hangul_backspace_def
  by (intro ensures_if ensures_map) (auto simp: ensures_erase ensures_update dest: drop_letter_ok split: option.split)

section \<open>Raw mode\<close>

lemma fold_queue_ok: "tty_ok t \<Longrightarrow> tty_ok (fold tty_queue_char bytes t)"
  by (induction bytes arbitrary: t) simp_all

lemma ensures_raw_update: "tty_ok t \<Longrightarrow> ensures (tty_raw_hangul_update t) tty_ok"
  unfolding tty_raw_hangul_update_def Let_def
  by (rule ensures_bind [OF ensures_codepoint]) (auto simp: fold_queue_ok intro!: ensures_if)

lemma raw_commit_ok: "tty_ok t \<Longrightarrow> tty_ok (tty_raw_hangul_commit t)" "letters (tty_raw_hangul_commit t) = (-1, -1, -1)"
  by (simp_all add: tty_raw_hangul_commit_def) (simp add: letters_def tty_hangul_clear_def)

lemma ensures_raw_backspace: "tty_ok t \<Longrightarrow> ensures (tty_raw_hangul_backspace t) (\<lambda>r. tty_ok (snd r))"
  unfolding tty_raw_hangul_backspace_def
  by (intro ensures_if ensures_map) (auto simp: ensures_raw_update dest: drop_letter_ok split: option.split)

lemma ensures_raw_vowel:
  assumes ok: "tty_ok t" and v: "0 \<le> v" "v \<le> 20"
  shows "ensures (raw_hangul_vowel v t) tty_ok"
proof -
  obtain i m f where l: "letters t = (i, m, f)" by (cases "letters t")
  then have eq: "hangul_initial t = i" "hangul_medial t = m" "hangul_final t = f" by (simp_all add: letters_def)
  have h: "hangul_ok i m f" by (rule hangul_okD [OF ok l])
  obtain r mv where split: "tty_hangul_split_final f = (r, mv)" by (cases "tty_hangul_split_final f")
  have medial: "tty_ok (t\<lparr>hangul_medial := m'\<rparr>)" if "0 \<le> m'" "m' \<le> 20" for m'
    by (rule tty_ok_letters(2) [OF ok _ l]) (use h that in \<open>auto simp: hangul_ok_def\<close>)
  have moved: "ensures (do { t1 \<leftarrow> tty_raw_hangul_update (t\<lparr>hangul_final := (if r > 0 then r else -1)\<rparr>);
      Some ((tty_raw_hangul_commit t1)\<lparr>hangul_initial := tty_hangul_initial_for_final mv, hangul_medial := v\<rparr>) }) tty_ok" if "f > 0"
  proof (rule ensures_bind [OF ensures_raw_update])
    have f: "1 \<le> f" "f \<le> 27" "0 \<le> i" "0 \<le> m" using h that by (auto simp: hangul_ok_def)
    note sp = split_final [OF f(1,2), unfolded split fst_conv snd_conv]
    show "tty_ok (t\<lparr>hangul_final := (if r > 0 then r else -1)\<rparr>)"
      by (rule tty_ok_letters(3) [OF ok _ l]) (use h f sp in \<open>auto simp: hangul_ok_def\<close>)
    show "ensures (Some ((tty_raw_hangul_commit t1)\<lparr>hangul_initial := tty_hangul_initial_for_final mv, hangul_medial := v\<rparr>)) tty_ok"
      if "tty_ok t1" for t1
      using sp v by (auto intro!: tty_ok_letters(4) [OF raw_commit_ok(1) [OF that] _ raw_commit_ok(2)] simp: hangul_ok_def)
  qed
  have again: "tty_ok ((tty_raw_hangul_commit t)\<lparr>hangul_medial := v\<rparr>)"
    by (rule tty_ok_letters(2) [OF raw_commit_ok(1) [OF ok] _ raw_commit_ok(2)]) (use v in \<open>simp add: hangul_ok_def\<close>)
  show ?thesis
    unfolding raw_hangul_vowel_def Let_def eq split split_conv
    by (intro ensures_if moved) (simp_all add: medial v again combine_le)
qed

lemma raw_consonant_ok:
  assumes ok: "tty_ok t" and v: "0 \<le> v" "v \<le> 18"
  shows "tty_ok (raw_hangul_consonant v t)"
proof -
  obtain i m f where l: "letters t = (i, m, f)" by (cases "letters t")
  then have eq: "hangul_initial t = i" "hangul_medial t = m" "hangul_final t = f" by (simp_all add: letters_def)
  have h: "hangul_ok i m f" by (rule hangul_okD [OF ok l])
  have "tty_ok (t\<lparr>hangul_initial := v\<rparr>)" by (rule tty_ok_letters(1) [OF ok _ l]) (use h v in \<open>auto simp: hangul_ok_def\<close>)
  moreover have "tty_ok (t\<lparr>hangul_final := f'\<rparr>)" if "0 < f'" "f' \<le> 27" "0 \<le> i" "0 \<le> m" for f'
    by (rule tty_ok_letters(3) [OF ok _ l]) (use h that in \<open>auto simp: hangul_ok_def\<close>)
  moreover have "tty_ok ((tty_raw_hangul_commit t)\<lparr>hangul_initial := v\<rparr>)"
    by (rule tty_ok_letters(1) [OF raw_commit_ok(1) [OF ok] _ raw_commit_ok(2)]) (use v in \<open>simp add: hangul_ok_def\<close>)
  ultimately show ?thesis
    unfolding raw_hangul_consonant_def Let_def eq by (simp add: combine_le final_for_initial_le)
qed

lemma ensures_raw_feed:
  assumes ok: "tty_ok t"
  shows "ensures (tty_raw_hangul_feed event t) (\<lambda>r. tty_ok (snd r))"
proof (cases "tty_hangul_map_key event")
  case (Some key)
  obtain v vowel where key: "key = (v, vowel)" by (cases key)
  have v: "0 \<le> v" "v \<le> (if vowel then 20 else 18)" using map_key_range [of event v vowel] Some key by auto
  have "ensures (if vowel then raw_hangul_vowel v t else Some (raw_hangul_consonant v t)) tty_ok"
    using v ensures_raw_vowel [OF ok] raw_consonant_ok [OF ok] by (cases vowel) simp_all
  then show ?thesis
    unfolding tty_raw_hangul_feed_def Some key option.case split_conv
    by (rule ensures_bind) (intro ensures_map, simp add: ensures_raw_update)
qed (simp add: tty_raw_hangul_feed_def raw_commit_ok ok)

end
