(* ===== verification/Tty_Props.thy ===== *)
theory Tty_Props
  imports Tty_Hangul_Ok
begin

text \<open>
  Every operation on a terminal keeps its invariant, from its initialisation on; output consumes everything and does
  not depend on how it is cut into calls.
\<close>

section \<open>The remaining operations\<close>

definition lines_end :: "tty \<Rightarrow> bool" where
  "lines_end t \<longleftrightarrow> (\<forall>slot < TTY_HISTORY_MAX. has_nul (history t slot))"

definition rows_ok :: "u16 \<Rightarrow> u16 \<Rightarrow> bool" where
  "rows_ok first_row last_row \<longleftrightarrow>
     first_row \<le> last_row \<and> last_row < 0xffff \<and> unat last_row - unat first_row < CONSOLE_SCROLLBACK_LINES"

lemma has_nul_first [simp]: "has_nul (a(0 := 0))"
  by (auto simp: has_nul_def)

lemma ensures_tty_init:
  assumes w: "width_ok w" and rows: "rows_ok a b" and lines: "lines_end t"
  shows "ensures (tty_init w a b color t) tty_ok"
proof -
  have con: "ensures (console_init w c a b color) console_ok" for c
    by (rule ensures_init [OF w]) (use rows in \<open>simp_all add: rows_ok_def\<close>)
  have queue: "tty_queue_ok (s\<lparr>char_head := 0, char_tail := 0, char_count := 0\<rparr>)" for s :: tty
    using tty_clear_char_queue_empty [of s] by (simp add: tty_clear_char_queue_def)
  show ?thesis
    unfolding tty_init_def on_console_def
    by (simp add: arr_set_def LINE_SIZE_def, rule ensures_bind, rule con)
       (use lines queue in \<open>simp add: tty_ok_def edit_ok_def utf8_ok_def output_ok_def lines_end_def hangul_ok_def
          tty_ansi_reset_output_def tty_ansi_reset_parser_def tty_ansi_refresh_active_def tty_hangul_clear_def tty_queue_ok_def ttyq.ok_def
          TTY_HISTORY_MAX_def\<close>)
qed

lemma ensures_ctrl_c:
  assumes w: "width_ok w" and ok: "tty_ok t"
  shows "ensures (tty_emit_ctrl_c_local w t) tty_ok"
proof -
  define t1 where "t1 = tty_hangul_commit (t\<lparr>input_len := 0, input_cursor := 0, input := (input t)(0 := 0),
    ready_line := (ready_line t)(0 := 0), line_ready := True, input_origin_valid := False, history_index := -1, history_scratch_saved := False\<rparr>)"
  have "tty_ok t1" unfolding t1_def by (rule commit_ok) (use ok in \<open>simp add: tty_ok_defs\<close>)
  then have "ensures (map_option snd (tty_write_str w [0x5e, 0x43, 0x0a] (text_color t) t1)) tty_ok"
    unfolding tty_write_str_def by (intro ensures_map) (rule ensures_mono [OF ensures_tty_write [OF w]], simp_all)
  then show ?thesis unfolding tty_emit_ctrl_c_local_def by (simp add: arr_set_def LINE_SIZE_def t1_def)
qed

lemma ensures_show_prompt: "width_ok w \<Longrightarrow> tty_ok t \<Longrightarrow> ensures (tty_show_prompt w t) tty_ok"
  unfolding tty_show_prompt_def
  by (simp add: arr_set_def LINE_SIZE_def, rule ensures_render_prompt, assumption, rule commit_ok) (simp add: tty_ok_defs)

lemma raw_input_ok: "tty_ok t \<Longrightarrow> tty_ok (tty_set_raw_input b t)"
  by (simp add: tty_set_raw_input_def Let_def clear_queue_ok)

lemma ensures_read_loop:
  assumes "a n = 0" and "n \<le> TTY_LINE_MAX" and "unat i \<le> n" and "i < max_len"
  shows "ensures (read_line_loop (arr_get LINE_SIZE a) max_len i out) (\<lambda>r. fst r < max_len)"
  using assms(3,4)
proof (induction "n - unat i" arbitrary: i out)
  case 0
  then have "unat i = n" by simp
  then show ?case using assms(1,2) 0 by (subst read_line_loop.simps) (simp add: arr_get_def LINE_SIZE_def)
next
  case (Suc k)
  have "unat i < LINE_SIZE" using Suc assms(2) by (simp add: LINE_SIZE_def)
  moreover from this have "unat (i + 1) = unat i + 1" using unat_add_lem [of i 1] by (simp add: LINE_SIZE_def TTY_LINE_MAX_def)
  moreover from this have "ensures (read_line_loop (arr_get LINE_SIZE a) max_len (i + 1) out') (\<lambda>r. fst r < max_len)" if "i + 1 < max_len" for out'
    using Suc that by (intro Suc.hyps(1)) simp_all
  ultimately show ?case using Suc.prems by (subst read_line_loop.simps) (simp add: arr_get_def arr_set_def word_less_nat_alt)
qed

lemma ensures_read:
  assumes ok: "tty_ok t"
  shows "ensures (tty_read out max_len mode t) (\<lambda>r. tty_ok (snd (snd r)))"
proof (cases "max_len = 0")
  case False
  then have pos: "0 < unat max_len" "0 < max_len" by (simp_all add: unat_gt_0 word_gt_0)
  obtain n where n: "ready_line t n = 0" "n \<le> TTY_LINE_MAX" using tty_ok_dest(3) [OF ok] by (auto simp: has_nul_def)
  have one: "1 < unat max_len" if "1 < max_len" using that by (simp add: word_less_nat_alt)
  have loop: "ensures (read_line_loop (arr_get LINE_SIZE (ready_line t)) max_len 0 out) (\<lambda>r. fst r < max_len)"
    by (rule ensures_read_loop [where n = n]) (simp_all add: pos n)
  have line: "ensures (do {
      (i, out) \<leftarrow> read_line_loop (arr_get LINE_SIZE (ready_line t)) max_len 0 out;
      out \<leftarrow> arr_set (unat max_len) out (unat i) 0;
      line \<leftarrow> arr_set LINE_SIZE (ready_line t) 0 0;
      Some (i, out, t\<lparr>ready_line := line, line_ready := False\<rparr>) }) (\<lambda>r. tty_ok (snd (snd r)))"
    by (rule ensures_bind [OF loop])
       (auto simp: arr_set_def word_less_nat_alt LINE_SIZE_def tty_ok_ready [OF ok])
  show ?thesis
  proof (cases "mode = TTY_READ_CHAR")
    case True
    obtain r t1 where "tty_pop_char t = (r, t1)" by (cases "tty_pop_char t")
    then show ?thesis
      using pop_char_ok [OF ok] False True pos one by (cases r) (simp_all add: tty_read_def arr_set_def)
  next
    case mode: False
    show ?thesis
      unfolding tty_read_def if_not_P [OF False] if_not_P [OF mode]
      by (intro ensures_if ensures_bind [OF ensures_get [where P = "\<lambda>_. True"]] line) (simp_all add: arr_set_def pos ok LINE_SIZE_def)
  qed
qed (simp add: tty_read_def ok)

section \<open>Offsets in the line\<close>

lemma ensures_skip_back: "n < LINE_SIZE \<Longrightarrow> ensures (skip_back (arr_get LINE_SIZE a) n) (\<lambda>m. m \<le> n)"
proof (induction n)
  case (Suc n)
  then have "ensures (skip_back (arr_get LINE_SIZE a) n) (\<lambda>m. m \<le> Suc n)" by (intro ensures_mono [OF Suc.IH]) simp_all
  moreover have "arr_get LINE_SIZE a (Suc n) = Some (a (Suc n))" using Suc.prems by (simp add: arr_get_def)
  ultimately show ?case by simp
qed simp

lemma ensures_previous: "ensures (tty_utf8_previous_offset (arr_get LINE_SIZE a) n) (\<lambda>m. m \<le> n)"
proof (cases "n = 0")
  case False
  have u: "unat (n - 1) = unat n - 1" using False by (simp add: unat_minus_one)
  have b: "unat n < 256" using unsigned_less [of n, where ?'a = nat] by simp
  have "ensures (skip_back (arr_get LINE_SIZE a) (unat (n - 1))) (\<lambda>m. (of_nat m :: u8) \<le> n)"
  proof (rule ensures_mono [OF ensures_skip_back])
    fix m assume "m \<le> unat (n - 1)"
    then have "m \<le> unat n" "m < 256" using u b by linarith+
    then show "(of_nat m :: u8) \<le> n" by (simp add: word_le_nat_alt unat_of_nat_u8)
  qed simp
  then show ?thesis using False by (simp add: tty_utf8_previous_offset_def ensures_map)
qed (simp add: tty_utf8_previous_offset_def)

lemma ensures_next: "ensures (tty_utf8_next_offset (arr_get LINE_SIZE a) len n) (\<lambda>m. m \<le> len)"
proof (cases "n \<ge> len")
  case False
  then have lt: "unat (ucast n :: u32) < unat len" by (simp add: unat_ucast_u8 word_less_nat_alt not_le)
  have b: "unat len < 256" using unsigned_less [of len, where ?'a = nat] by simp
  show ?thesis
    unfolding tty_utf8_next_offset_def if_not_P [OF False]
  proof (rule ensures_bind [OF ensures_decode_line [OF lt]])
    fix r :: "u32 \<times> u32" assume r: "0 < unat (fst r) \<and> unat (ucast n :: u32) + unat (fst r) \<le> unat len"
    have u: "unat ((ucast n :: u32) + fst r) = unat n + unat (fst r)"
      using r b unat_add_lem [of "ucast n :: u32" "fst r"] by (simp add: unat_ucast_u8)
    have "unat n + unat (fst r) \<le> unat len" using r by (simp add: unat_ucast_u8)
    then have "unat (ucast ((ucast n :: u32) + fst r) :: u8) \<le> unat len"
      using u b by (simp add: unsigned_ucast_eq take_bit_nat_eq_self)
    then have le: "(ucast ((ucast n :: u32) + fst r) :: u8) \<le> len" by (simp add: word_le_nat_alt)
    have "\<not> (fst r = 0 \<or> unat (fst r) > unat len - unat n)" using r by (auto simp: unat_ucast_u8)
    then show "ensures (case r of (consumed, codepoint) \<Rightarrow>
        let consumed = (if consumed = 0 \<or> unat consumed > unat len - unat n then 1 else consumed)
        in Some (ucast (ucast n + consumed))) (\<lambda>m. m \<le> len)"
      using le by (simp add: case_prod_beta Let_def)
  qed
qed (simp add: tty_utf8_next_offset_def)

section \<open>Key events\<close>

lemma scroll_keeps_ok:
  "tty_ok t \<Longrightarrow> tty_ok (t\<lparr>tty_console := console_scroll_page_up (tty_console t)\<rparr>)"
  "tty_ok t \<Longrightarrow> tty_ok (t\<lparr>tty_console := console_scroll_page_down (tty_console t)\<rparr>)"
  by (simp_all add: tty_ok_console scroll_ok tty_ok_dest(12))

lemma ensures_from_keeps: "tty_ok t \<Longrightarrow> ensures m (keeps t) \<Longrightarrow> ensures m tty_ok"
  by (erule ensures_mono) (rule keeps_tty_ok)

lemma ensures_clipboard_paste:
  assumes w: "width_ok w" and ok: "tty_ok t" and clip: "clip_ok clip"
  shows "ensures (tty_paste_text w (kernel_clipboard_text clip) (clip_size clip) b t) tty_ok"
  by (rule ensures_paste [OF w ok]) (use clip in \<open>auto simp: clip_ok_def kernel_clipboard_text_def arr_get_def\<close>)

definition key_ok :: "tty \<times> clipboard \<Rightarrow> bool" where
  "key_ok s \<longleftrightarrow> tty_ok (fst s) \<and> clip_ok (snd s)"

lemma ensures_pair: "ensures m tty_ok \<Longrightarrow> clip_ok clip \<Longrightarrow> ensures (do { t \<leftarrow> m; Some (t, clip) }) key_ok"
  by (erule ensures_bind) (simp add: key_ok_def)

lemma ensures_copy_pair:
  "width_ok w \<Longrightarrow> tty_ok t \<Longrightarrow> ensures (do { clip \<leftarrow> tty_copy_selection w t clip; Some (t, clip) }) key_ok"
  by (rule ensures_bind, rule ensures_copy_selection) (simp_all add: key_ok_def)

lemma ensures_raw_key:
  assumes w: "width_ok w" and ok: "tty_ok t" and clip: "clip_ok clip"
  shows "ensures (raw_key w event (t, clip)) key_ok"
  unfolding raw_key_def split_conv Let_def
  by (intro ensures_if ensures_copy_pair [OF w ok] ensures_pair [OF ensures_clipboard_paste [OF w ok clip] clip])
     (simp_all add: key_ok_def ok clip scroll_keeps_ok)

lemma ensures_raw_event:
  assumes w: "width_ok w" and ok: "tty_ok t" and clip: "clip_ok clip"
  shows "ensures (raw_key_event w event (t, clip)) key_ok"
proof -
  have erase: "ensures (if keycode event = KEYBOARD_KEY_BACKSPACE \<and> hangul_mode t then tty_raw_hangul_backspace t else Some (False, t))
      (\<lambda>r. tty_ok (snd r))" by (simp add: ensures_raw_backspace ok)
  have feed: "ensures (if hangul_mode t1 \<and> \<not> ctrl event then tty_raw_hangul_feed event t1 else Some (False, t1)) (\<lambda>r. tty_ok (snd r))"
    if "tty_ok t1" for t1 by (simp add: ensures_raw_feed that)
  show ?thesis
    unfolding raw_key_event_def case_prod_beta fst_conv snd_conv
    by (intro ensures_bind [OF erase] ensures_if ensures_bind [OF feed] ensures_raw_key [OF w _ clip] raw_commit_ok)
       (simp_all add: key_ok_def clip)
qed

lemma ensures_redraw:
  assumes w: "width_ok w" and ok: "tty_ok t"
  shows "ensures (redraw_screen w t) tty_ok"
proof -
  have prompt: "ensures (for_each [0..<unat (prompt_cache_len t)]
      (\<lambda>i bytes. do { ch \<leftarrow> arr_get TTY_PROMPT_CACHE_SIZE (prompt_cache t) i; Some (bytes @ [ch]) }) []) (\<lambda>_. True)"
    by (rule ensures_for_each) (use tty_ok_dest(14) [OF ok] in \<open>auto simp: arr_get_def\<close>)
  have again: "ensures (if prompt_cache_len t \<noteq> 0 then map_option snd (tty_write w p (text_color t1) t1) else Some t1) tty_ok"
    if "tty_ok t1" for t1 p
    using ensures_tty_write [OF w that, of p "text_color t1"] by (simp add: that) (metis (mono_tags, lifting) ensures_map ensures_mono)
  show ?thesis
    unfolding redraw_screen_def
    by (intro ensures_bind [OF prompt] ensures_bind [OF ensures_from_keeps [OF ok ensures_tty_clear [OF w tty_ok_dest(13) [OF ok]]]]
        ensures_bind [OF again] ensures_render_prompt [OF w])
qed

lemma ensures_enter:
  assumes w: "width_ok w" and ok: "tty_ok t"
  shows "ensures (enter_line w t) tty_ok"
proof -
  have rest: "ensures (do {
      line \<leftarrow> copy_bytes (input_len t1) (input t1) (ready_line t1);
      t2 \<leftarrow> tty_putc w 0x0a (text_color t1) (t1\<lparr>ready_line := line, line_ready := True\<rparr>);
      inp \<leftarrow> arr_set LINE_SIZE (input t2) 0 0;
      Some (t2\<lparr>input_len := 0, input_cursor := 0, input := inp, input_origin_valid := False, history_index := -1,
                history_scratch_saved := False\<rparr>) }) tty_ok" if ok1: "tty_ok t1" for t1
  proof (rule ensures_bind [OF ensures_copy_bytes])
    fix line assume "has_nul line"
    then have ok2: "tty_ok (t1\<lparr>ready_line := line, line_ready := True\<rparr>)" using tty_ok_ready [OF ok1] by simp
    have "tty_ok (t2\<lparr>input_len := 0, input_cursor := 0, input := (input t2)(0 := 0), input_origin_valid := False, history_index := -1,
        history_scratch_saved := False\<rparr>)" if "tty_ok t2" for t2 using that by (simp add: tty_ok_defs)
    then show "ensures (do {
      t2 \<leftarrow> tty_putc w 0x0a (text_color t1) (t1\<lparr>ready_line := line, line_ready := True\<rparr>);
      inp \<leftarrow> arr_set LINE_SIZE (input t2) 0 0;
      Some (t2\<lparr>input_len := 0, input_cursor := 0, input := inp, input_origin_valid := False, history_index := -1,
                history_scratch_saved := False\<rparr>) }) tty_ok"
      by (intro ensures_bind [OF ensures_from_keeps [OF ok2 ensures_tty_putc [OF w tty_ok_dest(13) [OF ok2]]]]) (simp add: arr_set_def LINE_SIZE_def)
  qed (rule tty_ok_dest(2) [OF ok1])
  show ?thesis
    unfolding enter_line_def by (rule ensures_bind [OF ensures_history_store [OF commit_ok(2) [OF ok]]], rule rest) simp
qed

lemma ensures_erase_before:
  assumes w: "width_ok w" and ok: "tty_ok t"
  shows "ensures (erase_before_cursor w t) tty_ok"
  unfolding erase_before_cursor_def case_prod_beta
  by (rule ensures_bind [OF ensures_backspace' [OF ok]])
     (intro ensures_if ensures_render_prompt [OF w] ensures_bind [OF ensures_previous] ensures_bind [OF ensures_delete], simp_all)

lemma ensures_erase_at:
  assumes w: "width_ok w" and ok: "tty_ok t"
  shows "ensures (erase_at_cursor w t) tty_ok"
  unfolding erase_at_cursor_def Let_def
  by (intro ensures_bind [OF ensures_next] ensures_bind [OF ensures_delete] ensures_render_prompt [OF w]) (simp_all add: ok)

lemma ensures_type_char:
  assumes w: "width_ok w" and ok: "tty_ok t"
  shows "ensures (type_char w event t) tty_ok"
proof -
  have feed: "ensures (if hangul_mode t \<and> \<not> ctrl event then tty_hangul_feed w event t else Some (False, t)) (\<lambda>r. tty_ok (snd r))"
    by (simp add: ensures_hangul_feed w ok)
  have insert: "ensures (do {
      t3 \<leftarrow> (if ascii event = 9 then tty_insert_input_tab w t2 else tty_insert_input_char (ascii event) t2); tty_render_prompt w t3 }) tty_ok"
    if "tty_ok t2" for t2
    by (rule ensures_bind [where Q = tty_ok]) (simp_all add: ensures_insert_tab ensures_insert_char that ensures_render_prompt w)
  show ?thesis
    unfolding type_char_def case_prod_beta Let_def
    by (rule ensures_bind [OF feed]) (intro ensures_if insert, simp_all)
qed

lemma ensures_edit_key:
  assumes w: "width_ok w" and ok: "tty_ok t"
  shows "ensures (edit_key w event t) tty_ok"
proof -
  define t1 where "t1 = tty_hangul_commit t"
  have ok1: "tty_ok t1" by (simp add: t1_def ok)
  have move: "ensures (do { o1 \<leftarrow> m; tty_render_prompt w (t1\<lparr>input_cursor := o1\<rparr>) }) tty_ok"
    if "ensures m (\<lambda>o1. o1 \<le> input_len t1)" for m
    by (rule ensures_bind [OF that]) (rule ensures_render_prompt [OF w tty_ok_cursor [OF ok1]])
  have prev: "ensures (tty_utf8_previous_offset (arr_get LINE_SIZE (input t1)) (input_cursor t1)) (\<lambda>o1. o1 \<le> input_len t1)"
    by (rule ensures_mono [OF ensures_previous]) (use tty_ok_dest(1) [OF ok1] in \<open>rule order_trans [rotated]\<close>)
  show ?thesis
    unfolding edit_key_def Let_def t1_def [symmetric]
    by (intro ensures_if ensures_enter ensures_erase_before ensures_erase_at ensures_type_char move prev ensures_next
        ensures_bind [OF ensures_history_up] ensures_bind [OF ensures_history_down] ensures_render_prompt w ok)
       (simp_all add: tty_ok_cursor ok1 scroll_keeps_ok)
qed

lemma ensures_line_event:
  assumes w: "width_ok w" and ok: "tty_ok t" and clip: "clip_ok clip"
  shows "ensures (line_key_event w event (t, clip)) key_ok"
proof -
  define t1 where "t1 = (if ctrl event then tty_hangul_commit t else t)"
  have ok1: "tty_ok t1" by (simp add: t1_def ok)
  show ?thesis
    unfolding line_key_event_def split_conv Let_def t1_def [symmetric]
    by (intro ensures_if ensures_copy_pair [OF w ok1] ensures_pair [OF _ clip] ensures_clipboard_paste [OF w ok1 clip]
        ensures_bind [OF ensures_insert_tab [OF ok1]] ensures_redraw [OF w ok1] ensures_ctrl_c [OF w ok1] ensures_edit_key [OF w ok1]
        ensures_render_prompt [OF w])
       (simp_all add: tty_ok_cursor ok1)
qed

lemma ensures_feed_key:
  assumes w: "width_ok w" and ok: "tty_ok t" and clip: "clip_ok clip"
  shows "ensures (tty_feed_key_event w event (t, clip)) (\<lambda>r. key_ok (snd r))"
proof -
  have mode: "ensures (tty_hangul_render_mode w t1) tty_ok" if "tty_ok t1" for t1
    unfolding tty_hangul_render_mode_def
    by (intro ensures_if ensures_from_keeps [OF that ensures_on_console [OF tty_ok_dest(13) [OF that]]] ensures_write_at w)
       (simp_all add: that)
  have event: "ensures (if raw_input t then raw_key_event w event (t, clip) else line_key_event w event (t, clip)) key_ok"
    by (simp add: ensures_raw_event ensures_line_event w ok clip)
  show ?thesis
    unfolding tty_feed_key_event_def split_conv Let_def
    by (intro ensures_if ensures_bind [OF mode] ensures_bind [OF event]) (auto simp: key_ok_def ok clip)
qed

section \<open>The virtual terminals\<close>

text \<open>The calls that the rest of the kernel makes on a terminal, and on the virtual terminals.\<close>

datatype tty_call =
    Feed keyboard_event
  | Write "u8 list" u8
  | Putc u8 u8
  | Write_Dec u32 u8
  | Write_Hex64 u64 u8
  | Clear
  | Clear_Row u16 u8
  | Set_Cursor u16 u16
  | Put_At u16 u16 u8 u8
  | Show_Prompt
  | Set_Raw bool
  | Read "nat \<Rightarrow> u8" u32 read_mode
  | Set_Foreground u32
  | Clear_Foreground u32
  | Select_Begin u16 u16
  | Select_Update u16 u16
  | Select_End u16 u16
  | Select_Clear
  | Copy_Selection

definition run_tty_call :: "u16 \<Rightarrow> tty_call \<Rightarrow> tty \<times> clipboard \<Rightarrow> (tty \<times> clipboard) option" where
  "run_tty_call w call = (\<lambda>(t, clip).
     (let plain = (\<lambda>m. do { t' \<leftarrow> m; Some (t', clip) }); console = (\<lambda>f. Some (t\<lparr>tty_console := f (tty_console t)\<rparr>, clip))
      in case call of
           Feed event \<Rightarrow> map_option snd (tty_feed_key_event w event (t, clip))
         | Write bytes color \<Rightarrow> plain (map_option snd (tty_write w bytes color t))
         | Putc ch color \<Rightarrow> plain (tty_putc w ch color t)
         | Write_Dec v color \<Rightarrow> plain (tty_write_dec w v color t)
         | Write_Hex64 v color \<Rightarrow> plain (tty_write_hex64 w v color t)
         | Clear \<Rightarrow> plain (tty_clear w t)
         | Clear_Row row color \<Rightarrow> plain (tty_clear_row w row color t)
         | Set_Cursor row col \<Rightarrow> Some (tty_set_cursor w row col t, clip)
         | Put_At row col ch color \<Rightarrow> plain (tty_put_at w row col ch color t)
         | Show_Prompt \<Rightarrow> plain (tty_show_prompt w t)
         | Set_Raw b \<Rightarrow> Some (tty_set_raw_input b t, clip)
         | Read out max_len mode \<Rightarrow> plain (map_option (\<lambda>r. snd (snd r)) (tty_read out max_len mode t))
         | Set_Foreground pid \<Rightarrow> Some (tty_set_foreground_pid pid t, clip)
         | Clear_Foreground pid \<Rightarrow> Some (tty_clear_foreground_pid pid t, clip)
         | Select_Begin row col \<Rightarrow> console (console_mouse_select_begin w row col)
         | Select_Update row col \<Rightarrow> console (console_mouse_select_update w row col)
         | Select_End row col \<Rightarrow> console (console_mouse_select_end w row col)
         | Select_Clear \<Rightarrow> console console_mouse_select_clear
         | Copy_Selection \<Rightarrow> do { clip' \<leftarrow> tty_copy_selection w t clip; Some (t, clip') }))"

datatype tty_system_call = On_Tty u32 tty_call | Switch u32 | Set_Clipboard "u8 list"

text \<open>\<^verbatim>\<open>tty_virtual\<close> is null for an index out of range, and then nothing is called.\<close>

definition run_system_call :: "u16 \<times> tty_system_call \<Rightarrow> virtual_ttys \<Rightarrow> virtual_ttys option" where
  "run_system_call = (\<lambda>(w, call) s.
     (case call of
        On_Tty n c \<Rightarrow>
          if unat n \<ge> TTY_VIRTUAL_COUNT then Some s
          else do {
            t \<leftarrow> arr_get TTY_VIRTUAL_COUNT (virtual_tty s) (unat n);
            (t, clip) \<leftarrow> run_tty_call w c (t, kernel_clipboard s);
            ts \<leftarrow> arr_set TTY_VIRTUAL_COUNT (virtual_tty s) (unat n) t;
            Some (s\<lparr>virtual_tty := ts, kernel_clipboard := clip\<rparr>)
          }
      | Switch n \<Rightarrow> map_option snd (tty_switch_active n s)
      | Set_Clipboard bytes \<Rightarrow> do {
          clip \<leftarrow> kernel_clipboard_set_text (tab_get bytes) (of_nat (length bytes)) (kernel_clipboard s);
          Some (s\<lparr>kernel_clipboard := clip\<rparr>) }))"

definition system_ok :: "virtual_ttys \<Rightarrow> bool" where
  "system_ok s \<longleftrightarrow> (\<forall>i < TTY_VIRTUAL_COUNT. tty_ok (virtual_tty s i)) \<and> clip_ok (kernel_clipboard s) \<and>
     unat (active_tty_index s) < TTY_VIRTUAL_COUNT"

lemma ensures_tty_call:
  assumes w: "width_ok w" and ok: "tty_ok t" and clip: "clip_ok clip"
  shows "ensures (run_tty_call w call (t, clip)) key_ok"
proof -
  note k = tty_ok_dest(13) [OF ok]
  have feed: "ensures (map_option snd (tty_feed_key_event w e (t, clip))) key_ok" for e
    by (rule ensures_map) (rule ensures_feed_key [OF w ok clip])
  have out: "ensures (map_option snd (tty_write w bytes color t)) tty_ok" for bytes color
    by (rule ensures_map) (rule ensures_mono [OF ensures_tty_write [OF w ok]], simp)
  have read: "ensures (map_option (\<lambda>r. snd (snd r)) (tty_read b n m t)) tty_ok" for b n m
    by (rule ensures_map) (rule ensures_read [OF ok])
  have num: "ensures (tty_write_dec w v color t) (keeps t)" "ensures (tty_write_hex64 w v' color t) (keeps t)" for v v' color
    unfolding tty_write_dec_def tty_write_hex64_def
    by (rule ensures_on_console [OF k]; rule ensures_write_dec ensures_write_hex64, rule w, assumption)+
  have select: "tty_ok (t\<lparr>tty_console := f (tty_console t)\<rparr>)" if "\<And>c. console_ok c \<Longrightarrow> console_ok (f c)" for f
    by (rule tty_ok_console [OF ok that [OF tty_ok_dest(12) [OF ok]]])
  note pair = ensures_pair [OF _ clip] and kept = ensures_pair [OF ensures_from_keeps [OF ok] clip]
  have cursor: "tty_ok (tty_set_cursor w row col t)" for row col by (rule keeps_tty_ok [OF keeps_set_cursor [OF w k] ok])
  show ?thesis
    unfolding run_tty_call_def split_conv Let_def
    by (cases call)
       (simp_all add: feed pair [OF out] pair [OF read] pair [OF ensures_show_prompt [OF w ok]] kept [OF num(1)] kept [OF num(2)]
          kept [OF ensures_tty_putc [OF w k]] kept [OF ensures_tty_clear [OF w k]] kept [OF ensures_tty_clear_row [OF w k]]
          kept [OF ensures_tty_put_at [OF w k]] ensures_copy_pair [OF w ok] key_ok_def clip cursor select select_ok raw_input_ok ok
          tty_set_foreground_pid_def tty_clear_foreground_pid_def)
qed

lemma ensures_switch: "system_ok s \<Longrightarrow> ensures (tty_switch_active n s) (\<lambda>r. system_ok (snd r))"
  by (auto simp: tty_switch_active_def system_ok_def arr_get_def arr_set_def intro!: tty_ok_console visible_ok tty_ok_dest(12))

lemma ensures_system_call:
  assumes w: "width_ok (fst call)" and ok: "system_ok s"
  shows "ensures (run_system_call call s) system_ok"
proof -
  obtain w' c where call: "call = (w', c)" by (cases call)
  show ?thesis
  proof (cases c)
    case (On_Tty n op)
    have "ensures (run_tty_call w' op (virtual_tty s (unat n), kernel_clipboard s)) key_ok" if "unat n < TTY_VIRTUAL_COUNT"
      by (rule ensures_tty_call) (use w ok that call in \<open>auto simp: system_ok_def\<close>)
    then show ?thesis using ok
      by (auto simp: run_system_call_def call On_Tty arr_get_def arr_set_def key_ok_def system_ok_def ensures_def case_prod_beta)
  next
    case (Switch n)
    then show ?thesis by (simp add: run_system_call_def call ensures_map ensures_switch [OF ok])
  next
    case (Set_Clipboard bytes)
    have "ensures (kernel_clipboard_set_text (tab_get bytes) (of_nat (length bytes)) (kernel_clipboard s)) clip_ok"
    proof (rule ensures_set_text)
      fix i assume "i < unat (of_nat (length bytes) :: u32)"
      then have "i < length bytes mod 2 ^ 32" by (simp add: unat_of_nat)
      also have "\<dots> \<le> length bytes" by simp
      finally show "ensures (tab_get bytes i) (\<lambda>_. True)" by (simp add: tab_get_def)
    qed
    then show ?thesis unfolding run_system_call_def call Set_Clipboard
      by (simp, elim ensures_bind) (use ok in \<open>simp add: system_ok_def\<close>)
  qed
qed

lemma ensures_virtual_init:
  assumes w: "width_ok w" and rows: "rows_ok a b" and lines: "\<forall>i < TTY_VIRTUAL_COUNT. lines_end (virtual_tty s i)"
    and clip: "clip_ok (kernel_clipboard s)"
  shows "ensures (tty_virtual_init_all w a b color s) system_ok"
proof -
  let ?f = "\<lambda>i ts. do { t \<leftarrow> arr_get TTY_VIRTUAL_COUNT ts i; t \<leftarrow> tty_init w a b color t;
    arr_set TTY_VIRTUAL_COUNT ts i (t\<lparr>tty_console := console_set_visible (i = 0) (tty_console t)\<rparr>) }"
  have vis: "tty_ok (t\<lparr>tty_console := console_set_visible v (tty_console t)\<rparr>)" if "tty_ok t" for t v
    by (rule tty_ok_console [OF that visible_ok [OF tty_ok_dest(12) [OF that]]])
  let ?P = "\<lambda>i ts. \<forall>j < TTY_VIRTUAL_COUNT. lines_end (ts j) \<and> (j < i \<longrightarrow> tty_ok (ts j))"
  have "ensures (for_each [0..<TTY_VIRTUAL_COUNT] ?f (virtual_tty s)) (?P TTY_VIRTUAL_COUNT)"
  proof (rule ensures_for_upt [where P = ?P])
    fix i ts assume i: "i < TTY_VIRTUAL_COUNT" and P: "?P i ts"
    have "ensures (do { t \<leftarrow> tty_init w a b color (ts i);
        arr_set TTY_VIRTUAL_COUNT ts i (t\<lparr>tty_console := console_set_visible (i = 0) (tty_console t)\<rparr>) }) (?P (Suc i))"
    proof (rule ensures_bind [OF ensures_tty_init [OF w rows]])
      fix t assume t: "tty_ok t"
      have "lines_end (t\<lparr>tty_console := c\<rparr>)" for c using tty_ok_dest(5) [OF t] by (simp add: lines_end_def)
      then show "ensures (arr_set TTY_VIRTUAL_COUNT ts i (t\<lparr>tty_console := console_set_visible (i = 0) (tty_console t)\<rparr>)) (?P (Suc i))"
        using i P vis [OF t] by (auto simp: arr_set_def less_Suc_eq)
    qed (use i P in simp)
    then show "ensures (?f i ts) (?P (Suc i))" using i by (simp add: arr_get_def)
  qed (use lines in simp_all)
  then show ?thesis
    unfolding tty_virtual_init_all_def
    by (rule ensures_bind) (use vis clip in \<open>auto simp: system_ok_def arr_get_def arr_set_def TTY_VIRTUAL_COUNT_def\<close>)
qed

text \<open>
  C38. From the initialisation of the virtual terminals on, no sequence of calls makes a terminal access one of its
  arrays out of bounds or run a loop for ever, whatever the keys, the bytes written (with invalid UTF-8 and
  arbitrary escape sequences), the buffers of readers, the cursor positions and the text width of the display at each
  call; and every terminal stays well-formed: the cursor is in the line, the line and the lines of the history end in a NUL,
  the history indices, the parameters of an escape sequence, the partial UTF-8 character, the Hangul letters, the
  queue and the console are in their ranges.
\<close>

theorem virtual_ttys_stay_well_formed:
  assumes "width_ok w" and "rows_ok first_row last_row"
    and "\<forall>i < TTY_VIRTUAL_COUNT. lines_end (virtual_tty s0 i)" and "clip_ok (kernel_clipboard s0)"
    and "\<forall>call \<in> set calls. width_ok (fst call)"
  shows "\<exists>s. do { s1 \<leftarrow> tty_virtual_init_all w first_row last_row color s0; for_each calls run_system_call s1 } = Some s \<and> system_ok s"
proof -
  have "ensures (for_each calls run_system_call s1) system_ok" if "system_ok s1" for s1
    by (rule ensures_for_each, rule that) (use assms(5) ensures_system_call in blast)
  then have "ensures (do { s1 \<leftarrow> tty_virtual_init_all w first_row last_row color s0; for_each calls run_system_call s1 }) system_ok"
    by (rule ensures_bind [OF ensures_virtual_init [OF assms(1-4)]])
  then show ?thesis by (simp add: ensures_def)
qed

definition zero_tty :: tty where
  "zero_tty = \<lparr>char_queue = (\<lambda>_. 0), char_head = 0, char_tail = 0, char_count = 0,
     tty_console = \<lparr>top_row = 0, bottom_row = 0, cursor_row = 0, cursor_col = 0, default_color = 0, con_visible = False, con_displayed = False,
       history_base_line = 0, history_line_count = 0, cursor_line = 0, view_top_line = 0, selection_active = False,
       selection_dragging = False, selection_anchor_line = 0, selection_anchor_col = 0, selection_focus_line = 0,
       selection_focus_col = 0, con_history = (\<lambda>_ _. 0)\<rparr>,
     text_color = 0, prompt_color = 0, foreground_pid = 0, input = (\<lambda>_. 0), ready_line = (\<lambda>_. 0), history = (\<lambda>_ _. 0),
     history_scratch = (\<lambda>_. 0), prompt_cache = (\<lambda>_. 0), input_len = 0, input_cursor = 0, line_ready = False,
     raw_input = False, history_len = 0, history_next = 0, history_index = 0, history_scratch_saved = False, ansi_color = 0,
     ansi_active = False, ansi_bold = False, ansi_state = TTY_ANSI_STATE_NONE, ansi_param_count = 0, ansi_param_active = False,
     ansi_private = False, ansi_saved_row = 0, ansi_saved_col = 0, input_origin_row = 0, input_origin_col = 0,
     input_render_rows = 0, prompt_cache_len = 0, input_origin_valid = False, hangul_mode = False, hangul_initial = 0,
     hangul_medial = 0, hangul_final = 0, hangul_start = 0, hangul_bytes = 0, output_utf8_len = 0, output_utf8_expected = 0,
     output_utf8 = (\<lambda>_. 0), ansi_params = (\<lambda>_. 0)\<rparr>"

definition zero_system :: virtual_ttys where
  "zero_system = \<lparr>virtual_tty = (\<lambda>_. zero_tty), active_tty_index = 0, virtual_ttys_ready = False,
     kernel_clipboard = \<lparr>clip_text = (\<lambda>_. 0), clip_size = 0\<rparr>\<rparr>"

definition demo_key :: "keyboard_keycode \<Rightarrow> u8 \<Rightarrow> keyboard_event" where
  "demo_key k ch = \<lparr>keycode = k, ascii = ch, pressed = True, released = False, extended = False, shift = False, ctrl = False,
     alt = False, caps_lock = False, num_lock = False, scroll_lock = False\<rparr>"

theorem virtual_ttys_stay_well_formed_witness:
  "\<exists>s. do { s1 \<leftarrow> tty_virtual_init_all 80 0 24 7 zero_system;
      for_each [(80, On_Tty 0 (Write [0x1b, 0x5b, 0x33, 0x31, 0x6d, 0xe2, 0x82] 7)), (80, On_Tty 0 (Feed (demo_key KEYBOARD_KEY_A 0x61))),
        (40, On_Tty 0 (Feed (demo_key KEYBOARD_KEY_ENTER 0))), (40, Switch 1)] run_system_call s1 } = Some s \<and> system_ok s"
proof (rule virtual_ttys_stay_well_formed)
  show "width_ok 80" by (simp add: width_ok_def HAL_TEXT_WIDTH_def)
  show "rows_ok 0 24" by (simp add: rows_ok_def CONSOLE_SCROLLBACK_LINES_def)
  show "\<forall>i < TTY_VIRTUAL_COUNT. lines_end (virtual_tty zero_system i)"
    by (auto simp: lines_end_def zero_system_def zero_tty_def has_nul_def)
  show "clip_ok (kernel_clipboard zero_system)" by (simp add: clip_ok_def zero_system_def)
  show "\<forall>call \<in> set [(80, On_Tty 0 (Write [0x1b, 0x5b, 0x33, 0x31, 0x6d, 0xe2, 0x82] 7)), (80, On_Tty 0 (Feed (demo_key KEYBOARD_KEY_A 0x61))),
        (40, On_Tty 0 (Feed (demo_key KEYBOARD_KEY_ENTER 0))), (40, Switch 1)]. width_ok (fst call)"
    by (simp add: width_ok_def HAL_TEXT_WIDTH_def)
qed

section \<open>Output ends and does not depend on its cuts\<close>

lemma write_round_byte:
  "write_round w data color (n, t) = do { ch \<leftarrow> tab_get data n; (d, t') \<leftarrow> write_round w [ch] color (0, t); Some (n + d, t') }"
proof (cases "tab_get data n")
  case None then show ?thesis by (simp add: write_round_def)
next
  case (Some ch)
  have s: "tab_get [ch] 0 = Some ch" by (simp add: tab_get_def)
  show ?thesis
    unfolding write_round_def split_conv Some s bind.simps Let_def bind_assoc
    by (intro Option.bind_cong refl) (auto simp: bind_assoc case_prod_unfold intro!: Option.bind_cong)
qed


lemma write_round_prefix: "n < length xs \<Longrightarrow> write_round w (xs @ ys) color (n, t) = write_round w xs color (n, t)"
  by (subst (1 2) write_round_byte) (simp add: tab_get_def nth_append)

lemma write_loop_append:
  assumes w: "width_ok w" and ok: "tty_ok t"
  shows "loop (\<lambda>(n, t). n < length (xs @ ys)) (write_round w (xs @ ys) color) (0, t) = do {
    (m, t1) \<leftarrow> loop (\<lambda>(n, t). n < length xs) (write_round w xs color) (0, t);
    (n, t2) \<leftarrow> loop (\<lambda>(n, t). n < length ys) (write_round w ys color) (0, t1);
    Some (m + n, t2) }"
proof -
  obtain t1 where l1: "loop (\<lambda>(n, t). n < length xs) (write_round w xs color) (0, t) = Some (length xs, t1)" and ok1: "tty_ok t1"
    using ensures_write_loop [OF w ok, of 0 xs color] by (auto simp: ensures_def)
  obtain n2 t2 where l2: "loop (\<lambda>(n, t). n < length ys) (write_round w ys color) (0, t1) = Some (n2, t2)"
    using ensures_write_loop [OF w ok1, of 0 ys color] by (auto simp: ensures_def)
  define shift where "shift = (\<lambda>s :: nat \<times> tty. (length xs + fst s, snd s))"
  have "loop (\<lambda>(n, t). n < length (xs @ ys)) (write_round w (xs @ ys) color) (0, t) =
      loop (\<lambda>(n, t). n < length (xs @ ys)) (write_round w (xs @ ys) color) (length xs, t1)"
    by (rule loop_prefix [OF l1]) (auto simp: write_round_prefix)
  also have "\<dots> = Some (shift (n2, t2))"
  proof -
    have "loop (\<lambda>(n, t). n < length (xs @ ys)) (write_round w (xs @ ys) color) (shift (0, t1)) = Some (shift (n2, t2))"
    proof (rule loop_image [OF l2])
      fix s :: "nat \<times> tty" assume "(\<lambda>(n, t). n < length ys) s"
      then have lt: "fst s < length ys" by (simp add: case_prod_beta)
      have "write_round w (xs @ ys) color (length xs + fst s, snd s) = map_option shift (write_round w ys color (fst s, snd s))"
        using lt by (subst (1 2) write_round_byte [of w _ color]) (simp add: tab_get_def shift_def case_prod_unfold map_option_bind o_def add.assoc)
      then show "write_round w (xs @ ys) color (shift s) = map_option shift (write_round w ys color s)" by (simp add: shift_def)
    qed (simp add: shift_def case_prod_beta)
    then show ?thesis by (simp add: shift_def)
  qed
  finally show ?thesis by (simp add: l1 l2 shift_def)
qed

lemma unanchor_same: "unanchored t \<Longrightarrow> t\<lparr>input_origin_valid := False, input_render_rows := 1\<rparr> = t"
  by (rule tty.equality) (simp_all add: unanchored_def)

lemma tty_write_append:
  assumes "width_ok w" and "tty_ok t"
  shows "tty_write w (xs @ ys) color t = do { (m, t1) \<leftarrow> tty_write w xs color t; (n, t2) \<leftarrow> tty_write w ys color t1; Some (m + n, t2) }"
proof (cases "xs = []")
  case True
  have "tty_write w [] color t = Some (0, t)" unfolding tty_write_def by (subst loop.simps) simp
  then show ?thesis using True by (simp add: case_prod_unfold)
next
  case False
  define u where "u = t\<lparr>input_origin_valid := False, input_render_rows := 1\<rparr>"
  have u: "tty_ok u" unfolding u_def by (rule tty_ok_unanchor [OF assms(2)])
  have w1: "tty_write w (xs @ ys) color t = loop (\<lambda>(n, t). n < length (xs @ ys)) (write_round w (xs @ ys) color) (0, u)"
    "tty_write w xs color t = loop (\<lambda>(n, t). n < length xs) (write_round w xs color) (0, u)"
    using False by (simp_all add: tty_write_def u_def)
  obtain t1 where t1: "tty_write w xs color t = Some (length xs, t1)" "unanchored t1"
    using ensures_tty_write [OF assms, of xs color] False by (auto simp: ensures_def)
  have "tty_write w ys color t1 = loop (\<lambda>(n, t). n < length ys) (write_round w ys color) (0, t1)"
    by (simp add: tty_write_def unanchor_same [OF t1(2)])
  then show ?thesis using write_loop_append [OF assms(1) u, of xs ys color] t1(1) by (simp add: w1)
qed

text \<open>
  C39. \<^verbatim>\<open>tty_write\<close> returns on every input, although a round of its loop may consume nothing: it consumes all
  bytes, keeps the terminal well-formed, and writing a text in two calls is writing it in one, wherever it is cut, also in
  the middle of a UTF-8 character or of an escape sequence.
\<close>

theorem tty_write_consumes_everything:
  assumes "width_ok w" and "tty_ok t"
  shows "(\<exists>t'. tty_write w data color t = Some (length data, t') \<and> tty_ok t') \<and>
    tty_write w (xs @ ys) color t = do { (m, t1) \<leftarrow> tty_write w xs color t; (n, t2) \<leftarrow> tty_write w ys color t1; Some (m + n, t2) }"
proof
  show "\<exists>t'. tty_write w data color t = Some (length data, t') \<and> tty_ok t'"
    using ensures_tty_write [OF assms, of data color] by (auto simp: ensures_def)
qed (rule tty_write_append [OF assms])

definition demo_tty :: tty where
  "demo_tty = zero_tty\<lparr>tty_console := (tty_console zero_tty)\<lparr>bottom_row := 24\<rparr>, history_index := -1, hangul_initial := -1,
     hangul_medial := -1, hangul_final := -1\<rparr>"

theorem tty_write_consumes_everything_witness:
  "(\<exists>t'. tty_write 80 [0x41, 0xe2, 0x82, 0xac] 7 demo_tty = Some (length [0x41, 0xe2, 0x82, 0xac :: u8], t') \<and> tty_ok t') \<and>
    tty_write 80 ([0x41, 0xe2] @ [0x82, 0xac]) 7 demo_tty =
      do { (m, t1) \<leftarrow> tty_write 80 [0x41, 0xe2] 7 demo_tty; (n, t2) \<leftarrow> tty_write 80 [0x82, 0xac] 7 t1; Some (m + n, t2) }"
proof -
  have w: "width_ok 80" by (simp add: width_ok_def HAL_TEXT_WIDTH_def)
  have "has_nul (\<lambda>_. 0)" by (auto simp: has_nul_def)
  moreover have "tty_queue_ok demo_tty"
    by (simp add: tty_queue_ok_def ttyq.ok_def) (simp add: ring_ok_def demo_tty_def zero_tty_def TTY_CHAR_QUEUE_SIZE_def)
  ultimately have "tty_ok demo_tty"
    unfolding tty_ok_def edit_ok_def utf8_ok_def output_ok_def
    by (simp add: demo_tty_def zero_tty_def hangul_ok_def console_ok_def HAL_TEXT_WIDTH_def CONSOLE_SCROLLBACK_LINES_def TTY_HISTORY_MAX_def TTY_PROMPT_CACHE_SIZE_def)
  then show ?thesis by (rule tty_write_consumes_everything [OF w])
qed

end
