(* ===== verification/Path_Resolve.thy ===== *)
theory Path_Resolve
  imports Process_Model Kstring
begin

text \<open>
  The resolution of a path of a process (\<^verbatim>\<open>kernel/fs/path_resolve.c\<close>). A C string is the list of the characters before its terminator, and so
  is the content of the buffer \<^verbatim>\<open>out\<close>. The result is \<open>None\<close> where the code returns 0; the
  buffer is then not used.
\<close>

definition path_copy :: "nat \<Rightarrow> string \<Rightarrow> string" where
  "path_copy dst_size src = take (dst_size - 1) src"

primrec pop_length :: "string \<Rightarrow> nat \<Rightarrow> nat" where
  "pop_length path 0 = 0"
| "pop_length path (Suc n) = (if Suc n > 1 \<and> path ! n \<noteq> CHR ''/'' then pop_length path n else Suc n)"

definition path_pop_segment :: "string \<Rightarrow> string" where
  "path_pop_segment path =
     (let len = pop_length path (length path) in if len \<le> 1 then ''/'' else take (len - 1) path)"

definition path_append_segment :: "nat \<Rightarrow> string \<Rightarrow> string \<Rightarrow> string option" where
  "path_append_segment path_size segment path =
     (if segment = [] then None
      else if length path = 0 \<or> length path \<ge> path_size then None
      else
        (let joined = (if length path = 1 \<and> path ! 0 = CHR ''/'' then Some path
                       else if length path + 1 \<ge> path_size then None else Some (path @ ''/''))
         in case joined of
              None \<Rightarrow> None
            | Some p \<Rightarrow> if length p + length segment \<ge> path_size then None else Some (p @ segment)))"

text \<open>The segment in a buffer of \<^verbatim>\<open>NOS_NAME_BUFFER_SIZE\<close> bytes, and the rest of the input.\<close>

fun read_segment :: "string \<Rightarrow> string \<Rightarrow> (string \<times> string) option" where
  "read_segment segment [] = Some (segment, [])"
| "read_segment segment (c # rest) =
     (if c = CHR ''/'' then Some (segment, c # rest)
      else if length segment + 1 \<ge> NOS_NAME_BUFFER_SIZE then None
      else read_segment (segment @ [c]) rest)"

lemma read_segment_rest: "read_segment segment s = Some (segment', rest) \<Longrightarrow> length rest \<le> length s"
  by (induction segment s rule: read_segment.induct) (auto split: if_splits)

lemma read_segment_less: "read_segment [] (c # s) = Some (segment, rest) \<Longrightarrow> c \<noteq> CHR ''/'' \<Longrightarrow> length rest < Suc (length s)"
  using read_segment_rest [of "[c]" s segment rest] by (simp split: if_splits)

function resolve_segments :: "nat \<Rightarrow> string \<Rightarrow> string \<Rightarrow> string option" where
  "resolve_segments out_size path [] = Some path"
| "resolve_segments out_size path (c # s) =
     (if c = CHR ''/'' then resolve_segments out_size path s
      else
        (case read_segment [] (c # s) of
           None \<Rightarrow> None
         | Some (segment, rest) \<Rightarrow>
             if segment = ''.'' then resolve_segments out_size path rest
             else if segment = ''..'' then resolve_segments out_size (path_pop_segment path) rest
             else
               (case path_append_segment out_size segment path of
                  None \<Rightarrow> None
                | Some path' \<Rightarrow> resolve_segments out_size path' rest)))"
  by pat_completeness auto

termination
  by (relation "measure (\<lambda>(out_size, path, s). length s)") (auto simp del: read_segment.simps dest: read_segment_less)

definition fs_resolve_process_path :: "process option \<Rightarrow> string \<Rightarrow> nat \<Rightarrow> string option" where
  "fs_resolve_process_path proc inp out_size =
     (if out_size < 2 then None
      else
        (let (out, rest) = (if inp \<noteq> [] \<and> hd inp = CHR ''/'' then (''/'', tl inp) else (path_copy out_size (process_cwd proc), inp))
         in if inp = [] \<or> streq inp ''.'' then Some out else resolve_segments out_size out rest))"

section \<open>Specification\<close>

text \<open>A path is the list of its segments; an absolute path is written with a slash before each of them.\<close>

definition is_segment :: "string \<Rightarrow> bool" where
  "is_segment c \<longleftrightarrow> c \<noteq> [] \<and> CHR ''/'' \<notin> set c"

function segments :: "string \<Rightarrow> string list" where
  "segments [] = []"
| "segments (c # s) =
     (if c = CHR ''/'' then segments s
      else (c # takeWhile (\<lambda>x. x \<noteq> CHR ''/'') s) # segments (dropWhile (\<lambda>x. x \<noteq> CHR ''/'') s))"
  by pat_completeness auto

termination
  by (relation "measure length") (auto simp: less_Suc_eq_le length_dropWhile_le)

definition path_of :: "string list \<Rightarrow> string" where
  "path_of cs = (if cs = [] then ''/'' else concat (map (\<lambda>c. CHR ''/'' # c) cs))"

text \<open>
  One segment: a dot stays, two dots drop the last segment and stay at the root, any other segment is appended
  when the path still fits the buffer.
\<close>

definition enter :: "nat \<Rightarrow> string \<Rightarrow> string list \<Rightarrow> string list option" where
  "enter out_size c cs =
     (if length c \<ge> NOS_NAME_BUFFER_SIZE then None
      else if c = ''.'' then Some cs
      else if c = ''..'' then Some (butlast cs)
      else if length (path_of (cs @ [c])) < out_size then Some (cs @ [c])
      else None)"

primrec walk :: "nat \<Rightarrow> string list \<Rightarrow> string list \<Rightarrow> string list option" where
  "walk out_size [] cs = Some cs"
| "walk out_size (c # rest) cs = Option.bind (enter out_size c cs) (walk out_size rest)"

section \<open>The code follows the specification\<close>

lemma segments_are_segments: "\<forall>c \<in> set (segments s). is_segment c"
  by (induction s rule: segments.induct) (auto simp: is_segment_def dest: set_takeWhileD)

lemma read_segment_eq:
  "length segment < NOS_NAME_BUFFER_SIZE \<Longrightarrow> read_segment segment s =
     (let t = takeWhile (\<lambda>x. x \<noteq> CHR ''/'') s
      in if length segment + length t \<ge> NOS_NAME_BUFFER_SIZE then None
         else Some (segment @ t, dropWhile (\<lambda>x. x \<noteq> CHR ''/'') s))"
  by (induction segment s rule: read_segment.induct) (auto simp: Let_def)

lemma pop_length_root: "pop_length (CHR ''/'' # p) 1 = 1"
  by simp

lemma pop_length_segment:
  "CHR ''/'' \<notin> set c \<Longrightarrow> p \<noteq> [] \<Longrightarrow> pop_length (p @ CHR ''/'' # c) (length p + 1 + length c) = length p + 1"
proof (induction c rule: rev_induct)
  case Nil
  then show ?case by (cases p) simp_all
next
  case (snoc x c)
  have "pop_length (p @ CHR ''/'' # c @ [x]) n = pop_length (p @ CHR ''/'' # c) n" if "n \<le> length p + 1 + length c" for n
    using that by (induction n) (auto simp: nth_append nth_Cons')
  moreover have "(p @ CHR ''/'' # c @ [x]) ! (length p + 1 + length c) = x" by (simp add: nth_append)
  then have "pop_length (p @ CHR ''/'' # c @ [x]) (Suc (length p + 1 + length c)) = pop_length (p @ CHR ''/'' # c @ [x]) (length p + 1 + length c)"
    using snoc.prems by (auto simp del: One_nat_def add_Suc_right)
  ultimately show ?case using snoc by (simp del: pop_length.simps)
qed

lemma path_of_snoc: "path_of (cs @ [c]) = (if cs = [] then CHR ''/'' # c else path_of cs @ CHR ''/'' # c)"
  by (simp add: path_of_def)

lemma path_of_nonempty: "path_of cs \<noteq> []" "hd (path_of cs) = CHR ''/''"
  by (cases cs; simp add: path_of_def)+

lemma pop_path_of:
  assumes "\<forall>c \<in> set cs. is_segment c"
  shows "path_pop_segment (path_of cs) = path_of (butlast cs)"
proof (cases cs rule: rev_cases)
  case Nil
  then show ?thesis by (simp add: path_pop_segment_def path_of_def)
next
  case (snoc init c)
  have c: "CHR ''/'' \<notin> set c" using assms snoc by (simp add: is_segment_def)
  show ?thesis
  proof (cases "init = []")
    case True
    have "pop_length (CHR ''/'' # c) n = 1" if "0 < n" "n \<le> Suc (length c)" for n
      using that c by (induction n) (auto simp: nth_Cons' in_set_conv_nth)
    from this [of "Suc (length c)"] show ?thesis
      using snoc True by (simp add: path_pop_segment_def path_of_snoc path_of_def del: pop_length.simps)
  next
    case False
    have "pop_length (path_of init @ CHR ''/'' # c) (length (path_of init) + 1 + length c) = length (path_of init) + 1"
      by (rule pop_length_segment [OF c path_of_nonempty(1)])
    then show ?thesis using snoc False path_of_nonempty(1) [of init] by (simp add: path_pop_segment_def path_of_snoc)
  qed
qed

lemma path_of_root: "(length (path_of cs) = 1 \<and> path_of cs ! 0 = CHR ''/'') \<longleftrightarrow> cs = []" if "\<forall>c \<in> set cs. is_segment c"
  using that by (cases cs) (auto simp: path_of_def is_segment_def)

lemma append_path_of:
  assumes "\<forall>c \<in> set cs. is_segment c" and "is_segment c" and "length (path_of cs) < out_size"
  shows "path_append_segment out_size c (path_of cs) =
    (if length (path_of (cs @ [c])) < out_size then Some (path_of (cs @ [c])) else None)"
  using assms(2,3) path_of_nonempty(1) [of cs]
  unfolding path_append_segment_def path_of_root [OF assms(1)]
  by (auto simp: Let_def is_segment_def path_of_snoc) (simp_all add: path_of_def)

lemma path_of_butlast: "length (path_of (butlast cs)) \<le> length (path_of cs)"
  by (cases cs rule: rev_cases) (auto simp: path_of_snoc path_of_def)

lemma resolve_walk:
  assumes "\<forall>c \<in> set cs. is_segment c" and "length (path_of cs) < out_size"
  shows "resolve_segments out_size (path_of cs) s = map_option path_of (walk out_size (segments s) cs)"
  using assms
proof (induction s arbitrary: cs rule: segments.induct)
  case (2 c s)
  show ?case
  proof (cases "c = CHR ''/''")
    case False
    define seg where "seg = c # takeWhile (\<lambda>x. x \<noteq> CHR ''/'') s"
    define rest where "rest = dropWhile (\<lambda>x. x \<noteq> CHR ''/'') s"
    have seg: "is_segment seg" using segments_are_segments [of "c # s"] False by (simp add: seg_def)
    have read: "read_segment [] (c # s) = (if length seg \<ge> NOS_NAME_BUFFER_SIZE then None else Some (seg, rest))"
      using read_segment_eq [of "[]" "c # s"] False by (simp add: seg_def rest_def Let_def NOS_NAME_BUFFER_SIZE_def)
    have IH: "resolve_segments out_size (path_of cs') rest = map_option path_of (walk out_size (segments rest) cs')"
      if "\<forall>c \<in> set cs'. is_segment c" "length (path_of cs') < out_size" for cs'
      using 2(2) [OF False that] by (simp add: rest_def)
    have pop: "\<forall>c \<in> set (butlast cs). is_segment c" "length (path_of (butlast cs)) < out_size"
      using 2(3,4) path_of_butlast [of cs] by (auto dest: in_set_butlastD)
    have app: "\<forall>c \<in> set (cs @ [seg]). is_segment c" using 2(3) seg by auto
    have "segments (c # s) = seg # segments rest" using False by (simp add: seg_def rest_def)
    then show ?thesis
      unfolding resolve_segments.simps read
      using False IH [OF 2(3,4)] IH [OF pop] IH [OF app] pop_path_of [OF 2(3)] append_path_of [OF 2(3) seg 2(4)]
      by (simp add: enter_def)
  qed (use 2 in simp)
qed simp

lemma segments_segment: "is_segment c \<Longrightarrow> s = [] \<or> hd s = CHR ''/'' \<Longrightarrow> segments (c @ s) = c # segments s"
proof (cases c)
  case (Cons a l)
  assume c: "is_segment c" and s: "s = [] \<or> hd s = CHR ''/''"
  have l: "\<forall>x \<in> set l. x \<noteq> CHR ''/''" "a \<noteq> CHR ''/''" using c Cons by (auto simp: is_segment_def)
  have "takeWhile (\<lambda>x. x \<noteq> CHR ''/'') s = []" "dropWhile (\<lambda>x. x \<noteq> CHR ''/'') s = s" using s by (cases s; simp)+
  then show ?thesis using Cons l by simp
qed (simp add: is_segment_def)

lemma segments_path_of: "\<forall>c \<in> set cs. is_segment c \<Longrightarrow> segments (path_of cs) = cs"
proof -
  have "segments (concat (map (\<lambda>c. CHR ''/'' # c) cs)) = cs" if "\<forall>c \<in> set cs. is_segment c" for cs
    using that
  proof (induction cs)
    case (Cons c cs)
    have "concat (map (\<lambda>c. CHR ''/'' # c) cs) = [] \<or> hd (concat (map (\<lambda>c. CHR ''/'' # c) cs)) = CHR ''/''" by (cases cs) simp_all
    then show ?case using Cons segments_segment [of c] by simp
  qed simp
  then show "\<forall>c \<in> set cs. is_segment c \<Longrightarrow> ?thesis" by (simp add: path_of_def)
qed

definition canonical :: "string list \<Rightarrow> bool" where
  "canonical cs \<longleftrightarrow> (\<forall>c \<in> set cs. is_segment c \<and> c \<noteq> ''.'' \<and> c \<noteq> ''..'')"

lemma enter_cases:
  assumes "enter out_size c cs = Some cs'"
  shows "cs' = cs \<or> cs' = butlast cs \<or> cs' = cs @ [c] \<and> c \<noteq> ''.'' \<and> c \<noteq> ''..'' \<and> length (path_of (cs @ [c])) < out_size"
  using assms unfolding enter_def by (metis option.distinct(1) option.inject)

lemma enter_canonical:
  assumes "enter out_size c cs = Some cs'" and "is_segment c" and "canonical cs" and "length (path_of cs) < out_size"
  shows "canonical cs' \<and> length (path_of cs') < out_size"
  using enter_cases [OF assms(1)]
proof (elim disjE conjE)
  assume "cs' = butlast cs"
  then show ?thesis using assms(3) le_less_trans [OF path_of_butlast assms(4)] by (auto simp: canonical_def dest: in_set_butlastD)
next
  assume "cs' = cs @ [c]" "c \<noteq> ''.''" "c \<noteq> ''..''" "length (path_of (cs @ [c])) < out_size"
  then show ?thesis using assms(2,3) by (simp add: canonical_def)
qed (use assms in simp)

lemma walk_canonical:
  "walk out_size rest cs = Some cs' \<Longrightarrow> \<forall>c \<in> set rest. is_segment c \<Longrightarrow> canonical cs \<Longrightarrow> length (path_of cs) < out_size \<Longrightarrow>
     canonical cs' \<and> length (path_of cs') < out_size"
proof (induction rest arbitrary: cs)
  case (Cons c rest)
  then obtain cs1 where "enter out_size c cs = Some cs1" "walk out_size rest cs1 = Some cs'" by (auto simp: bind_eq_Some_conv)
  then show ?case using Cons enter_canonical [of out_size c cs cs1] by simp
qed simp

definition start_segments :: "string \<Rightarrow> string list \<Rightarrow> string list" where
  "start_segments inp cwd = (if inp \<noteq> [] \<and> hd inp = CHR ''/'' then [] else cwd)"

lemma start_canonical:
  assumes "canonical cwd" and "length (path_of cwd) < out_size"
  shows "2 \<le> out_size" "canonical (start_segments inp cwd)" "length (path_of (start_segments inp cwd)) < out_size"
proof -
  show size: "2 \<le> out_size" using assms(2) path_of_nonempty(1) [of cwd] by (cases "path_of cwd") auto
  show "canonical (start_segments inp cwd)" using assms(1) by (simp add: start_segments_def canonical_def)
  have "length (path_of []) < out_size" using size by (simp add: path_of_def)
  then show "length (path_of (start_segments inp cwd)) < out_size" using assms(2) by (simp add: start_segments_def)
qed

lemma resolve_start:
  assumes cwd: "process_cwd proc = path_of cwd" and can: "canonical cwd" and fits: "length (path_of cwd) < out_size"
  shows "fs_resolve_process_path proc inp out_size = map_option path_of (walk out_size (segments inp) (start_segments inp cwd))"
proof -
  note start = start_canonical(1) [OF can fits] start_canonical(2,3) [OF can fits, of inp]
  have segs: "\<forall>c \<in> set (start_segments inp cwd). is_segment c" using start(2) by (simp add: canonical_def)
  have copy: "path_copy out_size (process_cwd proc) = path_of cwd" using cwd fits by (simp add: path_copy_def)
  show ?thesis
  proof (cases "inp = [] \<or> inp = ''.''")
    case True
    then have "walk out_size (segments inp) (start_segments inp cwd) = Some cwd" "start_segments inp cwd = cwd"
      by (auto simp: enter_def NOS_NAME_BUFFER_SIZE_def start_segments_def)
    then show ?thesis using True start(1) by (auto simp: fs_resolve_process_path_def copy)
  next
    case False
    have "path_of [] = ''/''" by (simp add: path_of_def)
    moreover have "segments (tl inp) = segments inp" if "inp \<noteq> []" "hd inp = CHR ''/''" using that by (cases inp) auto
    ultimately show ?thesis
      using False start(1) resolve_walk [OF segs start(3), of inp] resolve_walk [OF segs start(3), of "tl inp"]
      by (cases "inp \<noteq> [] \<and> hd inp = CHR ''/''") (simp_all add: fs_resolve_process_path_def copy start_segments_def)
  qed
qed

lemma resolve_canonical:
  assumes "process_cwd proc = path_of cwd" and can: "canonical cwd" and fits: "length (path_of cwd) < out_size"
    and r: "fs_resolve_process_path proc inp out_size = Some out"
  shows "length out < out_size \<and> canonical (segments out) \<and> out = path_of (segments out)"
proof -
  obtain cs where cs: "walk out_size (segments inp) (start_segments inp cwd) = Some cs" "out = path_of cs"
    using r by (auto simp: resolve_start [OF assms(1-3)])
  have "canonical cs" "length (path_of cs) < out_size"
    using walk_canonical [OF cs(1) segments_are_segments start_canonical(2,3) [OF can fits]] by simp_all
  moreover from this have "segments (path_of cs) = cs" by (intro segments_path_of) (simp add: canonical_def)
  ultimately show ?thesis using cs(2) by simp
qed

text \<open>
  C40. Resolving a path against the working directory of a process, with its loops over characters and its edits of
  the buffer in place, is the walk over the list of its segments: a leading slash starts at the root, empty
  segments and dots are skipped, two dots drop a segment and stop at the root, and resolution fails exactly when a segment has
  256 or more characters or the path of some step does not fit the buffer. A resolved path is
  absolute, has no empty segment, no dot and no two dots, and fits the buffer.
\<close>

theorem fs_resolve_process_path_walks_segments:
  assumes "process_cwd proc = path_of cwd" and "canonical cwd" and "length (process_cwd proc) < out_size"
  shows "fs_resolve_process_path proc inp out_size =
      map_option path_of (walk out_size (segments inp) (if inp \<noteq> [] \<and> hd inp = CHR ''/'' then [] else cwd)) \<and>
    (case fs_resolve_process_path proc inp out_size of
       None \<Rightarrow> True
     | Some out \<Rightarrow> length out < out_size \<and> canonical (segments out) \<and> out = path_of (segments out))"
proof -
  have fits: "length (path_of cwd) < out_size" using assms(1,3) by simp
  show ?thesis
  proof (rule conjI [OF resolve_start [OF assms(1,2) fits, unfolded start_segments_def]], cases "fs_resolve_process_path proc inp out_size")
    case (Some out)
    show "case fs_resolve_process_path proc inp out_size of None \<Rightarrow> True
      | Some out \<Rightarrow> length out < out_size \<and> canonical (segments out) \<and> out = path_of (segments out)"
      unfolding Some option.case by (rule resolve_canonical [OF assms(1,2) fits Some])
  qed simp
qed

theorem fs_resolve_process_path_walks_segments_witness:
  "\<forall>p. fs_resolve_process_path (Some (p\<lparr>cwd_storage := ''/home/user''\<rparr>)) ''../x//./lib/../bin'' 256 = Some ''/home/x/bin''"
proof
  fix p :: process
  let ?p = "Some (p\<lparr>cwd_storage := ''/home/user''\<rparr>)"
  have "process_cwd ?p = path_of [''home'', ''user'']" by (simp add: process_cwd_def path_of_def)
  moreover have "canonical [''home'', ''user'']" by (simp add: canonical_def is_segment_def)
  moreover have "length (process_cwd ?p) < 256" by (simp add: process_cwd_def)
  ultimately show "fs_resolve_process_path ?p ''../x//./lib/../bin'' 256 = Some ''/home/x/bin''"
    using fs_resolve_process_path_walks_segments [THEN conjunct1, of ?p "[''home'', ''user'']" 256 "''../x//./lib/../bin''"]
    by (simp add: enter_def path_of_def NOS_NAME_BUFFER_SIZE_def)
qed

end
