(* ===== verification/Spec2Isabelle.thy ===== *)
theory Spec2Isabelle
  imports Pmm_Props Tty_Queue Kstring Pipe_Props Process_Props Sched_Props Vmm_Props Tty_Props Path_Resolve
begin

text \<open>
  Verification of the kernel of NexOS, an x86 operating system written in C.

  \<^bold>\<open>The program and its parts.\<close> The physical page allocator (\<^verbatim>\<open>kernel/mem/pmm.c\<close>) hands out
  the page frames that everything else is built from. Processes (\<^verbatim>\<open>kernel/proc\<close>) own files,
  credentials and a saved context; the scheduler (\<^verbatim>\<open>kernel/sched\<close>) decides which of them
  runs and when a sleeper wakes. Files (\<^verbatim>\<open>kernel/fs\<close>) are pipes, terminals and nodes of a
  file system; a blocked reader or writer of a pipe is woken by the other end. Page tables
  (\<^verbatim>\<open>arch/x86/x86_64/mm/paging.c\<close>) map the frames into address spaces, and virtual memory
  (\<^verbatim>\<open>kernel/mem/vmm.c\<close>) checks the ranges a system call names and copies to and from them. A
  terminal (\<^verbatim>\<open>kernel/core/tty*.c\<close>) turns key events into lines or characters for its reader
  and writes to a console (\<^verbatim>\<open>kernel/core/console.c\<close>). The library (\<^verbatim>\<open>lib\<close>) has the memory and
  string routines.

  \<^bold>\<open>Conventions.\<close> C integers are words of their width, so every wrap-around of the source is
  one of the model; an array with a count is a list; a C string is the list of the characters
  before its terminator; a pointer that may be null is an option; an \<^verbatim>\<open>int\<close> used as a truth
  value is a bool. Global variables are fields of a state record that the operations take and
  return. A search loop is \<open>first_index\<close> of \<^verbatim>\<open>Nexos_Prelude\<close>. Numeric constants have the names and
  values of the macros and enumerators of the headers. Names are those of the
  source, with a suffix or a prefix where HOL has the name already.

  \<^bold>\<open>Physical pages.\<close> \<^verbatim>\<open>Pmm\<close> has every function of \<^verbatim>\<open>pmm.c\<close> over the record \<open>pmm\<close>: the free
  stack, the open-addressing page index, the counters. \<^verbatim>\<open>Pmm_Index\<close> proves that the index is
  a finite map (locale \<open>page_map\<close>, interpreted as \<open>pidx\<close>); \<^verbatim>\<open>Pmm_Safety\<close> has the invariant
  \<open>pmm_inv\<close> and the specification of each operation; \<^verbatim>\<open>Pmm_Memory\<close> treats initialisation
  from the boot memory map; \<^verbatim>\<open>Pmm_Props\<close> has C1 to C9.

  \<^bold>\<open>Terminal queue and library.\<close> \<^verbatim>\<open>Ring_Buffer\<close> states the contract of a ring buffer (locale
  \<open>ring_buffer\<close>); it is interpreted on the terminal queue (\<^verbatim>\<open>Tty_Queue\<close>, C10) and on the
  pipe buffer (\<^verbatim>\<open>Pipe_Fifo\<close>). \<^verbatim>\<open>Kstring\<close> has \<^verbatim>\<open>lib/string.c\<close>, the assembler copy loops of
  \<^verbatim>\<open>lib/string_sse2.asm\<close> and \<^verbatim>\<open>lib/parse.c\<close>, and what a text denotes as a number (\<open>denotes_number\<close>)
  independently of the parser (C11, C12).

  \<^bold>\<open>Files and pipes.\<close> \<^verbatim>\<open>File_Types\<close>, \<^verbatim>\<open>Pipe\<close> and \<^verbatim>\<open>File_Table\<close> model the file object, the
  pipe backend with its named pipes, and the descriptor table. \<^verbatim>\<open>Pipe_Refs\<close> proves that the
  reader and writer counts are the numbers of open ends, as long as no pipe has more than 255 open
  ends of one kind (\<open>ends_fit\<close>), the capacity of its one-byte counts; the number of file slots is
  not bounded. \<^verbatim>\<open>Pipe_Props\<close> has C13 to C19; C18 shows what happens beyond that bound, which the
  32 processes with 16 descriptors each of the kernel can exceed.

  \<^bold>\<open>Processes.\<close> \<^verbatim>\<open>Process_Model\<close> is \<^verbatim>\<open>process_model.c\<close> and \<^verbatim>\<open>process_context.c\<close>, \<^verbatim>\<open>Cap_Policy\<close>
  is \<^verbatim>\<open>process_cap_policy.c\<close>, \<^verbatim>\<open>Proc_Syscalls\<close> has the capability and identity system calls and
  the credentials of a spawned process. \<^verbatim>\<open>Credentials\<close> has the step relation of a process's
  privileges, \<^verbatim>\<open>Spawn_Files\<close> the reference counts across descriptor inheritance;
  \<^verbatim>\<open>Process_Props\<close> has C20 to C27, with the process tables that can be reached, as far as the wait
  record is concerned (\<open>process_table_reachable\<close>), for C27.

  \<^bold>\<open>Scheduling.\<close> \<^verbatim>\<open>Sched_Policy\<close> is \<^verbatim>\<open>sched_policy.c\<close>, \<^verbatim>\<open>Runqueue\<close> is \<^verbatim>\<open>runqueue.c\<close>.
  \<^verbatim>\<open>Runqueue_Inv\<close> has the invariant of the run queue and the distance measure for progress,
  \<^verbatim>\<open>Sched_Time\<close> the arithmetic of the wrapping tick counter; \<^verbatim>\<open>Sched_Props\<close> has C28 to C32.

  \<^bold>\<open>Page tables and virtual memory.\<close> \<^verbatim>\<open>Phys_Mem\<close> is physical memory; \<^verbatim>\<open>Paging\<close>,
  \<^verbatim>\<open>Paging_Clone\<close> and \<^verbatim>\<open>Paging_Boot\<close> are \<^verbatim>\<open>paging.c\<close> of x86_64, with frames from the page
  allocator of \<^verbatim>\<open>Pmm\<close>. \<^verbatim>\<open>Paging_Tree\<close> has the tables below a root as a tree and the translation they
  define; \<^verbatim>\<open>Paging_Steps\<close>, \<^verbatim>\<open>Paging_Walk\<close>, \<^verbatim>\<open>Paging_Rights\<close>, \<^verbatim>\<open>Paging_Map\<close> and \<^verbatim>\<open>Paging_Cow\<close> prove what
  each step, the creating walk, mapping, unmapping with the tables it gives back (\<open>emptied_tables\<close>) and copy on write do to it; \<^verbatim>\<open>Paging_Props\<close> has C33 to C35. \<^verbatim>\<open>Vmm\<close> is
  \<^verbatim>\<open>vmm.c\<close>; \<^verbatim>\<open>Vmm_Copy\<close> and \<^verbatim>\<open>Vmm_Write\<close> prove what the page-wise copies read and write, and
  \<^verbatim>\<open>Vmm_Props\<close> has C36 and C37.

  \<^bold>\<open>Terminals.\<close> \<^verbatim>\<open>Checked_Array\<close> has computations on fixed-size arrays with a result in \<open>option\<close>, in
  which \<open>None\<close> is an access out of bounds or a loop that does not end, and the rules of
  \<open>ensures\<close>, which says that a computation is defined and its result has a property. \<^verbatim>\<open>Console\<close> and
  \<^verbatim>\<open>Console_Write\<close> are \<^verbatim>\<open>console.c\<close>, \<^verbatim>\<open>Keyboard\<close> the key events, \<^verbatim>\<open>Tty_Utf8\<close> \<^verbatim>\<open>tty_utf8.c\<close>,
  \<^verbatim>\<open>Tty_Output\<close> \<^verbatim>\<open>struct tty\<close>, \<^verbatim>\<open>tty_ansi.c\<close> and the output of \<^verbatim>\<open>tty.c\<close>, \<^verbatim>\<open>Tty_Edit\<close>
  \<^verbatim>\<open>tty_line_edit.c\<close> and \<^verbatim>\<open>clipboard.c\<close>, \<^verbatim>\<open>Tty_Hangul\<close> \<^verbatim>\<open>tty_hangul.c\<close>, and \<^verbatim>\<open>Tty_Input\<close>
  \<^verbatim>\<open>tty_input.c\<close>, \<^verbatim>\<open>tty_virtual.c\<close> and the rest of \<^verbatim>\<open>tty.c\<close>. \<^verbatim>\<open>Console_Ok\<close>, \<^verbatim>\<open>Tty_Ok\<close>,
  \<^verbatim>\<open>Tty_Edit_Ok\<close> and \<^verbatim>\<open>Tty_Hangul_Ok\<close> prove that each operation is defined and keeps the invariant; \<^verbatim>\<open>Tty_Props\<close> has
  C38 and C39. The text width of the display is at least 1 and at most \<^verbatim>\<open>HAL_TEXT_WIDTH\<close>
  (\<open>width_ok\<close>), as the framebuffer driver sets it; what is drawn on the display is not part of the
  state.

  \<^bold>\<open>Paths.\<close> \<^verbatim>\<open>Path_Resolve\<close> is \<^verbatim>\<open>kernel/fs/path_resolve.c\<close> and its specification on lists of
  segments (C40).

  \<^bold>\<open>Bounds.\<close> Table sizes are those of the source. No definition uses fuel: a loop is a
  structural recursion, a bounded scan, a recursion with a decreasing measure, or the combinator \<open>loop\<close> of
  \<^verbatim>\<open>Checked_Array\<close> and other partial functions into \<open>option\<close>, for which it is proved that the result
  exists.

  \<^bold>\<open>Not modelled.\<close> Device drivers, boot code, the boot loader and assembler stubs are
  input and output on hardware registers. The file systems, the VFS, the block layer, the
  ELF loader, address-space objects, the tables of jobs around the process operations, the
  remaining system calls and the user programs are left out. Interrupts and
  preemption inside an operation are not modelled: the kernel runs each operation modelled
  here to its end.
\<close>

end
